(* ===== verification/LG_Prelude.thy ===== *)
theory LG_Prelude
  imports Main "HOL-Library.Word"
begin

text \<open>
  The vocabulary the other theories share: byte strings and the searches of
  \<open>std::string\<close>, decimal printing and parsing as \<open>std::to_string\<close>,
  \<open>std::to_chars\<close> and \<open>std::from_chars\<close> do them, the ASCII character classes of the
  \<open>C\<close> locale (the program never calls \<open>setlocale\<close>), the result type of operations that
  may throw, and the collections of facts that \<open>simp\<close> and \<open>auto\<close> are given by name.
\<close>

named_theorems result_simps "facts that decide when an operation that may throw returns"
named_theorems text_simps "facts on byte strings, decimal numerals and searches"

type_synonym u16 = "16 word"
type_synonym u32 = "32 word"
type_synonym u64 = "64 word"

lemma unat_u64_less: "unat (x :: u64) < 2 ^ 64"
  using unsigned_less [of x, where 'a = nat] by simp

lemma unat_u32_less: "unat (x :: u32) < 2 ^ 32"
  using unsigned_less [of x, where 'a = nat] by simp

lemma unat_u16_less: "unat (x :: u16) < 2 ^ 16"
  using unsigned_less [of x, where 'a = nat] by simp

lemma unat_ucast_u32 [simp]: "unat (ucast (x :: u32) :: u64) = unat x"
  using unat_u32_less [of x] by (simp add: unsigned_ucast_eq take_bit_eq_mod)

lemma sint_u64: "unat (x :: u64) < 2 ^ 63 \<Longrightarrow> sint x = int (unat x)"
proof -
  assume "unat x < 2 ^ 63"
  then have "uint x < 2 ^ 63" by (metis of_nat_less_iff of_nat_numeral of_nat_power uint_nat)
  moreover have "- (2 ^ 63) \<le> uint x" by (rule order_trans [OF _ uint_ge_0]) simp
  ultimately have "signed_take_bit 63 (uint x) = uint x" by (intro signed_take_bit_int_eq_self)
  then show ?thesis by (simp add: sint_uint)
qed

subsection \<open>Results of operations that may throw\<close>

text \<open>A thrown exception is \<open>Inl\<close> of its description, a normal return is \<open>Inr\<close>.\<close>

definition bind_result :: "'e + 'a \<Rightarrow> ('a \<Rightarrow> 'e + 'b) \<Rightarrow> 'e + 'b" where
  "bind_result r f = (case r of Inl e \<Rightarrow> Inl e | Inr x \<Rightarrow> f x)"

definition require_that :: "bool \<Rightarrow> 'e \<Rightarrow> 'e + unit" where
  "require_that ok e = (if ok then Inr () else Inl e)"

lemma bind_result_simps [simp]:
  "bind_result (Inl e) f = Inl e"
  "bind_result (Inr x) f = f x"
  by (simp_all add: bind_result_def)

lemma bind_result_Inr_iff [result_simps]:
  "bind_result r f = Inr y \<longleftrightarrow> (\<exists>x. r = Inr x \<and> f x = Inr y)"
  by (cases r) auto

lemma bind_result_Inl_iff [result_simps]:
  "bind_result r f = Inl e \<longleftrightarrow> r = Inl e \<or> (\<exists>x. r = Inr x \<and> f x = Inl e)"
  by (cases r) auto

lemma require_that_Inr_iff [result_simps]: "require_that ok e = Inr u \<longleftrightarrow> ok"
  by (simp add: require_that_def)

lemma require_that_Inl_iff [result_simps]: "require_that ok e = Inl e' \<longleftrightarrow> \<not> ok \<and> e' = e"
  by (auto simp: require_that_def)

lemma require_that_simps [simp]:
  "require_that True e = Inr ()"
  "require_that False e = Inl e"
  by (simp_all add: require_that_def)

lemma bind_result_cong [fundef_cong]:
  "r = r' \<Longrightarrow> (\<And>x. r' = Inr x \<Longrightarrow> f x = g x) \<Longrightarrow> bind_result r f = bind_result r' g"
  by (cases r') (auto simp: bind_result_def)

subsection \<open>Characters\<close>

abbreviation LF :: char where "LF \<equiv> CHR 0x0A"
abbreviation CR :: char where "CR \<equiv> CHR 0x0D"
abbreviation TAB :: char where "TAB \<equiv> CHR 0x09"
abbreviation DQUOTE :: char where "DQUOTE \<equiv> CHR 0x22"
abbreviation SQUOTE :: char where "SQUOTE \<equiv> CHR 0x27"
abbreviation BACKSLASH :: char where "BACKSLASH \<equiv> CHR 0x5C"

abbreviation code :: "char \<Rightarrow> nat" where "code c \<equiv> of_char c"

text \<open>A byte string written by its codes, for text outside ASCII.\<close>

definition bytes :: "nat list \<Rightarrow> string" where
  "bytes ns = map char_of ns"

definition is_digit :: "char \<Rightarrow> bool" where
  "is_digit c \<longleftrightarrow> 48 \<le> code c \<and> code c \<le> 57"

definition is_upper :: "char \<Rightarrow> bool" where
  "is_upper c \<longleftrightarrow> 65 \<le> code c \<and> code c \<le> 90"

definition is_lower :: "char \<Rightarrow> bool" where
  "is_lower c \<longleftrightarrow> 97 \<le> code c \<and> code c \<le> 122"

definition is_alpha :: "char \<Rightarrow> bool" where
  "is_alpha c \<longleftrightarrow> is_upper c \<or> is_lower c"

definition is_alnum :: "char \<Rightarrow> bool" where
  "is_alnum c \<longleftrightarrow> is_alpha c \<or> is_digit c"

definition is_space :: "char \<Rightarrow> bool" where
  "is_space c \<longleftrightarrow> code c = 32 \<or> (9 \<le> code c \<and> code c \<le> 13)"

definition to_lower :: "char \<Rightarrow> char" where
  "to_lower c = (if is_upper c then char_of (code c + 32) else c)"

definition lowercase :: "string \<Rightarrow> string" where
  "lowercase s = map to_lower s"

lemma length_lowercase [simp]: "length (lowercase s) = length s"
  by (simp add: lowercase_def)

lemma to_lower_idem [simp]: "to_lower (to_lower c) = to_lower c"
proof (cases "is_upper c")
  case True
  then have b: "code c + 32 < 256" "\<not> (65 \<le> code c + 32 \<and> code c + 32 \<le> 90)"
    by (auto simp: is_upper_def)
  then have "code (char_of (code c + 32)) = code c + 32"
    by simp
  with True b show ?thesis by (simp add: to_lower_def is_upper_def)
qed (simp add: to_lower_def)

lemma lowercase_idem [simp]: "lowercase (lowercase s) = lowercase s"
  by (simp add: lowercase_def)

subsection \<open>Searches of std::string\<close>

definition starts_with :: "string \<Rightarrow> string \<Rightarrow> bool" where
  "starts_with s p \<longleftrightarrow> take (length p) s = p"

definition ends_with :: "string \<Rightarrow> string \<Rightarrow> bool" where
  "ends_with s p \<longleftrightarrow> length p \<le> length s \<and> drop (length s - length p) s = p"

fun find_sub :: "string \<Rightarrow> string \<Rightarrow> nat option" where
  "find_sub pat [] = (if pat = [] then Some 0 else None)"
| "find_sub pat (c # cs) =
     (if starts_with (c # cs) pat then Some 0 else map_option Suc (find_sub pat cs))"

text \<open>\<open>s.find(pat, pos)\<close>: the first occurrence at or after \<open>pos\<close>, \<open>None\<close> for \<open>npos\<close>.\<close>

definition find_from :: "string \<Rightarrow> string \<Rightarrow> nat \<Rightarrow> nat option" where
  "find_from pat s pos =
     (if pos \<le> length s then map_option (\<lambda>i. pos + i) (find_sub pat (drop pos s)) else None)"

text \<open>\<open>s.find_first_of(cs, pos)\<close>.\<close>

fun find_char :: "(char \<Rightarrow> bool) \<Rightarrow> string \<Rightarrow> nat option" where
  "find_char P [] = None"
| "find_char P (c # cs) = (if P c then Some 0 else map_option Suc (find_char P cs))"

definition find_first_of :: "string \<Rightarrow> string \<Rightarrow> nat \<Rightarrow> nat option" where
  "find_first_of cs s pos = map_option (\<lambda>i. pos + i) (find_char (\<lambda>c. c \<in> set cs) (drop pos s))"

text \<open>\<open>s.find_last_of(cs)\<close>.\<close>

definition find_last_of :: "string \<Rightarrow> string \<Rightarrow> nat option" where
  "find_last_of cs s =
     map_option (\<lambda>i. length s - 1 - i) (find_char (\<lambda>c. c \<in> set cs) (rev s))"

text \<open>\<open>s.substr(pos, n)\<close> for a \<open>pos\<close> inside the string.\<close>

definition substr :: "string \<Rightarrow> nat \<Rightarrow> nat \<Rightarrow> string" where
  "substr s pos n = take n (drop pos s)"

lemma starts_with_iff: "starts_with s p \<longleftrightarrow> (\<exists>r. s = p @ r)"
  by (auto simp: starts_with_def) (metis append_take_drop_id)

lemma starts_with_length: "starts_with s p \<Longrightarrow> length p \<le> length s"
  by (auto simp: starts_with_iff)

lemma find_sub_Some:
  "find_sub pat s = Some i \<Longrightarrow> i + length pat \<le> length s \<and> take (length pat) (drop i s) = pat"
proof (induction s arbitrary: i)
  case Nil
  then show ?case by (simp split: if_splits)
next
  case (Cons c cs)
  show ?case
  proof (cases "starts_with (c # cs) pat")
    case True
    with Cons.prems have "i = 0" by simp
    with True show ?thesis using starts_with_length [OF True] by (simp add: starts_with_def)
  next
    case False
    with Cons.prems obtain j where "i = Suc j" "find_sub pat cs = Some j" by auto
    with Cons.IH show ?thesis by simp
  qed
qed

lemma find_from_Some:
  assumes "find_from pat s pos = Some i"
  shows "pos \<le> i" "i + length pat \<le> length s" "take (length pat) (drop i s) = pat"
  using assms find_sub_Some [of pat "drop pos s"]
  by (auto simp: find_from_def add.commute split: if_splits)

lemma find_char_Some: "find_char P s = Some i \<Longrightarrow> i < length s \<and> P (s ! i)"
  by (induction s arbitrary: i) (auto split: if_splits)

lemma find_char_None: "find_char P s = None \<longleftrightarrow> (\<forall>c \<in> set s. \<not> P c)"
  by (induction s) (auto split: if_splits)

subsection \<open>Decimal numerals\<close>

definition digit_char :: "nat \<Rightarrow> char" where
  "digit_char d = char_of (48 + d)"

definition digit_val :: "char \<Rightarrow> nat" where
  "digit_val c = code c - 48"

text \<open>\<open>std::to_string\<close>, \<open>std::to_chars\<close> and \<open>%u\<close> of an unsigned value.\<close>

fun to_dec :: "nat \<Rightarrow> string" where
  "to_dec n = (if n < 10 then [digit_char n] else to_dec (n div 10) @ [digit_char (n mod 10)])"

declare to_dec.simps [simp del]

definition dec_value :: "string \<Rightarrow> nat" where
  "dec_value s = foldl (\<lambda>a c. 10 * a + digit_val c) 0 s"

text \<open>Zero padding on the left to a minimal width, as \<open>%04u\<close> does.\<close>

definition zero_pad :: "nat \<Rightarrow> string \<Rightarrow> string" where
  "zero_pad w s = replicate (w - length s) (CHR ''0'') @ s"

lemma code_digit_char: "d < 10 \<Longrightarrow> code (digit_char d) = 48 + d"
  by (simp add: digit_char_def)

lemma digit_char_numerals:
  "digit_char 0 = CHR ''0''" "digit_char (Suc 0) = CHR ''1''" "digit_char 1 = CHR ''1''"
  "digit_char 2 = CHR ''2''" "digit_char 3 = CHR ''3''" "digit_char 4 = CHR ''4''"
  "digit_char 5 = CHR ''5''" "digit_char 6 = CHR ''6''" "digit_char 7 = CHR ''7''"
  "digit_char 8 = CHR ''8''" "digit_char 9 = CHR ''9''"
  by code_simp+

lemma replicate_small: "replicate 2 x = [x, x]" "replicate 3 x = [x, x, x]"
  by (simp_all add: eval_nat_numeral)

lemma digit_val_digit_char [simp]: "d < 10 \<Longrightarrow> digit_val (digit_char d) = d"
  by (simp add: digit_val_def code_digit_char)

lemma is_digit_digit_char [simp]: "d < 10 \<Longrightarrow> is_digit (digit_char d)"
  by (simp add: is_digit_def code_digit_char)

lemma dec_value_snoc: "dec_value (s @ [c]) = 10 * dec_value s + digit_val c"
  by (simp add: dec_value_def)

lemma dec_value_to_dec [simp, text_simps]: "dec_value (to_dec n) = n"
proof (induction n rule: to_dec.induct)
  case (1 n)
  show ?case
  proof (cases "n < 10")
    case True
    then show ?thesis by (simp add: to_dec.simps dec_value_def)
  next
    case False
    with 1 show ?thesis by (subst to_dec.simps) (simp add: dec_value_snoc)
  qed
qed

lemma to_dec_digits [text_simps]: "list_all is_digit (to_dec n)"
proof (induction n rule: to_dec.induct)
  case (1 n)
  then show ?case
    by (cases "n < 10") (simp_all add: to_dec.simps [of n])
qed

lemma to_dec_not_Nil [simp, text_simps]: "to_dec n \<noteq> []"
  by (subst to_dec.simps) simp

lemma to_dec_inject [simp]: "to_dec m = to_dec n \<longleftrightarrow> m = n"
  by (metis dec_value_to_dec)

lemma dec_value_leading_zeros: "dec_value (replicate k (CHR ''0'') @ s) = dec_value s"
  by (induction k) (simp_all add: dec_value_def digit_val_def)

lemma dec_value_zero_pad [simp, text_simps]: "dec_value (zero_pad w s) = dec_value s"
  by (simp add: zero_pad_def dec_value_leading_zeros)

lemma zero_pad_digits [text_simps]: "list_all is_digit s \<Longrightarrow> list_all is_digit (zero_pad w s)"
  by (auto simp: zero_pad_def list_all_iff is_digit_def)

lemma length_zero_pad [simp]: "length (zero_pad w s) = max w (length s)"
  by (simp add: zero_pad_def)

text \<open>
  \<open>std::from_chars\<close> on an unsigned type whose largest value is \<open>limit\<close>: it reads the longest
  prefix of digits. The result is the error code, the number of characters read and the value
  (left at 0, what every caller initialises it to, when there is an error).
\<close>

datatype errc = No_Error | Invalid_Argument | Result_Out_Of_Range

definition from_chars_unsigned :: "nat \<Rightarrow> string \<Rightarrow> errc \<times> nat \<times> nat" where
  "from_chars_unsigned limit s =
     (let ds = takeWhile is_digit s
      in if ds = [] then (Invalid_Argument, 0, 0)
         else if limit < dec_value ds then (Result_Out_Of_Range, length ds, 0)
         else (No_Error, length ds, dec_value ds))"

text \<open>
  \<open>std::from_chars\<close> on a signed type with values from \<open>-(limit + 1)\<close> to \<open>limit\<close>: an optional
  minus sign (never a plus sign), then digits. The third component is the value when there is
  no error.
\<close>

definition from_chars_signed :: "nat \<Rightarrow> string \<Rightarrow> errc \<times> nat \<times> int" where
  "from_chars_signed limit s =
     (let neg = (s \<noteq> [] \<and> hd s = CHR ''-'');
          ds = takeWhile is_digit (if neg then tl s else s)
      in if ds = [] then (Invalid_Argument, 0, 0)
         else if (if neg then limit + 1 else limit) < dec_value ds
           then (Result_Out_Of_Range, (if neg then 1 else 0) + length ds, 0)
         else (No_Error, (if neg then 1 else 0) + length ds,
               (if neg then - int (dec_value ds) else int (dec_value ds))))"

lemma takeWhile_all: "list_all P s \<Longrightarrow> takeWhile P s = s"
  by (simp add: list_all_iff)

lemma takeWhile_full_length: "length (takeWhile P s) = length s \<longleftrightarrow> list_all P s"
  by (induction s) auto

lemma from_chars_unsigned_full:
  "from_chars_unsigned limit s = (No_Error, length s, v) \<longleftrightarrow>
     s \<noteq> [] \<and> list_all is_digit s \<and> dec_value s \<le> limit \<and> v = dec_value s"
proof (cases "list_all is_digit s")
  case True
  then show ?thesis
    by (auto simp: from_chars_unsigned_def takeWhile_all Let_def)
next
  case False
  then have "length (takeWhile is_digit s) \<noteq> length s"
    by (simp add: takeWhile_full_length)
  with False show ?thesis by (auto simp: from_chars_unsigned_def Let_def)
qed

end
