(* ===== verification/Domain.thy ===== *)
theory Domain
  imports LG_Prelude "HOL-Library.Char_ord" "HOL-Library.List_Lexorder"
begin

text \<open>
  The data of \<open>src/src/domain\<close> and of the model headers of \<open>src/src/application/models\<close> and
  \<open>src/src/application/ports\<close>: enums as datatypes with the source's constructors, structs as
  records with the source's fields (the struct's initials as a prefix) and default values.
  \<open>std::map\<close> is an association list in ascending key order; seconds of \<open>std::chrono\<close> are
  \<open>int\<close>, and an unsigned count of seconds is a 64-bit word.
\<close>

subsection \<open>protocol.hpp\<close>

datatype transport_protocol = Udp | Tcp | Tls | File
datatype stream_framing = Newline | OctetCounting
datatype transmission_mode = Sequential | Parallel
datatype udp_packetization = OneEventPerDatagram | NewlinePacked

fun protocol_name :: "transport_protocol \<Rightarrow> string" where
  "protocol_name Udp = ''UDP''"
| "protocol_name Tcp = ''TCP''"
| "protocol_name Tls = ''TLS''"
| "protocol_name File = ''FILE''"

fun transmission_mode_name :: "transmission_mode \<Rightarrow> string" where
  "transmission_mode_name Sequential = ''sequential''"
| "transmission_mode_name Parallel = ''parallel-auto''"

fun udp_packetization_name :: "udp_packetization \<Rightarrow> string" where
  "udp_packetization_name OneEventPerDatagram = ''one-event''"
| "udp_packetization_name NewlinePacked = ''newline-packed''"

subsection \<open>sample_id.hpp\<close>

definition valid_sample_id :: "string \<Rightarrow> bool" where
  "valid_sample_id value \<longleftrightarrow>
     value \<noteq> [] \<and> list_all (\<lambda>c. code (CHR ''0'') \<le> code c \<and> code c \<le> code (CHR ''9'')) value"

lemma valid_sample_id_iff: "valid_sample_id s \<longleftrightarrow> s \<noteq> [] \<and> list_all is_digit s"
  by (simp add: valid_sample_id_def is_digit_def list_all_iff)

subsection \<open>log_template.hpp\<close>

text \<open>\<open>LogTestCase::values\<close>: token name to values, in key order.\<close>

type_synonym test_case = "(string \<times> string list) list"

definition test_case_ok :: "test_case \<Rightarrow> bool" where
  "test_case_ok tc \<longleftrightarrow> sorted_wrt (<) (map fst tc)"

record log_template =
  lt_id :: string
  lt_name :: string
  lt_sample :: string
  lt_source :: string
  lt_test_case :: test_case

definition empty_template :: log_template where
  "empty_template =
     \<lparr>lt_id = [], lt_name = [], lt_sample = [], lt_source = [], lt_test_case = []\<rparr>"

subsection \<open>generator_config.hpp\<close>

record endpoint_config =
  ep_protocol :: transport_protocol
  ep_host :: string
  ep_port :: u16
  ep_tls_server_name :: string
  ep_verify_certificate :: bool
  ep_framing :: stream_framing
  ep_udp_packetization :: udp_packetization
  ep_file_output_directory :: string
  ep_file_max_total_bytes :: u64
  ep_file_max_count :: u32
  ep_file_max_duration :: int  \<comment> \<open>milliseconds\<close>

definition default_endpoint :: endpoint_config where
  "default_endpoint =
     \<lparr>ep_protocol = Udp, ep_host = ''127.0.0.1'', ep_port = 514, ep_tls_server_name = [],
      ep_verify_certificate = True, ep_framing = Newline,
      ep_udp_packetization = OneEventPerDatagram, ep_file_output_directory = [],
      ep_file_max_total_bytes = 0, ep_file_max_count = 0, ep_file_max_duration = 0\<rparr>"

record time_offset =
  to_negative :: bool
  to_days :: int
  to_hours :: int
  to_minutes :: int

text \<open>\<open>TimeOffset::value\<close>, in seconds. The fields are \<open>int\<close>s of the source, so no sum leaves
  the 64-bit range of \<open>std::chrono::seconds\<close>.\<close>

definition time_offset_value :: "time_offset \<Rightarrow> int" where
  "time_offset_value o' =
     (let magnitude = to_days o' * 86400 + to_hours o' * 3600 + to_minutes o' * 60
      in if to_negative o' then - magnitude else magnitude)"

datatype timestamp_generation_mode = Offset | Range

record time_range =
  tr_start :: int
  tr_end :: int

definition time_range_valid :: "time_range \<Rightarrow> bool" where
  "time_range_valid r \<longleftrightarrow> tr_start r \<le> tr_end r"

definition inclusive_seconds :: "time_range \<Rightarrow> u64" where
  "inclusive_seconds r =
     (if \<not> time_range_valid r then 0 else word_of_int (tr_end r - tr_start r) + 1)"

record timestamp_generation =
  tg_mode :: timestamp_generation_mode
  tg_offset :: time_offset
  tg_range :: time_range

definition default_timestamp_generation :: timestamp_generation where
  "default_timestamp_generation =
     \<lparr>tg_mode = Offset,
      tg_offset = \<lparr>to_negative = False, to_days = 0, to_hours = 0, to_minutes = 0\<rparr>,
      tg_range = \<lparr>tr_start = 0, tr_end = 0\<rparr>\<rparr>"

record generator_config =
  gc_endpoint :: endpoint_config
  gc_templates :: "log_template list"
  gc_source_ip :: string
  gc_destination_ip :: string
  gc_timestamp_generation :: timestamp_generation
  gc_transmission_mode :: transmission_mode
  gc_target_eps :: u64

definition default_config :: generator_config where
  "default_config =
     \<lparr>gc_endpoint = default_endpoint, gc_templates = [],
      gc_source_ip = ''10.0.0.10'', gc_destination_ip = ''10.0.0.20'',
      gc_timestamp_generation = default_timestamp_generation,
      gc_transmission_mode = Parallel, gc_target_eps = 0\<rparr>"

subsection \<open>transmission_stats.hpp, log_transport.hpp, logger.hpp\<close>

datatype generator_state = Stopped | Connecting | Running | Stopping | Failed

datatype send_result =
  Sent | TotalBytesLimitReached | FileCountLimitReached | DurationLimitReached

datatype log_level = Debug | Info | Warning | Error | Critical

fun log_level_name :: "log_level \<Rightarrow> string" where
  "log_level_name Debug = ''DEBUG''"
| "log_level_name Info = ''INFO''"
| "log_level_name Warning = ''WARN''"
| "log_level_name Error = ''ERROR''"
| "log_level_name Critical = ''CRITICAL''"

text \<open>
  \<open>ILogTransport::send_batch\<close>, the default that sends one payload after the other and stops at the
  first that is not \<open>Sent\<close>; \<open>send\<close> may throw, and carries the transport's state.
\<close>

fun default_send_batch ::
    "(string \<Rightarrow> 's \<Rightarrow> 'e + send_result \<times> 's) \<Rightarrow> string list \<Rightarrow> 's \<Rightarrow> 'e + send_result \<times> 's"
where
  "default_send_batch send [] s = Inr (Sent, s)"
| "default_send_batch send (p # ps) s =
     bind_result (send p s) (\<lambda>(result, s').
       if result \<noteq> Sent then Inr (result, s') else default_send_batch send ps s')"

subsection \<open>log_template_analysis.hpp\<close>

datatype timestamp_style =
    Iso8601 | YearFirst | SyslogWithYear | SyslogWithoutYear | MonthFirstGmt | Apache
  | Compact | CompactWithT | CompactDate | CompactYearMonth | CompactTime
  | YearFirstMinute | MonthDayYear | DateOnly | YearMonth | TimeOnly

fun timestamp_style_name :: "timestamp_style \<Rightarrow> string" where
  "timestamp_style_name Iso8601 = ''ISO 8601 / Year First''"
| "timestamp_style_name YearFirst = ''Year First''"
| "timestamp_style_name SyslogWithYear = ''Syslog With Year''"
| "timestamp_style_name SyslogWithoutYear = ''Syslog''"
| "timestamp_style_name MonthFirstGmt = ''Month First GMT''"
| "timestamp_style_name Apache = ''Apache''"
| "timestamp_style_name Compact = ''Compact yyyyMMddHHmmss''"
| "timestamp_style_name CompactWithT = ''Compact yyyyMMddTHHmmss''"
| "timestamp_style_name CompactDate = ''Compact yyyyMMdd''"
| "timestamp_style_name CompactYearMonth = ''Compact yyyyMM''"
| "timestamp_style_name CompactTime = ''Compact HHmmss''"
| "timestamp_style_name YearFirstMinute = ''Year First yyyy-MM-dd HH:mm''"
| "timestamp_style_name MonthDayYear = ''MMM dd yyyy HH:mm:ss''"
| "timestamp_style_name DateOnly = ''Separated Date''"
| "timestamp_style_name YearMonth = ''Year Month''"
| "timestamp_style_name TimeOnly = ''Separated Time''"

record log_template_analysis =
  la_timestamp_count :: nat
  la_source_ip_count :: nat
  la_destination_ip_count :: nat
  la_privacy_token_count :: nat
  la_privacy_token_mask :: u32
  la_timestamp_styles :: "timestamp_style list"

record tokenized_log_template =
  tl_item :: log_template
  tl_analysis :: log_template_analysis

end
