(* ===== verification/Framing.thy ===== *)
theory Framing
  imports Domain
begin

text \<open>
  Framing of events in \<open>stress_test_service.cpp\<close>: \<open>append_frame\<close> for octet counting (RFC 6587)
  and for newline framing, and \<open>newline_frame_size\<close>, by which the packed UDP path decides what
  fits before it frames. The receivers' side (a length-prefix reader and a line reader) is the
  specification the frames are checked against.
\<close>

subsection \<open>The source's functions\<close>

definition escape_char :: "char \<Rightarrow> string" where
  "escape_char value =
     (if value = CR then [BACKSLASH, CHR ''r'']
      else if value = LF then [BACKSLASH, CHR ''n'']
      else [value])"

definition append_frame :: "string \<Rightarrow> string \<Rightarrow> stream_framing \<Rightarrow> string" where
  "append_frame batch payload framing =
     (if framing = OctetCounting then
        batch @ to_dec (length payload) @ [CHR '' ''] @ payload
      else if find_first_of [CR, LF] payload 0 = None then
        batch @ payload @ [LF]
      else
        foldl (\<lambda>b value. b @ escape_char value) batch payload @ [LF])"

definition newline_frame_size :: "string \<Rightarrow> nat" where
  "newline_frame_size payload =
     length payload + 1 + length (filter (\<lambda>value. value = CR \<or> value = LF) payload)"

subsection \<open>Frames as values\<close>

definition escape_payload :: "string \<Rightarrow> string" where
  "escape_payload p = concat (map escape_char p)"

fun frame :: "stream_framing \<Rightarrow> string \<Rightarrow> string" where
  "frame OctetCounting p = to_dec (length p) @ [CHR '' ''] @ p"
| "frame Newline p = escape_payload p @ [LF]"

definition frames :: "stream_framing \<Rightarrow> string list \<Rightarrow> string" where
  "frames framing ps = concat (map (frame framing) ps)"

lemma foldl_append_concat: "foldl (\<lambda>b x. b @ f x) b xs = b @ concat (map f xs)"
  by (induction xs arbitrary: b) auto

lemma escape_payload_plain:
  "find_first_of [CR, LF] p 0 = None \<Longrightarrow> escape_payload p = p"
  by (induction p)
     (auto simp: escape_payload_def escape_char_def find_first_of_def find_char_None)

lemma append_frame_eq: "append_frame batch p framing = batch @ frame framing p"
  by (cases framing)
     (auto simp: append_frame_def foldl_append_concat escape_payload_plain
       simp flip: escape_payload_def)

lemma foldl_append_frame:
  "foldl (\<lambda>b p. append_frame b p framing) b ps = b @ frames framing ps"
  by (simp add: append_frame_eq foldl_append_concat frames_def)

lemma frames_simps [simp]:
  "frames framing [] = []"
  "frames framing (p # ps) = frame framing p @ frames framing ps"
  "frames framing (ps @ qs) = frames framing ps @ frames framing qs"
  by (simp_all add: frames_def)

lemma frame_not_Nil [simp]: "frame framing p \<noteq> []"
  by (cases framing) simp_all

lemma escape_payload_simps [simp]:
  "escape_payload [] = []"
  "escape_payload (c # cs) = escape_char c @ escape_payload cs"
  by (simp_all add: escape_payload_def)

lemma escape_payload_no_LF: "LF \<notin> set (escape_payload p)"
  by (induction p) (auto simp: escape_char_def)

lemma escape_payload_no_CR: "CR \<notin> set (escape_payload p)"
  by (induction p) (auto simp: escape_char_def)

lemma length_frame_Newline [simp]: "length (frame Newline p) = newline_frame_size p"
  by (induction p) (auto simp: newline_frame_size_def escape_char_def)

lemma newline_frame_size_pos [simp]: "0 < newline_frame_size p"
  by (simp add: newline_frame_size_def)

subsection \<open>The receivers\<close>

text \<open>A reader of octet-counted frames: digits, a space, then that many bytes.\<close>

function octet_split :: "string \<Rightarrow> string list option" where
  "octet_split s =
     (if s = [] then Some []
      else let ds = takeWhile is_digit s; rest = dropWhile is_digit s
        in if ds = [] \<or> rest = [] \<or> hd rest \<noteq> CHR '' '' \<or> length (tl rest) < dec_value ds
           then None
           else map_option (Cons (take (dec_value ds) (tl rest)))
                  (octet_split (drop (dec_value ds) (tl rest))))"
  by pat_completeness auto
termination
proof (relation "measure length", goal_cases)
  case (2 s ds rest)
  then have "length rest \<le> length s" and "rest \<noteq> []"
    by (auto simp: length_dropWhile_le)
  then show ?case by (cases rest) auto
qed simp

declare octet_split.simps [simp del]

text \<open>A line reader: the bytes before each line feed; \<open>None\<close> when the last line is not ended.\<close>

fun read_lines :: "string \<Rightarrow> string \<Rightarrow> string list option" where
  "read_lines acc [] = (if acc = [] then Some [] else None)"
| "read_lines acc (c # cs) =
     (if c = LF then map_option (Cons (rev acc)) (read_lines [] cs)
      else read_lines (c # acc) cs)"

lemma octet_split_frame:
  "octet_split (frame OctetCounting p @ s) = map_option (Cons p) (octet_split s)"
proof -
  let ?d = "to_dec (length p)"
  have d: "takeWhile is_digit (?d @ CHR '' '' # p @ s) = ?d"
    "dropWhile is_digit (?d @ CHR '' '' # p @ s) = CHR '' '' # p @ s"
    using to_dec_digits [of "length p"]
    by (auto simp: list_all_iff is_digit_def takeWhile_append dropWhile_append)
  show ?thesis by (subst octet_split.simps) (simp add: d Let_def)
qed

lemma octet_split_frames: "octet_split (frames OctetCounting ps) = Some ps"
  by (induction ps) (simp_all add: octet_split_frame octet_split.simps [of "[]"] del: frame.simps)

lemma read_lines_prefix:
  "LF \<notin> set l \<Longrightarrow> read_lines acc (l @ s) = read_lines (rev l @ acc) s"
  by (induction l arbitrary: acc) auto

lemma read_lines_frame:
  "read_lines [] (frame Newline p @ s) = map_option (Cons (escape_payload p)) (read_lines [] s)"
  by (simp add: read_lines_prefix [OF escape_payload_no_LF])

lemma read_lines_frames: "read_lines [] (frames Newline ps) = Some (map escape_payload ps)"
  by (induction ps) (simp_all add: read_lines_frame del: frame.simps)

subsection \<open>Properties\<close>

text \<open>
  C1. Octet counting round trip: a receiver that reads a length, a space and that many bytes gets
  back exactly the payloads of a batch, whatever bytes they hold.
\<close>

theorem octet_counting_roundtrip:
  "octet_split (foldl (\<lambda>batch p. append_frame batch p OctetCounting) [] payloads) = Some payloads"
  by (simp add: foldl_append_frame octet_split_frames)

text \<open>
  Newline framing keeps one line per event: a line reader gets one line for each payload of a
  batch, the payload with its line ends escaped, so that no line holds a line feed or carriage
  return and a payload without them arrives unchanged; and each frame has the size that the packer
  computed for it in advance.
\<close>

theorem newline_framing_lines:
  "read_lines [] (foldl (\<lambda>batch p. append_frame batch p Newline) [] payloads) = Some (map escape_payload payloads)
   \<and> LF \<notin> set (escape_payload p) \<and> CR \<notin> set (escape_payload p)
   \<and> (LF \<notin> set p \<and> CR \<notin> set p \<longrightarrow> escape_payload p = p)
   \<and> length (append_frame batch p Newline) = length batch + newline_frame_size p"
proof (intro conjI impI)
  assume "LF \<notin> set p \<and> CR \<notin> set p"
  then show "escape_payload p = p"
    by (intro escape_payload_plain) (auto simp: find_first_of_def find_char_None)
next
  show "read_lines [] (foldl (\<lambda>batch p. append_frame batch p Newline) [] payloads) = Some (map escape_payload payloads)"
    unfolding foldl_append_frame using read_lines_frames by simp
  show "length (append_frame batch p Newline) = length batch + newline_frame_size p"
    unfolding append_frame_eq length_append length_frame_Newline ..
qed (rule escape_payload_no_LF escape_payload_no_CR)+

theorem newline_framing_lines_witness:
  "read_lines [] (foldl (\<lambda>batch p. append_frame batch p Newline) [] [''a'', [CHR ''b'', LF]])
     = Some [''a'', [CHR ''b'', BACKSLASH, CHR ''n'']] \<and> escape_payload ''a'' = ''a''"
  using newline_framing_lines [of "[''a'', [CHR ''b'', LF]]" "''a''" "[]"] by (simp add: escape_char_def)

end
