(* ===== verification/Round_Robin.thy ===== *)
theory Round_Robin
  imports Domain "HOL-Library.Multiset"
begin

text \<open>
  Template selection: \<open>RoundRobinCursor\<close> (\<open>round_robin_cursor.hpp\<close>), shared by all workers, and
  \<open>WorkerRoundRobinCursor\<close> (\<open>stress_test_service.cpp\<close>), by which each worker reserves a block
  of consecutive positions with one atomic addition. \<open>next_\<close> keeps its 64 bits; the block
  counters never leave their range and are \<open>nat\<close>. An interleaving of the workers is the list of
  the workers in the order of their calls of \<open>next\<close>: a call touches shared state once, in an
  atomic \<open>fetch_add\<close>, so no finer interleaving can be observed.
\<close>

subsection \<open>The source's cursors\<close>

datatype cursor_error = Item_Count_Zero

record round_robin =
  rr_item_count :: nat
  rr_next :: u64

definition round_robin_init :: "nat \<Rightarrow> cursor_error + round_robin" where
  "round_robin_init item_count =
     (if item_count = 0 then Inl Item_Count_Zero
      else Inr \<lparr>rr_item_count = item_count, rr_next = 0\<rparr>)"

definition reserve :: "nat \<Rightarrow> round_robin \<Rightarrow> nat \<times> round_robin" where
  "reserve n rr =
     (if rr_item_count rr = 1 then (0, rr)
      else (unat (rr_next rr) mod rr_item_count rr,
            rr\<lparr>rr_next := rr_next rr + of_nat n\<rparr>))"

definition round_robin_next :: "round_robin \<Rightarrow> nat \<times> round_robin" where
  "round_robin_next rr = reserve 1 rr"

record worker_cursor =
  wc_reservation_size :: nat
  wc_current :: nat
  wc_remaining :: nat

definition worker_cursor_init :: "nat \<Rightarrow> worker_cursor" where
  "worker_cursor_init n = \<lparr>wc_reservation_size = n, wc_current = 0, wc_remaining = 0\<rparr>"

definition worker_cursor_next ::
    "worker_cursor \<Rightarrow> round_robin \<Rightarrow> nat \<times> worker_cursor \<times> round_robin" where
  "worker_cursor_next wc rr =
     (let (wc1, rr1) =
        (if wc_remaining wc = 0 then
           (let (p, rr1) = reserve (wc_reservation_size wc) rr
            in (wc\<lparr>wc_current := p, wc_remaining := wc_reservation_size wc\<rparr>, rr1))
         else (wc, rr));
        result = wc_current wc1
      in (result,
          wc1\<lparr>wc_current := (if wc_current wc1 + 1 = rr_item_count rr1 then 0
                              else wc_current wc1 + 1),
              wc_remaining := wc_remaining wc1 - 1\<rparr>,
          rr1))"

text \<open>A schedule: which worker calls \<open>next\<close>, in order; the picks it makes.\<close>

fun run_picks ::
    "nat list \<Rightarrow> (nat \<Rightarrow> worker_cursor) \<Rightarrow> round_robin \<Rightarrow>
     nat list \<times> (nat \<Rightarrow> worker_cursor) \<times> round_robin" where
  "run_picks [] ws rr = ([], ws, rr)"
| "run_picks (w # sched) ws rr =
     (let (i, wc, rr1) = worker_cursor_next (ws w) rr;
          (is, ws2, rr2) = run_picks sched (ws(w := wc)) rr1
      in (i # is, ws2, rr2))"

subsection \<open>The specification: tickets\<close>

text \<open>
  Abstractly a reservation hands out the next \<open>r\<close> tickets \<open>N, N + 1, \<dots>\<close>; a pick consumes the
  worker's first pending ticket \<open>t\<close> and selects item \<open>t mod n\<close>.
\<close>

record ticket_state =
  ts_issued :: nat
  ts_pending :: "nat \<Rightarrow> nat list"

definition ticket_next :: "nat \<Rightarrow> nat \<Rightarrow> ticket_state \<Rightarrow> nat \<times> ticket_state" where
  "ticket_next r w s =
     (let s1 = (if ts_pending s w = [] then
                  s\<lparr>ts_issued := ts_issued s + r,
                    ts_pending := (ts_pending s)(w := [ts_issued s ..< ts_issued s + r])\<rparr>
                else s)
      in (hd (ts_pending s1 w),
          s1\<lparr>ts_pending := (ts_pending s1)(w := tl (ts_pending s1 w))\<rparr>))"

fun run_tickets :: "(nat \<Rightarrow> nat) \<Rightarrow> nat list \<Rightarrow> ticket_state \<Rightarrow> nat list \<times> ticket_state" where
  "run_tickets r [] s = ([], s)"
| "run_tickets r (w # sched) s =
     (let (t, s1) = ticket_next (r w) w s; (ts, s2) = run_tickets r sched s1 in (t # ts, s2))"

definition tickets_init :: ticket_state where
  "tickets_init = \<lparr>ts_issued = 0, ts_pending = (\<lambda>_. [])\<rparr>"

lemma ticket_issued_mono: "ts_issued s \<le> ts_issued (snd (ticket_next r w s))"
  by (simp add: ticket_next_def Let_def)

lemma run_tickets_issued_mono: "ts_issued s \<le> ts_issued (snd (run_tickets r sched s))"
proof (induction sched arbitrary: s)
  case (Cons w sched)
  have "ts_issued s \<le> ts_issued (snd (ticket_next (r w) w s))" by (rule ticket_issued_mono)
  also have "\<dots> \<le> ts_issued (snd (run_tickets r sched (snd (ticket_next (r w) w s))))"
    by (rule Cons.IH)
  finally show ?case by (simp add: split_beta Let_def)
qed simp

subsection \<open>The cursors implement the tickets\<close>

text \<open>
  A worker's pending tickets are consecutive, as many as \<open>remaining_\<close>, and \<open>current_\<close> is the
  first one modulo the item count; \<open>next_\<close> counts the tickets (it stays 0 for a single item,
  where every ticket selects item 0).
\<close>

definition block_ok :: "nat \<Rightarrow> worker_cursor \<Rightarrow> nat list \<Rightarrow> bool" where
  "block_ok n wc ts \<longleftrightarrow>
     wc_remaining wc = length ts \<and>
     (ts \<noteq> [] \<longrightarrow> ts = [hd ts ..< hd ts + length ts] \<and> wc_current wc = hd ts mod n)"

definition tickets_rel ::
    "(nat \<Rightarrow> worker_cursor) \<Rightarrow> round_robin \<Rightarrow> ticket_state \<Rightarrow> bool" where
  "tickets_rel ws rr s \<longleftrightarrow>
     0 < rr_item_count rr \<and>
     (rr_item_count rr \<noteq> 1 \<longrightarrow> unat (rr_next rr) = ts_issued s) \<and>
     (\<forall>w. 0 < wc_reservation_size (ws w) \<and> block_ok (rr_item_count rr) (ws w) (ts_pending s w))"

lemma upt_Suc_Cons: "[t ..< t + Suc k] = t # [Suc t ..< Suc t + k]"
  by (simp add: upt_conv_Cons del: upt_Suc)

lemma block_ok_step:
  assumes "block_ok n wc (t # ts)" and "0 < n"
  shows "wc_current wc = t mod n"
    and "block_ok n (wc\<lparr>wc_current := (if t mod n + 1 = n then 0 else t mod n + 1),
                        wc_remaining := wc_remaining wc - 1\<rparr>) ts"
proof -
  from assms have len: "wc_remaining wc = Suc (length ts)" and cur: "wc_current wc = t mod n"
    and eq: "t # ts = [t ..< t + Suc (length ts)]"
    by (auto simp: block_ok_def simp del: upt_Suc)
  show "wc_current wc = t mod n" by (rule cur)
  from eq have ts: "ts = [Suc t ..< Suc t + length ts]"
    unfolding upt_Suc_Cons by simp
  have hd: "hd ts = Suc t" if "ts \<noteq> []"
    using ts that by (metis hd_upt length_greater_0_conv less_add_same_cancel1)
  have md: "Suc t mod n = (if t mod n + 1 = n then 0 else t mod n + 1)"
    by (simp add: mod_Suc)
  show "block_ok n (wc\<lparr>wc_current := (if t mod n + 1 = n then 0 else t mod n + 1),
                        wc_remaining := wc_remaining wc - 1\<rparr>) ts"
    unfolding block_ok_def using len ts hd md by auto
qed

lemma block_ok_reserved:
  assumes "0 < r"
  shows "block_ok n (wc\<lparr>wc_current := m mod n, wc_remaining := r\<rparr>) [m ..< m + r]"
  using assms by (simp add: block_ok_def)

text \<open>One call of \<open>next\<close> picks the item of one ticket, and keeps the relation.\<close>

lemma worker_cursor_next_ticket:
  assumes rel: "tickets_rel ws rr s"
    and bound: "ts_issued (snd (ticket_next (wc_reservation_size (ws w)) w s)) < 2 ^ 64"
    and nxt: "worker_cursor_next (ws w) rr = (i, wc, rr1)"
    and tick: "ticket_next (wc_reservation_size (ws w)) w s = (t, s1)"
  shows "i = t mod rr_item_count rr" and "tickets_rel (ws(w := wc)) rr1 s1"
    and "rr_item_count rr1 = rr_item_count rr"
    and "wc_reservation_size wc = wc_reservation_size (ws w)"
proof -
  let ?n = "rr_item_count rr" and ?r = "wc_reservation_size (ws w)"
  from rel have n: "0 < ?n" and cnt: "?n \<noteq> 1 \<longrightarrow> unat (rr_next rr) = ts_issued s"
    and r: "0 < ?r" and blk: "block_ok ?n (ws w) (ts_pending s w)"
    and all: "\<And>v. 0 < wc_reservation_size (ws v) \<and> block_ok ?n (ws v) (ts_pending s v)"
    by (auto simp: tickets_rel_def)
  have zero: "wc_remaining (ws w) = 0 \<longleftrightarrow> ts_pending s w = []"
    using blk by (simp add: block_ok_def)
  have add: "unat (rr_next rr + of_nat ?r) = ts_issued s + ?r"
    if "?n \<noteq> 1" "ts_pending s w = []"
    using that cnt bound by (simp add: ticket_next_def Let_def unat_word_ariths unat_of_nat take_bit_eq_mod)
  define wc0 where "wc0 = (if ts_pending s w = [] then
      (ws w)\<lparr>wc_current := ts_issued s mod ?n, wc_remaining := ?r\<rparr> else ws w)"
  define ts0 where "ts0 = (if ts_pending s w = [] then [ts_issued s ..< ts_issued s + ?r]
      else ts_pending s w)"
  define rr0 where "rr0 = (if ts_pending s w = [] then snd (reserve ?r rr) else rr)"
  have one: "ts_issued s mod ?n = 0" if "?n = 1" using that by simp
  have nxt0: "worker_cursor_next (ws w) rr =
      (wc_current wc0, wc0\<lparr>wc_current := (if wc_current wc0 + 1 = ?n then 0 else wc_current wc0 + 1),
              wc_remaining := wc_remaining wc0 - 1\<rparr>, rr0)"
    using cnt one by (auto simp: worker_cursor_next_def zero wc0_def rr0_def reserve_def Let_def)
  have blk0: "block_ok ?n wc0 ts0"
    using blk r by (auto simp: wc0_def ts0_def intro: block_ok_reserved)
  have "ts0 \<noteq> []" using r by (auto simp: ts0_def)
  then have "block_ok ?n wc0 (hd ts0 # tl ts0)" using blk0 by simp
  note step = block_ok_step [OF this n]
  have t: "t = hd ts0" and s1: "s1 = s\<lparr>ts_issued := (if ts_pending s w = [] then ts_issued s + ?r
      else ts_issued s), ts_pending := (ts_pending s)(w := tl ts0)\<rparr>"
    using tick by (auto simp: ticket_next_def Let_def ts0_def)
  from trans [OF sym [OF nxt] nxt0] have i: "i = wc_current wc0" and rr1: "rr1 = rr0"
    and wc: "wc = wc0\<lparr>wc_current := (if wc_current wc0 + 1 = ?n then 0 else wc_current wc0 + 1),
                  wc_remaining := wc_remaining wc0 - 1\<rparr>"
    by (simp_all only: prod.inject)
  show "i = t mod ?n" using i step(1) t by simp
  show cnt1: "rr_item_count rr1 = ?n" by (simp add: rr1 rr0_def reserve_def)
  show res: "wc_reservation_size wc = ?r" by (simp add: wc wc0_def)
  have "block_ok ?n wc (tl ts0)" using step(2) unfolding wc step(1) .
  moreover have "?n \<noteq> 1 \<longrightarrow> unat (rr_next rr1) = ts_issued s1"
    using cnt add by (auto simp: rr1 rr0_def reserve_def s1)
  ultimately show "tickets_rel (ws(w := wc)) rr1 s1"
    using n all r cnt1 res by (simp add: tickets_rel_def s1)
qed

lemma run_picks_tickets:
  assumes "tickets_rel ws rr s"
    and "ts_issued (snd (run_tickets (\<lambda>v. wc_reservation_size (ws v)) sched s)) < 2 ^ 64"
    and "run_picks sched ws rr = (is, ws', rr')"
    and "run_tickets (\<lambda>v. wc_reservation_size (ws v)) sched s = (ts, s')"
  shows "is = map (\<lambda>t. t mod rr_item_count rr) ts \<and> tickets_rel ws' rr' s'
         \<and> rr_item_count rr' = rr_item_count rr"
  using assms
proof (induction sched arbitrary: ws rr s "is" ts)
  case Nil
  then show ?case by simp
next
  case (Cons w sched)
  let ?r = "\<lambda>ws v. wc_reservation_size (ws v)"
  obtain i wc rr1 where nxt: "worker_cursor_next (ws w) rr = (i, wc, rr1)"
    by (metis prod_cases3)
  obtain t s1 where tick: "ticket_next (?r ws w) w s = (t, s1)" by fastforce
  have le: "ts_issued s1 \<le> ts_issued (snd (run_tickets (?r ws) sched s1))"
    by (rule run_tickets_issued_mono)
  have fin: "ts_issued (snd (run_tickets (?r ws) sched s1)) < 2 ^ 64"
    using Cons.prems(2) tick by (simp add: split_beta Let_def)
  then have b1: "ts_issued (snd (ticket_next (?r ws w) w s)) < 2 ^ 64"
    using le tick by simp
  note one = worker_cursor_next_ticket [OF Cons.prems(1) b1 nxt tick]
  have r: "?r (ws(w := wc)) = ?r ws" using one(4) by auto
  obtain is1 where is1: "run_picks sched (ws(w := wc)) rr1 = (is1, ws', rr')" "is = i # is1"
    using Cons.prems(3) nxt by (auto simp: Let_def split: prod.splits)
  obtain ts1 where ts1: "run_tickets (?r ws) sched s1 = (ts1, s')" "ts = t # ts1"
    using Cons.prems(4) tick by (auto simp: Let_def split: prod.splits)
  from Cons.IH [OF one(2), unfolded r, OF fin is1(1) ts1(1)] one(1,3) is1 ts1
  show ?case by simp
qed

subsection \<open>Every ticket is picked once\<close>

lemma ticket_next_mset:
  assumes "finite W" "w \<in> W" "ticket_next r w s = (t, s1)" "0 < r"
  shows "{#t#} + (\<Sum>v\<in>W. mset (ts_pending s1 v)) + mset [0 ..< ts_issued s] =
         (\<Sum>v\<in>W. mset (ts_pending s v)) + mset [0 ..< ts_issued s1]"
proof -
  have split: "(\<Sum>v\<in>W. mset (f v)) = mset (f w) + (\<Sum>v\<in>W - {w}. mset (f v))" for f :: "nat \<Rightarrow> nat list"
    using assms(1,2) by (rule sum.remove)
  have rest: "(\<Sum>v\<in>W - {w}. mset (ts_pending s1 v)) = (\<Sum>v\<in>W - {w}. mset (ts_pending s v))"
    using assms(3) by (intro sum.cong) (auto simp: ticket_next_def Let_def split: if_splits)
  show ?thesis
  proof (cases "ts_pending s w")
    case Nil
    let ?b = "[ts_issued s ..< ts_issued s + r]"
    have b: "?b = hd ?b # tl ?b" using \<open>0 < r\<close> by (simp add: upt_conv_Cons)
    have up: "[0 ..< ts_issued s + r] = [0 ..< ts_issued s] @ ?b"
      by (rule upt_add_eq_append) simp
    have "t = hd ?b" "ts_pending s1 w = tl ?b" "ts_issued s1 = ts_issued s + r"
      using assms(3) Nil by (auto simp: ticket_next_def Let_def)
    moreover have "mset ?b = {#hd ?b#} + mset (tl ?b)"
      using arg_cong [OF b, of mset] by (simp del: mset_upt)
    ultimately show ?thesis
      unfolding split [of "ts_pending s1"] split [of "ts_pending s"] rest
      unfolding \<open>ts_issued s1 = ts_issued s + r\<close> up mset_append
      by (simp add: Nil ac_simps del: mset_upt)
  next
    case (Cons u us)
    then have "t = u" "ts_pending s1 w = us" "ts_issued s1 = ts_issued s"
      using assms(3) by (auto simp: ticket_next_def Let_def)
    then show ?thesis
      unfolding split [of "ts_pending s1"] split [of "ts_pending s"] rest
      by (simp add: Cons ac_simps del: mset_upt)
  qed
qed

lemma mset_chain:
  fixes a b s0 s1 s2 i0 i1 i2 :: "'a multiset"
  assumes 1: "a + s1 + i0 = s0 + i1" and 2: "b + s2 + i1 = s1 + i2"
  shows "a + b + s2 + i0 = s0 + i2"
proof (rule multiset_eqI)
  fix x
  from arg_cong [OF 1, of "\<lambda>m. count m x"] arg_cong [OF 2, of "\<lambda>m. count m x"]
  show "count (a + b + s2 + i0) x = count (s0 + i2) x" by simp
qed

lemma run_tickets_mset:
  assumes "finite W" "set sched \<subseteq> W" "\<And>w. 0 < r w" "run_tickets r sched s = (ts, s')"
  shows "mset ts + (\<Sum>v\<in>W. mset (ts_pending s' v)) + mset [0 ..< ts_issued s] =
         (\<Sum>v\<in>W. mset (ts_pending s v)) + mset [0 ..< ts_issued s']"
  using assms(2,4)
proof (induction sched arbitrary: s ts)
  case Nil
  then show ?case by (simp del: mset_upt)
next
  case (Cons w sched)
  obtain t s1 where tick: "ticket_next (r w) w s = (t, s1)" by fastforce
  obtain ts1 where ts1: "run_tickets r sched s1 = (ts1, s')" "ts = t # ts1"
    using Cons.prems(2) tick by (auto simp: Let_def split: prod.splits)
  have w: "w \<in> W" and sub: "set sched \<subseteq> W" using Cons.prems(1) by auto
  note 1 = ticket_next_mset [OF assms(1) w tick assms(3)]
  note 2 = Cons.IH [OF sub ts1(1)]
  show ?case using mset_chain [OF 1 2] ts1(2) by (simp del: mset_upt)
qed

lemma run_tickets_issued_bound:
  assumes "\<And>w. r w \<le> R"
  shows "ts_issued (snd (run_tickets r sched s)) \<le> ts_issued s + length sched * R"
proof (induction sched arbitrary: s)
  case (Cons w sched)
  let ?s1 = "snd (ticket_next (r w) w s)"
  have "ts_issued ?s1 \<le> ts_issued s + R"
    using assms [of w] by (simp add: ticket_next_def Let_def)
  moreover have "ts_issued (snd (run_tickets r sched ?s1)) \<le> ts_issued ?s1 + length sched * R"
    by (rule Cons.IH)
  ultimately show ?case by (simp add: split_beta Let_def)
qed simp

lemma count_residues:
  assumes "i < n"
  shows "count (image_mset (\<lambda>t. t mod n) (mset [0 ..< N])) i = N div n + (if i < N mod n then 1 else 0)"
proof (induction N)
  case (Suc N)
  have "N mod n < n" using assms by simp
  with assms Suc show ?case
    by (cases "N mod n = i"; cases "Suc (N mod n) = n") (auto simp: div_Suc mod_Suc)
qed simp

text \<open>The state at the start of a transmission: one shared cursor, every worker's block empty.\<close>

definition fresh_cursors :: "(nat \<Rightarrow> nat) \<Rightarrow> nat \<Rightarrow> worker_cursor" where
  "fresh_cursors r = (\<lambda>w. worker_cursor_init (r w))"

definition fresh_round_robin :: "nat \<Rightarrow> round_robin" where
  "fresh_round_robin n = \<lparr>rr_item_count = n, rr_next = 0\<rparr>"

lemma fresh_rel:
  "0 < n \<Longrightarrow> (\<And>w. 0 < r w) \<Longrightarrow> tickets_rel (fresh_cursors r) (fresh_round_robin n) tickets_init"
  by (simp add: tickets_rel_def fresh_cursors_def fresh_round_robin_def tickets_init_def
      worker_cursor_init_def block_ok_def)

lemma fresh_run:
  assumes "0 < n" "\<And>w. 0 < r w \<and> r w \<le> R" "length sched * R < 2 ^ 64"
    and "run_picks sched (fresh_cursors r) (fresh_round_robin n) = (picks, ws', rr')"
  obtains ts s' where "run_tickets r sched tickets_init = (ts, s')"
    "picks = map (\<lambda>t. t mod n) ts" "tickets_rel ws' rr' s'" "rr_item_count rr' = n"
proof -
  obtain ts s' where ts: "run_tickets r sched tickets_init = (ts, s')" by fastforce
  have r: "(\<lambda>v. wc_reservation_size (fresh_cursors r v)) = r"
    by (simp add: fresh_cursors_def worker_cursor_init_def)
  have "ts_issued (snd (run_tickets r sched tickets_init)) < 2 ^ 64"
    using run_tickets_issued_bound [of r R sched tickets_init] assms(2,3)
    by (simp add: tickets_init_def)
  then have "picks = map (\<lambda>t. t mod n) ts \<and> tickets_rel ws' rr' s' \<and> rr_item_count rr' = n"
    using run_picks_tickets [OF fresh_rel, of n r sched picks ws' rr' ts s', unfolded r] assms ts
    by (simp add: fresh_round_robin_def)
  with ts that show thesis by blast
qed

lemma count_list_eq_count: "count_list xs x = count (mset xs) x"
  by (induction xs) auto

lemma picks_balanced:
  assumes n: "0 < n" and r: "\<And>w. 0 < r w \<and> r w \<le> R" and len: "length sched * R < 2 ^ 64"
    and W: "set sched \<subseteq> {..<W}"
    and run: "run_picks sched (fresh_cursors r) (fresh_round_robin n) = (picks, ws', rr')"
    and ij: "i < n" "j < n"
  shows "count_list picks i \<le> count_list picks j + 1 + (\<Sum>w<W. wc_remaining (ws' w))"
proof -
  obtain ts s' where ts: "run_tickets r sched tickets_init = (ts, s')"
    and picks: "picks = map (\<lambda>t. t mod n) ts" and rel: "tickets_rel ws' rr' s'"
    using fresh_run [OF n r len run] .
  let ?left = "\<Sum>v<W. mset (ts_pending s' v)" and ?f = "\<lambda>t. t mod n"
  have all: "mset ts + ?left = mset [0 ..< ts_issued s']"
    using run_tickets_mset [of "{..<W}" sched r tickets_init ts s'] W r ts
    by (simp add: tickets_init_def)
  have size: "size ?left = (\<Sum>w<W. wc_remaining (ws' w))"
    using rel by (simp add: tickets_rel_def block_ok_def)
  have "count (image_mset ?f (mset ts + ?left)) i \<le> count (image_mset ?f (mset ts + ?left)) j + 1"
    using ij unfolding all count_residues [OF ij(1)] count_residues [OF ij(2)] by simp
  moreover have "count (image_mset ?f ?left) j \<le> size ?left"
    by (metis count_le_size size_image_mset)
  moreover have tot: "count (image_mset ?f (mset ts + ?left)) k =
      count_list picks k + count (image_mset ?f ?left) k" for k
    unfolding picks mset_map count_list_eq_count by simp
  ultimately show ?thesis unfolding size tot [of i] tot [of j] by linarith
qed

lemma run_tickets_consecutive:
  assumes "\<And>v. ts_pending s v = []"
  shows "fst (run_tickets (\<lambda>_. 1) sched s) = [ts_issued s ..< ts_issued s + length sched]"
  using assms
proof (induction sched arbitrary: s)
  case (Cons w sched)
  define s1 where "s1 = snd (ticket_next 1 w s)"
  have s1: "ticket_next 1 w s = (ts_issued s, s1)" "ts_issued s1 = Suc (ts_issued s)"
    "\<And>v. ts_pending s1 v = []"
    using Cons.prems by (auto simp: ticket_next_def Let_def s1_def)
  show ?case using Cons.IH [OF s1(3)] s1(1,2)
    by (simp add: split_beta Let_def upt_conv_Cons del: upt_Suc)
qed simp

lemma run_tickets_single:
  assumes "ts_pending s w = [a ..< ts_issued s]" "a \<le> ts_issued s" "0 < r w"
  shows "fst (run_tickets r (replicate k w) s) = [a ..< a + k]"
  using assms
proof (induction k arbitrary: s a)
  case (Suc k)
  define s1 where "s1 = snd (ticket_next (r w) w s)"
  have s1: "ticket_next (r w) w s = (a, s1)" "ts_pending s1 w = [Suc a ..< ts_issued s1]"
    "Suc a \<le> ts_issued s1"
    using Suc.prems by (auto simp: ticket_next_def Let_def s1_def upt_conv_Cons)
  show ?case using Suc.IH [OF s1(2,3) Suc.prems(3)] s1(1)
    by (simp add: split_beta Let_def upt_conv_Cons del: upt_Suc)
qed simp

subsection \<open>An index for every event\<close>

text \<open>What the worker loop relies on when it indexes the templates with \<open>logs[selection.next()]\<close>.\<close>

definition cursor_ok :: "round_robin \<Rightarrow> worker_cursor \<Rightarrow> bool" where
  "cursor_ok rr wc \<longleftrightarrow> 0 < rr_item_count rr \<and> 0 < wc_reservation_size wc \<and>
     (wc_remaining wc = 0 \<or> wc_current wc < rr_item_count rr)"

lemma worker_cursor_next_ok:
  assumes "cursor_ok rr wc" "worker_cursor_next wc rr = (i, wc', rr')"
  shows "i < rr_item_count rr" "cursor_ok rr' wc'" "rr_item_count rr' = rr_item_count rr"
proof -
  have "unat (rr_next rr) mod rr_item_count rr < rr_item_count rr"
    using assms(1) by (simp add: cursor_ok_def)
  with assms show "i < rr_item_count rr" "cursor_ok rr' wc'" "rr_item_count rr' = rr_item_count rr"
    by (auto simp: worker_cursor_next_def cursor_ok_def reserve_def Let_def split: if_splits
        intro: Suc_lessI)
qed

subsection \<open>Properties\<close>

text \<open>
  C2. Global round robin is fair: whatever the interleaving of the workers and whatever block
  sizes they reserve, no template is picked more often than another by more than one plus the
  number of positions that workers hold reserved and have not used yet (as long as fewer than
  \<open>2^64\<close> positions are reserved, so that the shared counter does not wrap).
\<close>

theorem round_robin_fair:
  assumes "0 < n" "\<And>w. 0 < r w \<and> r w \<le> R" "length sched * R < 2 ^ 64" "set sched \<subseteq> {..<W}"
    and "run_picks sched (fresh_cursors r) (fresh_round_robin n) = (picks, ws', rr')"
    and "i < n" "j < n"
  shows "count_list picks i \<le> count_list picks j + 1 + (\<Sum>w<W. wc_remaining (ws' w))"
  using assms by (rule picks_balanced)

theorem round_robin_fair_witness:
  "count_list (fst (run_picks [0, 1, 0, 0, 1] (fresh_cursors (\<lambda>_. 2)) (fresh_round_robin 3))) 0
     \<le> count_list (fst (run_picks [0, 1, 0, 0, 1] (fresh_cursors (\<lambda>_. 2)) (fresh_round_robin 3))) 2
        + 1 + (\<Sum>w<2. wc_remaining (fst (snd (run_picks [0, 1, 0, 0, 1] (fresh_cursors (\<lambda>_. 2))
                                                 (fresh_round_robin 3))) w))"
  by (rule round_robin_fair [where n = 3 and r = "\<lambda>_. 2" and R = 2 and sched = "[0, 1, 0, 0, 1]"
        and rr' = "snd (snd (run_picks [0, 1, 0, 0, 1] (fresh_cursors (\<lambda>_. 2)) (fresh_round_robin 3)))"])
     simp_all

text \<open>
  Sequential transmission keeps the catalog order: when only one worker picks, with any block
  size, or when every worker reserves one position at a time, the k-th pick of the transmission
  is template \<open>k mod n\<close>.
\<close>

theorem round_robin_order:
  assumes "0 < n" "\<And>w. 0 < r w \<and> r w \<le> R" "length sched * R < 2 ^ 64"
    and "sched = replicate (length sched) v \<or> r = (\<lambda>_. 1)"
    and "run_picks sched (fresh_cursors r) (fresh_round_robin n) = (picks, ws', rr')"
  shows "picks = map (\<lambda>k. k mod n) [0 ..< length sched]"
proof -
  obtain ts s' where ts: "run_tickets r sched tickets_init = (ts, s')"
    and picks: "picks = map (\<lambda>t. t mod n) ts"
    using fresh_run [OF assms(1-3,5)] .
  have "ts = [0 ..< length sched]" using assms(4)
  proof
    assume "sched = replicate (length sched) v"
    with ts run_tickets_single [of tickets_init v 0 r "length sched"] assms(2) [of v]
    show ?thesis by (simp add: tickets_init_def)
  next
    assume "r = (\<lambda>_. 1)"
    with ts run_tickets_consecutive [of tickets_init sched] show ?thesis
      by (simp add: tickets_init_def)
  qed
  with picks show ?thesis by simp
qed

theorem round_robin_order_witness:
  "fst (run_picks [1, 1, 1, 1] (fresh_cursors (\<lambda>_. 3)) (fresh_round_robin 3)) = [0, 1, 2, 0]"
proof -
  let ?run = "run_picks [1, 1, 1, 1] (fresh_cursors (\<lambda>_. 3)) (fresh_round_robin 3)"
  have "fst ?run = map (\<lambda>k. k mod 3) [0 ..< length [1 :: nat, 1, 1, 1]]"
    by (rule round_robin_order [where r = "\<lambda>_. 3" and R = 3 and v = 1
          and ws' = "fst (snd ?run)" and rr' = "snd (snd ?run)"]) simp_all
  also have "\<dots> = [0, 1, 2, 0]" by (simp add: upt_rec)
  finally show ?thesis .
qed

end
