(* ===== verification/Pacing.thy ===== *)
theory Pacing
  imports Round_Robin
begin

text \<open>
  The per-worker helpers of \<open>stress_test_service.cpp\<close> that decide how much a worker sends, when it
  sends it and which time it stamps: the quota and batch-size functions, \<open>RatePacer\<close>,
  \<open>CachedSystemClock\<close> and \<open>TimestampCursor\<close>. Clock readings and polls of the stop token are
  inputs, given as functions of the number of the reading; times are nanoseconds (the period of
  \<open>steady_clock\<close>) for the pacer and seconds for the timestamps.
\<close>

subsection \<open>Quotas and batch sizes\<close>

definition clamp :: "'a::linorder \<Rightarrow> 'a \<Rightarrow> 'a \<Rightarrow> 'a" where
  "clamp v lo hi = (if v < lo then lo else if hi < v then hi else v)"

definition quota_for_worker :: "u64 \<Rightarrow> u32 \<Rightarrow> u32 \<Rightarrow> u64" where
  "quota_for_worker target_eps worker_index worker_count =
     (if target_eps = 0 then 0
      else target_eps div ucast worker_count
           + (if ucast worker_index < target_eps mod ucast worker_count then 1 else 0))"

definition stream_batch_events :: "u64 \<Rightarrow> nat" where
  "stream_batch_events quota =
     (if quota = 0 then 1024 else unat (clamp (quota div 200) 1 1024))"

definition datagram_batch_events :: "u64 \<Rightarrow> nat \<Rightarrow> nat" where
  "datagram_batch_events quota preferred_batch_size =
     (let maximum = clamp preferred_batch_size 1 256
      in if quota = 0 then maximum else unat (clamp (quota div 1000) 1 (of_nat maximum)))"

definition file_batch_events :: "u64 \<Rightarrow> endpoint_config \<Rightarrow> nat" where
  "file_batch_events quota endpoint =
     (if 0 < ep_file_max_total_bytes endpoint \<or> 0 < ep_file_max_count endpoint
         \<or> 0 < ep_file_max_duration endpoint
      then 1
      else if quota = 0 then 256
      else unat (clamp (quota div 20) 1 256))"

lemma clamp_bounds: "lo \<le> hi \<Longrightarrow> lo \<le> clamp v lo hi \<and> clamp v lo hi \<le> hi"
  by (auto simp: clamp_def)

lemma unat_clamp_bounds:
  fixes v :: u64
  assumes "1 \<le> hi"
  shows "1 \<le> unat (clamp v 1 hi) \<and> unat (clamp v 1 hi) \<le> unat hi"
proof -
  have "1 \<le> clamp v 1 hi" "clamp v 1 hi \<le> hi" using clamp_bounds [OF assms] by auto
  then show ?thesis by (metis unat_1 word_le_nat_alt)
qed

lemma stream_batch_events_bounds: "1 \<le> stream_batch_events q \<and> stream_batch_events q \<le> 1024"
  using unat_clamp_bounds [of 1024 "q div 200"] by (simp add: stream_batch_events_def)

lemma file_batch_events_bounds: "1 \<le> file_batch_events q ep \<and> file_batch_events q ep \<le> 256"
  using unat_clamp_bounds [of 256 "q div 20"] by (simp add: file_batch_events_def)

lemma datagram_batch_events_bounds:
  "1 \<le> datagram_batch_events q p \<and> datagram_batch_events q p \<le> 256"
proof -
  let ?m = "clamp p 1 256"
  have m: "1 \<le> ?m" "?m \<le> 256" using clamp_bounds [of 1 256 p] by auto
  then have u: "unat (of_nat ?m :: u64) = ?m" by (simp add: unat_of_nat take_bit_eq_mod)
  then have "(1 :: u64) \<le> of_nat ?m" using m by (simp add: word_le_nat_alt)
  from unat_clamp_bounds [OF this, of "q div 1000"] u m show ?thesis
    by (auto simp: datagram_batch_events_def Let_def)
qed

lemma div_plus_carry_le:
  fixes t n b :: nat
  assumes "0 < n"
  shows "t div n + (if b < t mod n then 1 else 0) \<le> t"
proof -
  have le: "t div n \<le> n * (t div n)" using assms by simp
  have t: "n * (t div n) + t mod n = t" by simp
  show ?thesis
  proof (cases "b < t mod n")
    case True
    then have "1 \<le> t mod n" by simp
    then have "t div n + 1 \<le> n * (t div n) + t mod n" using le by (rule add_mono [rotated])
    with True t show ?thesis by simp
  qed simp
qed

lemma unat_quota:
  assumes "0 < W"
  shows "unat (quota_for_worker t w W) =
         unat t div unat W + (if unat w < unat t mod unat W then 1 else 0)"
proof -
  let ?q = "unat t div unat W"
  have W: "0 < unat W" "unat W < 2 ^ 32"
    using assms unat_u32_less [of W] by (simp_all add: word_less_nat_alt)
  have "?q + (if unat w < unat t mod unat W then 1 else 0) \<le> unat t"
    using W by (intro div_plus_carry_le)
  also have "\<dots> < 2 ^ 64" using unat_u64_less [of t] by simp
  finally have "?q + (if unat w < unat t mod unat W then 1 else 0) < 2 ^ 64" .
  then show ?thesis
    by (auto simp: quota_for_worker_def unat_word_ariths(1) unat_div_distrib unat_mod_distrib
        word_less_nat_alt split: if_splits)
qed

lemma sum_remainder: "m \<le> n \<Longrightarrow> (\<Sum>w<n. if w < m then 1 else 0) = (m :: nat)"
proof -
  assume "m \<le> n"
  then have "{..<n} \<inter> {w. w < m} = {..<m}" by auto
  then show ?thesis by (simp add: sum.If_cases)
qed

lemma quotas_sum:
  assumes "0 < W"
  shows "(\<Sum>w<unat W. unat (quota_for_worker t (of_nat w) W)) = unat t"
proof -
  have W: "0 < unat W" "unat W < 2 ^ 32"
    using assms unat_u32_less [of W] by (simp_all add: word_less_nat_alt)
  have idx: "unat (of_nat w :: u32) = w" if "w < unat W" for w
    using that W by (simp add: unat_of_nat take_bit_eq_mod)
  have "(\<Sum>w<unat W. unat (quota_for_worker t (of_nat w) W)) =
      (\<Sum>w<unat W. unat t div unat W + (if w < unat t mod unat W then 1 else 0))"
    by (intro sum.cong) (simp_all add: unat_quota [OF assms] idx)
  also have "\<dots> = unat W * (unat t div unat W) + unat t mod unat W"
    using W by (simp add: sum.distrib sum_remainder less_imp_le)
  also have "\<dots> = unat t" by simp
  finally show ?thesis .
qed

subsection \<open>CachedSystemClock\<close>

record cached_clock =
  cc_high_rate :: bool
  cc_refresh_countdown :: nat
  cc_cached :: int

definition cached_clock_init :: "bool \<Rightarrow> int \<Rightarrow> cached_clock" where
  "cached_clock_init high_rate reading =
     \<lparr>cc_high_rate = high_rate, cc_refresh_countdown = (if high_rate then 255 else 0),
      cc_cached = reading\<rparr>"

text \<open>\<open>now\<close>; \<open>reading\<close> is what the system clock shows at the call, used only when refreshed.\<close>

definition cached_clock_now :: "int \<Rightarrow> cached_clock \<Rightarrow> int \<times> cached_clock" where
  "cached_clock_now reading c =
     (let c' = (if \<not> cc_high_rate c \<or> cc_refresh_countdown c = 0 then
                  c\<lparr>cc_cached := reading,
                    cc_refresh_countdown := (if cc_high_rate c then 255 else 0)\<rparr>
                else c\<lparr>cc_refresh_countdown := cc_refresh_countdown c - 1\<rparr>)
      in (cc_cached c', c'))"

text \<open>The value of call \<open>k\<close> (from 1) when the clock shows \<open>clk k\<close> then, and \<open>clk 0\<close> at the start.\<close>

fun cached_clock_after :: "bool \<Rightarrow> (nat \<Rightarrow> int) \<Rightarrow> nat \<Rightarrow> cached_clock" where
  "cached_clock_after high clk 0 = cached_clock_init high (clk 0)"
| "cached_clock_after high clk (Suc k) =
     snd (cached_clock_now (clk (Suc k)) (cached_clock_after high clk k))"

lemma cached_clock_after_high:
  "cached_clock_after True clk k =
     \<lparr>cc_high_rate = True, cc_refresh_countdown = 255 - k mod 256, cc_cached = clk (256 * (k div 256))\<rparr>"
proof (induction k)
  case (Suc k)
  have "k mod 256 < 256" by simp
  moreover have "clk (Suc k) = clk (256 + 256 * (k div 256))" if "k mod 256 = 255"
    using that mult_div_mod_eq [of 256 k] by (intro arg_cong [of _ _ clk]) simp
  ultimately show ?case using Suc
    by (cases "k mod 256 = 255") (auto simp: cached_clock_now_def Let_def mod_Suc div_Suc)
qed (simp add: cached_clock_init_def)

lemma cached_clock_after_low:
  "cached_clock_after False clk k =
     \<lparr>cc_high_rate = False, cc_refresh_countdown = 0, cc_cached = clk k\<rparr>"
  by (induction k) (simp_all add: cached_clock_init_def cached_clock_now_def)

subsection \<open>TimestampCursor\<close>

record timestamp_cursor =
  tc_generation :: timestamp_generation
  tc_position :: u64
  tc_step :: u64
  tc_span :: u64
  tc_system_clock :: cached_clock

datatype timestamp_error = Timestamp_Range_Invalid

definition timestamp_cursor_init ::
    "timestamp_generation \<Rightarrow> u32 \<Rightarrow> u32 \<Rightarrow> bool \<Rightarrow> int \<Rightarrow> timestamp_error + timestamp_cursor"
where
  "timestamp_cursor_init generation worker_index worker_count high_rate reading =
     (let clock = cached_clock_init high_rate reading
      in if tg_mode generation = Range then
           (let span = inclusive_seconds (tg_range generation)
            in if span = 0 then Inl Timestamp_Range_Invalid
               else Inr \<lparr>tc_generation = generation, tc_position = ucast worker_index mod span,
                         tc_step = ucast worker_count mod span, tc_span = span,
                         tc_system_clock = clock\<rparr>)
         else Inr \<lparr>tc_generation = generation, tc_position = ucast worker_index,
                   tc_step = ucast worker_count, tc_span = 0, tc_system_clock = clock\<rparr>)"

text \<open>
  \<open>next\<close>; in \<open>Offset\<close> mode the prepared log adds its offset when it renders.
\<close>

definition timestamp_cursor_next :: "int \<Rightarrow> timestamp_cursor \<Rightarrow> int \<times> timestamp_cursor" where
  "timestamp_cursor_next reading c =
     (if tg_mode (tc_generation c) = Offset then
        (let (t, clock) = cached_clock_now reading (tc_system_clock c)
         in (t, c\<lparr>tc_system_clock := clock\<rparr>))
      else
        (let result = tr_start (tg_range (tc_generation c)) + uint (tc_position c);
             p = tc_position c + tc_step c
         in (result, c\<lparr>tc_position := (if tc_span c \<le> p then p - tc_span c else p)\<rparr>)))"

definition timestamp_cursor_calendar_time :: "timestamp_cursor \<Rightarrow> bool" where
  "timestamp_cursor_calendar_time c \<longleftrightarrow> tg_mode (tc_generation c) = Range"

text \<open>The first \<open>k\<close> timestamps.\<close>

fun timestamps :: "nat \<Rightarrow> (nat \<Rightarrow> int) \<Rightarrow> timestamp_cursor \<Rightarrow> int list" where
  "timestamps 0 clk c = []"
| "timestamps (Suc k) clk c =
     (let (t, c') = timestamp_cursor_next (clk 0) c
      in t # timestamps k (\<lambda>i. clk (Suc i)) c')"

lemma timestamp_cursor_step:
  assumes "tg_mode (tc_generation c) = Range" "unat (tc_position c) < unat (tc_span c)"
    "unat (tc_step c) < unat (tc_span c)" "unat (tc_span c) < 2 ^ 63"
  shows "fst (timestamp_cursor_next r c) = tr_start (tg_range (tc_generation c)) + int (unat (tc_position c))"
    and "unat (tc_position (snd (timestamp_cursor_next r c)))
         = (unat (tc_position c) + unat (tc_step c)) mod unat (tc_span c)"
    and "tc_generation (snd (timestamp_cursor_next r c)) = tc_generation c"
    and "tc_step (snd (timestamp_cursor_next r c)) = tc_step c"
    and "tc_span (snd (timestamp_cursor_next r c)) = tc_span c"
proof -
  let ?p = "tc_position c + tc_step c" and ?n = "tc_span c"
  have p: "unat ?p = unat (tc_position c) + unat (tc_step c)"
    using assms by (simp add: unat_word_ariths(1))
  have "unat (if ?n \<le> ?p then ?p - ?n else ?p) = unat ?p mod unat ?n"
    using assms p by (auto simp: word_le_nat_alt unat_sub mod_if)
  with assms p show "unat (tc_position (snd (timestamp_cursor_next r c)))
      = (unat (tc_position c) + unat (tc_step c)) mod unat (tc_span c)"
    by (simp add: timestamp_cursor_next_def Let_def)
qed (use assms in \<open>auto simp: timestamp_cursor_next_def Let_def split_beta\<close>)

lemma timestamps_range:
  assumes "tg_mode (tc_generation c) = Range" "unat (tc_position c) < unat (tc_span c)"
    "unat (tc_step c) < unat (tc_span c)" "unat (tc_span c) < 2 ^ 63"
  shows "timestamps k clk c =
    map (\<lambda>i. tr_start (tg_range (tc_generation c))
             + int ((unat (tc_position c) + i * unat (tc_step c)) mod unat (tc_span c))) [0 ..< k]"
  using assms
proof (induction k arbitrary: c clk)
  case (Suc k)
  let ?c = "snd (timestamp_cursor_next (clk 0) c)"
  note step = timestamp_cursor_step [OF Suc.prems, of "clk 0"]
  have bound: "unat (tc_position ?c) < unat (tc_span ?c)"
    using Suc.prems(2) unfolding step(2,5) by simp
  have IH: "timestamps k (\<lambda>i. clk (Suc i)) ?c =
      map (\<lambda>i. tr_start (tg_range (tc_generation c))
        + int (((unat (tc_position c) + unat (tc_step c)) mod unat (tc_span c)
                + i * unat (tc_step c)) mod unat (tc_span c))) [0 ..< k]"
    using Suc.IH [OF _ bound] Suc.prems unfolding step(2-5) by simp
  have eq: "timestamps (Suc k) clk c =
      fst (timestamp_cursor_next (clk 0) c) # timestamps k (\<lambda>i. clk (Suc i)) ?c"
    by (simp add: split_beta)
  show ?case
    unfolding eq IH step(1) upt_conv_Cons [OF zero_less_Suc] map_Suc_upt [symmetric]
    using Suc.prems(2) by (simp add: mod_simps add_ac)
qed simp

text \<open>What every worker of a transmission stamps: worker \<open>w\<close> of \<open>W\<close> sends \<open>k\<close> events.\<close>

lemma timestamp_cursor_init_range:
  assumes "tg_mode g = Range" "unat (inclusive_seconds (tg_range g)) < 2 ^ 63"
    "timestamp_cursor_init g w W high r = Inr c"
  shows "timestamps k clk c =
    map (\<lambda>i. tr_start (tg_range g) + int ((unat w + i * unat W) mod unat (inclusive_seconds (tg_range g))))
      [0 ..< k]"
proof -
  let ?n = "inclusive_seconds (tg_range g)"
  from assms have n: "0 < unat ?n" by (auto simp: timestamp_cursor_init_def Let_def unat_gt_0 split: if_splits)
  have c: "tc_generation c = g" "unat (tc_position c) = unat w mod unat ?n"
    "unat (tc_step c) = unat W mod unat ?n" "tc_span c = ?n"
    using assms by (auto simp: timestamp_cursor_init_def Let_def unat_mod_distrib split: if_splits)
  have md: "(a + i * (b mod m)) mod m = (a + i * b) mod m" for a b i m :: nat
    by (metis mod_add_right_eq mod_mult_right_eq)
  show ?thesis
    using timestamps_range [of c k clk] n assms(1,2) unfolding c by (simp add: mod_simps md)
qed

lemma mset_concat_snoc:
  "mset (concat (map (\<lambda>x. f x @ [g x]) xs)) = mset (concat (map f xs)) + mset (map g xs)"
  by (induction xs) auto

lemma strided_mset:
  "mset (concat (map (\<lambda>w. map (\<lambda>i. w + i * n) [0 ..< k]) [0 ..< n])) = mset [0 ..< k * n]"
proof (induction k)
  case (Suc k)
  have up: "[0 ..< Suc k * n] = [0 ..< k * n] @ [k * n ..< k * n + n]"
    by (metis add.commute le0 mult_Suc upt_add_eq_append)
  have shift: "map (\<lambda>w. w + k * n) [0 ..< n] = [k * n ..< k * n + n]"
    using map_add_upt [of "k * n" n] by (simp add: add.commute)
  have "mset (concat (map (\<lambda>w. map (\<lambda>i. w + i * n) [0 ..< Suc k]) [0 ..< n])) =
      mset (concat (map (\<lambda>w. map (\<lambda>i. w + i * n) [0 ..< k]) [0 ..< n]))
      + mset (map (\<lambda>w. w + k * n) [0 ..< n])"
    using mset_concat_snoc [of "\<lambda>w. map (\<lambda>i. w + i * n) [0 ..< k]" "\<lambda>w. w + k * n" "[0 ..< n]"]
    by simp
  then show ?case unfolding Suc.IH up mset_append shift by simp
qed simp

subsection \<open>RatePacer\<close>

record rate_pacer =
  rp_events_per_second :: u64
  rp_next :: int

definition rate_pacer_init :: "u64 \<Rightarrow> int \<Rightarrow> rate_pacer" where
  "rate_pacer_init events_per_second reading =
     \<lparr>rp_events_per_second = events_per_second, rp_next = reading\<rparr>"

datatype pacer_action = Slept int | Paused

text \<open>
  \<open>clk i\<close> is the i-th reading of the steady clock and \<open>stop j\<close> the j-th poll of the stop token;
  the loops return what they did and how far they read. They end only when the clock advances or a
  stop is requested, so each takes a bound on its iterations (\<open>None\<close> when it is used up).
\<close>

fun sleep_loop ::
    "nat \<Rightarrow> (nat \<Rightarrow> int) \<Rightarrow> (nat \<Rightarrow> bool) \<Rightarrow> int \<Rightarrow> int \<Rightarrow> nat \<Rightarrow> nat \<Rightarrow>
     (pacer_action list \<times> nat \<times> nat) option" where
  "sleep_loop 0 clk stop nxt now i j = None"
| "sleep_loop (Suc fuel) clk stop nxt now i j =
     (if \<not> stop j \<and> now + 200000 < nxt then
        (let remaining = nxt - now - 150000; maximum_sleep = 2000000
         in map_option (\<lambda>(acts, i', j'). (Slept (min remaining maximum_sleep) # acts, i', j'))
              (sleep_loop fuel clk stop nxt (clk i) (Suc i) (Suc j)))
      else Some ([], i, Suc j))"

fun pause_loop ::
    "nat \<Rightarrow> (nat \<Rightarrow> int) \<Rightarrow> (nat \<Rightarrow> bool) \<Rightarrow> int \<Rightarrow> nat \<Rightarrow> nat \<Rightarrow>
     (pacer_action list \<times> nat \<times> nat) option" where
  "pause_loop 0 clk stop nxt i j = None"
| "pause_loop (Suc fuel) clk stop nxt i j =
     (if stop j then Some ([], i, Suc j)
      else if clk i < nxt then
        map_option (\<lambda>(acts, i', j'). (Paused # acts, i', j'))
          (pause_loop fuel clk stop nxt (Suc i) (Suc j))
      else Some ([], Suc i, Suc j))"

definition pacer_duration :: "rate_pacer \<Rightarrow> u64 \<Rightarrow> int" where
  "pacer_duration p events = sint (1000000000 * events div rp_events_per_second p)"

definition pacer_wait ::
    "nat \<Rightarrow> (nat \<Rightarrow> int) \<Rightarrow> (nat \<Rightarrow> bool) \<Rightarrow> u64 \<Rightarrow> nat \<Rightarrow> nat \<Rightarrow> rate_pacer \<Rightarrow>
     (pacer_action list \<times> nat \<times> nat \<times> rate_pacer) option" where
  "pacer_wait fuel clk stop events i j p =
     (if rp_events_per_second p = 0 \<or> events = 0 then Some ([], i, j, p)
      else
        let nxt = rp_next p + pacer_duration p events; now = clk i
        in if nxt + 1000000000 < now then Some ([], Suc i, j, p\<lparr>rp_next := now\<rparr>)
           else case sleep_loop fuel clk stop nxt now (Suc i) j of
                  None \<Rightarrow> None
                | Some (acts, i1, j1) \<Rightarrow>
                    map_option (\<lambda>(acts', i', j'). (acts @ acts', i', j', p\<lparr>rp_next := nxt\<rparr>))
                      (pause_loop fuel clk stop nxt i1 j1))"

text \<open>A worker's loop: one wait after each batch.\<close>

fun pacer_waits ::
    "nat \<Rightarrow> (nat \<Rightarrow> int) \<Rightarrow> (nat \<Rightarrow> bool) \<Rightarrow> u64 list \<Rightarrow> nat \<Rightarrow> nat \<Rightarrow> rate_pacer \<Rightarrow>
     (nat \<times> nat \<times> rate_pacer) option" where
  "pacer_waits fuel clk stop [] i j p = Some (i, j, p)"
| "pacer_waits fuel clk stop (e # es) i j p =
     (case pacer_wait fuel clk stop e i j p of
        None \<Rightarrow> None
      | Some (_, i', j', p') \<Rightarrow> pacer_waits fuel clk stop es i' j' p')"

lemma sleep_loop_result:
  "sleep_loop fuel clk stop nxt now i j = Some (acts, i', j') \<Longrightarrow>
     i \<le> i' \<and> (\<forall>a \<in> set acts. \<exists>d. a = Slept d \<and> 50000 < d \<and> d \<le> 2000000)"
  by (induction fuel clk stop nxt now i j arbitrary: acts i' j' rule: sleep_loop.induct)
     (fastforce simp: Let_def split: if_splits)+

lemma pause_loop_result:
  "pause_loop fuel clk stop nxt i j = Some (acts, i', j') \<Longrightarrow>
     i \<le> i' \<and> (\<forall>a \<in> set acts. a = Paused) \<and> ((\<forall>k. \<not> stop k) \<longrightarrow> i < i' \<and> nxt \<le> clk (i' - 1))"
  by (induction fuel clk stop nxt i j arbitrary: acts i' j' rule: pause_loop.induct)
     (fastforce split: if_splits)+

text \<open>A clock that advances with every reading ends both loops.\<close>

lemma pause_loop_ends:
  assumes "\<And>k. clk k < clk (Suc k)" "nxt - clk i < int fuel" "0 < fuel"
  shows "\<exists>r. pause_loop fuel clk stop nxt i j = Some r"
  using assms(2,3)
proof (induction fuel arbitrary: i j)
  case (Suc fuel)
  show ?case
  proof (cases "stop j \<or> \<not> clk i < nxt")
    case False
    with Suc.prems assms(1) [of i] have "nxt - clk (Suc i) < int fuel" "0 < fuel" by linarith+
    from Suc.IH [OF this] False show ?thesis by fastforce
  qed auto
qed simp

lemma sleep_loop_ends:
  assumes "\<And>k. clk k < clk (Suc k)" "now < clk i" "nxt - now < int fuel" "0 < fuel"
  shows "\<exists>acts i' j'. sleep_loop fuel clk stop nxt now i j = Some (acts, i', j') \<and> i \<le> i'"
  using assms(2-)
proof (induction fuel arbitrary: i j now)
  case (Suc fuel)
  show ?case
  proof (cases "\<not> stop j \<and> now + 200000 < nxt")
    case True
    with Suc.prems have "nxt - clk i < int fuel" "0 < fuel" by linarith+
    from Suc.IH [OF assms(1) [of i] this, of "Suc j"] True show ?thesis
      by (fastforce simp: Let_def)
  qed auto
qed simp

text \<open>The deadline moves by at least the batch's duration, and \<open>wait\<close> returns after it.\<close>

lemma pacer_wait_schedule:
  assumes "pacer_wait fuel clk stop e i j p = Some (acts, i', j', p')"
    "rp_events_per_second p \<noteq> 0" "e \<noteq> 0" "\<And>k. \<not> stop k" "0 \<le> pacer_duration p e"
  shows "rp_next p + pacer_duration p e \<le> rp_next p' \<and> rp_next p' \<le> clk (i' - 1) \<and> i < i'
         \<and> rp_events_per_second p' = rp_events_per_second p"
proof (cases "rp_next p + pacer_duration p e + 1000000000 < clk i")
  case True
  with assms show ?thesis by (auto simp: pacer_wait_def Let_def)
next
  case False
  let ?n = "rp_next p + pacer_duration p e"
  from assms(1-3) False obtain a1 i1 j1 a2 where
    s: "sleep_loop fuel clk stop ?n (clk i) (Suc i) j = Some (a1, i1, j1)" and
    q: "pause_loop fuel clk stop ?n i1 j1 = Some (a2, i', j')" and p': "p' = p\<lparr>rp_next := ?n\<rparr>"
    by (auto simp: pacer_wait_def Let_def split: option.splits)
  from sleep_loop_result [OF s] pause_loop_result [OF q] assms(4) p' show ?thesis by simp
qed

lemma pacer_wait_ends:
  assumes "\<And>k. clk k < clk (Suc k)" "rp_next p \<le> clk i" "pacer_duration p e < int fuel" "0 < fuel"
  shows "\<exists>acts i' j' p'. pacer_wait fuel clk stop e i j p = Some (acts, i', j', p')"
proof -
  let ?n = "rp_next p + pacer_duration p e"
  have "?n - clk i < int fuel" using assms(2,3) by linarith
  from sleep_loop_ends [where clk = clk, OF assms(1) assms(1) this assms(4)] obtain acts i1 j1
    where s: "sleep_loop fuel clk stop ?n (clk i) (Suc i) j = Some (acts, i1, j1)" "Suc i \<le> i1"
    by blast
  have "mono clk" using assms(1) by (simp add: mono_iff_le_Suc less_imp_le)
  then have "clk i \<le> clk i1" using s(2) by (simp add: monoD)
  then have "?n - clk i1 < int fuel" using assms(2,3) by linarith
  from pause_loop_ends [where clk = clk, OF assms(1) this assms(4)] obtain r
    where "pause_loop fuel clk stop ?n i1 j1 = Some r" by blast
  with s show ?thesis by (cases r) (simp add: pacer_wait_def Let_def)
qed

lemma pacer_waits_schedule:
  assumes "\<And>k. clk k < clk (Suc k)" "\<And>k. \<not> stop k" "rp_events_per_second p \<noteq> 0" "e \<noteq> 0"
    "0 \<le> d" "d < int fuel" "pacer_duration p e = d" "0 < i" "rp_next p \<le> clk (i - 1)"
  shows "\<exists>i' j' p'. pacer_waits fuel clk stop (replicate n e) i j p = Some (i', j', p')
           \<and> rp_next p + int n * d \<le> clk (i' - 1)"
  using assms(3,7-)
proof (induction n arbitrary: i j p)
  case (Suc n)
  have "clk (i - 1) < clk i" using assms(1) [of "i - 1"] Suc.prems by simp
  then have "rp_next p \<le> clk i" using Suc.prems by simp
  from pacer_wait_ends [where fuel = fuel and e = e and stop = stop and j = j, OF assms(1) this]
    Suc.prems(2) assms(5,6)
  obtain acts i1 j1 p1 where w: "pacer_wait fuel clk stop e i j p = Some (acts, i1, j1, p1)"
    by fastforce
  from pacer_wait_schedule [OF w Suc.prems(1) assms(4,2)] Suc.prems(2) assms(5)
  have p1: "rp_next p + d \<le> rp_next p1" "rp_next p1 \<le> clk (i1 - 1)" "i < i1"
    "rp_events_per_second p1 = rp_events_per_second p" by auto
  then have "pacer_duration p1 e = d" using Suc.prems(2) by (simp add: pacer_duration_def)
  from Suc.IH [of p1 i1 j1, OF _ this] p1 Suc.prems obtain i' j' p' where
    "pacer_waits fuel clk stop (replicate n e) i1 j1 p1 = Some (i', j', p')"
    "rp_next p1 + int n * d \<le> clk (i' - 1)" by auto
  with w p1(1) show ?case by (auto simp: algebra_simps)
qed simp

lemma mult_carry_int:
  "n * (1000000000 * e) \<le> n * (q * (d + 1)) \<Longrightarrow>
     int n * (1000000000 * int e) \<le> int q * (int n * int d + int n)"
  by (drule zle_int [THEN iffD2]) (simp add: algebra_simps)

lemma pacer_duration_eq:
  assumes "1000000000 * unat e < 2 ^ 63"
  shows "pacer_duration p e = int (1000000000 * unat e div unat (rp_events_per_second p))"
proof -
  have "unat (1000000000 * e) = 1000000000 * unat e"
    using assms by (simp add: unat_word_ariths(2))
  then have u: "unat (1000000000 * e div rp_events_per_second p)
      = 1000000000 * unat e div unat (rp_events_per_second p)"
    by (simp add: unat_div_distrib)
  have "unat (1000000000 * e div rp_events_per_second p) < 2 ^ 63"
    unfolding u using assms by (meson div_le_dividend le_less_trans)
  then show ?thesis unfolding pacer_duration_def u [symmetric] by (rule sint_u64)
qed

subsection \<open>Properties\<close>

text \<open>
  The target rate is split over the workers without loss: the workers' quotas sum up to the
  configured events per second, each is the fair share rounded down or up, and when there are no
  more workers than events per second (which \<open>start\<close> ensures) none is 0, so no worker of a limited
  transmission runs unlimited.
\<close>

theorem quotas_partition_target:
  assumes "0 < W"
  shows "(\<Sum>w<unat W. unat (quota_for_worker t (of_nat w) W)) = unat t
    \<and> (\<forall>w. unat (quota_for_worker t w W) \<in> {unat t div unat W, unat t div unat W + 1})
    \<and> (unat W \<le> unat t \<longrightarrow> (\<forall>w. quota_for_worker t w W \<noteq> 0))"
proof (intro conjI impI allI)
  show "(\<Sum>w<unat W. unat (quota_for_worker t (of_nat w) W)) = unat t"
    by (rule quotas_sum [OF assms])
  show "unat (quota_for_worker t w W) \<in> {unat t div unat W, unat t div unat W + 1}" for w
    by (simp add: unat_quota [OF assms])
  assume "unat W \<le> unat t"
  with assms have "1 \<le> unat t div unat W"
    by (simp add: word_less_nat_alt div_greater_zero_iff Suc_le_eq)
  then show "quota_for_worker t w W \<noteq> 0" for w
    using unat_quota [OF assms, of t w] by (metis add_is_0 not_one_le_zero unat_0)
qed

theorem quotas_partition_target_witness:
  "(\<Sum>w<3. unat (quota_for_worker 1000 (of_nat w) 3)) = 1000 \<and> quota_for_worker 1000 2 3 \<noteq> 0"
  using quotas_partition_target [of 3 1000] by simp

text \<open>
  The events a batch may hold: every batch-size function returns at least 1, at most 1024 for a
  stream, at most 256 for datagrams and files, and exactly 1 for a file transport that has a limit
  (so that no limit is overshot within a batch).
\<close>

theorem batch_sizes_bounded:
  "1 \<le> stream_batch_events q \<and> stream_batch_events q \<le> 1024
   \<and> 1 \<le> datagram_batch_events q preferred \<and> datagram_batch_events q preferred \<le> 256
   \<and> 1 \<le> file_batch_events q ep \<and> file_batch_events q ep \<le> 256
   \<and> (if ep_file_max_total_bytes ep = 0 \<and> ep_file_max_count ep = 0 \<and> ep_file_max_duration ep \<le> 0
      then q = 0 \<longrightarrow> file_batch_events q ep = 256 else file_batch_events q ep = 1)"
proof (intro conjI)
  show "if ep_file_max_total_bytes ep = 0 \<and> ep_file_max_count ep = 0 \<and> ep_file_max_duration ep \<le> 0
      then q = 0 \<longrightarrow> file_batch_events q ep = 256 else file_batch_events q ep = 1"
    by (auto simp: file_batch_events_def word_gt_0)
qed (simp_all add: stream_batch_events_bounds [simplified] datagram_batch_events_bounds [simplified]
       file_batch_events_bounds [simplified])

theorem batch_sizes_bounded_witness:
  "file_batch_events 0 default_endpoint = 256 \<and>
   file_batch_events 0 (default_endpoint\<lparr>ep_file_max_count := 7\<rparr>) = 1"
  using batch_sizes_bounded [of 0 64 default_endpoint]
    batch_sizes_bounded [of 0 64 "default_endpoint\<lparr>ep_file_max_count := 7\<rparr>"]
  by (simp add: default_endpoint_def)

text \<open>
  C3. The rate limit holds in the long run: with a steady clock that advances and no stop requested,
  \<open>n\<close> waits for batches of \<open>e\<close> events return (within a bounded number of loop iterations each),
  and when the last one returns, the time passed since the pacer was made is at least what \<open>n * e\<close>
  events take at the configured rate, up to a nanosecond of rounding per batch.
\<close>

theorem pacer_enforces_rate:
  assumes "\<And>k. clk k < clk (Suc k)" "\<And>k. \<not> stop k" "eps \<noteq> 0" "e \<noteq> 0"
    and "1000000000 * unat e < 2 ^ 63" "1000000000 * unat e div unat eps < fuel"
  shows "\<exists>i' j' p'. pacer_waits fuel clk stop (replicate n e) 1 0 (rate_pacer_init eps (clk 0))
             = Some (i', j', p')
           \<and> int n * (1000000000 * int (unat e)) \<le> int (unat eps) * (clk (i' - 1) - clk 0 + int n)"
proof -
  let ?d = "1000000000 * unat e div unat eps" and ?p = "rate_pacer_init eps (clk 0)"
  have d: "pacer_duration ?p e = int ?d"
    using pacer_duration_eq [OF assms(5)] by (simp add: rate_pacer_init_def)
  have eps: "0 < unat eps" using assms(3) by (simp add: unat_gt_0)
  have "1000000000 * unat e < unat eps * (?d + 1)"
    using eps by (simp add: dividend_less_times_div)
  then have "n * (1000000000 * unat e) \<le> n * (unat eps * (?d + 1))" by simp
  then have lim: "int n * (1000000000 * int (unat e)) \<le> int (unat eps) * (int n * int ?d + int n)"
    by (rule mult_carry_int)
  from pacer_waits_schedule [of clk stop ?p e "int ?d" fuel 1 n 0] assms d obtain i' j' p' where
    w: "pacer_waits fuel clk stop (replicate n e) 1 0 ?p = Some (i', j', p')"
    and t: "clk 0 + int n * int ?d \<le> clk (i' - 1)"
    by (auto simp: rate_pacer_init_def)
  have "int (unat eps) * (int n * int ?d + int n) \<le> int (unat eps) * (clk (i' - 1) - clk 0 + int n)"
    using t by (intro mult_left_mono) auto
  with lim w show ?thesis by (auto intro: order_trans)
qed

theorem pacer_enforces_rate_witness:
  "\<exists>i' j' p'. pacer_waits 101 (\<lambda>k. 60 * int k) (\<lambda>_. False) (replicate 3 1) 1 0 (rate_pacer_init 10000000 0)
             = Some (i', j', p') \<and> 3000000000 \<le> 10000000 * (60 * int (i' - 1) + 3)"
  using pacer_enforces_rate [of "\<lambda>k. 60 * int k" "\<lambda>_. False" 10000000 1 101 3] by simp

lemma unat_inclusive_seconds:
  assumes "tr_start r \<le> tr_end r" "tr_end r - tr_start r < 2 ^ 62"
  shows "unat (inclusive_seconds r) = nat (tr_end r - tr_start r + 1)"
proof -
  define d where "d = tr_end r - tr_start r + 1"
  have w: "inclusive_seconds r = word_of_int d"
    using assms by (simp add: inclusive_seconds_def time_range_valid_def d_def)
  have "0 \<le> d" "d < 2 ^ 64" using assms by (simp_all add: d_def)
  then have "unat (word_of_int d :: u64) = nat d"
    by (simp add: unsigned_of_int take_bit_int_eq_self)
  then show ?thesis unfolding w by (simp only: d_def)
qed

text \<open>
  A transmission over a time range uses the whole range evenly: with \<open>W\<close> workers of \<open>k\<close> events
  each, every timestamp lies in the configured range, worker \<open>w\<close>'s event \<open>i\<close> has second
  \<open>(w + i * W) mod span\<close> of it, and no second of the range is used more than once more often than
  another.
\<close>

theorem timestamps_cover_range:
  assumes "tg_mode g = Range" "tr_start (tg_range g) \<le> tr_end (tg_range g)"
    "tr_end (tg_range g) - tr_start (tg_range g) < 2 ^ 62"
    and "\<And>w. w < unat W \<Longrightarrow> timestamp_cursor_init g (of_nat w) W high (r w) = Inr (c w)"
    and "ts = concat (map (\<lambda>w. timestamps k (clk w) (c w)) [0 ..< unat W])"
  shows "set ts \<subseteq> {tr_start (tg_range g) .. tr_end (tg_range g)}
    \<and> (\<forall>w < unat W. \<forall>i < k. timestamps k (clk w) (c w) ! i = tr_start (tg_range g)
          + int ((w + i * unat W) mod nat (tr_end (tg_range g) - tr_start (tg_range g) + 1)))
    \<and> (\<forall>a \<in> {tr_start (tg_range g) .. tr_end (tg_range g)}.
         \<forall>b \<in> {tr_start (tg_range g) .. tr_end (tg_range g)}. count_list ts a \<le> count_list ts b + 1)"
proof (intro conjI allI impI ballI)
  let ?s = "tr_start (tg_range g)" and ?e = "tr_end (tg_range g)"
  let ?n = "nat (?e - ?s + 1)" and ?f = "\<lambda>t. ?s + int (t mod nat (?e - ?s + 1))"
  have n: "unat (inclusive_seconds (tg_range g)) = ?n" "0 < ?n" "?n < 2 ^ 63"
    using unat_inclusive_seconds [OF assms(2,3)] assms(2,3) by auto
  have idx: "unat (of_nat v :: u32) = v" if "v < unat W" for v
    using that unat_u32_less [of W] by (simp add: unat_of_nat take_bit_eq_mod)
  have one: "timestamps k (clk v) (c v) = map ?f (map (\<lambda>i. v + i * unat W) [0 ..< k])"
    if "v < unat W" for v
    using timestamp_cursor_init_range [OF assms(1) _ assms(4) [OF that], of k "clk v"] that idx n
    by simp
  have all: "ts = map ?f (concat (map (\<lambda>v. map (\<lambda>i. v + i * unat W) [0 ..< k]) [0 ..< unat W]))"
    unfolding assms(5) map_concat map_map o_def
    by (intro arg_cong [of _ _ concat] map_cong) (auto simp: one [simplified o_def map_map])
  then have m: "mset ts = image_mset ?f (mset [0 ..< k * unat W])"
    unfolding all mset_map strided_mset by simp
  have t: "t mod ?n < ?n" for t using n(2) by simp
  have f: "?f u \<in> {?s .. ?e}" for u using t [of u] n(2) by (simp add: zless_nat_eq_int_zless)
  show "set ts \<subseteq> {?s .. ?e}"
    unfolding all set_map using f by blast
  show "timestamps k (clk w) (c w) ! i = ?s + int ((w + i * unat W) mod ?n)" if "w < unat W" "i < k" for w i
    using that by (simp add: one)
  have cnt: "count_list ts (?s + int j) = count (image_mset (\<lambda>t. t mod ?n) (mset [0 ..< k * unat W])) j" for j
    unfolding count_list_eq_count m count_image_mset by (intro arg_cong2 [of _ _ _ _ sum]) auto
  have split: "\<exists>j < ?n. x = ?s + int j" if "x \<in> {?s .. ?e}" for x
    using that by (intro exI [of _ "nat (x - ?s)"]) auto
  fix a b
  assume "a \<in> {?s .. ?e}" "b \<in> {?s .. ?e}"
  with split obtain i j where ij: "i < ?n" "j < ?n" "a = ?s + int i" "b = ?s + int j" by metis
  show "count_list ts a \<le> count_list ts b + 1"
    unfolding ij(3,4) cnt count_residues [OF ij(1)] count_residues [OF ij(2)] by simp
qed

theorem timestamps_cover_range_witness:
  "let g = default_timestamp_generation\<lparr>tg_mode := Range, tg_range := \<lparr>tr_start = 10, tr_end = 12\<rparr>\<rparr>;
       c = (\<lambda>w. case timestamp_cursor_init g (of_nat w) 2 False 0 of Inr c \<Rightarrow> c);
       ts = concat (map (\<lambda>w. timestamps 4 (\<lambda>_. 0) (c w)) [0 ..< 2])
   in count_list ts 12 \<le> count_list ts 10 + 1 \<and> timestamps 4 (\<lambda>_. 0) (c 1) ! 3 = 11"
proof -
  let ?g = "default_timestamp_generation\<lparr>tg_mode := Range, tg_range := \<lparr>tr_start = 10, tr_end = 12\<rparr>\<rparr>"
  let ?c = "\<lambda>w. case timestamp_cursor_init ?g (of_nat w) 2 False 0 of Inr c \<Rightarrow> c"
  have "inclusive_seconds \<lparr>tr_start = 10, tr_end = 12\<rparr> = 3"
    by (simp add: inclusive_seconds_def time_range_valid_def)
  then have "timestamp_cursor_init ?g (of_nat w) 2 False 0 = Inr (?c w)" for w
    by (simp add: timestamp_cursor_init_def)
  note th = timestamps_cover_range [where g = ?g and W = 2 and high = False and r = "\<lambda>_. 0" and c = ?c
        and k = 4 and clk = "\<lambda>_ _. 0", OF _ _ _ this refl]
  have "timestamps 4 (\<lambda>_. 0) (?c 1) ! 3 = 10 + int ((1 + 3 * 2) mod nat (12 - 10 + 1))"
    using th [THEN conjunct2, THEN conjunct1, rule_format, of 1 3] by simp
  moreover have "count_list (concat (map (\<lambda>w. timestamps 4 (\<lambda>_. 0) (?c w)) [0 ..< 2])) 12
      \<le> count_list (concat (map (\<lambda>w. timestamps 4 (\<lambda>_. 0) (?c w)) [0 ..< 2])) 10 + 1"
    using th [THEN conjunct2, THEN conjunct2, THEN bspec, THEN bspec, of 12 10] by simp
  ultimately show ?thesis by (simp add: Let_def)
qed

end
