(* ===== verification/Calendar.thy ===== *)
theory Calendar
  imports Domain "HOL-Library.Signed_Division"
begin

text \<open>
  Broken-down times: \<open>std::tm\<close> as a record, the zero-padded printing of its \<open>int\<close> fields by
  \<open>std::format\<close> and \<open>snprintf\<close>, and the conversion of a time point to UTC that
  \<open>convert_utc_time\<close> (\<open>application/log_renderer.cpp\<close>) makes with the calendar of \<open>std::chrono\<close>,
  which is the proleptic Gregorian calendar. The conversion to local time belongs to the C library
  and its time-zone data; it is a parameter of the definitions that use it.
\<close>

record tm =
  tm_sec :: int
  tm_min :: int
  tm_hour :: int
  tm_mday :: int
  tm_mon :: int
  tm_year :: int
  tm_wday :: int

text \<open>\<open>std::tm{}\<close>.\<close>

definition empty_tm :: tm where
  "empty_tm = \<lparr>tm_sec = 0, tm_min = 0, tm_hour = 0, tm_mday = 0, tm_mon = 0, tm_year = 0,
     tm_wday = 0\<rparr>"

text \<open>\<open>{:0w}\<close> of an \<open>int\<close>: the sign, then zeros up to the width.\<close>

definition format_padded :: "nat \<Rightarrow> int \<Rightarrow> string" where
  "format_padded w v =
     (if v < 0 then CHR ''-'' # zero_pad (w - 1) (to_dec (nat (- v))) else zero_pad w (to_dec (nat v)))"

lemma format_padded_not_Nil [simp]: "format_padded w v \<noteq> []"
  by (simp add: format_padded_def zero_pad_def)

subsection \<open>The Gregorian calendar\<close>

text \<open>
  Years are counted from March, so that the leap day comes last: a day number (days since
  1970-01-01) becomes an era of 400 years, a year in it, a day of the year and a month.
\<close>

definition civil_from_days :: "int \<Rightarrow> int \<times> int \<times> int" where
  "civil_from_days days =
     (let z = days + 719468;
          era = z div 146097; doe = z mod 146097;
          century = min (doe div 36524) 3; doc = doe - 36524 * century;
          quad = doc div 1461; doq = doc mod 1461;
          year_in_quad = min (doq div 365) 3; doy = doq - 365 * year_in_quad;
          yoe = 100 * century + 4 * quad + year_in_quad;
          mp = (5 * doy + 2) div 153;
          day = doy - (153 * mp + 2) div 5 + 1;
          month = (if mp < 10 then mp + 3 else mp - 9);
          year = 400 * era + yoe + (if month \<le> 2 then 1 else 0)
      in (year, month, day))"

definition days_from_civil :: "int \<times> int \<times> int \<Rightarrow> int" where
  "days_from_civil c =
     (case c of (year, month, day) \<Rightarrow>
        let y = (if month \<le> 2 then year - 1 else year);
            era = y div 400; yoe = y mod 400;
            mp = (if 2 < month then month - 3 else month + 9);
            doy = (153 * mp + 2) div 5 + day - 1;
            doe = yoe * 365 + yoe div 4 - yoe div 100 + doy
        in era * 146097 + doe - 719468)"

definition leap_year :: "int \<Rightarrow> bool" where
  "leap_year y \<longleftrightarrow> y mod 4 = 0 \<and> (y mod 100 \<noteq> 0 \<or> y mod 400 = 0)"

definition days_in_month :: "int \<Rightarrow> int \<Rightarrow> int" where
  "days_in_month y m =
     (if m = 2 then (if leap_year y then 29 else 28) else if m \<in> {4, 6, 9, 11} then 30 else 31)"

text \<open>\<open>convert_utc_time\<close>; a time point is a number of nanoseconds since the epoch.\<close>

definition convert_utc_time :: "int \<Rightarrow> tm" where
  "convert_utc_time point =
     (let seconds = point div 1000000000;
          day_point = seconds div 86400;
          (year, month, day) = civil_from_days day_point;
          time = seconds - 86400 * day_point
      in \<lparr>tm_sec = time mod 60, tm_min = (time div 60) mod 60, tm_hour = time div 3600,
          tm_mday = day, tm_mon = month - 1, tm_year = year - 1900,
          tm_wday = (day_point + 4) mod 7\<rparr>)"

lemma month_from_day:
  fixes doy mp day :: int
  assumes "0 \<le> doy" "doy \<le> 365" "mp = (5 * doy + 2) div 153" "day = doy - (153 * mp + 2) div 5 + 1"
  shows "0 \<le> mp \<and> mp \<le> 11 \<and> 1 \<le> day \<and> day \<le> 31
    \<and> (mp \<in> {1, 3, 6, 8} \<longrightarrow> day \<le> 30) \<and> (mp = 11 \<longrightarrow> day \<le> 29 \<and> (doy \<le> 364 \<longrightarrow> day \<le> 28))"
proof -
  have b: "153 * mp \<le> 5 * doy + 2" "5 * doy + 2 < 153 * mp + 153"
    using assms(3) div_mult_mod_eq [of "5 * doy + 2" 153] pos_mod_bound [of 153 "5 * doy + 2"]
      pos_mod_sign [of 153 "5 * doy + 2"] by linarith+
  then have "0 \<le> mp" "mp \<le> 11" using assms(1,2) by linarith+
  then have "mp = 0 \<or> mp = 1 \<or> mp = 2 \<or> mp = 3 \<or> mp = 4 \<or> mp = 5 \<or> mp = 6 \<or> mp = 7 \<or> mp = 8
      \<or> mp = 9 \<or> mp = 10 \<or> mp = 11"
    by presburger
  then show ?thesis
    by (elim disjE) (use b assms(1,2,4) in simp_all)
qed

text \<open>The split of a day of an era.\<close>

lemma era_split:
  fixes doe century doc quad doq q doy yoe :: int
  assumes "0 \<le> doe" "doe < 146097" "century = min (doe div 36524) 3" "doc = doe - 36524 * century"
    "quad = doc div 1461" "doq = doc mod 1461" "q = min (doq div 365) 3" "doy = doq - 365 * q"
    "yoe = 100 * century + 4 * quad + q"
  shows "0 \<le> yoe \<and> yoe < 400 \<and> 0 \<le> doy \<and> doy \<le> 365 \<and> yoe div 100 = century \<and> yoe div 4 = 25 * century + quad
    \<and> doe = yoe * 365 + yoe div 4 - yoe div 100 + doy
    \<and> (doy = 365 \<longrightarrow> q = 3 \<and> (quad \<noteq> 24 \<or> century = 3)) \<and> 0 \<le> quad \<and> quad \<le> 24"
proof -
  have c: "36524 * (doe div 36524) \<le> doe" "doe < 36524 * (doe div 36524) + 36524"
    using div_mult_mod_eq [of doe 36524] pos_mod_bound [of 36524 doe] pos_mod_sign [of 36524 doe] by linarith+
  define x where "x = doe div 36524"
  have "0 \<le> x" "x \<le> 4" using c assms(1,2) unfolding x_def [symmetric] by linarith+
  then have cent: "0 \<le> century" "century \<le> 3" "0 \<le> doc" "century = 3 \<or> doc < 36524" "doc \<le> 36524"
    using c assms(2-4) unfolding x_def [symmetric] by (auto simp: min_def split: if_splits)
  have d: "doc = 1461 * quad + doq" "0 \<le> doq" "doq < 1461"
    unfolding assms(5,6) by simp_all
  have quad: "0 \<le> quad" "quad \<le> 24" using d cent by linarith+
  have e: "365 * (doq div 365) \<le> doq" "doq < 365 * (doq div 365) + 365"
    using div_mult_mod_eq [of doq 365] pos_mod_bound [of 365 doq] pos_mod_sign [of 365 doq] by linarith+
  define w where "w = doq div 365"
  have "0 \<le> w" "w \<le> 4" using e d(2,3) unfolding w_def [symmetric] by linarith+
  then have q: "0 \<le> q" "q \<le> 3" "0 \<le> doy" "doy \<le> 365" "q \<noteq> 3 \<longrightarrow> doy \<le> 364"
    using e d(3) assms(7,8) unfolding w_def [symmetric] by (auto simp: min_def split: if_splits)
  have y100: "yoe div 100 = century"
    by (rule int_div_pos_eq [where r = "4 * quad + q"]) (use quad q assms(9) in linarith)+
  have y4: "yoe div 4 = 25 * century + quad"
    by (rule int_div_pos_eq [where r = q]) (use quad q assms(9) in simp_all)
  have "doe = yoe * 365 + yoe div 4 - yoe div 100 + doy"
    unfolding y100 y4 using assms(4,8,9) d(1) by simp
  moreover have "doy = 365 \<longrightarrow> q = 3 \<and> (quad \<noteq> 24 \<or> century = 3)"
    using q d cent assms(8) by auto
  ultimately show ?thesis using y100 y4 q quad cent assms(9) by auto
qed

lemma leap_year_end:
  fixes year era century quad q :: int
  assumes "year = 400 * era + 100 * century + 4 * (quad + 1)" "q = 3" "quad \<noteq> 24 \<or> century = 3"
    "0 \<le> quad" "quad \<le> 24"
  shows "leap_year year"
proof -
  have "year = 4 * (100 * era + 25 * century + quad + 1)" using assms(1) by simp
  then have "year mod 4 = 0" by (metis mod_mult_self1_is_0)
  moreover have "year mod 400 = 0" if "quad = 24"
  proof -
    have "year = 400 * (era + 1)" using assms(1,3) that by simp
    then show ?thesis by (metis mod_mult_self1_is_0)
  qed
  moreover have "year mod 100 \<noteq> 0" if "quad \<noteq> 24"
  proof -
    have "year mod 100 = 4 * (quad + 1)"
      by (rule int_mod_pos_eq [where q = "4 * era + century"]) (use assms(1,4,5) that in simp_all)
    with assms(4) show ?thesis by simp
  qed
  ultimately show ?thesis unfolding leap_year_def by (cases "quad = 24") simp_all
qed

lemma civil_from_days_correct:
  assumes "civil_from_days days = (year, month, day)"
  shows "days_from_civil (year, month, day) = days \<and> 1 \<le> month \<and> month \<le> 12
    \<and> 1 \<le> day \<and> day \<le> days_in_month year month"
proof -
  define z era doe where "z = days + 719468" and "era = z div 146097" and "doe = z mod 146097"
  define century doc where "century = min (doe div 36524) 3" and "doc = doe - 36524 * century"
  define quad doq where "quad = doc div 1461" and "doq = doc mod 1461"
  define q doy where "q = min (doq div 365) 3" and "doy = doq - 365 * q"
  define yoe where "yoe = 100 * century + 4 * quad + q"
  define mp where "mp = (5 * doy + 2) div 153"
  note defs = z_def era_def doe_def century_def doc_def quad_def doq_def q_def doy_def yoe_def mp_def
  have "civil_from_days days = (let month = (if mp < 10 then mp + 3 else mp - 9)
      in (400 * era + yoe + (if month \<le> 2 then 1 else 0), month, doy - (153 * mp + 2) div 5 + 1))"
    unfolding civil_from_days_def Let_def defs by (rule refl)
  with assms have day: "day = doy - (153 * mp + 2) div 5 + 1"
    and month: "month = (if mp < 10 then mp + 3 else mp - 9)"
    and year: "year = 400 * era + yoe + (if month \<le> 2 then 1 else 0)"
    by (simp_all only: Let_def prod.inject) blast+
  have "0 \<le> doe" "doe < 146097" by (simp_all add: doe_def)
  note E = era_split [OF this century_def doc_def quad_def doq_def q_def doy_def yoe_def]
  from E have doy: "0 \<le> doy" "doy \<le> 365" by auto
  note M = month_from_day [OF doy mp_def day]
  from M have mp: "0 \<le> mp" "mp \<le> 11" by auto
  have y: "(if month \<le> 2 then year - 1 else year) = 400 * era + yoe" by (simp add: year)
  have "(400 * era + yoe) div 400 = era" by (rule int_div_pos_eq [where r = yoe]) (use E in simp_all)
  moreover have "(400 * era + yoe) mod 400 = yoe" by (rule int_mod_pos_eq [where q = era]) (use E in simp_all)
  moreover have "(if 2 < month then month - 3 else month + 9) = mp" using mp by (auto simp: month)
  moreover have "era * 146097 + doe = z" by (simp add: era_def doe_def)
  ultimately have "days_from_civil (year, month, day) = z - 719468"
    unfolding days_from_civil_def prod.case y Let_def using E day by simp
  then have "days_from_civil (year, month, day) = days" by (simp add: z_def)
  moreover have "1 \<le> month" "month \<le> 12" using mp by (auto simp: month)
  moreover have "day \<le> days_in_month year month"
  proof (cases "mp = 11")
    case True
    then have m: "month = 2" by (simp add: month)
    show ?thesis
    proof (cases "doy = 365")
      case True
      with E have "q = 3" "quad \<noteq> 24 \<or> century = 3" "0 \<le> quad" "quad \<le> 24" by auto
      moreover from this m have "year = 400 * era + 100 * century + 4 * (quad + 1)"
        by (simp add: year yoe_def)
      ultimately have "leap_year year" by (rule leap_year_end [rotated])
      with M \<open>mp = 11\<close> m show ?thesis by (simp add: days_in_month_def)
    next
      case False
      with M \<open>mp = 11\<close> doy m show ?thesis by (simp add: days_in_month_def)
    qed
  next
    case False
    then have "month \<noteq> 2" using mp by (auto simp: month)
    moreover have "mp \<in> {1, 3, 6, 8}" if "month \<in> {4, 6, 9, 11}"
      using that mp by (auto simp: month split: if_splits)
    ultimately show ?thesis using M by (auto simp: days_in_month_def)
  qed
  ultimately show ?thesis using M by blast
qed

text \<open>A broken-down time that every format can print: the indices into the name tables are in range.\<close>

definition tm_ok :: "tm \<Rightarrow> bool" where
  "tm_ok t \<longleftrightarrow> 0 \<le> tm_sec t \<and> tm_sec t < 60 \<and> 0 \<le> tm_min t \<and> tm_min t < 60 \<and> 0 \<le> tm_hour t \<and> tm_hour t < 24
     \<and> 0 \<le> tm_mon t \<and> tm_mon t < 12 \<and> 1 \<le> tm_mday t
     \<and> tm_mday t \<le> days_in_month (tm_year t + 1900) (tm_mon t + 1) \<and> 0 \<le> tm_wday t \<and> tm_wday t < 7"

definition tm_seconds :: "tm \<Rightarrow> int" where
  "tm_seconds t = 86400 * days_from_civil (tm_year t + 1900, tm_mon t + 1, tm_mday t)
     + 3600 * tm_hour t + 60 * tm_min t + tm_sec t"

lemma time_of_day:
  fixes x :: int
  assumes "0 \<le> x" "x < 86400"
  shows "0 \<le> x div 3600 \<and> x div 3600 < 24 \<and> 3600 * (x div 3600) + 60 * ((x div 60) mod 60) + x mod 60 = x"
proof -
  have "x div 3600 = x div 60 div 60" by (simp add: zdiv_zmult2_eq [of 60 x 60, symmetric])
  moreover have "3600 * (x div 60 div 60) + 60 * ((x div 60) mod 60) + x mod 60 = x"
    using div_mult_mod_eq [of x 60] div_mult_mod_eq [of "x div 60" 60] by linarith
  moreover have "0 \<le> x div 3600" "x div 3600 < 24" using assms by (auto simp: div_less_iff_less_mult)
  ultimately show ?thesis by simp
qed

lemma convert_utc_time_correct:
  "tm_ok (convert_utc_time point) \<and> tm_seconds (convert_utc_time point) = point div 1000000000"
proof -
  define s d where "s = point div 1000000000" and "d = s div 86400"
  obtain year month day where c: "civil_from_days d = (year, month, day)" by (cases "civil_from_days d")
  have t: "convert_utc_time point =
    \<lparr>tm_sec = (s - 86400 * d) mod 60, tm_min = ((s - 86400 * d) div 60) mod 60,
      tm_hour = (s - 86400 * d) div 3600, tm_mday = day, tm_mon = month - 1, tm_year = year - 1900,
      tm_wday = (d + 4) mod 7\<rparr>"
    unfolding convert_utc_time_def Let_def s_def [symmetric] d_def [symmetric] c by simp
  have "0 \<le> s - 86400 * d" "s - 86400 * d < 86400"
    unfolding d_def by (simp_all add: minus_mult_div_eq_mod)
  from time_of_day [OF this] civil_from_days_correct [OF c] show ?thesis
    unfolding t s_def [symmetric] by (simp add: tm_ok_def tm_seconds_def)
qed

lemma civil_epoch: "civil_from_days 0 = (1970, 1, 1)"
  by code_simp

lemma convert_utc_epoch:
  "0 \<le> p \<Longrightarrow> p < 1000000000 \<Longrightarrow> convert_utc_time p =
     \<lparr>tm_sec = 0, tm_min = 0, tm_hour = 0, tm_mday = 1, tm_mon = 0, tm_year = 70, tm_wday = 4\<rparr>"
  by (simp add: convert_utc_time_def civil_epoch div_pos_pos_trivial)

subsection \<open>Properties\<close>

text \<open>
  C9. The UTC conversion is the Gregorian calendar: for every time point, before 1970 too, the
  fields are in range (the day within its month, leap years included) and denote exactly the
  point's second.
\<close>

theorem convert_utc_time_gregorian:
  "tm_ok (convert_utc_time point) \<and> tm_seconds (convert_utc_time point) = point div 1000000000"
  by (rule convert_utc_time_correct)

end
