(* ===== verification/Paths.thy ===== *)
theory Paths
  imports Domain
begin

text \<open>
  The operations of \<open>std::filesystem::path\<close> the program uses, on generic (POSIX) path text:
  \<open>operator/\<close> with a relative name, \<open>filename\<close>, \<open>extension\<close> and \<open>stem\<close>.
\<close>

definition path_append :: "string \<Rightarrow> string \<Rightarrow> string" where
  "path_append dir name =
     (if dir = [] \<or> last dir = CHR ''/'' then dir @ name else dir @ CHR ''/'' # name)"

definition path_filename :: "string \<Rightarrow> string" where
  "path_filename p = rev (takeWhile (\<lambda>c. c \<noteq> CHR ''/'') (rev p))"

definition path_parent :: "string \<Rightarrow> string" where
  "path_parent p =
     (let d = rev (dropWhile (\<lambda>c. c \<noteq> CHR ''/'') (rev p))
      in if d = ''/'' then d else butlast d)"

text \<open>Where the extension of a file name starts.\<close>

definition extension_start :: "string \<Rightarrow> nat" where
  "extension_start name =
     (case find_last_of ''.'' name of
        None \<Rightarrow> length name
      | Some i \<Rightarrow> if i = 0 \<or> name = ''..'' then length name else i)"

definition path_extension :: "string \<Rightarrow> string" where
  "path_extension p = (let n = path_filename p in drop (extension_start n) n)"

definition path_stem :: "string \<Rightarrow> string" where
  "path_stem p = (let n = path_filename p in take (extension_start n) n)"

lemma path_append_inject [simp]: "path_append d a = path_append d b \<longleftrightarrow> a = b"
  by (simp add: path_append_def)

lemma path_stem_extension: "path_stem p @ path_extension p = path_filename p"
  by (simp add: path_stem_def path_extension_def Let_def)

end
