(* ===== verification/Transport.thy ===== *)
theory Transport
  imports Domain
begin

text \<open>
  The interface \<open>ILogTransport\<close> (\<open>ports/log_transport.hpp\<close>) as the workers rely on it: a \<open>send\<close>
  that returns \<open>Sent\<close> has delivered the payload as a whole, and one that reports a limit has
  delivered nothing. \<open>delivered\<close> is what has reached the transport's sink, in order. The default
  \<open>send_batch\<close> is the client of this contract; the transports interpret it in their theories.
\<close>

locale log_transport =
  fixes send :: "string \<Rightarrow> 's \<Rightarrow> 'e + send_result \<times> 's"
    and inv :: "'s \<Rightarrow> bool"
    and delivered :: "'s \<Rightarrow> string"
  assumes send_inv: "inv s \<Longrightarrow> send p s = Inr (r, s') \<Longrightarrow> inv s'"
    and send_Sent: "inv s \<Longrightarrow> send p s = Inr (Sent, s') \<Longrightarrow> delivered s' = delivered s @ p"
    and send_limit: "inv s \<Longrightarrow> send p s = Inr (r, s') \<Longrightarrow> r \<noteq> Sent \<Longrightarrow> delivered s' = delivered s"
begin

lemma send_batch_inv: "inv s \<Longrightarrow> default_send_batch send ps s = Inr (r, s') \<Longrightarrow> inv s'"
proof (induction ps arbitrary: s)
  case (Cons p ps)
  then show ?case
    by (auto simp: result_simps intro: send_inv split: if_splits)
qed simp

text \<open>A batch delivers a prefix of its payloads, all of them exactly when the result is \<open>Sent\<close>.\<close>

lemma send_batch_prefix:
  assumes "inv s" "default_send_batch send ps s = Inr (r, s')"
  shows "\<exists>k \<le> length ps. delivered s' = delivered s @ concat (take k ps)
           \<and> (r = Sent \<longrightarrow> k = length ps) \<and> (r \<noteq> Sent \<longrightarrow> k < length ps)"
  using assms
proof (induction ps arbitrary: s)
  case (Cons p ps)
  then obtain r1 s1 where s1: "send p s = Inr (r1, s1)"
    by (auto simp: result_simps)
  show ?case
  proof (cases "r1 = Sent")
    case True
    with Cons.prems s1 have "default_send_batch send ps s1 = Inr (r, s')" by simp
    from Cons.IH [OF send_inv [OF Cons.prems(1) s1] this] obtain k where
      "k \<le> length ps" "delivered s' = delivered s1 @ concat (take k ps)"
      "r = Sent \<longrightarrow> k = length ps" "r \<noteq> Sent \<longrightarrow> k < length ps" by blast
    with send_Sent [OF Cons.prems(1) s1 [unfolded True]] show ?thesis
      by (intro exI [of _ "Suc k"]) simp
  next
    case False
    with Cons.prems s1 have "r = r1" "s' = s1" by auto
    with send_limit [OF Cons.prems(1) s1 False] False show ?thesis
      by (intro exI [of _ 0]) simp
  qed
qed simp

end

end
