(* ===== verification/File_Transport.thy ===== *)
theory File_Transport
  imports Framing Calendar Paths Transport "HOL-Library.Signed_Division"
begin

text \<open>
  \<open>FileTransport\<close> (\<open>infrastructure/file_transport.cpp\<close>): every line of a payload becomes a file of
  its own, created exclusively, under a name made of the connection's time and a sequence number;
  limits on bytes, files and time end the transmission. The POSIX branch is modelled. The file
  system is a map from paths to contents together with the counts of the calls made so far and the
  list of the files the transport has completed; how each call of the system ends is an input.
\<close>

subsection \<open>The file system\<close>

datatype file_error =
    Not_Connected
  | Directory_Creation_Failed int
  | Creation_Failed int
  | Write_Failed int
  | Write_No_Progress
  | Close_Failed int

text \<open>
  \<open>fe_open\<close>: the errno of \<open>open\<close> for a path that does not exist (\<open>None\<close> when it succeeds);
  \<open>fe_write\<close>: the outcome of the n-th \<open>write\<close> of a chunk of a given size; \<open>fe_close\<close>: the errno
  of the n-th \<open>close\<close>; \<open>fe_remove\<close>: whether a file can be removed.
\<close>

record file_env =
  fe_open :: "string \<Rightarrow> int option"
  fe_write :: "nat \<Rightarrow> nat \<Rightarrow> int + nat"
  fe_close :: "nat \<Rightarrow> int option"
  fe_remove :: "string \<Rightarrow> bool"

record file_world =
  fw_files :: "string \<Rightarrow> string option"
  fw_writes :: nat
  fw_closes :: nat
  fw_completed :: "string list"

text \<open>\<open>FileHandle::write_all\<close>, \<open>rest\<close> being the content from \<open>offset\<close> on.\<close>

function write_all ::
    "file_env \<Rightarrow> string \<Rightarrow> string \<Rightarrow> file_world \<Rightarrow> (file_error + unit) \<times> file_world" where
  "write_all env path rest w =
     (if rest = [] then (Inr (), w)
      else
        let chunk = min (length rest) 9223372036854775807;
            w1 = w\<lparr>fw_writes := Suc (fw_writes w)\<rparr>
        in case fe_write env (fw_writes w) chunk of
             Inl e \<Rightarrow> (Inl (Write_Failed e), w1)
           | Inr written \<Rightarrow>
               if written = 0 then (Inl Write_No_Progress, w1)
               else write_all env path (drop written rest)
                      (w1\<lparr>fw_files := (fw_files w)(path := map_option (\<lambda>c. c @ take written rest)
                                                        (fw_files w path))\<rparr>))"
  by pat_completeness auto
termination by (relation "measure (\<lambda>(env, path, rest, w). length rest)") auto

declare write_all.simps [simp del]

definition close_file :: "file_env \<Rightarrow> file_world \<Rightarrow> int option \<times> file_world" where
  "close_file env w = (fe_close env (fw_closes w), w\<lparr>fw_closes := Suc (fw_closes w)\<rparr>)"

datatype created = Created | File_Collision | Create_Error file_error

definition create_exclusive :: "file_env \<Rightarrow> string \<Rightarrow> file_world \<Rightarrow> created \<times> file_world" where
  "create_exclusive env path w =
     (if fw_files w path \<noteq> None then (File_Collision, w)
      else case fe_open env path of
             Some e \<Rightarrow> (Create_Error (Creation_Failed e), w)
           | None \<Rightarrow> (Created, w\<lparr>fw_files := (fw_files w)(path \<mapsto> [])\<rparr>))"

definition remove_file :: "file_env \<Rightarrow> string \<Rightarrow> file_world \<Rightarrow> file_world" where
  "remove_file env path w =
     (if fe_remove env path then w\<lparr>fw_files := (fw_files w)(path := None)\<rparr> else w)"

text \<open>
  \<open>FileTransport::write_log\<close>. When the close after the writing fails, the handle is already
  invalid and the second \<open>close\<close> of the handler does nothing.
\<close>

definition write_log :: "file_env \<Rightarrow> string \<Rightarrow> string \<Rightarrow> file_world \<Rightarrow> created \<times> file_world" where
  "write_log env path log w =
     (case create_exclusive env path w of
        (Created, w1) \<Rightarrow>
          (case write_all env path log w1 of
             (Inl e, w2) \<Rightarrow>
               (let (_, w3) = close_file env w2 in (Create_Error e, remove_file env path w3))
           | (Inr _, w2) \<Rightarrow>
               (case close_file env w2 of
                  (Some e, w3) \<Rightarrow> (Create_Error (Close_Failed e), remove_file env path w3)
                | (None, w3) \<Rightarrow> (Created, w3\<lparr>fw_completed := fw_completed w3 @ [path]\<rparr>)))
      | r \<Rightarrow> r)"

subsection \<open>The transport\<close>

record file_transport =
  ft_output_directory :: string
  ft_timestamp :: string
  ft_next_file_index :: u64
  ft_file_count :: u64
  ft_total_size :: u64
  ft_max_total_bytes :: u64
  ft_max_file_count :: u32
  ft_max_duration :: int  \<comment> \<open>milliseconds\<close>
  ft_started_at :: int  \<comment> \<open>nanoseconds of the steady clock\<close>

definition file_transport_init :: "string \<Rightarrow> file_transport" where
  "file_transport_init output_directory =
     \<lparr>ft_output_directory = output_directory, ft_timestamp = [], ft_next_file_index = 0,
      ft_file_count = 0, ft_total_size = 0, ft_max_total_bytes = 0, ft_max_file_count = 0,
      ft_max_duration = 0, ft_started_at = 0\<rparr>"

text \<open>The name prefix: \<open>yyyyMMdd_HHmmss_mmm\<close>.\<close>

definition file_timestamp :: "tm \<Rightarrow> int \<Rightarrow> string" where
  "file_timestamp value milliseconds =
     format_padded 4 (tm_year value + 1900) @ format_padded 2 (tm_mon value + 1) @ format_padded 2 (tm_mday value)
     @ ''_'' @ format_padded 2 (tm_hour value) @ format_padded 2 (tm_min value) @ format_padded 2 (tm_sec value)
     @ ''_'' @ format_padded 3 milliseconds"

text \<open>
  \<open>connect\<close>. \<open>localtime\<close> maps seconds since the epoch to local time (\<open>None\<close> for a null result),
  \<open>make_dirs\<close> is the outcome of \<open>create_directories\<close>, \<open>now\<close> the system clock in nanoseconds since
  the epoch and \<open>steady\<close> the steady clock.
\<close>

definition file_connect ::
    "(int \<Rightarrow> tm option) \<Rightarrow> (string \<Rightarrow> int option) \<Rightarrow> int \<Rightarrow> int \<Rightarrow> endpoint_config \<Rightarrow> file_transport \<Rightarrow>
     (file_error + unit) \<times> file_transport" where
  "file_connect localtime make_dirs now steady endpoint ft =
     (let ft1 = ft\<lparr>ft_timestamp := []\<rparr>;
          ft2 = (if ep_file_output_directory endpoint \<noteq> []
                 then ft1\<lparr>ft_output_directory := ep_file_output_directory endpoint\<rparr> else ft1)
      in case make_dirs (ft_output_directory ft2) of
           Some e \<Rightarrow> (Inl (Directory_Creation_Failed e), ft2)
         | None \<Rightarrow>
             (let value = (case localtime (now sdiv 1000000000) of None \<Rightarrow> empty_tm | Some t \<Rightarrow> t);
                  ms = (now sdiv 1000000) smod 1000;
                  milliseconds = (if ms < 0 then ms + 1000 else ms)
              in (Inr (), ft2\<lparr>ft_timestamp := file_timestamp value milliseconds,
                              ft_next_file_index := 0, ft_file_count := 0, ft_total_size := 0,
                              ft_max_total_bytes := ep_file_max_total_bytes endpoint,
                              ft_max_file_count := ep_file_max_count endpoint,
                              ft_max_duration := ep_file_max_duration endpoint,
                              ft_started_at := steady\<rparr>)))"

definition file_path :: "file_transport \<Rightarrow> u64 \<Rightarrow> string" where
  "file_path ft index =
     path_append (ft_output_directory ft)
       (ft_timestamp ft
        @ (if 0 < index then ''_'' @ zero_pad 4 (to_dec (unat (index + 1))) else [])
        @ ''.log'')"

text \<open>
  The inner loop of \<open>send\<close>: try names until one does not exist yet. The bound on its iterations
  is an argument (\<open>None\<close> when it is used up).
\<close>

fun place_log ::
    "nat \<Rightarrow> file_env \<Rightarrow> string \<Rightarrow> file_transport \<Rightarrow> file_world \<Rightarrow>
     ((file_error + unit) \<times> file_transport \<times> file_world) option" where
  "place_log 0 env log ft w = None"
| "place_log (Suc fuel) env log ft w =
     (let path = file_path ft (ft_next_file_index ft);
          ft1 = ft\<lparr>ft_next_file_index := ft_next_file_index ft + 1\<rparr>
      in case write_log env path log w of
           (Created, w1) \<Rightarrow> Some (Inr (), ft1, w1)
         | (Create_Error e, w1) \<Rightarrow> Some (Inl e, ft1, w1)
         | (File_Collision, w1) \<Rightarrow> place_log fuel env log ft1 w1)"

text \<open>The outer loop of \<open>send\<close>, from \<open>log_start\<close> on.\<close>

function send_logs ::
    "nat \<Rightarrow> file_env \<Rightarrow> string \<Rightarrow> nat \<Rightarrow> file_transport \<Rightarrow> file_world \<Rightarrow>
     ((file_error + send_result) \<times> file_transport \<times> file_world) option" where
  "send_logs fuel env payload log_start ft w =
     (if \<not> log_start < length payload then Some (Inr Sent, ft, w)
      else
        let newline = find_from [LF] payload log_start;
            log = (case newline of None \<Rightarrow> drop log_start payload
                   | Some n \<Rightarrow> substr payload log_start (n - log_start + 1))
        in case place_log fuel env log ft w of
             None \<Rightarrow> None
           | Some (Inl e, ft1, w1) \<Rightarrow> Some (Inl e, ft1, w1)
           | Some (Inr _, ft1, w1) \<Rightarrow>
               (let ft2 = ft1\<lparr>ft_file_count := ft_file_count ft1 + 1,
                              ft_total_size := ft_total_size ft1 + of_nat (length log)\<rparr>
                in case newline of
                     None \<Rightarrow> Some (Inr Sent, ft2, w1)
                   | Some n \<Rightarrow> send_logs fuel env payload (n + 1) ft2 w1))"
  by pat_completeness auto
termination
  by (relation "measure (\<lambda>(fuel, env, payload, log_start, ft, w). length payload - log_start)")
     (auto dest!: find_from_Some(1) [OF sym])

declare send_logs.simps [simp del]

definition log_count_of :: "string \<Rightarrow> nat" where
  "log_count_of payload =
     count_list payload LF + (if last payload = LF then 0 else 1)"

definition file_send ::
    "nat \<Rightarrow> file_env \<Rightarrow> int \<Rightarrow> string \<Rightarrow> file_transport \<Rightarrow> file_world \<Rightarrow>
     ((file_error + send_result) \<times> file_transport \<times> file_world) option" where
  "file_send fuel env steady payload ft w =
     (if ft_timestamp ft = [] then Some (Inl Not_Connected, ft, w)
      else if payload = [] then Some (Inr Sent, ft, w)
      else if 0 < ft_max_duration ft \<and> ft_max_duration ft * 1000000 \<le> steady - ft_started_at ft
      then Some (Inr DurationLimitReached, ft, w)
      else if 0 < ft_max_total_bytes ft \<and>
              (ft_max_total_bytes ft \<le> ft_total_size ft \<or>
               ft_max_total_bytes ft - ft_total_size ft < of_nat (length payload))
      then Some (Inr TotalBytesLimitReached, ft, w)
      else if 0 < ft_max_file_count ft \<and>
              (ucast (ft_max_file_count ft) \<le> ft_file_count ft \<or>
               ucast (ft_max_file_count ft) - ft_file_count ft < (of_nat (log_count_of payload) :: u64))
      then Some (Inr FileCountLimitReached, ft, w)
      else send_logs fuel env payload 0 ft w)"

subsection \<open>Lines\<close>

text \<open>The logs of a payload: its lines, each with its line feed, the last one possibly without.\<close>

fun split_lines :: "string \<Rightarrow> string list" where
  "split_lines [] = []"
| "split_lines (c # cs) =
     (if c = LF then [LF] # split_lines cs
      else case split_lines cs of [] \<Rightarrow> [[c]] | l # ls \<Rightarrow> (c # l) # ls)"

lemma concat_split_lines [simp]: "concat (split_lines s) = s"
  by (induction s) (auto split: list.splits)

lemma split_lines_eq_Nil [simp]: "split_lines s = [] \<longleftrightarrow> s = []"
  by (cases s) (auto split: list.splits)

lemma length_split_lines: "s \<noteq> [] \<Longrightarrow> length (split_lines s) = log_count_of s"
proof (induction s)
  case (Cons c cs)
  show ?case
  proof (cases "cs = []")
    case True
    then show ?thesis by (simp add: log_count_of_def)
  next
    case False
    with Cons have "length (split_lines cs) = log_count_of cs" by simp
    with False show ?thesis by (cases "split_lines cs") (auto simp: log_count_of_def)
  qed
qed simp

lemma split_lines_None: "find_sub [LF] s = None \<Longrightarrow> s \<noteq> [] \<Longrightarrow> split_lines s = [s]"
proof (induction s)
  case (Cons c cs)
  then show ?case by (cases "cs = []") (auto simp: starts_with_def split: if_splits)
qed simp

lemma split_lines_Some:
  "find_sub [LF] s = Some i \<Longrightarrow> split_lines s = take (Suc i) s # split_lines (drop (Suc i) s)"
proof (induction s arbitrary: i)
  case (Cons c cs)
  then show ?case
    by (cases "c = LF") (auto simp: starts_with_def split: if_splits)
qed simp

text \<open>The loop of \<open>send\<close> over the list of the logs.\<close>

fun send_list ::
    "nat \<Rightarrow> file_env \<Rightarrow> string list \<Rightarrow> file_transport \<Rightarrow> file_world \<Rightarrow>
     ((file_error + send_result) \<times> file_transport \<times> file_world) option" where
  "send_list fuel env [] ft w = Some (Inr Sent, ft, w)"
| "send_list fuel env (log # logs) ft w =
     (case place_log fuel env log ft w of
        None \<Rightarrow> None
      | Some (Inl e, ft1, w1) \<Rightarrow> Some (Inl e, ft1, w1)
      | Some (Inr _, ft1, w1) \<Rightarrow>
          send_list fuel env logs
            (ft1\<lparr>ft_file_count := ft_file_count ft1 + 1,
                 ft_total_size := ft_total_size ft1 + of_nat (length log)\<rparr>) w1)"

lemma send_logs_eq:
  "send_logs fuel env payload s ft w = send_list fuel env (split_lines (drop s payload)) ft w"
proof (induction fuel env payload s ft w rule: send_logs.induct)
  case (1 fuel env payload s ft w)
  show ?case
  proof (cases "s < length payload")
    case False
    then show ?thesis by (subst send_logs.simps) simp
  next
    case True
    let ?r = "drop s payload"
    have r: "?r \<noteq> []" using True by simp
    show ?thesis
    proof (cases "find_sub [LF] ?r")
      case None
      with True r show ?thesis
        by (subst send_logs.simps)
           (auto simp: find_from_def split_lines_None Let_def split: option.splits sum.splits)
    next
      case (Some i)
      then have f: "find_from [LF] payload s = Some (s + i)" using True by (simp add: find_from_def)
      note IH = "1.IH" [OF _ refl refl, unfolded f]
      show ?thesis
        using True IH
        by (subst send_logs.simps)
           (auto simp: f split_lines_Some [OF Some] substr_def Let_def add.commute
            split: option.splits sum.splits)
    qed
  qed
qed

subsection \<open>What a call does to the file system\<close>

lemma write_all_other:
  "q \<noteq> path \<Longrightarrow> fw_files (snd (write_all env path rest w)) q = fw_files w q"
proof (induction env path rest w rule: write_all.induct)
  case (1 env path rest w)
  then show ?case by (subst write_all.simps) (auto simp: Let_def split: sum.splits)
qed

lemma write_all_completed:
  "fw_completed (snd (write_all env path rest w)) = fw_completed w"
proof (induction env path rest w rule: write_all.induct)
  case (1 env path rest w)
  then show ?case by (subst write_all.simps) (auto simp: Let_def split: sum.splits)
qed

lemma write_log_collision:
  "fw_files w path \<noteq> None \<Longrightarrow> write_log env path log w = (File_Collision, w)"
  by (simp add: write_log_def create_exclusive_def)

lemma write_log_collision_iff:
  "fst (write_log env path log w) = File_Collision \<longleftrightarrow> fw_files w path \<noteq> None"
  by (auto simp: write_log_def create_exclusive_def Let_def close_file_def
      split: option.splits prod.splits sum.splits)

lemma write_log_other:
  "q \<noteq> path \<Longrightarrow> fw_files (snd (write_log env path log w)) q = fw_files w q"
  using write_all_other [of q path env log "w\<lparr>fw_files := (fw_files w)(path \<mapsto> [])\<rparr>"]
  by (auto simp: write_log_def create_exclusive_def Let_def close_file_def remove_file_def
      split: option.splits prod.splits sum.splits)

lemma write_log_keeps:
  "fw_files w q = Some c \<Longrightarrow> fw_files (snd (write_log env path log w)) q = Some c"
  by (cases "q = path") (simp_all add: write_log_collision write_log_other)

lemma write_log_dom:
  "dom (fw_files (snd (write_log env path log w))) \<subseteq> insert path (dom (fw_files w))"
  using write_log_other by (fastforce simp: dom_def)

definition file_env_ok :: "file_env \<Rightarrow> bool" where
  "file_env_ok env \<longleftrightarrow>
     (\<forall>path. fe_open env path = None) \<and> (\<forall>n. fe_close env n = None) \<and>
     (\<forall>n size. 0 < size \<longrightarrow> (\<exists>k. fe_write env n size = Inr k \<and> 0 < k \<and> k \<le> size))"

lemma write_all_ok:
  assumes "file_env_ok env" "fw_files w path = Some c"
  shows "\<exists>w'. write_all env path rest w = (Inr (), w') \<and> fw_files w' = (fw_files w)(path \<mapsto> c @ rest)"
  using assms(2)
proof (induction rest arbitrary: w c rule: measure_induct_rule [of length])
  case (less rest)
  show ?case
  proof (cases "rest = []")
    case True
    with less show ?thesis by (subst write_all.simps) (auto simp: fun_upd_idem)
  next
    case False
    let ?chunk = "min (length rest) 9223372036854775807"
    obtain k where k: "fe_write env (fw_writes w) ?chunk = Inr k" "0 < k" "k \<le> ?chunk"
      using assms(1) False unfolding file_env_ok_def by (metis length_greater_0_conv min_def zero_less_numeral)
    let ?w = "w\<lparr>fw_writes := Suc (fw_writes w), fw_files := (fw_files w)(path := Some (c @ take k rest))\<rparr>"
    have "length (drop k rest) < length rest" using False k by simp
    moreover have "fw_files ?w path = Some (c @ take k rest)" by simp
    ultimately obtain w' where w': "write_all env path (drop k rest) ?w = (Inr (), w')"
      "fw_files w' = (fw_files ?w)(path \<mapsto> (c @ take k rest) @ drop k rest)" using less.IH by blast
    have "fw_files w' = (fw_files w)(path \<mapsto> c @ rest)" unfolding w'(2) by simp
    with w'(1) False k less.prems show ?thesis by (subst write_all.simps) (auto simp: Let_def)
  qed
qed

lemma write_log_ok:
  assumes "file_env_ok env" "fw_files w path = None"
  shows "\<exists>w'. write_log env path log w = (Created, w') \<and> fw_files w' = (fw_files w)(path \<mapsto> log)
           \<and> fw_completed w' = fw_completed w @ [path]"
proof -
  let ?w = "w\<lparr>fw_files := (fw_files w)(path \<mapsto> [])\<rparr>"
  from write_all_ok [OF assms(1), of ?w path "[]" log] obtain w' where
    w': "write_all env path log ?w = (Inr (), w')" "fw_files w' = (fw_files w)(path \<mapsto> log)" by auto
  with write_all_completed [of env path log ?w] assms show ?thesis
    by (auto simp: write_log_def create_exclusive_def close_file_def file_env_ok_def)
qed

subsection \<open>Names\<close>

lemma file_path_eq_iff:
  assumes "unat i < 2 ^ 64 - 1" "unat j < 2 ^ 64 - 1"
  shows "file_path ft i = file_path ft j \<longleftrightarrow> i = j"
proof -
  have pad: "zero_pad 4 (to_dec m) = zero_pad 4 (to_dec n) \<longleftrightarrow> m = n" for m n
    by (metis dec_value_to_dec dec_value_zero_pad)
  have suc: "unat (k + 1) = Suc (unat k)" if "unat k < 2 ^ 64 - 1" for k :: u64
    using that by (simp add: unat_word_ariths(1))
  have inj: "unat k = unat l \<longleftrightarrow> k = l" for k l :: u64
    by (simp add: word_eq_iff_unsigned [where ?'a = nat])
  have "(if 0 < i then ''_'' @ zero_pad 4 (to_dec (unat (i + 1))) else []) @ ''.log''
      = (if 0 < j then ''_'' @ zero_pad 4 (to_dec (unat (j + 1))) else []) @ ''.log'' \<longleftrightarrow> i = j"
    using assms by (auto simp: suc pad inj word_gt_0 Cons_eq_append_conv)
  then show ?thesis by (simp add: file_path_def)
qed

subsection \<open>The loops\<close>

text \<open>The inner loop ends when there are fewer files than attempts.\<close>

lemma place_log_None:
  "place_log fuel env log ft w = None \<Longrightarrow>
     k < fuel \<Longrightarrow> fw_files w (file_path ft (ft_next_file_index ft + of_nat k)) \<noteq> None"
proof (induction fuel arbitrary: ft k)
  case (Suc fuel)
  let ?path = "file_path ft (ft_next_file_index ft)"
  let ?ft = "ft\<lparr>ft_next_file_index := ft_next_file_index ft + 1\<rparr>"
  have col: "fw_files w ?path \<noteq> None"
  proof
    assume "fw_files w ?path = None"
    with write_log_collision_iff [of env ?path log w] Suc.prems show False
      by (auto simp: Let_def split: prod.splits created.splits)
  qed
  then have "place_log fuel env log ?ft w = None"
    using Suc.prems by (simp add: write_log_collision)
  from Suc.IH [OF this] col Suc.prems(2) show ?case
    by (cases k) (simp_all add: file_path_def add_ac)
qed simp

lemma place_log_ends:
  assumes "finite (dom (fw_files w))" "card (dom (fw_files w)) < fuel"
    "unat (ft_next_file_index ft) + fuel < 2 ^ 64"
  shows "place_log fuel env log ft w \<noteq> None"
proof
  assume none: "place_log fuel env log ft w = None"
  let ?p = "\<lambda>k. file_path ft (ft_next_file_index ft + of_nat k)"
  have idx: "unat (ft_next_file_index ft + of_nat k) = unat (ft_next_file_index ft) + k" if "k < fuel" for k
    using assms(3) that by (simp add: unat_word_ariths(1) unat_of_nat take_bit_eq_mod mod_simps)
  have "inj_on ?p {..<fuel}"
  proof (rule inj_onI)
    fix k l assume "k \<in> {..<fuel}" "l \<in> {..<fuel}" and eq: "?p k = ?p l"
    then have kl: "k < fuel" "l < fuel" by auto
    have "unat (ft_next_file_index ft) + k < 2 ^ 64 - 1" "unat (ft_next_file_index ft) + l < 2 ^ 64 - 1"
      using assms(3) kl by linarith+
    from file_path_eq_iff [OF this [folded idx [OF kl(1)] idx [OF kl(2)]], of ft] eq
    have "ft_next_file_index ft + of_nat k = ft_next_file_index ft + of_nat l" by (rule iffD1)
    then have "unat (ft_next_file_index ft + of_nat k) = unat (ft_next_file_index ft + of_nat l)"
      by (rule arg_cong)
    then show "k = l" by (simp only: idx [OF kl(1)] idx [OF kl(2)] add_left_cancel)
  qed
  then have "fuel = card (?p ` {..<fuel})" by (simp add: card_image)
  also have "\<dots> \<le> card (dom (fw_files w))"
    using place_log_None [OF none] by (intro card_mono assms(1)) auto
  finally show False using assms(2) by simp
qed

text \<open>What the inner loop changes of the transport, and that it keeps every existing file.\<close>

lemma place_log_result:
  "place_log fuel env log ft w = Some (r, ft', w') \<Longrightarrow>
     (\<exists>k \<le> fuel. ft' = ft\<lparr>ft_next_file_index := ft_next_file_index ft + of_nat k\<rparr>) \<and>
     (\<forall>q c. fw_files w q = Some c \<longrightarrow> fw_files w' q = Some c) \<and>
     (\<exists>path. dom (fw_files w') \<subseteq> insert path (dom (fw_files w)))"
proof (induction fuel arbitrary: ft)
  case (Suc fuel)
  let ?path = "file_path ft (ft_next_file_index ft)"
  let ?ft = "ft\<lparr>ft_next_file_index := ft_next_file_index ft + 1\<rparr>"
  show ?case
  proof (cases "fw_files w ?path = None")
    case True
    with Suc.prems write_log_collision_iff [of env ?path log w]
    have "ft' = ?ft" "w' = snd (write_log env ?path log w)"
      by (auto simp: Let_def split: prod.splits created.splits)
    with write_log_keeps [of w _ _ env ?path log] write_log_dom [of env ?path log w] show ?thesis
      by (intro conjI exI [of _ 1] exI [of _ ?path]) auto
  next
    case False
    with Suc.prems have "place_log fuel env log ?ft w = Some (r, ft', w')"
      by (auto simp: write_log_collision)
    from Suc.IH [OF this] obtain k where
      k: "k \<le> fuel" "ft' = ?ft\<lparr>ft_next_file_index := ft_next_file_index ?ft + of_nat k\<rparr>" and
      rest: "\<forall>q c. fw_files w q = Some c \<longrightarrow> fw_files w' q = Some c"
      "\<exists>path. dom (fw_files w') \<subseteq> insert path (dom (fw_files w))" by blast
    from k have "Suc k \<le> Suc fuel \<and> ft' = ft\<lparr>ft_next_file_index := ft_next_file_index ft + of_nat (Suc k)\<rparr>"
      by (simp add: add_ac)
    with rest show ?thesis by blast
  qed
qed simp

lemma place_log_ok:
  "file_env_ok env \<Longrightarrow> place_log fuel env log ft w = Some (r, ft', w') \<Longrightarrow>
     r = Inr () \<and> (\<exists>path. fw_files w path = None \<and> fw_files w' = (fw_files w)(path \<mapsto> log)
                          \<and> fw_completed w' = fw_completed w @ [path])"
proof (induction fuel arbitrary: ft)
  case (Suc fuel)
  let ?path = "file_path ft (ft_next_file_index ft)"
  show ?case
  proof (cases "fw_files w ?path = None")
    case True
    from write_log_ok [OF Suc.prems(1) this, of log] Suc.prems(2) True show ?thesis
      by (auto simp: Let_def)
  next
    case False
    with Suc show ?thesis by (auto simp: write_log_collision)
  qed
qed simp

lemma send_list_keeps:
  "send_list fuel env logs ft w = Some (r, ft', w') \<Longrightarrow> fw_files w q = Some c \<Longrightarrow> fw_files w' q = Some c"
proof (induction logs arbitrary: ft w)
  case (Cons log logs)
  then show ?case
    by (auto split: option.splits prod.splits sum.splits dest!: place_log_result)
qed simp

lemma send_list_counters:
  "send_list fuel env logs ft w = Some (r, ft', w') \<Longrightarrow>
     \<exists>k i. k \<le> length logs
       \<and> ft' = ft\<lparr>ft_next_file_index := i, ft_file_count := ft_file_count ft + of_nat k,
                 ft_total_size := ft_total_size ft + of_nat (length (concat (take k logs)))\<rparr>
       \<and> (r = Inr Sent \<and> k = length logs \<or> (\<exists>e. r = Inl e))"
proof (induction logs arbitrary: ft w)
  case Nil
  then show ?case by (intro exI [of _ 0] exI [of _ "ft_next_file_index ft"]) simp
next
  case (Cons log logs)
  then obtain r1 ft1 w1 where p: "place_log fuel env log ft w = Some (r1, ft1, w1)"
    by (auto split: option.splits)
  from place_log_result [OF p] obtain i
    where ft1: "ft1 = ft\<lparr>ft_next_file_index := i\<rparr>" by blast
  show ?case
  proof (cases r1)
    case (Inl e)
    with Cons.prems p have "r = Inl e" "ft' = ft1" by auto
    with ft1 show ?thesis by (intro exI [of _ 0] exI [of _ i]) simp
  next
    case (Inr u)
    let ?ft = "ft1\<lparr>ft_file_count := ft_file_count ft1 + 1,
                 ft_total_size := ft_total_size ft1 + of_nat (length log)\<rparr>"
    from Cons.prems p Inr have "send_list fuel env logs ?ft w1 = Some (r, ft', w')" by simp
    from Cons.IH [OF this] obtain k i where k: "k \<le> length logs"
      "ft' = ?ft\<lparr>ft_next_file_index := i, ft_file_count := ft_file_count ?ft + of_nat k,
                 ft_total_size := ft_total_size ?ft + of_nat (length (concat (take k logs)))\<rparr>"
      "r = Inr Sent \<and> k = length logs \<or> (\<exists>e. r = Inl e)" by blast
    with ft1 show ?thesis
      by (intro exI [of _ "Suc k"] exI [of _ i]) (simp add: add_ac)
  qed
qed

lemma send_list_ok:
  "file_env_ok env \<Longrightarrow> send_list fuel env logs ft w = Some (r, ft', w') \<Longrightarrow>
     r = Inr Sent \<and> (\<exists>paths. length paths = length logs \<and> distinct paths
       \<and> (\<forall>p \<in> set paths. fw_files w p = None) \<and> fw_files w' = (fw_files w)(paths [\<mapsto>] logs)
       \<and> fw_completed w' = fw_completed w @ paths)"
proof (induction logs arbitrary: ft w)
  case (Cons log logs)
  then obtain r1 ft1 w1 where p: "place_log fuel env log ft w = Some (r1, ft1, w1)"
    by (auto split: option.splits)
  from place_log_ok [OF Cons.prems(1) p] obtain path where path: "r1 = Inr ()"
    "fw_files w path = None" "fw_files w1 = (fw_files w)(path \<mapsto> log)"
    "fw_completed w1 = fw_completed w @ [path]" by blast
  let ?ft = "ft1\<lparr>ft_file_count := ft_file_count ft1 + 1,
               ft_total_size := ft_total_size ft1 + of_nat (length log)\<rparr>"
  from Cons.prems p path have "send_list fuel env logs ?ft w1 = Some (r, ft', w')" by simp
  from Cons.IH [OF Cons.prems(1) this] obtain paths where paths: "r = Inr Sent"
    "length paths = length logs" "distinct paths" "\<forall>p \<in> set paths. fw_files w1 p = None"
    "fw_files w' = (fw_files w1)(paths [\<mapsto>] logs)" "fw_completed w' = fw_completed w1 @ paths" by blast
  have "path \<notin> set paths" using paths(4) path(3) by auto
  moreover have "\<forall>p \<in> set paths. fw_files w p = None"
    using paths(4) path(3) by (auto split: if_splits)
  ultimately show ?case using paths path
    by (intro conjI exI [of _ "path # paths"]) auto
qed simp

lemma send_list_ends:
  assumes "finite (dom (fw_files w))" "card (dom (fw_files w)) + length logs < fuel"
    "unat (ft_next_file_index ft) + length logs * fuel < 2 ^ 64"
  shows "send_list fuel env logs ft w \<noteq> None"
  using assms
proof (induction logs arbitrary: ft w)
  case (Cons log logs)
  from place_log_ends [of w fuel ft env log] Cons.prems obtain r1 ft1 w1
    where p: "place_log fuel env log ft w = Some (r1, ft1, w1)" by fastforce
  from place_log_result [OF p] obtain k path where k: "k \<le> fuel"
    "ft1 = ft\<lparr>ft_next_file_index := ft_next_file_index ft + of_nat k\<rparr>"
    and dom: "dom (fw_files w1) \<subseteq> insert path (dom (fw_files w))" by blast
  have fin: "finite (dom (fw_files w1))" using finite_subset [OF dom] Cons.prems(1) by simp
  have "card (dom (fw_files w1)) \<le> Suc (card (dom (fw_files w)))"
    using card_mono [OF _ dom] Cons.prems(1) by (simp add: card_insert_if split: if_splits)
  then have card: "card (dom (fw_files w1)) + length logs < fuel" using Cons.prems(2) by simp
  have "unat (ft_next_file_index ft + of_nat k) = unat (ft_next_file_index ft) + k"
    using Cons.prems(3) k(1) by (simp add: unat_word_ariths(1) unat_of_nat take_bit_eq_mod mod_simps)
  then have idx: "unat (ft_next_file_index ft1) + length logs * fuel < 2 ^ 64"
    using Cons.prems(3) k by simp
  show ?case
  proof (cases r1)
    case (Inr u)
    from Cons.IH [OF fin card, of "ft1\<lparr>ft_file_count := ft_file_count ft1 + 1,
        ft_total_size := ft_total_size ft1 + of_nat (length log)\<rparr>"] idx p Inr show ?thesis by simp
  qed (simp add: p)
qed simp

text \<open>The limits of a connection are respected by what it has counted so far.\<close>

definition limits_ok :: "file_transport \<Rightarrow> bool" where
  "limits_ok ft \<longleftrightarrow>
     (0 < ft_max_total_bytes ft \<longrightarrow> ft_total_size ft \<le> ft_max_total_bytes ft) \<and>
     (0 < ft_max_file_count ft \<longrightarrow> ft_file_count ft \<le> ucast (ft_max_file_count ft))"

lemma add_within_limit:
  fixes a m :: u64
  assumes "a \<le> m" "\<not> m - a < of_nat n" "k \<le> n" "n < 2 ^ 64"
  shows "a + of_nat k \<le> m" "unat (a + of_nat k) = unat a + k"
proof -
  have n: "unat (of_nat n :: u64) = n" using assms(4) by (simp add: unat_of_nat take_bit_eq_mod)
  have k: "unat (of_nat k :: u64) = k" using assms(3,4) by (simp add: unat_of_nat take_bit_eq_mod)
  have "unat (m - a) = unat m - unat a" using assms(1) by (simp add: unat_sub)
  moreover have "unat a \<le> unat m" using assms(1) by (simp add: word_le_nat_alt)
  moreover have "n \<le> unat (m - a)" using assms(2) n by (simp add: word_less_nat_alt)
  ultimately have le: "unat a + k \<le> unat m" using assms(3) by linarith
  then have "unat a + k < 2 ^ 64" using unat_u64_less [of m] by linarith
  then show e: "unat (a + of_nat k) = unat a + k" by (simp add: unat_word_ariths(1) k)
  show "a + of_nat k \<le> m" using le e by (simp add: word_le_nat_alt)
qed

lemma log_count_le: "log_count_of s \<le> length s" if "s \<noteq> []"
proof -
  have "length (split_lines t) \<le> length t" for t
    by (induction t) (auto split: list.splits)
  with length_split_lines [OF that] show ?thesis by metis
qed

lemma file_send_cases:
  assumes "file_send fuel env steady payload ft w = Some (r, ft', w')"
  shows "r \<in> {Inl Not_Connected, Inr DurationLimitReached, Inr TotalBytesLimitReached, Inr FileCountLimitReached}
           \<and> ft' = ft \<and> w' = w
         \<or> payload = [] \<and> r = Inr Sent \<and> ft' = ft \<and> w' = w
         \<or> payload \<noteq> [] \<and> ft_timestamp ft \<noteq> []
           \<and> \<not> (0 < ft_max_total_bytes ft \<and> (ft_max_total_bytes ft \<le> ft_total_size ft \<or>
               ft_max_total_bytes ft - ft_total_size ft < of_nat (length payload)))
           \<and> \<not> (0 < ft_max_file_count ft \<and> (ucast (ft_max_file_count ft) \<le> ft_file_count ft \<or>
               ucast (ft_max_file_count ft) - ft_file_count ft < (of_nat (log_count_of payload) :: u64)))
           \<and> send_list fuel env (split_lines payload) ft w = Some (r, ft', w')"
  using assms unfolding file_send_def send_logs_eq by (auto split: if_splits)

lemma file_send_limits_ok:
  assumes "limits_ok ft" "length payload < 2 ^ 64"
    and send: "file_send fuel env steady payload ft w = Some (r, ft', w')"
  shows "limits_ok ft'"
  using file_send_cases [OF send]
proof (elim disjE conjE)
  assume "payload \<noteq> []"
    and bytes: "\<not> (0 < ft_max_total_bytes ft \<and> (ft_max_total_bytes ft \<le> ft_total_size ft \<or>
               ft_max_total_bytes ft - ft_total_size ft < of_nat (length payload)))"
    and files: "\<not> (0 < ft_max_file_count ft \<and> (ucast (ft_max_file_count ft) \<le> ft_file_count ft \<or>
               ucast (ft_max_file_count ft) - ft_file_count ft < (of_nat (log_count_of payload) :: u64)))"
    and sl: "send_list fuel env (split_lines payload) ft w = Some (r, ft', w')"
  from send_list_counters [OF sl] obtain k i where k: "k \<le> length (split_lines payload)"
    "ft' = ft\<lparr>ft_next_file_index := i, ft_file_count := ft_file_count ft + of_nat k,
        ft_total_size := ft_total_size ft + of_nat (length (concat (take k (split_lines payload))))\<rparr>"
    by blast
  have "concat (take k (split_lines payload)) @ concat (drop k (split_lines payload)) = payload"
    by (simp flip: concat_append)
  then have "length (concat (take k (split_lines payload))) \<le> length payload"
    by (metis length_append le_add1)
  then have total: "ft_total_size ft + of_nat (length (concat (take k (split_lines payload)))) \<le> ft_max_total_bytes ft"
    if "0 < ft_max_total_bytes ft"
    using bytes that assms(2) by (intro add_within_limit(1) [of _ _ "length payload"]) auto
  have "log_count_of payload < 2 ^ 64" "k \<le> log_count_of payload"
    using log_count_le [OF \<open>payload \<noteq> []\<close>] assms(2) k(1) length_split_lines [OF \<open>payload \<noteq> []\<close>] by linarith+
  then have "ft_file_count ft + of_nat k \<le> ucast (ft_max_file_count ft)" if "0 < ft_max_file_count ft"
    using files that by (intro add_within_limit(1) [of _ _ "log_count_of payload"]) auto
  with total k(2) show ?thesis by (simp add: limits_ok_def)
qed (use assms(1) in auto)

subsection \<open>The transport contract\<close>

text \<open>
  What has been delivered: the contents of the completed files, in order. The steady clock is read
  by each call; its reading is a function of the number of files so far.
\<close>

definition file_delivered :: "file_transport \<times> file_world \<Rightarrow> string" where
  "file_delivered s = concat (map (\<lambda>p. case fw_files (snd s) p of None \<Rightarrow> [] | Some c \<Rightarrow> c)
                               (fw_completed (snd s)))"

definition file_inv :: "file_transport \<times> file_world \<Rightarrow> bool" where
  "file_inv s \<longleftrightarrow> (\<forall>p \<in> set (fw_completed (snd s)). fw_files (snd s) p \<noteq> None)"

definition file_transport_send ::
    "nat \<Rightarrow> (nat \<Rightarrow> nat) \<Rightarrow> (file_world \<Rightarrow> int) \<Rightarrow> string \<Rightarrow> file_transport \<times> file_world \<Rightarrow>
     file_error option + send_result \<times> file_transport \<times> file_world" where
  "file_transport_send fuel progress steady payload s =
     (case file_send fuel
             \<lparr>fe_open = (\<lambda>_. None), fe_write = (\<lambda>n size. Inr (max 1 (min (progress n) size))),
              fe_close = (\<lambda>_. None), fe_remove = (\<lambda>_. True)\<rparr>
             (steady (snd s)) payload (fst s) (snd s) of
        None \<Rightarrow> Inl None
      | Some (Inl e, _) \<Rightarrow> Inl (Some e)
      | Some (Inr r, s') \<Rightarrow> Inr (r, s'))"

lemma good_file_env [simp]:
  "file_env_ok \<lparr>fe_open = (\<lambda>_. None), fe_write = (\<lambda>n size. Inr (max 1 (min (progress n) size))),
                fe_close = (\<lambda>_. None), fe_remove = (\<lambda>_. True)\<rparr>"
  by (auto simp: file_env_ok_def)

lemma map_upds_distinct_get:
  "distinct ps \<Longrightarrow> length ps = length xs \<Longrightarrow> map (m(ps [\<mapsto>] xs)) ps = map Some xs"
proof (induction ps arbitrary: xs m)
  case (Cons p ps)
  then obtain x xs' where xs: "xs = x # xs'" by (cases xs) auto
  have "map (\<lambda>a. if a = p then Some x else (m(ps [\<mapsto>] xs')) a) ps = map (m(ps [\<mapsto>] xs')) ps"
    using Cons.prems(1) by (intro map_cong) auto
  with Cons xs show ?case by simp
qed simp

lemma file_transport_send_Sent:
  assumes "file_inv s" "file_transport_send fuel progress steady payload s = Inr (r, s')"
  shows "file_inv s' \<and> (r = Sent \<longrightarrow> file_delivered s' = file_delivered s @ payload)
         \<and> (r \<noteq> Sent \<longrightarrow> file_delivered s' = file_delivered s)"
proof -
  obtain ft w ft' w' where s: "s = (ft, w)" "s' = (ft', w')" by fastforce
  let ?env = "\<lparr>fe_open = (\<lambda>_. None), fe_write = (\<lambda>n size. Inr (max 1 (min (progress n) size))),
      fe_close = (\<lambda>_. None), fe_remove = (\<lambda>_. True)\<rparr>"
  from assms(2) s have "file_send fuel ?env (steady w) payload ft w = Some (Inr r, ft', w')"
    by (auto simp: file_transport_send_def split: option.splits sum.splits)
  from file_send_cases [OF this] show ?thesis
  proof (elim disjE conjE)
    assume "send_list fuel ?env (split_lines payload) ft w = Some (Inr r, ft', w')"
    from send_list_ok [OF good_file_env this] obtain paths where p: "r = Sent"
      "length paths = length (split_lines payload)" "distinct paths"
      "\<forall>p \<in> set paths. fw_files w p = None" "fw_files w' = (fw_files w)(paths [\<mapsto>] split_lines payload)"
      "fw_completed w' = fw_completed w @ paths" by auto
    have old: "fw_files w' q = fw_files w q" if "q \<in> set (fw_completed w)" for q
      using that p(4,5) assms(1) s by (metis file_inv_def map_upds_apply_nontin snd_conv)
    have new: "map (fw_files w') paths = map Some (split_lines payload)"
      unfolding p(5) by (rule map_upds_distinct_get [OF p(3,2)])
    have "concat (map (\<lambda>p. case fw_files w' p of None \<Rightarrow> [] | Some c \<Rightarrow> c) paths) = payload"
      using arg_cong [OF new, of "\<lambda>l. concat (map (\<lambda>x. case x of None \<Rightarrow> [] | Some c \<Rightarrow> c) l)"]
      by (simp add: o_def)
    moreover have "\<forall>p \<in> set paths. fw_files w' p \<noteq> None"
      using arg_cong [OF new, of set] by auto
    ultimately show ?thesis
      using old p(1,6) assms(1) s by (auto simp: file_inv_def file_delivered_def cong: map_cong)
  qed (use assms(1) s in \<open>auto simp: file_inv_def file_delivered_def\<close>)
qed

interpretation file_tr: log_transport "file_transport_send fuel progress steady" file_inv file_delivered
  for fuel progress steady
  by unfold_locales (auto dest: file_transport_send_Sent)

subsection \<open>A run\<close>

text \<open>Two lines sent to a directory where the first name is already taken.\<close>

definition sample_file_env :: file_env where
  "sample_file_env =
     \<lparr>fe_open = (\<lambda>_. None), fe_write = (\<lambda>_ size. Inr size), fe_close = (\<lambda>_. None),
      fe_remove = (\<lambda>_. True)\<rparr>"

definition sample_files :: file_world where
  "sample_files =
     \<lparr>fw_files = [''out/20260101_000000_000.log'' \<mapsto> ''old''], fw_writes = 0, fw_closes = 0,
      fw_completed = []\<rparr>"

definition sample_file_transport :: file_transport where
  "sample_file_transport = (file_transport_init ''out'')\<lparr>ft_timestamp := ''20260101_000000_000''\<rparr>"

lemmas file_run_simps =
  sample_file_env_def sample_files_def sample_file_transport_def file_transport_init_def
  file_send_def send_logs_eq write_log_def create_exclusive_def file_path_def path_append_def
  write_all.simps close_file_def zero_pad_def to_dec.simps digit_char_numerals replicate_small Let_def

lemma sample_send:
  "file_send (Suc (Suc (Suc 0))) sample_file_env 0 (''a'' @ [LF] @ ''b'') sample_file_transport sample_files =
   Some (Inr Sent,
     sample_file_transport\<lparr>ft_next_file_index := 3, ft_file_count := 2, ft_total_size := 3\<rparr>,
     \<lparr>fw_files = [''out/20260101_000000_000.log'' \<mapsto> ''old'',
                  ''out/20260101_000000_000_0002.log'' \<mapsto> ''a'' @ [LF],
                  ''out/20260101_000000_000_0003.log'' \<mapsto> ''b''],
      fw_writes = 2, fw_closes = 2,
      fw_completed = [''out/20260101_000000_000_0002.log'', ''out/20260101_000000_000_0003.log'']\<rparr>)"
  by (simp add: file_run_simps)

subsection \<open>Properties\<close>

text \<open>
  C4. Generation never destroys data: whatever the system calls do, and whether \<open>send\<close> returns or
  throws, a file that exists before a call of \<open>send\<close> still exists afterwards with the same content.
\<close>

theorem file_send_keeps_files:
  assumes "file_send fuel env steady payload ft w = Some (r, ft', w')"
    and "fw_files w path = Some content"
  shows "fw_files w' path = Some content"
  using file_send_cases [OF assms(1)] assms(2) by (auto dest: send_list_keeps)

theorem file_send_keeps_files_witness:
  "\<exists>ft w. file_send (Suc (Suc (Suc 0))) sample_file_env 0 (''a'' @ [LF] @ ''b'') sample_file_transport
           sample_files = Some (Inr Sent, ft, w) \<and> fw_files w ''out/20260101_000000_000.log'' = Some ''old''"
  using file_send_keeps_files [OF sample_send, of "''out/20260101_000000_000.log''" "''old''"] sample_send
  by (simp add: sample_files_def)

text \<open>
  C5. One file per log line: with a system whose calls succeed (writes may be partial), a connected
  transport without limits returns \<open>Sent\<close> from \<open>send\<close> after finitely many name collisions. The lines
  of the payload are then the contents of as many new, distinct files, in order, nothing else in
  the file system has changed, and the counters have grown by the number of lines and of bytes.
\<close>

theorem file_send_one_file_per_line:
  assumes "file_env_ok env" "ft_timestamp ft \<noteq> []" "payload \<noteq> []"
    and "ft_max_duration ft = 0" "ft_max_total_bytes ft = 0" "ft_max_file_count ft = 0"
    and "finite (dom (fw_files w))" "card (dom (fw_files w)) + log_count_of payload < fuel"
    and "unat (ft_next_file_index ft) + log_count_of payload * fuel < 2 ^ 64"
  shows "\<exists>ft' w' paths. file_send fuel env steady payload ft w = Some (Inr Sent, ft', w')
    \<and> distinct paths \<and> (\<forall>p \<in> set paths. fw_files w p = None)
    \<and> length paths = log_count_of payload \<and> map (fw_files w') paths = map Some (split_lines payload)
    \<and> (\<forall>q. q \<notin> set paths \<longrightarrow> fw_files w' q = fw_files w q)
    \<and> ft_file_count ft' = ft_file_count ft + of_nat (log_count_of payload)
    \<and> ft_total_size ft' = ft_total_size ft + of_nat (length payload)"
proof -
  have send: "file_send fuel env steady payload ft w = send_list fuel env (split_lines payload) ft w"
    using assms(2-6) by (simp add: file_send_def send_logs_eq)
  note len = length_split_lines [OF assms(3)]
  from send_list_ends [of w "split_lines payload" fuel ft env] assms(7-9) obtain r ft' w'
    where s: "send_list fuel env (split_lines payload) ft w = Some (r, ft', w')" by (fastforce simp: len)
  from send_list_ok [OF assms(1) s] obtain paths where p: "r = Inr Sent"
    "length paths = length (split_lines payload)" "distinct paths" "\<forall>p \<in> set paths. fw_files w p = None"
    "fw_files w' = (fw_files w)(paths [\<mapsto>] split_lines payload)" by blast
  from send_list_counters [OF s] p(1) have
    "ft_file_count ft' = ft_file_count ft + of_nat (log_count_of payload)"
    "ft_total_size ft' = ft_total_size ft + of_nat (length payload)" by (auto simp: len)
  with s p len map_upds_distinct_get [OF p(3,2), of "fw_files w"] show ?thesis
    unfolding send by (auto simp: map_upds_apply_nontin intro!: exI [of _ paths])
qed

theorem file_send_one_file_per_line_witness:
  "\<exists>ft w paths. file_send 9 sample_file_env 0 (''a'' @ [LF] @ ''b'') sample_file_transport sample_files
     = Some (Inr Sent, ft, w) \<and> length paths = 2 \<and> map (fw_files w) paths = [Some (''a'' @ [LF]), Some ''b'']"
proof -
  have env: "file_env_ok sample_file_env" by (simp add: file_env_ok_def sample_file_env_def)
  have n: "log_count_of (''a'' @ [LF] @ ''b'') = 2" by (simp add: log_count_of_def)
  have "\<exists>ft' w' paths. file_send 9 sample_file_env 0 (''a'' @ [LF] @ ''b'') sample_file_transport sample_files
      = Some (Inr Sent, ft', w') \<and> distinct paths \<and> (\<forall>p \<in> set paths. fw_files sample_files p = None)
    \<and> length paths = log_count_of (''a'' @ [LF] @ ''b'')
    \<and> map (fw_files w') paths = map Some (split_lines (''a'' @ [LF] @ ''b''))
    \<and> (\<forall>q. q \<notin> set paths \<longrightarrow> fw_files w' q = fw_files sample_files q)
    \<and> ft_file_count ft' = ft_file_count sample_file_transport + of_nat (log_count_of (''a'' @ [LF] @ ''b''))
    \<and> ft_total_size ft' = ft_total_size sample_file_transport + of_nat (length (''a'' @ [LF] @ ''b''))"
    by (rule file_send_one_file_per_line [OF env])
       (simp_all add: n [simplified] sample_file_transport_def file_transport_init_def sample_files_def)
  then obtain ft w paths where "file_send 9 sample_file_env 0 (''a'' @ [LF] @ ''b'') sample_file_transport sample_files
      = Some (Inr Sent, ft, w)" "length paths = log_count_of (''a'' @ [LF] @ ''b'')"
    "map (fw_files w) paths = map Some (split_lines (''a'' @ [LF] @ ''b''))" by blast
  then show ?thesis unfolding n by (intro exI [of _ ft] exI [of _ w] exI [of _ paths]) simp
qed

text \<open>
  The limits hold at all times: no outcome of \<open>send\<close>, errors included, leaves the transport with
  more bytes or more files than configured, and a call that reports a limit has changed nothing.
\<close>

theorem file_send_respects_limits:
  assumes "limits_ok ft" "length payload < 2 ^ 64"
    and "file_send fuel env steady payload ft w = Some (r, ft', w')"
  shows "limits_ok ft' \<and> (r \<in> {Inr DurationLimitReached, Inr TotalBytesLimitReached, Inr FileCountLimitReached}
           \<longrightarrow> ft' = ft \<and> w' = w)"
  using file_send_limits_ok [OF assms] file_send_cases [OF assms(3)]
  by (auto dest!: send_list_counters)

theorem file_send_respects_limits_witness:
  "limits_ok (sample_file_transport\<lparr>ft_next_file_index := 3, ft_file_count := 2, ft_total_size := 3\<rparr>)"
  using file_send_respects_limits [OF _ _ sample_send]
  by (simp add: limits_ok_def sample_file_transport_def file_transport_init_def)

text \<open>
  Batches keep the order: the default \<open>send_batch\<close> over the file transport writes the bytes of a
  prefix of the batch, in order and complete, and all of it exactly when it returns \<open>Sent\<close>.
\<close>

theorem file_batch_delivers_prefix:
  assumes "file_inv s"
    and "default_send_batch (file_transport_send fuel progress steady) payloads s = Inr (r, s')"
  shows "\<exists>k \<le> length payloads. file_delivered s' = file_delivered s @ concat (take k payloads)
           \<and> (r = Sent \<longrightarrow> k = length payloads) \<and> (r \<noteq> Sent \<longrightarrow> k < length payloads)"
  using assms by (rule file_tr.send_batch_prefix)

theorem file_batch_delivers_prefix_witness:
  "\<exists>s k. default_send_batch (file_transport_send 3 (\<lambda>_. 1) (\<lambda>_. 0)) [''a'', ''b'']
         (sample_file_transport\<lparr>ft_max_total_bytes := 1\<rparr>, sample_files) = Inr (TotalBytesLimitReached, s)
       \<and> k < 2 \<and> file_delivered s = concat (take k [''a'', ''b''])"
proof -
  let ?s = "(sample_file_transport\<lparr>ft_max_total_bytes := 1\<rparr>, sample_files)"
  have "\<exists>s. default_send_batch (file_transport_send (Suc (Suc (Suc 0))) (\<lambda>_. 1) (\<lambda>_. 0)) [''a'', ''b''] ?s
      = Inr (TotalBytesLimitReached, s)"
    by (simp add: file_transport_send_def file_run_simps)
  then obtain s where s: "default_send_batch (file_transport_send 3 (\<lambda>_. 1) (\<lambda>_. 0)) [''a'', ''b''] ?s
      = Inr (TotalBytesLimitReached, s)" by (auto simp: numeral_3_eq_3)
  have "file_inv ?s" "file_delivered ?s = []"
    by (simp_all add: file_inv_def file_delivered_def sample_files_def)
  with file_batch_delivers_prefix [OF _ s] obtain k where
    "file_delivered s = concat (take k [''a'', ''b''])" "k < 2" by auto
  with s show ?thesis by blast
qed

end
