(* ===== verification/Csv_Source.thy ===== *)
theory Csv_Source
  imports Paths
begin

text \<open>
  \<open>CsvSampleLogSource\<close> (\<open>infrastructure/csv_sample_log_source.cpp\<close>): the CSV parser as the state
  machine it is, the optional header, and \<open>load\<close>. Reading the file is an input.
\<close>

datatype csv_error =
    Csv_Nul
  | Csv_After_Closing_Quote
  | Csv_Quote_Inside_Field
  | Csv_Unclosed_Quote
  | Csv_Extension
  | Csv_Open
  | Csv_No_Data
  | Csv_Columns nat nat
  | Csv_Empty_Sample nat
  | Csv_No_Samples

record csv_state =
  cs_rows :: "string list list"
  cs_row :: "string list"
  cs_field :: string
  cs_quoted :: bool
  cs_quote_closed :: bool
  cs_row_started :: bool

definition csv_init :: csv_state where
  "csv_init = \<lparr>cs_rows = [], cs_row = [], cs_field = [], cs_quoted = False,
               cs_quote_closed = False, cs_row_started = False\<rparr>"

definition finish_field :: "csv_state \<Rightarrow> csv_state" where
  "finish_field s = s\<lparr>cs_row := cs_row s @ [cs_field s], cs_field := [], cs_quote_closed := False\<rparr>"

definition finish_row :: "csv_state \<Rightarrow> csv_state" where
  "finish_row s =
     (let s1 = (if cs_row_started s \<or> cs_field s \<noteq> [] \<or> cs_row s \<noteq> [] \<or> cs_quote_closed s then
                  let s' = finish_field s
                  in s'\<lparr>cs_rows := cs_rows s' @ [cs_row s'], cs_row := []\<rparr>
                else s)
      in s1\<lparr>cs_row_started := False, cs_quote_closed := False\<rparr>)"

text \<open>
  One round of the loop: the character, whether the next one is given (\<open>next_is\<close>), and the state;
  the result says too whether the next character is skipped (\<open>++index\<close> in the body).
\<close>

definition csv_step :: "char \<Rightarrow> (char \<Rightarrow> bool) \<Rightarrow> csv_state \<Rightarrow> csv_error + csv_state \<times> bool" where
  "csv_step value next_is s =
     (if value = CHR 0x00 then Inl Csv_Nul
      else if cs_quoted s then
        (if value = DQUOTE then
           (if next_is DQUOTE then Inr (s\<lparr>cs_field := cs_field s @ [DQUOTE]\<rparr>, True)
            else Inr (s\<lparr>cs_quoted := False, cs_quote_closed := True\<rparr>, False))
         else if value = CR then Inr (s\<lparr>cs_field := cs_field s @ [LF]\<rparr>, next_is LF)
         else Inr (s\<lparr>cs_field := cs_field s @ [value]\<rparr>, False))
      else if cs_quote_closed s then
        (if value = CHR '','' then Inr ((finish_field s)\<lparr>cs_row_started := True\<rparr>, False)
         else if value = CR \<or> value = LF then Inr (finish_row s, value = CR \<and> next_is LF)
         else Inl Csv_After_Closing_Quote)
      else if value = DQUOTE then
        (if cs_field s \<noteq> [] then Inl Csv_Quote_Inside_Field
         else Inr (s\<lparr>cs_quoted := True, cs_row_started := True\<rparr>, False))
      else if value = CHR '','' then Inr ((finish_field s)\<lparr>cs_row_started := True\<rparr>, False)
      else if value = CR \<or> value = LF then Inr (finish_row s, value = CR \<and> next_is LF)
      else Inr (s\<lparr>cs_field := cs_field s @ [value], cs_row_started := True\<rparr>, False))"

function csv_loop :: "string \<Rightarrow> csv_state \<Rightarrow> csv_error + csv_state" where
  "csv_loop [] s = Inr s"
| "csv_loop (value # rest) s =
     bind_result (csv_step value (\<lambda>c. rest \<noteq> [] \<and> hd rest = c) s)
       (\<lambda>(s', skip). csv_loop (if skip then tl rest else rest) s')"
  by pat_completeness auto
termination by (relation "measure (\<lambda>(cs, s). length cs)") auto

definition parse_csv :: "string \<Rightarrow> csv_error + string list list" where
  "parse_csv input =
     bind_result (csv_loop input csv_init)
       (\<lambda>s. if cs_quoted s then Inl Csv_Unclosed_Quote else Inr (cs_rows (finish_row s)))"

definition trim_blanks :: "string \<Rightarrow> string" where
  "trim_blanks s =
     (let blank = (\<lambda>c. c = CHR '' '' \<or> c = TAB)
      in rev (dropWhile blank (rev (dropWhile blank s))))"

definition is_optional_header :: "string \<Rightarrow> bool" where
  "is_optional_header value =
     (let v = lowercase (trim_blanks value)
      in v = ''sample'' \<or> v = ''sample_log''
         \<or> v = bytes [0xEC, 0x83, 0x98, 0xED, 0x94, 0x8C, 0xEB, 0xA1, 0x9C, 0xEA, 0xB7, 0xB8]
         \<or> v = bytes [0xEC, 0x83, 0x98, 0xED, 0x94, 0x8C, 0x20, 0xEB, 0xA1, 0x9C, 0xEA, 0xB7, 0xB8])"

definition utf8_bom :: string where
  "utf8_bom = bytes [0xEF, 0xBB, 0xBF]"

text \<open>The checks of \<open>load\<close>, row by row from a given index, which is the index of the first row.\<close>

fun check_columns :: "nat \<Rightarrow> string list list \<Rightarrow> csv_error + unit" where
  "check_columns index [] = Inr ()"
| "check_columns index (row # rows) =
     (if length row \<noteq> 1 then Inl (Csv_Columns (index + 1) (length row))
      else check_columns (index + 1) rows)"

fun collect_samples :: "nat \<Rightarrow> string list list \<Rightarrow> csv_error + string list" where
  "collect_samples index [] = Inr []"
| "collect_samples index (row # rows) =
     (if hd row = [] then Inl (Csv_Empty_Sample (index + 1))
      else bind_result (collect_samples (index + 1) rows) (\<lambda>samples. Inr (hd row # samples)))"

definition load_csv_content :: "string \<Rightarrow> csv_error + string list" where
  "load_csv_content content0 =
     (let content = (if starts_with content0 utf8_bom then drop (length utf8_bom) content0 else content0)
      in bind_result (parse_csv content) (\<lambda>rows.
         if rows = [] then Inl Csv_No_Data
         else bind_result (check_columns 0 rows) (\<lambda>_.
           let first_sample = (if is_optional_header (hd (hd rows)) then 1 else 0)
           in bind_result (collect_samples first_sample (drop first_sample rows)) (\<lambda>samples.
                if samples = [] then Inl Csv_No_Samples else Inr samples))))"

definition csv_load :: "(string \<Rightarrow> string option) \<Rightarrow> string \<Rightarrow> csv_error + string list" where
  "csv_load read_file file =
     (if lowercase (path_extension file) \<noteq> ''.csv'' then Inl Csv_Extension
      else case read_file file of None \<Rightarrow> Inl Csv_Open | Some content \<Rightarrow> load_csv_content content)"

subsection \<open>Fields never hold line ends or NUL\<close>

definition clean :: "string \<Rightarrow> bool" where
  "clean s \<longleftrightarrow> CHR 0x00 \<notin> set s \<and> CR \<notin> set s"

definition csv_clean :: "csv_state \<Rightarrow> bool" where
  "csv_clean s \<longleftrightarrow>
     clean (cs_field s) \<and> (\<forall>f \<in> set (cs_row s). clean f) \<and> (\<forall>r \<in> set (cs_rows s). \<forall>f \<in> set r. clean f)"

lemma csv_clean_finish:
  "csv_clean s \<Longrightarrow> csv_clean (finish_field s)"
  "csv_clean s \<Longrightarrow> csv_clean (finish_row s)"
  by (auto simp: csv_clean_def finish_field_def finish_row_def clean_def Let_def)

lemma csv_clean_flags [simp]:
  "csv_clean (s\<lparr>cs_quoted := q\<rparr>) = csv_clean s"
  "csv_clean (s\<lparr>cs_quote_closed := q\<rparr>) = csv_clean s"
  "csv_clean (s\<lparr>cs_row_started := q\<rparr>) = csv_clean s"
  by (simp_all add: csv_clean_def)

lemma csv_clean_snoc:
  "csv_clean s \<Longrightarrow> c \<noteq> CHR 0x00 \<Longrightarrow> c \<noteq> CR \<Longrightarrow> csv_clean (s\<lparr>cs_field := cs_field s @ [c]\<rparr>)"
  by (simp add: csv_clean_def clean_def)

lemma csv_clean_step: "csv_clean s \<Longrightarrow> csv_step v n s = Inr (s', skip) \<Longrightarrow> csv_clean s'"
  unfolding csv_step_def
  by (simp split: if_splits; elim conjE; hypsubst; simp add: csv_clean_finish csv_clean_snoc)

lemma csv_clean_loop: "csv_clean s \<Longrightarrow> csv_loop cs s = Inr s' \<Longrightarrow> csv_clean s'"
proof (induction cs s rule: csv_loop.induct)
  case (2 v rest s)
  from "2.prems"(2) obtain s1 skip where
    step: "csv_step v (\<lambda>c. rest \<noteq> [] \<and> hd rest = c) s = Inr (s1, skip)"
    and loop: "csv_loop (if skip then tl rest else rest) s1 = Inr s'"
    by (auto simp: result_simps)
  from "2.IH" [OF step refl csv_clean_step [OF "2.prems"(1) step] loop] show ?case .
qed simp

lemma parse_csv_clean:
  assumes "parse_csv input = Inr rows" "row \<in> set rows" "f \<in> set row"
  shows "clean f"
proof -
  have "csv_clean csv_init" by (simp add: csv_clean_def csv_init_def clean_def)
  with assms(1) obtain s where s: "csv_clean s" "rows = cs_rows (finish_row s)"
    by (auto simp: parse_csv_def result_simps dest: csv_clean_loop split: if_splits)
  from csv_clean_finish(2) [OF s(1)] assms(2,3) show ?thesis
    unfolding s(2) csv_clean_def by blast
qed

subsection \<open>A writer, and reading back what it wrote\<close>

text \<open>
  RFC 4180: a field with a comma, a quote or a line end is quoted, any other may be; quotes are
  doubled. The flag of a field says whether it is quoted without need.
\<close>

definition csv_special :: "string \<Rightarrow> bool" where
  "csv_special f \<longleftrightarrow> (\<exists>c \<in> set f. c \<in> {CHR '','', DQUOTE, CR, LF})"

definition quote_text :: "string \<Rightarrow> string" where
  "quote_text f = concat (map (\<lambda>c. if c = DQUOTE then [DQUOTE, DQUOTE] else [c]) f)"

definition write_field :: "bool \<times> string \<Rightarrow> string" where
  "write_field qf =
     (if fst qf \<or> csv_special (snd qf) then DQUOTE # quote_text (snd qf) @ [DQUOTE] else snd qf)"

fun write_row :: "(bool \<times> string) list \<Rightarrow> string" where
  "write_row [] = []"
| "write_row [f] = write_field f"
| "write_row (f # fs) = write_field f @ CHR '','' # write_row fs"

definition write_csv :: "string \<Rightarrow> (bool \<times> string) list list \<Rightarrow> string" where
  "write_csv eol rows = concat (map (\<lambda>r. write_row r @ eol) rows)"

text \<open>The reader stores every line end inside a field as a line feed.\<close>

function unix_newlines :: "string \<Rightarrow> string" where
  "unix_newlines [] = []"
| "unix_newlines (c # cs) =
     (if c = CR then LF # unix_newlines (if cs \<noteq> [] \<and> hd cs = LF then tl cs else cs)
      else c # unix_newlines cs)"
  by pat_completeness auto
termination by (relation "measure length") auto

lemma unix_newlines_plain: "CR \<notin> set f \<Longrightarrow> unix_newlines f = f"
  by (induction f) auto

lemma quote_text_simps [simp]:
  "quote_text [] = []"
  "quote_text (c # cs) = (if c = DQUOTE then [DQUOTE, DQUOTE] else [c]) @ quote_text cs"
  by (simp_all add: quote_text_def)

lemma hd_quote_text: "hd (quote_text cs @ DQUOTE # rest) = LF \<longleftrightarrow> cs \<noteq> [] \<and> hd cs = LF"
  by (cases cs) auto

lemma csv_loop_quoted:
  assumes "CHR 0x00 \<notin> set f" "cs_quoted s" "rest = [] \<or> hd rest \<noteq> DQUOTE"
  shows "csv_loop (quote_text f @ DQUOTE # rest) s =
    csv_loop rest (s\<lparr>cs_field := cs_field s @ unix_newlines f, cs_quoted := False, cs_quote_closed := True\<rparr>)"
  using assms(1,2)
proof (induction f arbitrary: s rule: unix_newlines.induct)
  case 1
  then show ?case using assms(3) by (auto simp: csv_step_def)
next
  case (2 c cs)
  show ?case
  proof (cases "c = CR")
    case True
    let ?cs = "if cs \<noteq> [] \<and> hd cs = LF then tl cs else cs"
    have "quote_text ?cs @ DQUOTE # rest =
        (if cs \<noteq> [] \<and> hd cs = LF then tl (quote_text cs @ DQUOTE # rest) else quote_text cs @ DQUOTE # rest)"
      by (cases cs) auto
    moreover have "CHR 0x00 \<notin> set ?cs" using "2.prems"(1) by (cases cs) auto
    moreover note "2.IH"(1) [OF True this, of "s\<lparr>cs_field := cs_field s @ [LF]\<rparr>"]
    ultimately show ?thesis
      using True "2.prems" hd_quote_text [of cs rest] by (auto simp: csv_step_def)
  next
    case False
    note IH = "2.IH"(2) [OF False, of "s\<lparr>cs_field := cs_field s @ [c]\<rparr>"]
    show ?thesis using False "2.prems" IH by (auto simp: csv_step_def)
  qed
qed

lemma csv_loop_plain:
  assumes "CHR 0x00 \<notin> set f" "\<not> csv_special f" "\<not> cs_quoted s" "\<not> cs_quote_closed s"
  shows "csv_loop (f @ rest) s =
    csv_loop rest (s\<lparr>cs_field := cs_field s @ f, cs_row_started := cs_row_started s \<or> f \<noteq> []\<rparr>)"
  using assms
proof (induction f arbitrary: s)
  case (Cons c f)
  note IH = Cons.IH [of "s\<lparr>cs_field := cs_field s @ [c], cs_row_started := True\<rparr>"]
  show ?case using Cons.prems IH by (auto simp: csv_step_def csv_special_def)
qed simp

lemma csv_loop_field:
  assumes "CHR 0x00 \<notin> set (snd qf)" "cs_field s = []" "\<not> cs_quoted s" "\<not> cs_quote_closed s"
    "rest = [] \<or> hd rest \<noteq> DQUOTE"
  shows "csv_loop (write_field qf @ rest) s = csv_loop rest
    (s\<lparr>cs_field := unix_newlines (snd qf), cs_quote_closed := fst qf \<or> csv_special (snd qf),
      cs_row_started := cs_row_started s \<or> qf \<noteq> (False, [])\<rparr>)"
proof (cases "fst qf \<or> csv_special (snd qf)")
  case True
  then have "qf \<noteq> (False, [])" by (auto simp: csv_special_def)
  with True csv_loop_quoted [of "snd qf" "s\<lparr>cs_quoted := True, cs_row_started := True\<rparr>" rest] assms
  show ?thesis by (cases s) (simp add: write_field_def csv_step_def)
next
  case False
  then have "unix_newlines (snd qf) = snd qf"
    by (intro unix_newlines_plain) (auto simp: csv_special_def)
  with False csv_loop_plain [of "snd qf" s rest] assms show ?thesis
    by (cases qf; cases s) (auto simp: write_field_def)
qed

lemma csv_loop_row:
  assumes "eol = [LF] \<or> eol = [CR, LF]" "fs \<noteq> []" "\<forall>f \<in> set fs. CHR 0x00 \<notin> set (snd f)"
    "cs_field s = []" "\<not> cs_quoted s" "\<not> cs_quote_closed s" "cs_row s \<noteq> [] \<or> fs \<noteq> [(False, [])]"
  shows "csv_loop (write_row fs @ eol @ rest) s =
    csv_loop rest (s\<lparr>cs_rows := cs_rows s @ [cs_row s @ map (unix_newlines \<circ> snd) fs], cs_row := [],
                     cs_row_started := False\<rparr>)"
  using assms(2-)
proof (induction fs arbitrary: s rule: write_row.induct)
  case (2 f)
  have eol: "eol @ rest = [] \<or> hd (eol @ rest) \<noteq> DQUOTE" using assms(1) by auto
  have "csv_loop (write_row [f] @ eol @ rest) s = csv_loop (eol @ rest)
    (s\<lparr>cs_field := unix_newlines (snd f), cs_quote_closed := fst f \<or> csv_special (snd f),
      cs_row_started := cs_row_started s \<or> f \<noteq> (False, [])\<rparr>)"
    using csv_loop_field [OF _ _ _ _ eol] 2 by simp
  then show ?case
    using assms(1) 2 by (cases s) (auto simp: csv_step_def finish_row_def finish_field_def Let_def)
next
  case (3 f g fs)
  let ?rest = "CHR '','' # write_row (g # fs) @ eol @ rest"
  let ?s = "s\<lparr>cs_row := cs_row s @ [unix_newlines (snd f)], cs_row_started := True\<rparr>"
  have "csv_loop (write_row (f # g # fs) @ eol @ rest) s = csv_loop ?rest
    (s\<lparr>cs_field := unix_newlines (snd f), cs_quote_closed := fst f \<or> csv_special (snd f),
      cs_row_started := cs_row_started s \<or> f \<noteq> (False, [])\<rparr>)"
    using csv_loop_field [of f s ?rest] 3 by simp
  also have "\<dots> = csv_loop (write_row (g # fs) @ eol @ rest) ?s"
    using 3 by (cases s) (auto simp: csv_step_def finish_field_def)
  also have "\<dots> = csv_loop rest (?s\<lparr>cs_rows := cs_rows ?s @ [cs_row ?s @ map (unix_newlines \<circ> snd) (g # fs)],
                     cs_row := [], cs_row_started := False\<rparr>)"
    by (rule "3.IH") (use "3.prems" in auto)
  finally show ?case using "3.prems" by (cases s) (simp add: comp_def)
qed simp

lemma csv_loop_rows:
  assumes "eol = [LF] \<or> eol = [CR, LF]"
    "\<forall>r \<in> set rows. r \<noteq> [] \<and> r \<noteq> [(False, [])] \<and> (\<forall>f \<in> set r. CHR 0x00 \<notin> set (snd f))"
  shows "csv_loop (write_csv eol rows) (csv_init\<lparr>cs_rows := rs\<rparr>) =
    Inr (csv_init\<lparr>cs_rows := rs @ map (map (unix_newlines \<circ> snd)) rows\<rparr>)"
  using assms(2)
proof (induction rows arbitrary: rs)
  case (Cons r rows)
  let ?s = "csv_init\<lparr>cs_rows := rs\<rparr>" and ?t = "rs @ [map (unix_newlines \<circ> snd) r]"
  have w: "write_csv eol (r # rows) = write_row r @ eol @ write_csv eol rows"
    by (simp add: write_csv_def)
  have "csv_loop (write_csv eol (r # rows)) ?s = csv_loop (write_csv eol rows) (csv_init\<lparr>cs_rows := ?t\<rparr>)"
    unfolding w using csv_loop_row [OF assms(1), of r ?s "write_csv eol rows"] Cons.prems
    by (simp add: csv_init_def)
  with Cons.IH [of ?t] Cons.prems show ?case by simp
qed (simp add: write_csv_def)

lemma parse_write_csv:
  assumes "eol = [LF] \<or> eol = [CR, LF]"
    "\<forall>r \<in> set rows. r \<noteq> [] \<and> r \<noteq> [(False, [])] \<and> (\<forall>f \<in> set r. CHR 0x00 \<notin> set (snd f))"
  shows "parse_csv (write_csv eol rows) = Inr (map (map (unix_newlines \<circ> snd)) rows)"
  using csv_loop_rows [OF assms, of "[]"]
  by (simp add: parse_csv_def csv_init_def finish_row_def)

lemma unix_newlines_eq_Nil [simp]: "unix_newlines f = [] \<longleftrightarrow> f = []"
  by (cases f) auto

lemma is_optional_header_Nil [simp]: "\<not> is_optional_header []"
  by (simp add: is_optional_header_def trim_blanks_def lowercase_def bytes_def)

lemma check_columns_ok: "check_columns i rows = Inr u \<longleftrightarrow> (\<forall>r \<in> set rows. length r = 1)"
  by (induction rows arbitrary: i) auto

lemma collect_samples_ok:
  "collect_samples i rows = Inr ss \<longleftrightarrow> (\<forall>r \<in> set rows. hd r \<noteq> []) \<and> ss = map hd rows"
  by (induction rows arbitrary: i ss) (auto simp: result_simps)

lemma load_csv_content_bom:
  assumes "parse_csv text = Inr rows" "rows \<noteq> []" "check_columns 0 rows = Inr u"
    "k = (if is_optional_header (hd (hd rows)) then 1 else 0)"
    "collect_samples k (drop k rows) = Inr ss" "ss \<noteq> []"
  shows "load_csv_content (utf8_bom @ text) = Inr ss"
  using assms(1-3,5,6) unfolding load_csv_content_def assms(4) by (simp add: starts_with_def Let_def)

subsection \<open>Properties\<close>

text \<open>
  C6. The CSV reader inverts an RFC 4180 writer: for any table whose rows are not empty lines and
  whose fields hold no NUL, whatever fields are quoted without need and with either line end, the
  parser returns the table, with line ends inside fields stored as line feeds.
\<close>

theorem csv_roundtrip:
  assumes "eol = [LF] \<or> eol = [CR, LF]"
    "\<forall>r \<in> set rows. r \<noteq> [] \<and> r \<noteq> [(False, [])] \<and> (\<forall>f \<in> set r. CHR 0x00 \<notin> set (snd f))"
  shows "parse_csv (write_csv eol rows) = Inr (map (map (unix_newlines \<circ> snd)) rows)"
  using assms by (rule parse_write_csv)

theorem csv_roundtrip_witness:
  "parse_csv (write_csv [CR, LF] [[(False, ''a,b''), (True, ''c'')], [(False, [CHR ''d'', DQUOTE, CR, LF])]])
   = Inr [[''a,b'', ''c''], [[CHR ''d'', DQUOTE, LF]]]"
  using csv_roundtrip [of "[CR, LF]"
      "[[(False, ''a,b''), (True, ''c'')], [(False, [CHR ''d'', DQUOTE, CR, LF])]]"] by simp

text \<open>
  Importing a sample file returns its samples: a \<open>.csv\<close> file with a byte order mark and one
  sample per row, with or without one of the optional header names, loads as exactly the samples
  in order, the header left out.
\<close>

theorem csv_load_samples:
  assumes "lowercase (path_extension file) = ''.csv''" "eol = [LF] \<or> eol = [CR, LF]"
    and "read_file file = Some (utf8_bom @ write_csv eol (map (\<lambda>f. [f]) (hdr @ samples)))"
    and "samples \<noteq> []" "\<forall>f \<in> set samples. snd f \<noteq> [] \<and> CHR 0x00 \<notin> set (snd f)"
    and "hdr = [] \<and> \<not> is_optional_header (unix_newlines (snd (hd samples)))
       \<or> (\<exists>h. hdr = [h] \<and> CHR 0x00 \<notin> set (snd h) \<and> is_optional_header (unix_newlines (snd h)))"
  shows "csv_load read_file file = Inr (map (unix_newlines \<circ> snd) samples)"
proof -
  let ?rows = "map (\<lambda>f. [f]) (hdr @ samples)" and ?v = "unix_newlines \<circ> snd"
  have "(False, []) \<notin> set hdr" using assms(6) by auto
  then have "parse_csv (write_csv eol ?rows) = Inr (map (map ?v) ?rows)"
    using assms(5,6) by (intro parse_write_csv [OF assms(2)]) auto
  then have parse: "parse_csv (write_csv eol ?rows) = Inr (map (\<lambda>f. [?v f]) (hdr @ samples))"
    by (simp add: comp_def)
  let ?cells = "map (\<lambda>f. [?v f])"
  let ?k = "if is_optional_header (hd (hd (?cells (hdr @ samples)))) then 1 else 0"
  have k: "drop ?k (?cells (hdr @ samples)) = ?cells samples"
    using assms(4,6) by (cases samples) auto
  have cols: "check_columns 0 (?cells (hdr @ samples)) = Inr ()" by (auto simp: check_columns_ok)
  have coll: "collect_samples i (?cells samples) = Inr (map ?v samples)" for i
    using assms(5) by (auto simp: collect_samples_ok)
  have "load_csv_content (utf8_bom @ write_csv eol ?rows) = Inr (map ?v samples)"
    by (rule load_csv_content_bom [OF parse _ cols refl])
       (use assms(4) in \<open>simp_all only: k coll map_is_Nil_conv append_is_Nil_conv simp_thms\<close>)
  with assms(1,3) show ?thesis by (simp add: csv_load_def)
qed

theorem csv_load_samples_witness:
  "csv_load [''s.CSV'' \<mapsto> utf8_bom @ write_csv [LF] [[(True, ''Sample'')], [(False, ''x'')]]] ''s.CSV'' = Inr [''x'']"
proof -
  have e: "lowercase (path_extension ''s.CSV'') = ''.csv''" by code_simp
  have h: "is_optional_header ''Sample''" by code_simp
  show ?thesis
    using csv_load_samples [OF e, of "[LF]" "[''s.CSV'' \<mapsto> utf8_bom @ write_csv [LF] [[(True, ''Sample'')], [(False, ''x'')]]]"
        "[(True, ''Sample'')]" "[(False, ''x'')]"] h by simp
qed

text \<open>
  What an import lets through: every sample a load returns is not empty and holds neither a NUL
  nor a carriage return, and there is at least one.
\<close>

theorem csv_load_sound:
  assumes "csv_load read_file file = Inr samples"
  shows "samples \<noteq> [] \<and> (\<forall>s \<in> set samples. s \<noteq> [] \<and> CHR 0x00 \<notin> set s \<and> CR \<notin> set s)"
proof -
  from assms obtain content rows where p0: "parse_csv content = Inr rows" "\<forall>r \<in> set rows. length r = 1"
    "samples \<noteq> []" "\<exists>k. collect_samples k (drop k rows) = Inr samples"
    unfolding csv_load_def load_csv_content_def Let_def
    by (simp only: result_simps check_columns_ok split: if_splits option.splits sum.splits) blast+
  then obtain k where p: "parse_csv content = Inr rows"
    "\<forall>r \<in> set rows. length r = 1" "collect_samples k (drop k rows) = Inr samples" "samples \<noteq> []"
    by blast
  have "s \<noteq> [] \<and> clean s" if s: "s \<in> set samples" for s
  proof -
    from s p(3) obtain r where r: "r \<in> set (drop k rows)" "s = hd r" "hd r \<noteq> []"
      by (auto simp: collect_samples_ok)
    then have "r \<in> set rows" by (meson in_set_dropD)
    with p(2) r(2) have "s \<in> set r" by (cases r) auto
    with parse_csv_clean [OF p(1) \<open>r \<in> set rows\<close>] r show ?thesis by simp
  qed
  with p(4) show ?thesis by (simp add: clean_def)
qed

theorem csv_load_sound_witness:
  "\<exists>ss. csv_load [''s.csv'' \<mapsto> [CHR ''x'', CR, LF, CHR ''y'']] ''s.csv'' = Inr ss \<and> ss \<noteq> [] \<and> (\<forall>s \<in> set ss. CR \<notin> set s)"
proof -
  have "csv_load [''s.csv'' \<mapsto> [CHR ''x'', CR, LF, CHR ''y'']] ''s.csv'' = Inr [''x'', ''y'']"
    by code_simp
  from csv_load_sound [OF this] this show ?thesis by blast
qed

end
