(* ===== verification/Sample_Ids.thy ===== *)
theory Sample_Ids
  imports Domain
begin

text \<open>
  Sample identifiers in \<open>application/log_catalog_service.cpp\<close>: \<open>validate_ids\<close> and
  \<open>LogCatalogService::next_id\<close>.
\<close>

datatype id_error =
    Id_Not_Digits string
  | Duplicate_Id string
  | Id_Too_Large string
  | Ids_Exhausted

fun validate_ids_from :: "string list \<Rightarrow> log_template list \<Rightarrow> id_error + unit" where
  "validate_ids_from identifiers [] = Inr ()"
| "validate_ids_from identifiers (item # items) =
     (if \<not> valid_sample_id (lt_id item) then Inl (Id_Not_Digits (lt_id item))
      else if lt_id item \<in> set identifiers then Inl (Duplicate_Id (lt_id item))
      else validate_ids_from (lt_id item # identifiers) items)"

definition validate_ids :: "log_template list \<Rightarrow> id_error + unit" where
  "validate_ids items = validate_ids_from [] items"

fun maximum_id :: "u64 \<Rightarrow> log_template list \<Rightarrow> id_error + u64" where
  "maximum_id maximum [] = Inr maximum"
| "maximum_id maximum (item # items) =
     (let (error, position, value) = from_chars_unsigned (2 ^ 64 - 1) (lt_id item)
      in if error \<noteq> No_Error \<or> position \<noteq> length (lt_id item) then Inl (Id_Too_Large (lt_id item))
         else maximum_id (max maximum (of_nat value)) items)"

definition next_id :: "log_template list \<Rightarrow> id_error + string" where
  "next_id items =
     bind_result (validate_ids items) (\<lambda>_.
     bind_result (maximum_id 0 items) (\<lambda>maximum.
       if maximum = - 1 then Inl Ids_Exhausted
       else let result = to_dec (unat (maximum + 1))
            in Inr (if length result < 4 then replicate (4 - length result) (CHR ''0'') @ result
                    else result)))"

definition ids_ok :: "log_template list \<Rightarrow> bool" where
  "ids_ok items \<longleftrightarrow> (\<forall>item \<in> set items. valid_sample_id (lt_id item)) \<and> distinct (map lt_id items)"

lemma validate_ids_from_ok:
  "validate_ids_from seen items = Inr u \<longleftrightarrow>
     (\<forall>item \<in> set items. valid_sample_id (lt_id item)) \<and> distinct (map lt_id items)
     \<and> set seen \<inter> lt_id ` set items = {}"
  by (induction items arbitrary: seen) auto

lemma validate_ids_ok [result_simps]: "validate_ids items = Inr u \<longleftrightarrow> ids_ok items"
  by (simp add: validate_ids_def validate_ids_from_ok ids_ok_def)

text \<open>The value of an id, and when it fits.\<close>

lemma from_chars_id:
  assumes "valid_sample_id s"
  shows "from_chars_unsigned limit s =
    (if dec_value s \<le> limit then (No_Error, length s, dec_value s)
     else (Result_Out_Of_Range, length s, 0))"
  using assms by (simp add: valid_sample_id_iff from_chars_unsigned_def takeWhile_all Let_def)

lemma max_word_unat: "unat (max a b :: u64) = max (unat a) (unat b)"
  by (simp add: max_def word_le_nat_alt)

lemma maximum_id_ok:
  "(\<forall>item \<in> set items. valid_sample_id (lt_id item)) \<Longrightarrow>
   (case maximum_id m items of
      Inl e \<Rightarrow> \<exists>item \<in> set items. 2 ^ 64 \<le> dec_value (lt_id item) \<and> e = Id_Too_Large (lt_id item)
    | Inr r \<Rightarrow> (\<forall>item \<in> set items. dec_value (lt_id item) < 2 ^ 64) \<and>
              unat r = Max (insert (unat m) ((\<lambda>item. dec_value (lt_id item)) ` set items)))"
proof (induction items arbitrary: m)
  case (Cons item items)
  show ?case
  proof (cases "dec_value (lt_id item) < 2 ^ 64")
    case True
    then have u: "unat (of_nat (dec_value (lt_id item)) :: u64) = dec_value (lt_id item)"
      by (simp add: unat_of_nat take_bit_eq_mod)
    have eq: "maximum_id m (item # items) = maximum_id (max m (of_nat (dec_value (lt_id item)))) items"
      using True Cons.prems by (simp add: from_chars_id)
    have "Max (insert (max (unat m) (dec_value (lt_id item))) A) = Max (insert (unat m) (insert (dec_value (lt_id item)) A))"
      if "finite A" for A using that by (cases "A = {}") (auto simp: Max_insert max.assoc)
    with Cons.IH [of "max m (of_nat (dec_value (lt_id item)))"] Cons.prems True show ?thesis
      unfolding eq by (auto simp: max_word_unat u split: sum.splits)
  next
    case False
    with Cons.prems show ?thesis by (simp add: from_chars_id)
  qed
qed simp

lemma zero_padded_id:
  "(if length s < 4 then replicate (4 - length s) (CHR ''0'') @ s else s) = zero_pad 4 s"
  by (simp add: zero_pad_def)

lemma minus_one_u64: "(m :: u64) = - 1 \<longleftrightarrow> unat m = 2 ^ 64 - 1"
proof -
  have "unat (- 1 :: u64) = 2 ^ 64 - 1" by (simp add: unsigned_minus_1_eq_mask mask_eq_exp_minus_1)
  then show ?thesis by (metis word_unat_eq_iff)
qed

lemma next_id_Inr:
  assumes "next_id items = Inr r"
  shows "ids_ok items" "valid_sample_id r"
    "dec_value r = Suc (Max (insert 0 ((\<lambda>item. dec_value (lt_id item)) ` set items)))"
    "dec_value r < 2 ^ 64"
proof -
  from assms obtain m where m: "ids_ok items" "maximum_id 0 items = Inr m" "m \<noteq> - 1"
    "r = zero_pad 4 (to_dec (unat (m + 1)))"
    by (auto simp: next_id_def result_simps zero_padded_id Let_def split: if_splits)
  have "unat m < 2 ^ 64 - 1" using m(3) unat_u64_less [of m] unfolding minus_one_u64 by linarith
  then have s: "unat (m + 1) = Suc (unat m)" by (simp add: unat_word_ariths(1))
  show "ids_ok items" by (rule m(1))
  show "valid_sample_id r" unfolding m(4) valid_sample_id_iff
    using zero_pad_digits [OF to_dec_digits] by (simp add: zero_pad_def)
  show d: "dec_value r = Suc (Max (insert 0 ((\<lambda>item. dec_value (lt_id item)) ` set items)))"
    using maximum_id_ok [of items 0] m by (simp add: ids_ok_def s)
  show "dec_value r < 2 ^ 64" unfolding m(4) using s unat_u64_less [of "m + 1"] by simp
qed

lemma next_id_greater:
  assumes "next_id items = Inr r" "item \<in> set items"
  shows "dec_value (lt_id item) < dec_value r"
  using next_id_Inr(3) [OF assms(1)] assms(2) by (simp add: less_Suc_eq_le)

lemma next_id_fresh:
  assumes "next_id items = Inr r"
  shows "r \<notin> lt_id ` set items"
  using next_id_greater [OF assms] by (metis image_iff less_irrefl)

lemma next_id_extends:
  assumes "next_id items = Inr r" "lt_id item = r"
  shows "ids_ok (items @ [item])"
  using next_id_Inr(1,2) [OF assms(1)] next_id_fresh [OF assms(1)] assms(2)
  by (auto simp: ids_ok_def)

subsection \<open>Properties\<close>

text \<open>
  New identifiers are valid and fresh: \<open>next_id\<close> returns a numeric id of at least four digits
  that is one more than the largest id of the catalog, so it is none of its ids; it fails only for
  an invalid or duplicate id, an id outside 64 bits, or when the largest 64-bit id is taken.
\<close>

theorem next_id_spec:
  shows "case next_id items of
      Inr r \<Rightarrow> valid_sample_id r \<and> 4 \<le> length r \<and> r \<notin> lt_id ` set items
        \<and> dec_value r = Suc (Max (insert 0 ((\<lambda>item. dec_value (lt_id item)) ` set items)))
    | Inl e \<Rightarrow> \<not> ids_ok items \<or> (\<exists>item \<in> set items. 2 ^ 64 - 1 \<le> dec_value (lt_id item))"
proof (cases "next_id items")
  case (Inr r)
  have "4 \<le> length r"
    using Inr by (auto simp: next_id_def result_simps zero_padded_id Let_def split: if_splits)
  with next_id_Inr [OF Inr] next_id_fresh [OF Inr] Inr show ?thesis by simp
next
  case (Inl e)
  show ?thesis
  proof (cases "ids_ok items")
    case True
    then have "validate_ids items = Inr ()" by (simp add: result_simps)
    with Inl consider "maximum_id 0 items = Inl e" | m where "maximum_id 0 items = Inr m" "m = - 1"
      by (auto simp: next_id_def Let_def result_simps split: if_splits)
    then have "\<exists>item \<in> set items. 2 ^ 64 - 1 \<le> dec_value (lt_id item)"
    proof cases
      case 1
      with maximum_id_ok [of items 0] True show ?thesis by (force simp: ids_ok_def)
    next
      case 2
      let ?M = "insert 0 ((\<lambda>item. dec_value (lt_id item)) ` set items)"
      have "Max ?M = 2 ^ 64 - 1"
        using maximum_id_ok [of items 0] True 2(1) 2(2) [unfolded minus_one_u64] by (simp add: ids_ok_def)
      moreover have "Max ?M \<in> ?M" by (rule Max_in) auto
      ultimately show ?thesis by (auto intro!: bexI)
    qed
    with Inl show ?thesis by simp
  qed (simp add: Inl)
qed

theorem next_id_spec_witness:
  "next_id [empty_template\<lparr>lt_id := ''0007''\<rparr>] = Inr ''0008'' \<and> ''0008'' \<notin> {''0007''}"
proof -
  have n: "next_id [empty_template\<lparr>lt_id := ''0007''\<rparr>] = Inr ''0008''"
    by (simp add: next_id_def validate_ids_def valid_sample_id_def from_chars_unsigned_def is_digit_def
        dec_value_def digit_val_def to_dec.simps digit_char_numerals replicate_small empty_template_def
        minus_one_u64 Let_def)
  show ?thesis using next_id_spec [of "[empty_template\<lparr>lt_id := ''0007''\<rparr>]"] n by simp
qed

end
