(* ===== verification/Regex.thy ===== *)
theory Regex
  imports Domain
begin

text \<open>
  What the program uses of \<open>std::regex\<close> with the ECMAScript grammar: a backtracking matcher with
  captures, greedy counted repetition, word boundaries and lookahead; \<open>std::sregex_iterator\<close>; and
  the cursor loops by which the program rebuilds a text around matched ranges.
\<close>

subsection \<open>Expressions and the matcher\<close>

datatype regex =
    REmpty
  | RChar "char \<Rightarrow> bool"
  | RSeq regex regex
  | RAlt regex regex
  | RRep nat "nat option" regex  \<comment> \<open>greedy, at least and at most so many times\<close>
  | RCap nat regex
  | RBol  \<comment> \<open>\<open>^\<close>\<close>
  | RWord  \<comment> \<open>\<open>\b\<close>\<close>
  | RLook regex  \<comment> \<open>\<open>(?=r)\<close>\<close>
  | RNot regex  \<comment> \<open>\<open>(?!r)\<close>\<close>

text \<open>Concatenation, alternation, literals (\<open>rilit\<close> under the flag \<open>icase\<close>) and the quantifiers.\<close>

definition char_between :: "char \<Rightarrow> char \<Rightarrow> char \<Rightarrow> bool" where
  "char_between a b c \<longleftrightarrow> code a \<le> code c \<and> code c \<le> code b"

definition rseq :: "regex list \<Rightarrow> regex" where
  "rseq rs = foldr RSeq rs REmpty"

fun ralt :: "regex list \<Rightarrow> regex" where
  "ralt [] = REmpty"
| "ralt [r] = r"
| "ralt (r # rs) = RAlt r (ralt rs)"

definition rlit :: "string \<Rightarrow> regex" where
  "rlit s = rseq (map (\<lambda>a. RChar (\<lambda>c. c = a)) s)"

definition rilit :: "string \<Rightarrow> regex" where
  "rilit s = rseq (map (\<lambda>a. RChar (\<lambda>c. to_lower c = to_lower a)) s)"

definition ropt :: "regex \<Rightarrow> regex" where
  "ropt r = RRep 0 (Some 1) r"

definition rstar :: "regex \<Rightarrow> regex" where
  "rstar r = RRep 0 None r"

definition rplus :: "regex \<Rightarrow> regex" where
  "rplus r = RRep 1 None r"

definition rtimes :: "nat \<Rightarrow> regex \<Rightarrow> regex" where
  "rtimes n r = RRep n (Some n) r"

text \<open>A capture: group number, begin and end.\<close>

type_synonym captures = "(nat \<times> nat \<times> nat) list"
type_synonym match_state = "nat \<times> captures"

text \<open>
  Iterating a matcher \<open>f\<close>: at most \<open>n\<close> more times, at least \<open>m\<close>; a round beyond the minimum has
  to consume something.
\<close>

fun iterate :: "(match_state \<Rightarrow> match_state list) \<Rightarrow> nat \<Rightarrow> nat \<Rightarrow> match_state \<Rightarrow> match_state list" where
  "iterate f 0 m st = (if m = 0 then [st] else [])"
| "iterate f (Suc n) m st =
     concat (map (iterate f n (m - 1)) (filter (\<lambda>st'. 0 < m \<or> fst st < fst st') (f st)))
     @ (if m = 0 then [st] else [])"

definition word_char :: "char \<Rightarrow> bool" where
  "word_char c \<longleftrightarrow> is_alnum c \<or> c = CHR ''_''"

definition word_at :: "string \<Rightarrow> nat \<Rightarrow> bool" where
  "word_at s p \<longleftrightarrow> p < length s \<and> word_char (s ! p)"

text \<open>
  All ways to match from a state, in the order in which backtracking tries them. The anchor \<open>^\<close>
  matches at the start of the input only: the iterator searches on with \<open>match_prev_avail\<close>.
  (No lookahead of the program holds a group.)
\<close>

primrec matches :: "regex \<Rightarrow> string \<Rightarrow> match_state \<Rightarrow> match_state list" where
  "matches REmpty s st = [st]"
| "matches (RChar P) s st =
     (if fst st < length s \<and> P (s ! fst st) then [(Suc (fst st), snd st)] else [])"
| "matches (RSeq a b) s st = concat (map (matches b s) (matches a s st))"
| "matches (RAlt a b) s st = matches a s st @ matches b s st"
| "matches (RRep m limit r) s st =
     iterate (matches r s) (case limit of None \<Rightarrow> m + (length s - fst st) | Some k \<Rightarrow> k) m st"
| "matches (RCap n r) s st = map (\<lambda>(q, c). (q, (n, fst st, q) # c)) (matches r s st)"
| "matches RBol s st = (if fst st = 0 then [st] else [])"
| "matches RWord s st =
     (if (0 < fst st \<and> word_at s (fst st - 1)) \<noteq> word_at s (fst st) then [st] else [])"
| "matches (RLook r) s st = (if matches r s st \<noteq> [] then [st] else [])"
| "matches (RNot r) s st = (if matches r s st = [] then [st] else [])"

text \<open>A match: where it begins, where it ends, and its captures.\<close>

type_synonym regex_match = "nat \<times> nat \<times> captures"

definition match_at :: "regex \<Rightarrow> string \<Rightarrow> nat \<Rightarrow> regex_match option" where
  "match_at r s p = (case matches r s (p, []) of [] \<Rightarrow> None | (q, c) # _ \<Rightarrow> Some (p, q, c))"

text \<open>\<open>std::regex_search\<close> from a position on: the first position with a match.\<close>

function regex_search :: "regex \<Rightarrow> string \<Rightarrow> nat \<Rightarrow> regex_match option" where
  "regex_search r s p =
     (if length s < p then None
      else case match_at r s p of Some m \<Rightarrow> Some m | None \<Rightarrow> regex_search r s (Suc p))"
  by pat_completeness auto
termination by (relation "measure (\<lambda>(r, s, p). Suc (length s) - p)") auto

declare regex_search.simps [simp del]

subsection \<open>Where matches lie\<close>

definition within :: "nat \<Rightarrow> nat \<Rightarrow> captures \<Rightarrow> captures \<Rightarrow> bool" where
  "within p q c c' \<longleftrightarrow> (\<exists>d. c' = d @ c \<and> (\<forall>(n, b, e) \<in> set d. p \<le> b \<and> b \<le> e \<and> e \<le> q))"

lemma within_refl [simp]: "within p q c c"
  by (simp add: within_def)

lemma within_trans:
  assumes "within p q c c'" "within p' q' c' c''" "p \<le> p'" "q \<le> q'"
  shows "within p q' c c''"
proof -
  from assms obtain d d' where "c' = d @ c" "\<forall>(n, b, e) \<in> set d. p \<le> b \<and> b \<le> e \<and> e \<le> q"
    "c'' = d' @ c'" "\<forall>(n, b, e) \<in> set d'. p' \<le> b \<and> b \<le> e \<and> e \<le> q'"
    by (auto simp: within_def)
  with assms(3,4) show ?thesis
    unfolding within_def by (intro exI [of _ "d' @ d"]) (auto intro: order_trans)
qed

text \<open>The least number of characters an expression consumes.\<close>

primrec min_length :: "regex \<Rightarrow> nat" where
  "min_length REmpty = 0"
| "min_length (RChar P) = 1"
| "min_length (RSeq a b) = min_length a + min_length b"
| "min_length (RAlt a b) = min (min_length a) (min_length b)"
| "min_length (RRep m limit r) = m * min_length r"
| "min_length (RCap n r) = min_length r"
| "min_length RBol = 0"
| "min_length RWord = 0"
| "min_length (RLook r) = 0"
| "min_length (RNot r) = 0"

lemma min_length_combinators [simp]:
  "min_length (rseq rs) = sum_list (map min_length rs)"
  "min_length (rlit t) = length t"
  "min_length (rilit t) = length t"
  "min_length (ropt r) = 0"
  "min_length (rstar r) = 0"
  "min_length (rplus r) = min_length r"
  "min_length (rtimes n r) = n * min_length r"
proof -
  show seq: "min_length (rseq rs) = sum_list (map min_length rs)" for rs
    by (induction rs) (simp_all add: rseq_def)
  show "min_length (rlit t) = length t" "min_length (rilit t) = length t"
    by (induction t) (simp_all add: rlit_def rilit_def rseq_def)
qed (simp_all add: ropt_def rstar_def rplus_def rtimes_def)

definition good_step :: "nat \<Rightarrow> nat \<Rightarrow> match_state \<Rightarrow> match_state \<Rightarrow> bool" where
  "good_step l k st st' \<longleftrightarrow>
     fst st + k \<le> fst st' \<and> fst st' \<le> l \<and> within (fst st) (fst st') (snd st) (snd st')"

lemma good_step_trans:
  "good_step l j a b \<Longrightarrow> good_step l k b c \<Longrightarrow> good_step l (j + k) a c"
  by (auto simp: good_step_def intro: within_trans)

lemma good_step_mono: "good_step l k a b \<Longrightarrow> j \<le> k \<Longrightarrow> good_step l j a b"
  by (simp add: good_step_def)

lemma iterate_good:
  assumes "\<And>st st'. fst st \<le> l \<Longrightarrow> st' \<in> set (f st) \<Longrightarrow> good_step l k st st'"
  shows "fst st \<le> l \<Longrightarrow> st' \<in> set (iterate f n m st) \<Longrightarrow> good_step l (m * k) st st'"
proof (induction n arbitrary: m st)
  case 0
  then show ?case by (auto simp: good_step_def split: if_splits)
next
  case (Suc n)
  from Suc.prems(2) consider "m = 0" "st' = st"
    | st1 where "st1 \<in> set (f st)" "st' \<in> set (iterate f n (m - 1) st1)"
    by (auto split: if_splits)
  then show ?case
  proof cases
    case 1
    with Suc.prems(1) show ?thesis by (simp add: good_step_def)
  next
    case (2 st1)
    from assms [OF Suc.prems(1) 2(1)] have s1: "good_step l k st st1" .
    then have "fst st1 \<le> l" by (simp add: good_step_def)
    from good_step_trans [OF s1 Suc.IH [OF this 2(2)]] show ?thesis
      by (rule good_step_mono) (cases m; simp)
  qed
qed

lemma matches_good:
  "fst st \<le> length s \<Longrightarrow> st' \<in> set (matches r s st) \<Longrightarrow> good_step (length s) (min_length r) st st'"
proof (induction r arbitrary: st st')
  case (RSeq a b)
  from RSeq.prems obtain st1 where st1: "st1 \<in> set (matches a s st)" "st' \<in> set (matches b s st1)"
    by auto
  from RSeq.IH(1) [OF RSeq.prems(1) st1(1)] have s1: "good_step (length s) (min_length a) st st1" .
  then have "fst st1 \<le> length s" by (simp add: good_step_def)
  from good_step_trans [OF s1 RSeq.IH(2) [OF this st1(2)]] show ?case by simp
next
  case (RAlt a b)
  from RAlt.prems(2) consider "st' \<in> set (matches a s st)" | "st' \<in> set (matches b s st)" by auto
  then show ?case
  proof cases
    case 1
    from good_step_mono [OF RAlt.IH(1) [OF RAlt.prems(1) 1]] show ?thesis by simp
  next
    case 2
    from good_step_mono [OF RAlt.IH(2) [OF RAlt.prems(1) 2]] show ?thesis by simp
  qed
next
  case (RRep m limit r)
  from iterate_good [OF RRep.IH RRep.prems(1)] RRep.prems(2) show ?case by auto
next
  case (RCap n r)
  from RCap.prems obtain q c where q: "(q, c) \<in> set (matches r s st)" "st' = (q, (n, fst st, q) # c)"
    by auto
  from RCap.IH [OF RCap.prems(1) q(1)] have g: "good_step (length s) (min_length r) st (q, c)" .
  then obtain d where "c = d @ snd st" "\<forall>(n, b, e) \<in> set d. fst st \<le> b \<and> b \<le> e \<and> e \<le> q"
    by (auto simp: good_step_def within_def)
  with g have "within (fst st) q (snd st) ((n, fst st, q) # c)"
    unfolding within_def by (intro exI [of _ "(n, fst st, q) # d"]) (auto simp: good_step_def)
  with g show ?case unfolding q(2) by (simp add: good_step_def)
qed (auto simp: good_step_def split: if_splits)

lemma regex_search_good:
  "regex_search r s p = Some (b, e, c) \<Longrightarrow>
     p \<le> b \<and> b + min_length r \<le> e \<and> e \<le> length s \<and> (\<forall>(n, cb, ce) \<in> set c. b \<le> cb \<and> cb \<le> ce \<and> ce \<le> e)"
proof (induction r s p rule: regex_search.induct)
  case (1 r s p)
  have le: "p \<le> length s"
    using "1.prems" unfolding regex_search.simps [of r s p] by (simp split: if_splits)
  show ?case
  proof (cases "match_at r s p")
    case None
    with "1.prems" le have "regex_search r s (Suc p) = Some (b, e, c)"
      unfolding regex_search.simps [of r s p] by simp
    with "1.IH" None le show ?thesis by fastforce
  next
    case (Some m)
    with "1.prems" le have "m = (b, e, c)"
      unfolding regex_search.simps [of r s p] by simp
    with Some have "b = p" "(e, c) \<in> set (matches r s (p, []))"
      by (auto simp: match_at_def split: list.splits)
    with matches_good [of "(p, [])" s "(e, c)" r] le show ?thesis
      by (auto simp: good_step_def within_def)
  qed
qed

subsection \<open>The iterator\<close>

text \<open>
  \<open>std::sregex_iterator\<close>: the next search starts where the last match ended. All expressions of
  the program consume at least one character, so the iterator's treatment of empty matches plays no
  part; here it ends at an empty match.
\<close>

function regex_matches :: "regex \<Rightarrow> string \<Rightarrow> nat \<Rightarrow> regex_match list" where
  "regex_matches r s p =
     (case regex_search r s p of
        None \<Rightarrow> []
      | Some (b, e, c) \<Rightarrow> (b, e, c) # (if b < e then regex_matches r s e else []))"
  by pat_completeness auto
termination
  by (relation "measure (\<lambda>(r, s, p). length s - p)") (auto dest!: regex_search_good)

declare regex_matches.simps [simp del]

text \<open>\<open>match[n]\<close>: the last capture of a group, the whole match for 0.\<close>

definition group :: "nat \<Rightarrow> regex_match \<Rightarrow> (nat \<times> nat) option" where
  "group n m = (case m of (b, e, c) \<Rightarrow> if n = 0 then Some (b, e) else map_of c n)"

lemma regex_matches_good:
  "m \<in> set (regex_matches r s p) \<Longrightarrow> group n m = Some (b, e) \<Longrightarrow> p \<le> b \<and> b \<le> e \<and> e \<le> length s"
proof (induction r s p rule: regex_matches.induct)
  case (1 r s p)
  from "1.prems"(1) obtain mb me c where f: "regex_search r s p = Some (mb, me, c)"
    unfolding regex_matches.simps [of r s p] by (cases "regex_search r s p") auto
  from regex_search_good [OF f] have g: "p \<le> mb" "mb \<le> me" "me \<le> length s"
    "\<forall>(n, cb, ce) \<in> set c. mb \<le> cb \<and> cb \<le> ce \<and> ce \<le> me" by auto
  show ?case
  proof (cases "m = (mb, me, c)")
    case True
    show ?thesis
    proof (cases "n = 0")
      case False
      with True "1.prems"(2) have "(n, b, e) \<in> set c" by (simp add: group_def map_of_SomeD)
      with g show ?thesis by fastforce
    qed (use True "1.prems"(2) g in \<open>simp add: group_def\<close>)
  next
    case False
    with "1.prems"(1) have "mb < me \<and> m \<in> set (regex_matches r s me)"
      unfolding regex_matches.simps [of r s p] f by (simp split: if_splits)
    with "1.IH" [OF f refl refl] "1.prems"(2) g show ?thesis by fastforce
  qed
qed

subsection \<open>Rebuilding a text\<close>

text \<open>
  The loop over ranges with a cursor: ranges that begin before the cursor are skipped, the text up
  to a range is copied, and its replacement appended.
\<close>

fun splice :: "string \<Rightarrow> nat \<Rightarrow> (nat \<times> nat \<times> string) list \<Rightarrow> string" where
  "splice input cursor [] = drop cursor input"
| "splice input cursor ((b, e, replacement) # ranges) =
     (if b < cursor then splice input cursor ranges
      else substr input cursor (b - cursor) @ replacement @ splice input e ranges)"

text \<open>The same, as a list of edits: the old text and the new one of each piece.\<close>

fun splice_edits :: "string \<Rightarrow> nat \<Rightarrow> (nat \<times> nat \<times> string) list \<Rightarrow> (string \<times> string) list" where
  "splice_edits input cursor [] = [(drop cursor input, drop cursor input)]"
| "splice_edits input cursor ((b, e, replacement) # ranges) =
     (if b < cursor then splice_edits input cursor ranges
      else (substr input cursor (b - cursor), substr input cursor (b - cursor))
           # (substr input b (e - b), replacement) # splice_edits input e ranges)"

lemma splice_new: "splice input cursor ranges = concat (map snd (splice_edits input cursor ranges))"
  by (induction input cursor ranges rule: splice.induct) auto

lemma take_drop_split: "a \<le> b \<Longrightarrow> drop a s = take (b - a) (drop a s) @ drop b s"
  by (metis append_take_drop_id drop_drop le_add_diff_inverse2)

lemma splice_old:
  "\<forall>(b, e, r) \<in> set ranges. b \<le> e \<Longrightarrow> concat (map fst (splice_edits input cursor ranges)) = drop cursor input"
proof (induction input cursor ranges rule: splice.induct)
  case (2 input cursor b e r ranges)
  show ?case
  proof (cases "b < cursor")
    case False
    have "drop cursor input = substr input cursor (b - cursor) @ substr input b (e - b) @ drop e input"
      using take_drop_split [of cursor b input] take_drop_split [of b e input] False "2.prems"
      by (simp add: substr_def)
    with False 2 show ?thesis by simp
  qed (use 2 in simp)
qed simp

lemma splice_edit_kinds:
  "(old, new) \<in> set (splice_edits input cursor ranges) \<Longrightarrow>
     old = new \<or> (\<exists>b e. (b, e, new) \<in> set ranges \<and> old = substr input b (e - b))"
  by (induction input cursor ranges rule: splice.induct) (auto split: if_splits)

end
