(* ===== verification/Privacy.thy ===== *)
theory Privacy
  imports Regex
begin

text \<open>
  \<open>PrivacyAnonymizer\<close> (\<open>application/privacy_anonymizer.hpp\<close> and \<open>.cpp\<close>): the classification of
  field names, the markers that stand for private values and the synthetic values that replace
  them, and \<open>sanitize\<close>, the pipeline that puts markers into a sample. The regular expressions are
  the source's, written with the constructors of \<open>Regex\<close>; text outside ASCII is given in bytes.
\<close>

subsection \<open>Kinds and markers\<close>

datatype privacy_token_kind =
    None_Kind
  | Person
  | Store
  | StoreCode
  | UserId
  | EmployeeId
  | Department
  | Organization
  | Email
  | Phone
  | Address
  | IpAddress
  | MacAddress
  | Host
  | Identifier
  | Secret
  | FilePath

definition privacy_token_kinds :: "privacy_token_kind list" where
  "privacy_token_kinds =
     [Person, Store, StoreCode, UserId, EmployeeId, Department, Organization, Email, Phone, Address,
     IpAddress, MacAddress, Host, Identifier, Secret, FilePath]"

text \<open>The enumerator's value.\<close>

fun privacy_token_value :: "privacy_token_kind \<Rightarrow> nat" where
  "privacy_token_value None_Kind = 0"
| "privacy_token_value Person = 1"
| "privacy_token_value Store = 2"
| "privacy_token_value StoreCode = 3"
| "privacy_token_value UserId = 4"
| "privacy_token_value EmployeeId = 5"
| "privacy_token_value Department = 6"
| "privacy_token_value Organization = 7"
| "privacy_token_value Email = 8"
| "privacy_token_value Phone = 9"
| "privacy_token_value Address = 10"
| "privacy_token_value IpAddress = 11"
| "privacy_token_value MacAddress = 12"
| "privacy_token_value Host = 13"
| "privacy_token_value Identifier = 14"
| "privacy_token_value Secret = 15"
| "privacy_token_value FilePath = 16"

definition privacy_token_bit :: "privacy_token_kind \<Rightarrow> u32" where
  "privacy_token_bit kind =
     (let v = privacy_token_value kind in if v = 0 then 0 else push_bit (v - 1) 1)"

fun marker :: "privacy_token_kind \<Rightarrow> string" where
  "marker Person = ''{{PERSON}}''"
| "marker Store = ''{{STORE}}''"
| "marker StoreCode = ''{{STORE_CODE}}''"
| "marker UserId = ''{{USER_ID}}''"
| "marker EmployeeId = ''{{EMPLOYEE_ID}}''"
| "marker Department = ''{{DEPARTMENT}}''"
| "marker Organization = ''{{ORGANIZATION}}''"
| "marker Email = ''{{EMAIL}}''"
| "marker Phone = ''{{PHONE}}''"
| "marker Address = ''{{ADDRESS}}''"
| "marker IpAddress = ''{{IP_ADDRESS}}''"
| "marker MacAddress = ''{{MAC_ADDRESS}}''"
| "marker Host = ''{{HOST}}''"
| "marker Identifier = ''{{IDENTIFIER}}''"
| "marker Secret = ''{{SECRET}}''"
| "marker FilePath = ''{{FILE_PATH}}''"
| "marker None_Kind = []"

definition marker_kind :: "string \<Rightarrow> privacy_token_kind" where
  "marker_kind value =
     (case find (\<lambda>kind. value = marker kind) privacy_token_kinds of
        None \<Rightarrow> None_Kind | Some kind \<Rightarrow> kind)"

fun search_terms :: "privacy_token_kind \<Rightarrow> string" where
  "search_terms Person =
     ''person name user_name user_nm emp_nm '' @ bytes [0xEC, 0x84, 0xB1, 0xEB, 0xAA, 0x85] @ '' '' @
     bytes [0xEC, 0x9D, 0xB4, 0xEB, 0xA6, 0x84] @ '' '' @ bytes [0xEC, 0x82, 0xAC, 0xEB, 0x9E, 0x8C]"
| "search_terms Store =
     ''store branch shop site str_nm '' @ bytes [0xEC, 0xA0, 0x90, 0xED, 0x8F, 0xAC] @ '' '' @
     bytes [0xEC, 0xA7, 0x80, 0xEC, 0xA0, 0x90] @ '' '' @ bytes [0xEB, 0xA7, 0xA4, 0xEC, 0x9E, 0xA5] @
     '' '' @ bytes [0xED, 0x98, 0xB8, 0xEC, 0xA0, 0x90]"
| "search_terms StoreCode =
     ''store_code branch_code site_num str_cd bizpl_cd '' @ bytes [0xEC, 0xA0, 0x90, 0xED, 0x8F, 0xAC,
     0xEC, 0xBD, 0x94, 0xEB, 0x93, 0x9C] @ '' '' @ bytes [0xEB, 0xA7, 0xA4, 0xEC, 0x9E, 0xA5, 0xEC,
     0xBD, 0x94, 0xEB, 0x93, 0x9C] @ '' '' @ bytes [0xEC, 0xA7, 0x80, 0xEC, 0xA0, 0x90, 0xEC, 0xBD,
     0x94, 0xEB, 0x93, 0x9C]"
| "search_terms UserId =
     ''user account login id '' @ bytes [0xEA, 0xB3, 0x84, 0xEC, 0xA0, 0x95] @ '' '' @ bytes [0xEC,
     0x82, 0xAC, 0xEC, 0x9A, 0xA9, 0xEC, 0x9E, 0x90] @ '' '' @ bytes [0xEC, 0x95, 0x84, 0xEC, 0x9D,
     0xB4, 0xEB, 0x94, 0x94]"
| "search_terms EmployeeId =
     ''employee emp employee_id emp_no '' @ bytes [0xEC, 0x82, 0xAC, 0xEB, 0xB2, 0x88] @ '' '' @
     bytes [0xEC, 0x9E, 0x84, 0xEC, 0xA7, 0x81, 0xEC, 0x9B, 0x90]"
| "search_terms Department =
     ''department dept team group '' @ bytes [0xEB, 0xB6, 0x80, 0xEC, 0x84, 0x9C] @ '' '' @
     bytes [0xEC, 0xA1, 0xB0, 0xEC, 0xA7, 0x81] @ '' '' @ bytes [0xED, 0x8C, 0x80] @ '' '' @
     bytes [0xED, 0x8C, 0x8C, 0xED, 0x8A, 0xB8]"
| "search_terms Organization =
     ''organization company corporate org '' @ bytes [0xED, 0x9A, 0x8C, 0xEC, 0x82, 0xAC] @ '' '' @
     bytes [0xEB, 0xB2, 0x95, 0xEC, 0x9D, 0xB8]"
| "search_terms Email =
     ''email e-mail mail '' @ bytes [0xEC, 0x9D, 0xB4, 0xEB, 0xA9, 0x94, 0xEC, 0x9D, 0xBC] @ '' '' @
     bytes [0xEB, 0xA9, 0x94, 0xEC, 0x9D, 0xBC]"
| "search_terms Phone =
     ''phone mobile telephone tel '' @ bytes [0xEC, 0xA0, 0x84, 0xED, 0x99, 0x94] @ '' '' @
     bytes [0xED, 0x9C, 0xB4, 0xEB, 0x8C, 0x80, 0xED, 0x8F, 0xB0] @ '' '' @ bytes [0xEC, 0x97, 0xB0,
     0xEB, 0x9D, 0xBD, 0xEC, 0xB2, 0x98]"
| "search_terms Address =
     ''address postal zip '' @ bytes [0xEC, 0xA3, 0xBC, 0xEC, 0x86, 0x8C] @ '' '' @ bytes [0xEC, 0x9A,
     0xB0, 0xED, 0x8E, 0xB8, 0xEB, 0xB2, 0x88, 0xED, 0x98, 0xB8]"
| "search_terms IpAddress =
     ''ip address network '' @ bytes [0xEC, 0x95, 0x84, 0xEC, 0x9D, 0xB4, 0xED, 0x94, 0xBC] @ '' '' @
     bytes [0xEB, 0x84, 0xA4, 0xED, 0x8A, 0xB8, 0xEC, 0x9B, 0x8C, 0xED, 0x81, 0xAC]"
| "search_terms MacAddress =
     ''mac address hardware '' @ bytes [0xEB, 0xA7, 0xA5, 0xEC, 0xA3, 0xBC, 0xEC, 0x86, 0x8C] @ '' '' @
     bytes [0xED, 0x95, 0x98, 0xEB, 0x93, 0x9C, 0xEC, 0x9B, 0xA8, 0xEC, 0x96, 0xB4]"
| "search_terms Host =
     ''host hostname device terminal server '' @ bytes [0xED, 0x98, 0xB8, 0xEC, 0x8A, 0xA4, 0xED, 0x8A,
     0xB8] @ '' '' @ bytes [0xEC, 0x9E, 0xA5, 0xEB, 0xB9, 0x84] @ '' '' @ bytes [0xEB, 0x8B, 0xA8,
     0xEB, 0xA7, 0x90] @ '' '' @ bytes [0xEC, 0x84, 0x9C, 0xEB, 0xB2, 0x84]"
| "search_terms Identifier =
     ''identifier uuid guid session '' @ bytes [0xEA, 0xB0, 0x9C, 0xEC, 0x9D, 0xB8, 0xEC, 0x8B, 0x9D,
     0xEB, 0xB3, 0x84] @ '' '' @ bytes [0xEC, 0x8B, 0x9D, 0xEB, 0xB3, 0x84, 0xEC, 0x9E, 0x90] @ '' '' @
     bytes [0xEC, 0x84, 0xB8, 0xEC, 0x85, 0x98]"
| "search_terms Secret =
     ''secret password token key credential '' @ bytes [0xEB, 0xB9, 0x84, 0xEB, 0xB0, 0x80, 0xEB, 0xB2,
     0x88, 0xED, 0x98, 0xB8] @ '' '' @ bytes [0xEB, 0xB9, 0x84, 0xEB, 0xB0, 0x80] @ '' '' @
     bytes [0xEC, 0x9D, 0xB8, 0xEC, 0xA6, 0x9D]"
| "search_terms FilePath =
     ''file path filename directory '' @ bytes [0xED, 0x8C, 0x8C, 0xEC, 0x9D, 0xBC] @ '' '' @
     bytes [0xEA, 0xB2, 0xBD, 0xEB, 0xA1, 0x9C] @ '' '' @ bytes [0xED, 0x8F, 0xB4, 0xEB, 0x8D, 0x94]"
| "search_terms None_Kind = []"

subsection \<open>Synthetic values\<close>

definition synthetic_profile_count :: nat where
  "synthetic_profile_count = 50"

record synthetic_profile =
  sp_person :: string
  sp_store :: string
  sp_store_code :: string
  sp_user_id :: string
  sp_employee_id :: string
  sp_department :: string
  sp_organization :: string
  sp_email :: string
  sp_phone :: string
  sp_address :: string
  sp_ip_address :: string
  sp_mac_address :: string
  sp_host :: string
  sp_identifier :: string
  sp_secret :: string
  sp_file_path :: string

text \<open>\<open>%02X\<close> of a number below 256.\<close>

definition hex_digit :: "nat \<Rightarrow> char" where
  "hex_digit d = (if d < 10 then digit_char d else char_of (55 + d))"

definition to_hex2 :: "nat \<Rightarrow> string" where
  "to_hex2 n = [hex_digit (n div 16), hex_digit (n mod 16)]"

text \<open>One round of the loop of \<open>make_profiles\<close>.\<close>

definition make_profile :: "nat \<Rightarrow> synthetic_profile" where
  "make_profile index =
     (let number = index + 1
      in \<lparr>sp_person = bytes [0xED, 0x99, 0x8D, 0xEA, 0xB8, 0xB8, 0xEB, 0x8F, 0x99] @ '' '' @ to_dec number,
          sp_store = to_dec number @ bytes [0xED, 0x98, 0xB8, 0xEC, 0xA0, 0x90],
          sp_store_code = to_dec number,
          sp_user_id = ''user'' @ to_dec number,
          sp_employee_id = ''EMP'' @ zero_pad 4 (to_dec number),
          sp_department = bytes [0xED, 0x85, 0x8C, 0xEC, 0x8A, 0xA4, 0xED, 0x8A, 0xB8, 0xEB, 0xB6, 0x80, 0xEC, 0x84,
            0x9C] @ '' '' @ to_dec number,
          sp_organization = ''Your-Company'',
          sp_email = ''user'' @ to_dec number @ ''@example.invalid'',
          sp_phone = ''010-0000-'' @ zero_pad 4 (to_dec number),
          sp_address = bytes [0xEC, 0x84, 0x9C, 0xEC, 0x9A, 0xB8, 0xED, 0x8A, 0xB9, 0xEB, 0xB3, 0x84, 0xEC, 0x8B,
            0x9C] @ '' '' @ bytes [0xED, 0x85, 0x8C, 0xEC, 0x8A, 0xA4, 0xED, 0x8A, 0xB8, 0xEB, 0xA1,
            0x9C] @ '' '' @ to_dec number,
          sp_ip_address = ''198.51.100.'' @ to_dec number,
          sp_mac_address = ''02:00:00:00:00:'' @ to_hex2 number,
          sp_host = ''host-'' @ to_dec number,
          sp_identifier = ''id-'' @ zero_pad 4 (to_dec number),
          sp_secret = ''secret-'' @ zero_pad 4 (to_dec number),
          sp_file_path = ''C:/ProgramData/Your-Company/SecurityData/event-'' @ to_dec number @ ''.dat''\<rparr>)"

definition profiles :: "synthetic_profile list" where
  "profiles = map make_profile [0 ..< synthetic_profile_count]"

definition synthetic_value :: "privacy_token_kind \<Rightarrow> nat \<Rightarrow> string" where
  "synthetic_value kind profile_index =
     (let profile = profiles ! (profile_index mod synthetic_profile_count)
      in case kind of
           None_Kind \<Rightarrow> []
         | Person \<Rightarrow> sp_person profile
         | Store \<Rightarrow> sp_store profile
         | StoreCode \<Rightarrow> sp_store_code profile
         | UserId \<Rightarrow> sp_user_id profile
         | EmployeeId \<Rightarrow> sp_employee_id profile
         | Department \<Rightarrow> sp_department profile
         | Organization \<Rightarrow> sp_organization profile
         | Email \<Rightarrow> sp_email profile
         | Phone \<Rightarrow> sp_phone profile
         | Address \<Rightarrow> sp_address profile
         | IpAddress \<Rightarrow> sp_ip_address profile
         | MacAddress \<Rightarrow> sp_mac_address profile
         | Host \<Rightarrow> sp_host profile
         | Identifier \<Rightarrow> sp_identifier profile
         | Secret \<Rightarrow> sp_secret profile
         | FilePath \<Rightarrow> sp_file_path profile)"

subsection \<open>Field names\<close>

definition normalize_field :: "string \<Rightarrow> string" where
  "normalize_field field_name =
     map (\<lambda>c. if c = CHR ''-'' \<or> c = CHR ''.'' then CHR ''_'' else to_lower c) field_name"

definition contains_any :: "string \<Rightarrow> string list \<Rightarrow> bool" where
  "contains_any value candidates \<longleftrightarrow> list_ex (\<lambda>candidate. find_sub candidate value \<noteq> None) candidates"

definition equals_any :: "string \<Rightarrow> string list \<Rightarrow> bool" where
  "equals_any value candidates \<longleftrightarrow> value \<in> set candidates"

definition classify_field :: "string \<Rightarrow> privacy_token_kind" where
  "classify_field field_name =
     (let field = normalize_field field_name in
      if equals_any field [''src'', ''srcip'', ''src_ip'', ''srp_ip'', ''srcaddr'', ''src_addr'',
        ''srcaddress'', ''src_address'', ''sourceip'', ''source_ip'', ''sourceaddress'',
        ''source_address'', ''clientip'', ''client_ip'', ''clientipaddr'', ''sip'', ''gateway'',
        ''dst'', ''dstip'', ''dst_ip'', ''dest_ip'', ''dstnip'', ''dstn_ip'', ''dstaddr'',
        ''dst_addr'', ''dstaddress'', ''dst_address'', ''destinationip'', ''destination_ip'',
        ''destinationaddress'', ''destination_address'', ''serverip'', ''server_ip'', ''dip'']
        then None_Kind
      else if contains_any field [''store_code'', ''branch_code'', ''shop_code'', ''site_num'',
        ''site_code'', ''site_cd'', ''str_cd'', ''bizpl_cd'']
        then StoreCode
      else if contains_any field [''store'', ''branch'', ''shop'', ''site_name'', ''site_nm'', ''str_nm'',
        ''bizpl'']
        then Store
      else if field = ''name'' \<or> contains_any field [''user_name'', ''user_nm'', ''emp_name'',
        ''emp_nm'', ''employee_name'', ''person_name'', ''customer_name'', ''customer_nm'',
        ''cust_name'', ''cust_nm'', ''member_name'', ''member_nm'', ''client_name'', ''manager_name'',
        ''manager_nm'', ''mgr_name'', ''mgr_nm'', ''operator_name'', ''admin_name'',
        ''requester_name'', ''approver_name'', ''owner_name'', ''suser_name'', ''duser_name'',
        ''first_name'', ''firstname'', ''last_name'', ''lastname'', ''full_name'', ''fullname'',
        ''given_name'', ''family_name'', ''srcnm'', ''src_nm'', ''dstnm'', ''dst_nm'', ''ldap_name'',
        ''sess_uname''] \<or> field = ''ssun''
        then Person
      else if contains_any field [''email'', ''e_mail'', ''mail_addr'', ''mail_address'']
        then Email
      else if field \<noteq> ''ldap_tel'' \<and> contains_any field [''phone'', ''mobile'', ''cellphone'',
        ''cell_phone'', ''telephone'', ''tel_no'', ''telnum'', ''fax'']
        then Phone
      else if contains_any field [''address'', ''postal'', ''postcode'', ''zip_code'',
        ''zipcode''] \<or> (find_sub ''addr'' field \<noteq> None \<and> find_sub ''ip'' field = None)
        then Address
      else if field = ''mac'' \<or> starts_with field ''mac_'' \<or> ends_with field ''_mac''
        then MacAddress
      else if field = ''ip'' \<or> ends_with field ''_ip'' \<or> starts_with field ''ip_'' \<or> contains_any field [''clientip'',
        ''agentip'', ''web_ip'', ''access_ip'', ''remote_ip'', ''local_ip'']
        then IpAddress
      else if contains_any field [''password'', ''passwd'', ''pwd'', ''secret'', ''token'', ''api_key'',
        ''access_key'', ''private_key'', ''credential'',
        ''hmac''] \<or> field = ''payload'' \<or> field = ''reassembled''
        then Secret
      else if contains_any field [''dept'', ''team'', ''division'', ''department'', ''groupname'',
        ''group_name''] \<or> field = ''ldap_tel'' \<or> field = ''ssdn''
        then Department
      else if contains_any field [''company'', ''corporate'', ''organization'', ''org_name'', ''org_nm'',
        ''com_name'', ''sess_dname'', ''sess_serverdname''] \<or> equals_any field [''sssdn'',
        ''ssdbn'']
        then Organization
      else if equals_any field [''suser'', ''duser'', ''srcid'', ''src_id'', ''ldap_sno'', ''ssui'',
        ''ssda'', ''ssli'', ''tda''] \<or> contains_any field [''username'', ''user_id'', ''userid'',
        ''login_id'', ''loginid'', ''account'', ''suser_id'', ''duser_id'', ''chakra_user_id'',
        ''manager_id'', ''mgr_id'', ''decide_mgr_id'', ''sess_localid'', ''sess_userid'',
        ''sess_dbaccount'']
        then UserId
      else if contains_any field [''emp_id'', ''employee_id'', ''empno'', ''emp_no'', ''employee_no'']
        then EmployeeId
      else if equals_any field [''host'', ''server_nm'', ''eqp_nm'', ''sensor_nm'', ''instance_nm'',
        ''dstn_host_nm'', ''src_host_nm'', ''sess_domain'', ''sess_serveruname'', ''ssd'',
        ''sssun''] \<or> contains_any field [''host_name'', ''hostname'', ''host_alias'',
        ''device_id'', ''deviceid'', ''terminal_id'', ''terminal_name'', ''term_name'', ''serial'']
        then Host
      else if field = ''path'' \<or> contains_any field [''file_path'', ''filepath'', ''filename'',
        ''file_name'', ''origin_filename'', ''install_location'', ''application_path'', ''directory'',
        ''folder'', ''safpath'']
        then FilePath
      else if contains_any field [''resident'', ''rrn'', ''ssn'', ''passport'', ''card_no'', ''card_number'',
        ''customer_id'', ''customer_no'', ''cust_id'', ''cust_no'', ''member_id'', ''member_no'',
        ''birth'', ''birthday'', ''date_of_birth'', ''dob'', ''vehicle_no'', ''car_no'',
        ''license_no'', ''uuid'', ''guid'', ''session_id'', ''sessionid'', ''dbi_session'',
        ''dbi_statement'', ''dbi_transaction'', ''user_num'', ''client_num'', ''dept_num'',
        ''personal_id'', ''user_info'', ''user_key_id'', ''principalid'', ''identifier'', ''rcvid'',
        ''ec2_id'', ''dstid'', ''dst_id'', ''srcgrpid'', ''src_grp_id'', ''dstgrpid'', ''dst_grp_id'',
        ''sess_did'', ''sess_serverdid'', ''sess_uid'', ''sess_serveruid'', ''txn_stmguid'',
        ''txn_sessguid''] \<or> equals_any field [''_uid'', ''uid'', ''sssd'', ''sssu'', ''ssuid'',
        ''ssdid'']
        then Identifier
      else None_Kind)"

subsection \<open>Replacements\<close>

text \<open>
  The loop of \<open>replace_ascii_case_insensitive\<close> on the text from \<open>position\<close> on; what lies before the
  position is not read again.
\<close>

function replace_from :: "string \<Rightarrow> string \<Rightarrow> string \<Rightarrow> string" where
  "replace_from needle replacement rest =
     (if needle = [] \<or> length rest < length needle then rest
      else if lowercase (take (length needle) rest) = lowercase needle
      then replacement @ replace_from needle replacement (drop (length needle) rest)
      else hd rest # replace_from needle replacement (tl rest))"
  by pat_completeness auto
termination
  by (relation "measure (\<lambda>(needle, replacement, rest). length rest)") (auto simp flip: length_greater_0_conv)

declare replace_from.simps [simp del]

definition replace_ascii_case_insensitive :: "string \<Rightarrow> string \<Rightarrow> string \<Rightarrow> string" where
  "replace_ascii_case_insensitive value needle replacement =
     (if needle = [] \<or> length value < length needle then value
      else replace_from needle replacement value)"

text \<open>The expression of \<open>legacy_store_code_pattern\<close>: \<^verbatim>\<open>((?:\b(?:store_code|branch_code|shop_code|site_num|site_code|site_cd|str_cd|bizpl_cd))\s*[:=]\s*["']?)\{\{STORE\}\}\<close> with \<open>icase\<close>\<close>

definition legacy_store_code_pattern :: regex where
  "legacy_store_code_pattern =
     rseq [RCap 1 (rseq [rseq [RWord, ralt (map rilit [''store_code'', ''branch_code'',
     ''shop_code'', ''site_num'', ''site_code'', ''site_cd'', ''str_cd'', ''bizpl_cd''])],
     rstar (RChar is_space), RChar (\<lambda>c. c = CHR '':'' \<or> c = CHR ''=''),
     rstar (RChar is_space), ropt (RChar (\<lambda>c. c = DQUOTE \<or> c = SQUOTE))]),
     rilit ''{{STORE}}'']"

text \<open>The expression of \<open>partial_mac_marker_pattern\<close>: \<^verbatim>\<open>(^|[^0-9A-Za-z_])(?:[0-9A-Fa-f]{2}:)+["']?\{\{MAC_ADDRESS\}\}\<close>\<close>

definition partial_mac_marker_pattern :: regex where
  "partial_mac_marker_pattern =
     rseq [RCap 1 (ralt [RBol,
     RChar (\<lambda>c. \<not> (is_alpha c \<or> is_digit c \<or> c = CHR ''_''))]),
     rplus (rseq [rtimes 2 (RChar (\<lambda>c. is_digit c \<or> char_between (CHR ''A'') (CHR ''F'') c \<or> char_between (CHR ''a'') (CHR ''f'') c)),
     rlit '':'']), ropt (RChar (\<lambda>c. c = DQUOTE \<or> c = SQUOTE)), rlit ''{{MAC_ADDRESS}}'']"

text \<open>The table of \<open>escape_unsupported_controls\<close>, by code.\<close>

definition control_escapes :: "string list" where
  "control_escapes =
     [[BACKSLASH, CHR ''x'', CHR ''0'', CHR ''0''], [BACKSLASH, CHR ''x'', CHR ''0'', CHR ''1''],
     [BACKSLASH, CHR ''x'', CHR ''0'', CHR ''2''], [BACKSLASH, CHR ''x'', CHR ''0'', CHR ''3''],
     [BACKSLASH, CHR ''x'', CHR ''0'', CHR ''4''], [BACKSLASH, CHR ''x'', CHR ''0'', CHR ''5''],
     [BACKSLASH, CHR ''x'', CHR ''0'', CHR ''6''], [BACKSLASH, CHR ''a''], [BACKSLASH, CHR ''b''], [],
     [], [BACKSLASH, CHR ''v''], [BACKSLASH, CHR ''f''], [], [BACKSLASH, CHR ''x'', CHR ''0'',
     CHR ''E''], [BACKSLASH, CHR ''x'', CHR ''0'', CHR ''F''], [BACKSLASH, CHR ''x'', CHR ''1'',
     CHR ''0''], [BACKSLASH, CHR ''x'', CHR ''1'', CHR ''1''], [BACKSLASH, CHR ''x'', CHR ''1'',
     CHR ''2''], [BACKSLASH, CHR ''x'', CHR ''1'', CHR ''3''], [BACKSLASH, CHR ''x'', CHR ''1'',
     CHR ''4''], [BACKSLASH, CHR ''x'', CHR ''1'', CHR ''5''], [BACKSLASH, CHR ''x'', CHR ''1'',
     CHR ''6''], [BACKSLASH, CHR ''x'', CHR ''1'', CHR ''7''], [BACKSLASH, CHR ''x'', CHR ''1'',
     CHR ''8''], [BACKSLASH, CHR ''x'', CHR ''1'', CHR ''9''], [BACKSLASH, CHR ''x'', CHR ''1'',
     CHR ''A''], [BACKSLASH, CHR ''x'', CHR ''1'', CHR ''B''], [BACKSLASH, CHR ''x'', CHR ''1'',
     CHR ''C''], [BACKSLASH, CHR ''x'', CHR ''1'', CHR ''D''], [BACKSLASH, CHR ''x'', CHR ''1'',
     CHR ''E''], [BACKSLASH, CHR ''x'', CHR ''1'', CHR ''F'']]"

definition escape_unsupported_controls :: "string \<Rightarrow> string" where
  "escape_unsupported_controls input =
     concat (map (\<lambda>c. if 0x20 \<le> code c \<or> c = TAB \<or> c = LF \<or> c = CR then [c]
                       else control_escapes ! code c) input)"

text \<open>An expression of \<open>sanitize\<close>: \<^verbatim>\<open>\b[A-Za-z0-9.!#$%&'*+/=?^_`{|}~-]+@[A-Za-z0-9-]+(?:\.[A-Za-z0-9-]+)+\b\<close>\<close>

definition email_pattern :: regex where
  "email_pattern =
     rseq [RWord,
     rplus (RChar (\<lambda>c. is_alpha c \<or> is_digit c \<or> c = CHR ''.'' \<or> c = CHR ''!'' \<or> c = CHR ''#'' \<or> c = CHR ''$'' \<or> c = CHR ''%'' \<or> c = CHR ''&'' \<or> c = SQUOTE \<or> c = CHR ''*'' \<or> c = CHR ''+'' \<or> c = CHR ''/'' \<or> c = CHR ''='' \<or> c = CHR ''?'' \<or> c = CHR ''^'' \<or> c = CHR ''_'' \<or> c = CHR ''`'' \<or> c = CHR ''{'' \<or> c = CHR ''|'' \<or> c = CHR ''}'' \<or> c = CHR ''~'' \<or> c = CHR ''-'')),
     rlit ''@'', rplus (RChar (\<lambda>c. is_alpha c \<or> is_digit c \<or> c = CHR ''-'')),
     rplus (rseq [rlit ''.'',
     rplus (RChar (\<lambda>c. is_alpha c \<or> is_digit c \<or> c = CHR ''-''))]), RWord]"

text \<open>An expression of \<open>sanitize\<close>: \<^verbatim>\<open>(?:\+82[- ]?0?1[016789]|\b01[016789])[- ]?\d{3,4}[- ]?\d{4}\b\<close>\<close>

definition phone_pattern :: regex where
  "phone_pattern =
     rseq [ralt [rseq [rlit ''+82'', ropt (RChar (\<lambda>c. c = CHR ''-'' \<or> c = CHR '' '')),
     ropt (rlit ''0''), rlit ''1'',
     RChar (\<lambda>c. c = CHR ''0'' \<or> c = CHR ''1'' \<or> c = CHR ''6'' \<or> c = CHR ''7'' \<or> c = CHR ''8'' \<or> c = CHR ''9'')],
     rseq [RWord, rlit ''01'',
     RChar (\<lambda>c. c = CHR ''0'' \<or> c = CHR ''1'' \<or> c = CHR ''6'' \<or> c = CHR ''7'' \<or> c = CHR ''8'' \<or> c = CHR ''9'')]],
     ropt (RChar (\<lambda>c. c = CHR ''-'' \<or> c = CHR '' '')),
     RRep 3 (Some 4) (RChar is_digit),
     ropt (RChar (\<lambda>c. c = CHR ''-'' \<or> c = CHR '' '')), rtimes 4 (RChar is_digit), RWord]"

text \<open>An expression of \<open>sanitize\<close>: \<^verbatim>\<open>\b\d{6}[- ]?[1-8]\d{6}\b\<close>\<close>

definition resident_pattern :: regex where
  "resident_pattern =
     rseq [RWord, rtimes 6 (RChar is_digit),
     ropt (RChar (\<lambda>c. c = CHR ''-'' \<or> c = CHR '' '')),
     RChar (char_between (CHR ''1'') (CHR ''8'')), rtimes 6 (RChar is_digit), RWord]"

text \<open>An expression of \<open>sanitize\<close>: \<^verbatim>\<open>\b(?:[0-9A-Fa-f]{2}[:-]){5}[0-9A-Fa-f]{2}\b\<close>\<close>

definition mac_pattern :: regex where
  "mac_pattern =
     rseq [RWord,
     rtimes 5 (rseq [rtimes 2 (RChar (\<lambda>c. is_digit c \<or> char_between (CHR ''A'') (CHR ''F'') c \<or> char_between (CHR ''a'') (CHR ''f'') c)),
     RChar (\<lambda>c. c = CHR '':'' \<or> c = CHR ''-'')]),
     rtimes 2 (RChar (\<lambda>c. is_digit c \<or> char_between (CHR ''A'') (CHR ''F'') c \<or> char_between (CHR ''a'') (CHR ''f'') c)),
     RWord]"

text \<open>An expression of \<open>sanitize\<close>: \<^verbatim>\<open>(\b[A-Za-z]:\\Users\\)[^\\\s]+\<close> with \<open>icase\<close>\<close>

definition user_path_pattern :: regex where
  "user_path_pattern =
     rseq [RCap 1 (rseq [RWord, RChar is_alpha, rilit [CHR '':'', BACKSLASH, CHR ''U'', CHR ''s'',
     CHR ''e'', CHR ''r'', CHR ''s'', BACKSLASH]]),
     rplus (RChar (\<lambda>c. \<not> (c = BACKSLASH \<or> is_space c)))]"

definition replace_pattern :: "string \<Rightarrow> regex \<Rightarrow> string \<Rightarrow> string" where
  "replace_pattern input pattern marker_text =
     splice input 0 (map (\<lambda>(b, e, c). (b, e, marker_text)) (regex_matches pattern input 0))"

text \<open>The text of a group of a match, empty when it took no part.\<close>

definition group_text :: "string \<Rightarrow> nat \<Rightarrow> regex_match \<Rightarrow> string" where
  "group_text input n m = (case group n m of None \<Rightarrow> [] | Some (b, e) \<Rightarrow> substr input b (e - b))"

text \<open>\<open>std::regex_replace\<close> with the format \<open>$1\<close> followed by a literal.\<close>

definition regex_replace_1 :: "string \<Rightarrow> regex \<Rightarrow> string \<Rightarrow> string" where
  "regex_replace_1 input pattern literal =
     splice input 0 (map (\<lambda>(b, e, c). (b, e, group_text input 1 (b, e, c) @ literal))
                       (regex_matches pattern input 0))"

subsection \<open>Sensitive fields\<close>

definition field_character :: "char \<Rightarrow> bool" where
  "field_character c \<longleftrightarrow> is_alnum c \<or> c = CHR ''_'' \<or> c = CHR ''.'' \<or> c = CHR ''-''"

definition field_boundary :: "char \<Rightarrow> bool" where
  "field_boundary c \<longleftrightarrow> is_space c \<or> c = CHR '','' \<or> c = CHR '';'' \<or> c = CHR ''|'' \<or> c = CHR ''{''"

definition value_boundary :: "char \<Rightarrow> bool" where
  "value_boundary c \<longleftrightarrow>
     is_space c \<or> c = CHR '','' \<or> c = CHR '';'' \<or> c = CHR ''|'' \<or> c = CHR ''}'' \<or> c = CHR '']''"

definition is_quote :: "char \<Rightarrow> bool" where
  "is_quote c \<longleftrightarrow> c = DQUOTE \<or> c = SQUOTE"

text \<open>\<open>while (position < size && P(input[position])) ++position\<close>.\<close>

definition scan_while :: "(char \<Rightarrow> bool) \<Rightarrow> string \<Rightarrow> nat \<Rightarrow> nat" where
  "scan_while P input position = position + length (takeWhile P (drop position input))"

definition next_is :: "(char \<Rightarrow> bool) \<Rightarrow> string \<Rightarrow> nat \<Rightarrow> bool" where
  "next_is P input position \<longleftrightarrow> position < length input \<and> P (input ! position)"

text \<open>
  What the loop finds at a candidate: nothing (go on with the next character), the end of the input
  after a separator, or a field with the range of its value.
\<close>

datatype field_scan = No_Field | Input_Ends | Field string nat nat

definition scan_field :: "string \<Rightarrow> nat \<Rightarrow> field_scan" where
  "scan_field input candidate =
     (if 0 < candidate \<and> \<not> field_boundary (input ! (candidate - 1)) then No_Field
      else
        let field_begin = (if is_quote (input ! candidate) then candidate + 1 else candidate)
        in if length input \<le> field_begin
              \<or> \<not> is_alpha (input ! field_begin) \<and> input ! field_begin \<noteq> CHR ''_''
           then No_Field
           else
             let field_end = min (scan_while field_character input field_begin) (field_begin + 64)
             in if next_is field_character input field_end then No_Field
                else
                  let after_quote = (if next_is is_quote input field_end then field_end + 1 else field_end);
                      separator = scan_while (\<lambda>c. c = CHR '' '' \<or> c = TAB) input after_quote
                  in if \<not> next_is (\<lambda>c. c = CHR '':'' \<or> c = CHR ''='') input separator then No_Field
                     else
                       let position = scan_while (\<lambda>c. c = CHR '' '') input (separator + 1)
                       in if length input \<le> position then Input_Ends
                          else if is_quote (input ! position) then
                            Field (substr input field_begin (field_end - field_begin)) (position + 1)
                              (scan_while (\<lambda>c. c \<noteq> input ! position) input (position + 1))
                          else
                            Field (substr input field_begin (field_end - field_begin)) position
                              (scan_while (\<lambda>c. \<not> value_boundary c) input position))"

function sensitive_fields :: "string \<Rightarrow> nat \<Rightarrow> (nat \<times> nat \<times> privacy_token_kind) list" where
  "sensitive_fields input candidate =
     (if \<not> candidate < length input then []
      else case scan_field input candidate of
             No_Field \<Rightarrow> sensitive_fields input (candidate + 1)
           | Input_Ends \<Rightarrow> []
           | Field name value_begin value_end \<Rightarrow>
               let kind = classify_field name;
                   current_value = substr input value_begin (value_end - value_begin)
               in (if kind \<noteq> None_Kind \<and> current_value \<noteq> [] \<and> find_sub ''{{'' current_value = None
                      \<and> find_sub ''}}'' current_value = None
                   then [(value_begin, value_end, kind)] else [])
                  @ sensitive_fields input (max value_end (candidate + 1)))"
  by pat_completeness auto
termination by (relation "measure (\<lambda>(input, candidate). length input - candidate)") auto

declare sensitive_fields.simps [simp del]

definition replace_sensitive_fields :: "string \<Rightarrow> string" where
  "replace_sensitive_fields input =
     splice input 0 (map (\<lambda>(b, e, kind). (b, e, marker kind)) (sensitive_fields input 0))"

subsection \<open>sanitize\<close>

text \<open>The loop over the user paths; it has no guard, the matches never overlap.\<close>

fun replace_user_paths :: "string \<Rightarrow> nat \<Rightarrow> regex_match list \<Rightarrow> string" where
  "replace_user_paths result cursor [] = drop cursor result"
| "replace_user_paths result cursor ((b, e, c) # ms) =
     substr result cursor (b - cursor) @ group_text result 1 (b, e, c) @ ''TestUser''
     @ replace_user_paths result e ms"

definition sanitize :: "string \<Rightarrow> string" where
  "sanitize sample =
     (let r1 = replace_ascii_case_insensitive sample ''test123'' ''Your-Company'';
          r2 = replace_ascii_case_insensitive r1 ''lottermart'' ''Your-Company'';
          r3 = replace_ascii_case_insensitive r2 ''lottemart'' ''Your-Company'';
          r4 = replace_ascii_case_insensitive r3 ''lotte'' ''Your'';
          r5 = replace_ascii_case_insensitive r4 ''mart'' ''company'';
          r6 = regex_replace_1 r5 legacy_store_code_pattern ''{{STORE_CODE}}'';
          r7 = regex_replace_1 r6 partial_mac_marker_pattern ''{{MAC_ADDRESS}}'';
          r8 = replace_sensitive_fields r7;
          r9 = replace_pattern r8 email_pattern (marker Email);
          r10 = replace_pattern r9 phone_pattern (marker Phone);
          r11 = replace_pattern r10 resident_pattern (marker Identifier);
          r12 = replace_pattern r11 mac_pattern (marker MacAddress);
          path_output = replace_user_paths r12 0 (regex_matches user_path_pattern r12 0)
      in escape_unsupported_controls path_output)"

subsection \<open>Where fields lie\<close>

lemma scan_while_bounds:
  "p \<le> length input \<Longrightarrow> p \<le> scan_while P input p \<and> scan_while P input p \<le> length input"
  using length_takeWhile_le [of P "drop p input"] by (simp add: scan_while_def)

lemma next_is_less: "next_is P input p \<Longrightarrow> p < length input"
  by (simp add: next_is_def)

lemma scan_field_bounds:
  assumes "scan_field input candidate = Field name b e" "candidate < length input"
  shows "candidate < b \<and> b \<le> e \<and> e \<le> length input"
proof -
  define fb where "fb = (if is_quote (input ! candidate) then candidate + 1 else candidate)"
  define fe where "fe = min (scan_while field_character input fb) (fb + 64)"
  define aq where "aq = (if next_is is_quote input fe then fe + 1 else fe)"
  define sep where "sep = scan_while (\<lambda>c. c = CHR '' '' \<or> c = TAB) input aq"
  define pos where "pos = scan_while (\<lambda>c. c = CHR '' '') input (Suc sep)"
  note defs = fb_def fe_def aq_def sep_def pos_def
  from assms have c: "fb < length input" "next_is (\<lambda>c. c = CHR '':'' \<or> c = CHR ''='') input sep"
    "pos < length input" "(b, e) = (if is_quote (input ! pos) then
        (Suc pos, scan_while (\<lambda>c. c \<noteq> input ! pos) input (Suc pos))
      else (pos, scan_while (\<lambda>c. \<not> value_boundary c) input pos))"
    unfolding scan_field_def by (auto simp: Let_def simp flip: defs split: if_splits)
  have "candidate \<le> fb" by (simp add: fb_def)
  moreover have "fb \<le> fe \<and> fe \<le> length input"
    using scan_while_bounds [of fb input field_character] c(1) by (auto simp: fe_def)
  moreover then have "fe \<le> aq \<and> aq \<le> length input"
    using next_is_less [of is_quote input fe] by (auto simp: aq_def)
  moreover then have "aq \<le> sep" using scan_while_bounds [of aq input] by (simp add: sep_def)
  moreover have "sep + 1 \<le> pos"
    using scan_while_bounds [of "Suc sep" input] next_is_less [OF c(2)] by (simp add: pos_def)
  ultimately have "candidate < pos" by linarith
  moreover have "b \<le> e \<and> e \<le> length input \<and> pos \<le> b"
    using c(3,4) scan_while_bounds [of "Suc pos" input] scan_while_bounds [of pos input]
    by (auto split: if_splits)
  ultimately show ?thesis by linarith
qed

lemma sensitive_fields_good:
  "(b, e, kind) \<in> set (sensitive_fields input candidate) \<Longrightarrow>
     candidate < b \<and> b < e \<and> e \<le> length input \<and> kind \<noteq> None_Kind
     \<and> find_sub ''{{'' (substr input b (e - b)) = None \<and> find_sub ''}}'' (substr input b (e - b)) = None
     \<and> (\<exists>c name. scan_field input c = Field name b e \<and> classify_field name = kind)"
proof (induction input candidate rule: sensitive_fields.induct)
  case (1 input candidate)
  have lt: "candidate < length input"
    using "1.prems" unfolding sensitive_fields.simps [of input candidate] by (simp split: if_splits)
  show ?case
  proof (cases "scan_field input candidate")
    case No_Field
    with "1.prems" lt have "(b, e, kind) \<in> set (sensitive_fields input (candidate + 1))"
      unfolding sensitive_fields.simps [of input candidate] by simp
    from "1.IH"(1) [OF _ No_Field this] lt show ?thesis by auto
  next
    case Input_Ends
    with "1.prems" show ?thesis unfolding sensitive_fields.simps [of input candidate] by (simp split: if_splits)
  next
    case (Field name vb ve)
    from scan_field_bounds [OF Field lt] have bd: "candidate < vb" "vb \<le> ve" "ve \<le> length input" by auto
    from "1.prems" lt Field consider
      "b = vb" "e = ve" "kind = classify_field name" "kind \<noteq> None_Kind" "substr input b (e - b) \<noteq> []"
      "find_sub ''{{'' (substr input b (e - b)) = None" "find_sub ''}}'' (substr input b (e - b)) = None"
      | "(b, e, kind) \<in> set (sensitive_fields input (max ve (candidate + 1)))"
      unfolding sensitive_fields.simps [of input candidate] by (auto simp: Let_def split: if_splits)
    then show ?thesis
    proof cases
      case 1
      with bd Field show ?thesis by (auto simp: substr_def)
    next
      case 2
      from "1.IH"(2) [OF _ Field refl refl this] lt show ?thesis by auto
    qed
  qed
qed

text \<open>A plain field at the start of the input.\<close>

lemma scan_while_eq:
  "\<forall>c \<in> set t. P c \<Longrightarrow> rest = [] \<or> \<not> P (hd rest) \<Longrightarrow> scan_while P (pre @ t @ rest) (length pre) = length pre + length t"
  by (cases rest) (auto simp: scan_while_def takeWhile_append takeWhile_all list_all_iff)

lemma scan_plain_field:
  assumes "name \<noteq> []" "is_alpha (hd name) \<or> hd name = CHR ''_''" "\<forall>c \<in> set name. field_character c"
    "length name \<le> 64" "sep = CHR '':'' \<or> sep = CHR ''=''"
    "value \<noteq> []" "\<not> is_quote (hd value)" "\<forall>c \<in> set value. \<not> value_boundary c"
    "rest = [] \<or> value_boundary (hd rest)"
  shows "scan_field (name @ [sep] @ value @ rest) 0
    = Field name (length name + 1) (length name + 1 + length value)"
proof -
  let ?i = "name @ [sep] @ value @ rest"
  have q: "\<not> is_quote (hd name)" using assms(2) by (auto simp: is_quote_def is_alpha_def is_upper_def is_lower_def)
  have h: "?i ! 0 = hd name" using assms(1) by (simp add: nth_append hd_conv_nth)
  have nf: "\<not> field_character sep" "\<not> is_quote sep" "sep \<noteq> CHR '' ''" "sep \<noteq> TAB"
    using assms(5) by (auto simp: field_character_def is_alnum_def is_alpha_def is_upper_def is_lower_def
        is_digit_def is_quote_def)
  have fe: "scan_while field_character ?i 0 = length name"
    using scan_while_eq [of name field_character "[sep] @ value @ rest" "[]"] assms(3) nf by simp
  have at: "?i ! length name = sep" "length name < length ?i" by (simp_all add: nth_append)
  have sep: "scan_while (\<lambda>c. c = CHR '' '' \<or> c = TAB) ?i (length name) = length name"
    using scan_while_eq [of "[]" "\<lambda>c. c = CHR '' '' \<or> c = TAB" "[sep] @ value @ rest" name] nf by simp
  have "value_boundary (CHR '' '')" by (simp add: value_boundary_def is_space_def)
  with assms(6,8) have sp: "hd value \<noteq> CHR '' ''" by (metis hd_in_set)
  have pos: "scan_while (\<lambda>c. c = CHR '' '') ?i (Suc (length name)) = Suc (length name)"
    using scan_while_eq [of "[]" "\<lambda>c. c = CHR '' ''" "value @ rest" "name @ [sep]"] sp assms(6) by simp
  have vat: "?i ! Suc (length name) = hd value"
    using assms(6) by (cases "value") (simp_all add: nth_append)
  have ve: "scan_while (\<lambda>c. \<not> value_boundary c) ?i (Suc (length name)) = Suc (length name) + length value"
    using scan_while_eq [of "value" "\<lambda>c. \<not> value_boundary c" rest "name @ [sep]"] assms(8,9) by simp
  have nxt: "next_is (\<lambda>c. c = CHR '':'' \<or> c = CHR ''='') ?i (length name)"
    "\<not> next_is field_character ?i (length name)" "\<not> next_is is_quote ?i (length name)"
    using assms(5) nf at by (auto simp: next_is_def)
  have sub: "substr ?i 0 (length name) = name" by (simp add: substr_def)
  have len: "\<not> length ?i \<le> 0" "\<not> length ?i \<le> Suc (length name)" using assms(1,6) by auto
  show ?thesis
    unfolding scan_field_def Let_def h
    using assms(2,4,7) q by (simp add: fe sep pos vat ve nxt sub len h del: append.simps append_assoc length_append)
qed

lemma markers_distinct: "marker k = marker l \<longleftrightarrow> k = l"
  by (cases k; cases l) simp_all

lemma marker_kind_marker: "marker_kind (marker k) = k"
  by (cases k) (simp_all add: marker_kind_def privacy_token_kinds_def)

lemma privacy_token_bits: "k \<noteq> None_Kind \<Longrightarrow>
    privacy_token_bit k = 2 ^ (privacy_token_value k - 1) \<and> 1 \<le> privacy_token_value k \<and> privacy_token_value k \<le> 16"
  by (cases k) (simp_all add: privacy_token_bit_def push_bit_eq_mult)

text \<open>The edits of a replacement pass.\<close>

lemma splice_pass:
  assumes "\<forall>(b, e, r) \<in> set ranges. b \<le> e"
  shows "\<exists>edits. input = concat (map fst edits) \<and> splice input 0 ranges = concat (map snd edits)
    \<and> (\<forall>(old, new) \<in> set edits. old = new
         \<or> (\<exists>b e. (b, e, new) \<in> set ranges \<and> old = substr input b (e - b)))"
  using splice_old [OF assms, of input 0] splice_new [of input 0 ranges] splice_edit_kinds [of _ _ input 0 ranges]
  by (intro exI [of _ "splice_edits input 0 ranges"]) auto

lemma sensitive_fields_plain:
  assumes "name \<noteq> []" "is_alpha (hd name) \<or> hd name = CHR ''_''" "\<forall>c \<in> set name. field_character c"
    "length name \<le> 64" "sep = CHR '':'' \<or> sep = CHR ''=''"
    "value \<noteq> []" "\<not> is_quote (hd value)" "\<forall>c \<in> set value. \<not> value_boundary c"
    "rest = [] \<or> value_boundary (hd rest)" "classify_field name \<noteq> None_Kind"
    "find_sub ''{{'' value = None" "find_sub ''}}'' value = None"
  shows "\<exists>out. replace_sensitive_fields (name @ [sep] @ value @ rest)
    = name @ [sep] @ marker (classify_field name) @ out"
proof -
  let ?i = "name @ [sep] @ value @ rest" and ?b = "length name + 1" and ?e = "length name + 1 + length value"
  have scan: "scan_field ?i 0 = Field name ?b ?e" by (rule scan_plain_field [OF assms(1-9)])
  have "substr ?i ?b (?e - ?b) = value" by (simp add: substr_def)
  then have s: "sensitive_fields ?i 0 = (?b, ?e, classify_field name) # sensitive_fields ?i ?e"
    using scan assms(1,6,10-12) unfolding sensitive_fields.simps [of ?i 0]
    by (simp add: max_def Let_def)
  have "replace_sensitive_fields ?i = substr ?i 0 ?b @ marker (classify_field name)
      @ splice ?i ?e (map (\<lambda>(b, e, kind). (b, e, marker kind)) (sensitive_fields ?i ?e))"
    unfolding replace_sensitive_fields_def s by simp
  moreover have "substr ?i 0 ?b = name @ [sep]" by (simp add: substr_def)
  ultimately show ?thesis by auto
qed

subsection \<open>Properties\<close>

text \<open>
  Markers identify their kind: \<open>marker_kind\<close> inverts \<open>marker\<close>, different kinds have different
  markers, and the bits of the analysis mask are 16 different single bits.
\<close>

theorem privacy_markers_bijective:
  "marker_kind (marker k) = k \<and> (marker k = marker l \<longleftrightarrow> k = l)
   \<and> (privacy_token_bit k = privacy_token_bit l \<longleftrightarrow> k = l)
   \<and> (if k = None_Kind then privacy_token_bit k = 0 else \<exists>i<16. privacy_token_bit k = 2 ^ i)"
proof (intro conjI)
  show "privacy_token_bit k = privacy_token_bit l \<longleftrightarrow> k = l"
    by (cases k; cases l) (simp_all add: privacy_token_bit_def push_bit_eq_mult)
  show "if k = None_Kind then privacy_token_bit k = 0 else \<exists>i<16. privacy_token_bit k = 2 ^ i"
    using privacy_token_bits [of k]
    by (cases "k = None_Kind") (auto simp: privacy_token_bit_def intro!: exI [of _ "privacy_token_value k - 1"])
qed (simp_all add: marker_kind_marker markers_distinct)

text \<open>
  The field pass changes private values only: its output is the input in which some pieces are
  replaced, and each piece replaced is the whole value of a field whose name is classified as
  private, holds no marker braces, and became the marker of the field's kind.
\<close>

theorem sensitive_pass_edits:
  "\<exists>edits. input = concat (map fst edits) \<and> replace_sensitive_fields input = concat (map snd edits)
    \<and> (\<forall>(old, new) \<in> set edits. old = new
         \<or> (\<exists>candidate name b e. scan_field input candidate = Field name b e \<and> old = substr input b (e - b)
              \<and> classify_field name \<noteq> None_Kind \<and> new = marker (classify_field name)
              \<and> find_sub ''{{'' old = None \<and> find_sub ''}}'' old = None))"
proof -
  let ?ranges = "map (\<lambda>(b, e, kind). (b, e, marker kind)) (sensitive_fields input 0)"
  have "\<forall>(b, e, r) \<in> set ?ranges. b \<le> e" by (fastforce dest: sensitive_fields_good)
  from splice_pass [OF this, of input] obtain edits where
    e: "input = concat (map fst edits)" "splice input 0 ?ranges = concat (map snd edits)" and
    k: "\<forall>(old, new) \<in> set edits. old = new
       \<or> (\<exists>b e. (b, e, new) \<in> set ?ranges \<and> old = substr input b (e - b))"
    by (elim exE conjE)
  have value_edit: "\<exists>candidate name b e. scan_field input candidate = Field name b e
      \<and> old = substr input b (e - b) \<and> classify_field name \<noteq> None_Kind
      \<and> new = marker (classify_field name) \<and> find_sub ''{{'' old = None \<and> find_sub ''}}'' old = None"
    if "(b, e, new) \<in> set ?ranges" "old = substr input b (e - b)" for old new b e
  proof -
    from that(1) obtain kind where "(b, e, kind) \<in> set (sensitive_fields input 0)" "new = marker kind" by auto
    with sensitive_fields_good [OF this(1)] that(2) show ?thesis by auto
  qed
  show ?thesis
  proof (intro exI [of _ edits] conjI ballI case_prodI2)
    show "replace_sensitive_fields input = concat (map snd edits)"
      using e(2) by (simp add: replace_sensitive_fields_def)
    fix x old new
    assume "x \<in> set edits" "x = (old, new)"
    with k have "old = new \<or> (\<exists>b e. (b, e, new) \<in> set ?ranges \<and> old = substr input b (e - b))" by fast
    then show "old = new
         \<or> (\<exists>candidate name b e. scan_field input candidate = Field name b e \<and> old = substr input b (e - b)
              \<and> classify_field name \<noteq> None_Kind \<and> new = marker (classify_field name)
              \<and> find_sub ''{{'' old = None \<and> find_sub ''}}'' old = None)"
      by (elim disjE exE conjE) (simp, rule disjI2, rule value_edit)
  qed (rule e(1))
qed

theorem sensitive_pass_edits_witness:
  "\<exists>edits. ''Password=abc'' = concat (map fst edits) \<and> replace_sensitive_fields ''Password=abc'' = concat (map snd edits)"
  using sensitive_pass_edits [of "''Password=abc''"] by blast



text \<open>
  C8. Sanitized samples hold no control characters other than tab, line feed and carriage return:
  each one is spelled out as an escape.
\<close>

theorem sanitize_no_controls:
  "list_all (\<lambda>c. 0x20 \<le> code c \<or> c = TAB \<or> c = LF \<or> c = CR) (sanitize sample)"
proof -
  have printable: "\<forall>e \<in> set control_escapes. \<forall>c \<in> set e. 0x20 \<le> code c" by code_simp
  have "\<forall>d \<in> set (control_escapes ! code c). 0x20 \<le> code d" if "\<not> 0x20 \<le> code c" for c
  proof -
    have "code c < length control_escapes" using that by (simp add: control_escapes_def)
    with printable show ?thesis by (meson nth_mem)
  qed
  then have "\<forall>c \<in> set (escape_unsupported_controls t). 0x20 \<le> code c \<or> c = TAB \<or> c = LF \<or> c = CR" for t
    by (auto simp: escape_unsupported_controls_def split: if_splits)
  then show ?thesis by (simp add: sanitize_def Let_def list_all_iff)
qed

end
