(* ===== verification/Timestamps.thy ===== *)
theory Timestamps
  imports Privacy Calendar
begin

text \<open>
  Timestamps in \<open>application/log_renderer.cpp\<close>: the token that remembers how a timestamp was written
  (\<open>make_token\<close>), the expressions by which timestamps and endpoint addresses are found, the markers
  that a tokenized sample carries, the segments a sample is compiled into, and the printing of a
  time in a token's style (\<open>append_timestamp\<close>). Time points are nanoseconds since the epoch.
\<close>

subsection \<open>Tokens and segments\<close>

record timestamp_token =
  tt_style :: timestamp_style
  tt_date_separator :: char
  tt_date_time_separator :: char
  tt_fractional_digits :: nat
  tt_hour_width :: nat
  tt_zone_offset_minutes :: int
  tt_has_weekday :: bool
  tt_zone_suffix :: string

definition default_token :: timestamp_token where
  "default_token =
     \<lparr>tt_style = Iso8601, tt_date_separator = CHR ''-'', tt_date_time_separator = CHR ''T'',
      tt_fractional_digits = 0, tt_hour_width = 2, tt_zone_offset_minutes = 0,
      tt_has_weekday = False, tt_zone_suffix = []\<rparr>"

datatype segment_kind = Literal | Timestamp | Privacy | SourceIp | DestinationIp

record render_segment =
  rs_text :: string
  rs_kind :: segment_kind
  rs_timestamp :: timestamp_token
  rs_privacy :: privacy_token_kind

subsection \<open>make_token\<close>

text \<open>The value of a \<open>char\<close>, which is signed on the platforms of the program.\<close>

definition char_value :: "char \<Rightarrow> int" where
  "char_value c = (if code c < 128 then int (code c) else int (code c) - 256)"

definition two_digits :: "string \<Rightarrow> nat \<Rightarrow> int" where
  "two_digits s i = (char_value (s ! i) - 48) * 10 + (char_value (s ! (i + 1)) - 48)"

definition parse_zone_offset :: "string \<Rightarrow> int" where
  "parse_zone_offset suffix =
     (if length suffix < 5 \<or> (hd suffix \<noteq> CHR ''+'' \<and> hd suffix \<noteq> CHR ''-'') then 0
      else
        let negative = (hd suffix = CHR ''-'');
            hours = two_digits suffix 1;
            minute_index = (if length suffix = 6 then 4 else 3);
            minutes = two_digits suffix minute_index;
            total = hours * 60 + minutes
        in if negative then - total else total)"

definition weekday_names :: "string list" where
  "weekday_names = [''Sun'', ''Mon'', ''Tue'', ''Wed'', ''Thu'', ''Fri'', ''Sat'']"

definition month_names :: "string list" where
  "month_names =
     [''Jan'', ''Feb'', ''Mar'', ''Apr'', ''May'', ''Jun'', ''Jul'', ''Aug'', ''Sep'', ''Oct'', ''Nov'', ''Dec'']"

definition char_or :: "string \<Rightarrow> nat \<Rightarrow> char \<Rightarrow> char" where
  "char_or s i c = (if i < length s then s ! i else c)"

text \<open>The digits after the first dot at or after a position.\<close>

definition fraction_token :: "string \<Rightarrow> nat \<Rightarrow> timestamp_token \<Rightarrow> timestamp_token" where
  "fraction_token s position token =
     (case find_from ''.'' s position of
        None \<Rightarrow> token
      | Some dot \<Rightarrow>
          token\<lparr>tt_fractional_digits := min 9 (length (takeWhile is_digit (drop (dot + 1) s)))\<rparr>)"

definition zone_token :: "string \<Rightarrow> nat option \<Rightarrow> timestamp_token \<Rightarrow> timestamp_token" where
  "zone_token s position token =
     (case position of
        None \<Rightarrow> token
      | Some p \<Rightarrow> token\<lparr>tt_zone_suffix := drop p s, tt_zone_offset_minutes := parse_zone_offset (drop p s)\<rparr>)"

definition one_or_two :: "string \<Rightarrow> nat \<Rightarrow> nat" where
  "one_or_two s i = (if i < length s \<and> s ! i = CHR '':'' then 1 else 2)"

definition make_token :: "timestamp_style \<Rightarrow> string \<Rightarrow> timestamp_token" where
  "make_token style s =
     (let token = default_token\<lparr>tt_style := style,
            tt_has_weekday := (4 < length s \<and> s ! 3 = CHR '' '' \<and> take 3 s \<in> set weekday_names)\<rparr>
      in case style of
           Iso8601 \<Rightarrow>
             zone_token s (find_first_of ''Z+-'' s 11) (fraction_token s 11
               (token\<lparr>tt_date_separator := char_or s 4 (CHR ''-''),
                      tt_date_time_separator := char_or s 10 (CHR ''T''),
                      tt_hour_width := one_or_two s 12\<rparr>))
         | CompactWithT \<Rightarrow> zone_token s (find_first_of ''Z+-'' s 15) (fraction_token s 0 token)
         | Apache \<Rightarrow> zone_token s (find_last_of ''+-'' s) token
         | MonthFirstGmt \<Rightarrow> token\<lparr>tt_zone_suffix := ''GMT''\<rparr>
         | MonthDayYear \<Rightarrow>
             (case find_last_of '' '' s of
                None \<Rightarrow> token
              | Some p \<Rightarrow> if drop (p + 1) s = ''GMT'' \<or> drop (p + 1) s = ''UTC''
                          then token\<lparr>tt_zone_suffix := drop (p + 1) s\<rparr> else token)
         | DateOnly \<Rightarrow> token\<lparr>tt_date_separator := char_or s 4 (CHR ''-'')\<rparr>
         | YearMonth \<Rightarrow> token\<lparr>tt_date_separator := char_or s 4 (CHR ''-'')\<rparr>
         | YearFirstMinute \<Rightarrow>
             token\<lparr>tt_date_separator := char_or s 4 (CHR ''-''),
                   tt_date_time_separator := char_or s 10 (CHR '' ''),
                   tt_hour_width := one_or_two s 12\<rparr>
         | TimeOnly \<Rightarrow>
             (let token1 = token\<lparr>tt_hour_width := one_or_two s 1\<rparr>
              in case find_from ''.'' s 0 of
                   None \<Rightarrow> token1
                 | Some dot \<Rightarrow> token1\<lparr>tt_fractional_digits := min 9 (length s - dot - 1)\<rparr>)
         | _ \<Rightarrow> token)"

subsection \<open>Markers\<close>

definition timestamp_marker_prefix :: string where
  "timestamp_marker_prefix = ''{{TIMESTAMP:''"

definition timestamp_marker_suffix :: string where
  "timestamp_marker_suffix = ''}}''"

definition timestamp_style_keys :: "(timestamp_style \<times> string) list" where
  "timestamp_style_keys =
     [(Iso8601, ''ISO8601''), (YearFirst, ''YEAR_FIRST''), (SyslogWithYear, ''SYSLOG_YEAR''),
      (SyslogWithoutYear, ''SYSLOG''), (MonthFirstGmt, ''MONTH_FIRST_GMT''), (Apache, ''APACHE''),
      (Compact, ''COMPACT''), (CompactWithT, ''COMPACT_T''), (CompactDate, ''COMPACT_DATE''),
      (CompactYearMonth, ''COMPACT_MONTH''), (CompactTime, ''COMPACT_TIME''),
      (YearFirstMinute, ''YEAR_FIRST_MINUTE''), (MonthDayYear, ''MONTH_DAY_YEAR''),
      (DateOnly, ''DATE''), (YearMonth, ''YEAR_MONTH''), (TimeOnly, ''TIME'')]"

definition timestamp_style_key :: "timestamp_style \<Rightarrow> string" where
  "timestamp_style_key style =
     (case map_of timestamp_style_keys style of None \<Rightarrow> ''UNKNOWN'' | Some key \<Rightarrow> key)"

definition timestamp_style_from_key :: "string \<Rightarrow> timestamp_style option" where
  "timestamp_style_from_key key = map_option fst (find (\<lambda>(style, candidate). candidate = key) timestamp_style_keys)"

subsection \<open>The expressions\<close>

text \<open>The expression of \<open>source_field_pattern\<close>: \<^verbatim>\<open>((?:^|[\s,;|{])["']?(?:src|srcip|src_ip|src-ip|srp_ip|srcaddr|src_addr|srcaddress|src_address|sourceip|source_ip|sourceaddress|source_address|source-address|clientip|client_ip|clientipaddr|sip|gateway)["']?\s*[:=]\s*["']?)(\d{1,3}(?:\.\d{1,3}){3})\<close> with \<open>icase\<close>\<close>

definition source_field_pattern :: regex where
  "source_field_pattern =
     rseq [RCap 1 (rseq [ralt [RBol,
     RChar (\<lambda>c. is_space c \<or> c = CHR '','' \<or> c = CHR '';'' \<or> c = CHR ''|'' \<or> c = CHR ''{'')],
     ropt (RChar (\<lambda>c. c = DQUOTE \<or> c = SQUOTE)), ralt (map rilit [''src'', ''srcip'',
     ''src_ip'', ''src-ip'', ''srp_ip'', ''srcaddr'', ''src_addr'', ''srcaddress'',
     ''src_address'', ''sourceip'', ''source_ip'', ''sourceaddress'', ''source_address'',
     ''source-address'', ''clientip'', ''client_ip'', ''clientipaddr'', ''sip'', ''gateway'']),
     ropt (RChar (\<lambda>c. c = DQUOTE \<or> c = SQUOTE)), rstar (RChar is_space),
     RChar (\<lambda>c. c = CHR '':'' \<or> c = CHR ''=''), rstar (RChar is_space),
     ropt (RChar (\<lambda>c. c = DQUOTE \<or> c = SQUOTE))]),
     RCap 2 (rseq [RRep 1 (Some 3) (RChar is_digit), rtimes 3 (rseq [rlit ''.'',
     RRep 1 (Some 3) (RChar is_digit)])])]"

text \<open>The expression of \<open>destination_field_pattern\<close>: \<^verbatim>\<open>((?:^|[\s,;|{])["']?(?:dst|dstip|dst_ip|dest_ip|dstnip|dstn_ip|dstaddr|dst_addr|dstaddress|dst_address|destinationip|destination_ip|destinationaddress|destination_address|destination-address|serverip|server_ip|dip)["']?\s*[:=]\s*["']?)(\d{1,3}(?:\.\d{1,3}){3})\<close> with \<open>icase\<close>\<close>

definition destination_field_pattern :: regex where
  "destination_field_pattern =
     rseq [RCap 1 (rseq [ralt [RBol,
     RChar (\<lambda>c. is_space c \<or> c = CHR '','' \<or> c = CHR '';'' \<or> c = CHR ''|'' \<or> c = CHR ''{'')],
     ropt (RChar (\<lambda>c. c = DQUOTE \<or> c = SQUOTE)), ralt (map rilit [''dst'', ''dstip'',
     ''dst_ip'', ''dest_ip'', ''dstnip'', ''dstn_ip'', ''dstaddr'', ''dst_addr'', ''dstaddress'',
     ''dst_address'', ''destinationip'', ''destination_ip'', ''destinationaddress'',
     ''destination_address'', ''destination-address'', ''serverip'', ''server_ip'', ''dip'']),
     ropt (RChar (\<lambda>c. c = DQUOTE \<or> c = SQUOTE)), rstar (RChar is_space),
     RChar (\<lambda>c. c = CHR '':'' \<or> c = CHR ''=''), rstar (RChar is_space),
     ropt (RChar (\<lambda>c. c = DQUOTE \<or> c = SQUOTE))]),
     RCap 2 (rseq [RRep 1 (Some 3) (RChar is_digit), rtimes 3 (rseq [rlit ''.'',
     RRep 1 (Some 3) (RChar is_digit)])])]"

text \<open>The expression of \<open>arrow_source_pattern\<close>: \<^verbatim>\<open>(\b)(\d{1,3}(?:\.\d{1,3}){3})(?=:\d{1,5}\s*(?:-|=)>)\<close>\<close>

definition arrow_source_pattern :: regex where
  "arrow_source_pattern =
     rseq [RCap 1 (RWord), RCap 2 (rseq [RRep 1 (Some 3) (RChar is_digit),
     rtimes 3 (rseq [rlit ''.'', RRep 1 (Some 3) (RChar is_digit)])]), RLook (rseq [rlit '':'',
     RRep 1 (Some 5) (RChar is_digit), rstar (RChar is_space), ralt [rlit ''-'', rlit ''=''],
     rlit ''>''])]"

text \<open>The expression of \<open>arrow_destination_pattern\<close>: \<^verbatim>\<open>((?:-|=)>\s*)(\d{1,3}(?:\.\d{1,3}){3})\<close>\<close>

definition arrow_destination_pattern :: regex where
  "arrow_destination_pattern =
     rseq [RCap 1 (rseq [ralt [rlit ''-'', rlit ''=''], rlit ''>'', rstar (RChar is_space)]),
     RCap 2 (rseq [RRep 1 (Some 3) (RChar is_digit), rtimes 3 (rseq [rlit ''.'',
     RRep 1 (Some 3) (RChar is_digit)])])]"

record timestamp_pattern =
  tp_expression :: regex
  tp_style :: timestamp_style
  tp_priority :: nat
  tp_capture_group :: nat

text \<open>Priority 0, \<open>Iso8601\<close>, group 0: \<^verbatim>\<open>\b(?:19|20)\d{2}[-/](?:0[1-9]|1[0-2])[-/](?:0[1-9]|[12]\d|3[01])[T ](?:[01]?\d|2[0-3]):[0-5]\d:[0-5]\d(?:\.\d{1,9})?(?:Z|[+-]\d{2}:?\d{2})?\<close>\<close>

definition ts_pattern_0 :: regex where
  "ts_pattern_0 =
     rseq [RWord, ralt [rlit ''19'', rlit ''20''], rtimes 2 (RChar is_digit),
     RChar (\<lambda>c. c = CHR ''-'' \<or> c = CHR ''/''), ralt [rseq [rlit ''0'',
     RChar (char_between (CHR ''1'') (CHR ''9''))], rseq [rlit ''1'',
     RChar (char_between (CHR ''0'') (CHR ''2''))]],
     RChar (\<lambda>c. c = CHR ''-'' \<or> c = CHR ''/''), ralt [rseq [rlit ''0'',
     RChar (char_between (CHR ''1'') (CHR ''9''))],
     rseq [RChar (\<lambda>c. c = CHR ''1'' \<or> c = CHR ''2''), RChar is_digit],
     rseq [rlit ''3'', RChar (\<lambda>c. c = CHR ''0'' \<or> c = CHR ''1'')]],
     RChar (\<lambda>c. c = CHR ''T'' \<or> c = CHR '' ''),
     ralt [rseq [ropt (RChar (\<lambda>c. c = CHR ''0'' \<or> c = CHR ''1'')), RChar is_digit],
     rseq [rlit ''2'', RChar (char_between (CHR ''0'') (CHR ''3''))]], rlit '':'',
     RChar (char_between (CHR ''0'') (CHR ''5'')), RChar is_digit, rlit '':'',
     RChar (char_between (CHR ''0'') (CHR ''5'')), RChar is_digit, ropt (rseq [rlit ''.'',
     RRep 1 (Some 9) (RChar is_digit)]), ropt (ralt [rlit ''Z'',
     rseq [RChar (\<lambda>c. c = CHR ''+'' \<or> c = CHR ''-''), rtimes 2 (RChar is_digit),
     ropt (rlit '':''), rtimes 2 (RChar is_digit)]])]"

text \<open>Priority 1, \<open>CompactWithT\<close>, group 2: \<^verbatim>\<open>(^|[^0-9])((?:19|20)\d{2}(?:0[1-9]|1[0-2])(?:0[1-9]|[12]\d|3[01])T\d{6}(?:\.\d{1,9})?(?:Z|[+-]\d{2}:?\d{2})?)(?![0-9])\<close>\<close>

definition ts_pattern_1 :: regex where
  "ts_pattern_1 =
     rseq [RCap 1 (ralt [RBol, RChar (\<lambda>c. \<not> is_digit c)]),
     RCap 2 (rseq [ralt [rlit ''19'', rlit ''20''], rtimes 2 (RChar is_digit),
     ralt [rseq [rlit ''0'', RChar (char_between (CHR ''1'') (CHR ''9''))], rseq [rlit ''1'',
     RChar (char_between (CHR ''0'') (CHR ''2''))]], ralt [rseq [rlit ''0'',
     RChar (char_between (CHR ''1'') (CHR ''9''))],
     rseq [RChar (\<lambda>c. c = CHR ''1'' \<or> c = CHR ''2''), RChar is_digit],
     rseq [rlit ''3'', RChar (\<lambda>c. c = CHR ''0'' \<or> c = CHR ''1'')]], rlit ''T'',
     rtimes 6 (RChar is_digit), ropt (rseq [rlit ''.'', RRep 1 (Some 9) (RChar is_digit)]),
     ropt (ralt [rlit ''Z'', rseq [RChar (\<lambda>c. c = CHR ''+'' \<or> c = CHR ''-''),
     rtimes 2 (RChar is_digit), ropt (rlit '':''), rtimes 2 (RChar is_digit)]])]),
     RNot (RChar is_digit)]"

text \<open>Priority 2, \<open>MonthDayYear\<close>, group 0: \<^verbatim>\<open>\b(?:[A-Z][a-z]{2}\s+)?[A-Z][a-z]{2}\s+\d{1,2}\s+\d{4}\s+\d{2}:\d{2}:\d{2}(?:\s+(?:GMT|UTC))?\b\<close>\<close>

definition ts_pattern_2 :: regex where
  "ts_pattern_2 =
     rseq [RWord, ropt (rseq [RChar is_upper, rtimes 2 (RChar is_lower), rplus (RChar is_space)]),
     RChar is_upper, rtimes 2 (RChar is_lower), rplus (RChar is_space),
     RRep 1 (Some 2) (RChar is_digit), rplus (RChar is_space), rtimes 4 (RChar is_digit),
     rplus (RChar is_space), rtimes 2 (RChar is_digit), rlit '':'', rtimes 2 (RChar is_digit),
     rlit '':'', rtimes 2 (RChar is_digit), ropt (rseq [rplus (RChar is_space), ralt [rlit ''GMT'',
     rlit ''UTC'']]), RWord]"

text \<open>Priority 3, \<open>SyslogWithYear\<close>, group 0: \<^verbatim>\<open>\b(?:[A-Z][a-z]{2}\s+)?[A-Z][a-z]{2}\s+\d{1,2}\s+\d{2}:\d{2}:\d{2}\s+\d{4}\b\<close>\<close>

definition ts_pattern_3 :: regex where
  "ts_pattern_3 =
     rseq [RWord, ropt (rseq [RChar is_upper, rtimes 2 (RChar is_lower), rplus (RChar is_space)]),
     RChar is_upper, rtimes 2 (RChar is_lower), rplus (RChar is_space),
     RRep 1 (Some 2) (RChar is_digit), rplus (RChar is_space), rtimes 2 (RChar is_digit),
     rlit '':'', rtimes 2 (RChar is_digit), rlit '':'', rtimes 2 (RChar is_digit),
     rplus (RChar is_space), rtimes 4 (RChar is_digit), RWord]"

text \<open>Priority 4, \<open>Apache\<close>, group 0: \<^verbatim>\<open>\b\d{1,2}/[A-Z][a-z]{2}/\d{4}:\d{2}:\d{2}:\d{2}\s+[+-]\d{4}\b\<close>\<close>

definition ts_pattern_4 :: regex where
  "ts_pattern_4 =
     rseq [RWord, RRep 1 (Some 2) (RChar is_digit), rlit ''/'', RChar is_upper,
     rtimes 2 (RChar is_lower), rlit ''/'', rtimes 4 (RChar is_digit), rlit '':'',
     rtimes 2 (RChar is_digit), rlit '':'', rtimes 2 (RChar is_digit), rlit '':'',
     rtimes 2 (RChar is_digit), rplus (RChar is_space),
     RChar (\<lambda>c. c = CHR ''+'' \<or> c = CHR ''-''), rtimes 4 (RChar is_digit), RWord]"

text \<open>Priority 5, \<open>SyslogWithoutYear\<close>, group 0: \<^verbatim>\<open>\b(?:[A-Z][a-z]{2}\s+)?[A-Z][a-z]{2}\s+\d{1,2}\s+\d{2}:\d{2}:\d{2}\b\<close>\<close>

definition ts_pattern_5 :: regex where
  "ts_pattern_5 =
     rseq [RWord, ropt (rseq [RChar is_upper, rtimes 2 (RChar is_lower), rplus (RChar is_space)]),
     RChar is_upper, rtimes 2 (RChar is_lower), rplus (RChar is_space),
     RRep 1 (Some 2) (RChar is_digit), rplus (RChar is_space), rtimes 2 (RChar is_digit),
     rlit '':'', rtimes 2 (RChar is_digit), rlit '':'', rtimes 2 (RChar is_digit), RWord]"

text \<open>Priority 6, \<open>Compact\<close>, group 2: \<^verbatim>\<open>(^|[^0-9])((?:19|20)\d{2}(?:0[1-9]|1[0-2])(?:0[1-9]|[12]\d|3[01])\d{6})(?![0-9])\<close>\<close>

definition ts_pattern_6 :: regex where
  "ts_pattern_6 =
     rseq [RCap 1 (ralt [RBol, RChar (\<lambda>c. \<not> is_digit c)]),
     RCap 2 (rseq [ralt [rlit ''19'', rlit ''20''], rtimes 2 (RChar is_digit),
     ralt [rseq [rlit ''0'', RChar (char_between (CHR ''1'') (CHR ''9''))], rseq [rlit ''1'',
     RChar (char_between (CHR ''0'') (CHR ''2''))]], ralt [rseq [rlit ''0'',
     RChar (char_between (CHR ''1'') (CHR ''9''))],
     rseq [RChar (\<lambda>c. c = CHR ''1'' \<or> c = CHR ''2''), RChar is_digit],
     rseq [rlit ''3'', RChar (\<lambda>c. c = CHR ''0'' \<or> c = CHR ''1'')]],
     rtimes 6 (RChar is_digit)]), RNot (RChar is_digit)]"

text \<open>Priority 7, \<open>YearFirstMinute\<close>, group 0: \<^verbatim>\<open>\b(?:19|20)\d{2}[-/](?:0[1-9]|1[0-2])[-/](?:0[1-9]|[12]\d|3[01])[ T](?:[01]?\d|2[0-3]):[0-5]\d(?!:)\<close>\<close>

definition ts_pattern_7 :: regex where
  "ts_pattern_7 =
     rseq [RWord, ralt [rlit ''19'', rlit ''20''], rtimes 2 (RChar is_digit),
     RChar (\<lambda>c. c = CHR ''-'' \<or> c = CHR ''/''), ralt [rseq [rlit ''0'',
     RChar (char_between (CHR ''1'') (CHR ''9''))], rseq [rlit ''1'',
     RChar (char_between (CHR ''0'') (CHR ''2''))]],
     RChar (\<lambda>c. c = CHR ''-'' \<or> c = CHR ''/''), ralt [rseq [rlit ''0'',
     RChar (char_between (CHR ''1'') (CHR ''9''))],
     rseq [RChar (\<lambda>c. c = CHR ''1'' \<or> c = CHR ''2''), RChar is_digit],
     rseq [rlit ''3'', RChar (\<lambda>c. c = CHR ''0'' \<or> c = CHR ''1'')]],
     RChar (\<lambda>c. c = CHR '' '' \<or> c = CHR ''T''),
     ralt [rseq [ropt (RChar (\<lambda>c. c = CHR ''0'' \<or> c = CHR ''1'')), RChar is_digit],
     rseq [rlit ''2'', RChar (char_between (CHR ''0'') (CHR ''3''))]], rlit '':'',
     RChar (char_between (CHR ''0'') (CHR ''5'')), RChar is_digit, RNot (rlit '':'')]"

text \<open>Priority 8, \<open>CompactDate\<close>, group 2: \<^verbatim>\<open>(^|[^0-9])((?:19|20)\d{2}(?:0[1-9]|1[0-2])(?:0[1-9]|[12]\d|3[01]))(?![0-9])\<close>\<close>

definition ts_pattern_8 :: regex where
  "ts_pattern_8 =
     rseq [RCap 1 (ralt [RBol, RChar (\<lambda>c. \<not> is_digit c)]),
     RCap 2 (rseq [ralt [rlit ''19'', rlit ''20''], rtimes 2 (RChar is_digit),
     ralt [rseq [rlit ''0'', RChar (char_between (CHR ''1'') (CHR ''9''))], rseq [rlit ''1'',
     RChar (char_between (CHR ''0'') (CHR ''2''))]], ralt [rseq [rlit ''0'',
     RChar (char_between (CHR ''1'') (CHR ''9''))],
     rseq [RChar (\<lambda>c. c = CHR ''1'' \<or> c = CHR ''2''), RChar is_digit],
     rseq [rlit ''3'', RChar (\<lambda>c. c = CHR ''0'' \<or> c = CHR ''1'')]]]),
     RNot (RChar is_digit)]"

text \<open>Priority 9, \<open>CompactYearMonth\<close>, group 2: \<^verbatim>\<open>(^|[^0-9])((?:19|20)\d{2}(?:0[1-9]|1[0-2]))(?=_)\<close>\<close>

definition ts_pattern_9 :: regex where
  "ts_pattern_9 =
     rseq [RCap 1 (ralt [RBol, RChar (\<lambda>c. \<not> is_digit c)]),
     RCap 2 (rseq [ralt [rlit ''19'', rlit ''20''], rtimes 2 (RChar is_digit),
     ralt [rseq [rlit ''0'', RChar (char_between (CHR ''1'') (CHR ''9''))], rseq [rlit ''1'',
     RChar (char_between (CHR ''0'') (CHR ''2''))]]]), RLook (rlit ''_'')]"

text \<open>Priority 10, \<open>CompactTime\<close>, group 2: \<^verbatim>\<open>(\b(?:time|[A-Za-z0-9_]*hms)["']?\s*[:=]\s*["']?)(\d{6})(?!\d)\<close> with \<open>icase\<close>\<close>

definition ts_pattern_10 :: regex where
  "ts_pattern_10 =
     rseq [RCap 1 (rseq [RWord, ralt [rilit ''time'',
     rseq [rstar (RChar (\<lambda>c. is_alpha c \<or> is_digit c \<or> c = CHR ''_'')),
     rilit ''hms'']], ropt (RChar (\<lambda>c. c = DQUOTE \<or> c = SQUOTE)),
     rstar (RChar is_space), RChar (\<lambda>c. c = CHR '':'' \<or> c = CHR ''=''),
     rstar (RChar is_space), ropt (RChar (\<lambda>c. c = DQUOTE \<or> c = SQUOTE))]),
     RCap 2 (rtimes 6 (RChar is_digit)), RNot (RChar is_digit)]"

text \<open>Priority 11, \<open>DateOnly\<close>, group 0: \<^verbatim>\<open>\b(?:19|20)\d{2}[-/](?:0[1-9]|1[0-2])[-/](?:0[1-9]|[12]\d|3[01])\b\<close>\<close>

definition ts_pattern_11 :: regex where
  "ts_pattern_11 =
     rseq [RWord, ralt [rlit ''19'', rlit ''20''], rtimes 2 (RChar is_digit),
     RChar (\<lambda>c. c = CHR ''-'' \<or> c = CHR ''/''), ralt [rseq [rlit ''0'',
     RChar (char_between (CHR ''1'') (CHR ''9''))], rseq [rlit ''1'',
     RChar (char_between (CHR ''0'') (CHR ''2''))]],
     RChar (\<lambda>c. c = CHR ''-'' \<or> c = CHR ''/''), ralt [rseq [rlit ''0'',
     RChar (char_between (CHR ''1'') (CHR ''9''))],
     rseq [RChar (\<lambda>c. c = CHR ''1'' \<or> c = CHR ''2''), RChar is_digit],
     rseq [rlit ''3'', RChar (\<lambda>c. c = CHR ''0'' \<or> c = CHR ''1'')]], RWord]"

text \<open>Priority 12, \<open>YearMonth\<close>, group 0: \<^verbatim>\<open>\b(?:19|20)\d{2}[-/](?:0[1-9]|1[0-2])\b\<close>\<close>

definition ts_pattern_12 :: regex where
  "ts_pattern_12 =
     rseq [RWord, ralt [rlit ''19'', rlit ''20''], rtimes 2 (RChar is_digit),
     RChar (\<lambda>c. c = CHR ''-'' \<or> c = CHR ''/''), ralt [rseq [rlit ''0'',
     RChar (char_between (CHR ''1'') (CHR ''9''))], rseq [rlit ''1'',
     RChar (char_between (CHR ''0'') (CHR ''2''))]], RWord]"

text \<open>Priority 13, \<open>TimeOnly\<close>, group 2: \<^verbatim>\<open>(\btime["']?\s*[:=]\s*["']?)((?:[01]?\d|2[0-3]):[0-5]\d:[0-5]\d(?:\.\d{1,9})?)\<close> with \<open>icase\<close>\<close>

definition ts_pattern_13 :: regex where
  "ts_pattern_13 =
     rseq [RCap 1 (rseq [RWord, rilit ''time'',
     ropt (RChar (\<lambda>c. c = DQUOTE \<or> c = SQUOTE)), rstar (RChar is_space),
     RChar (\<lambda>c. c = CHR '':'' \<or> c = CHR ''=''), rstar (RChar is_space),
     ropt (RChar (\<lambda>c. c = DQUOTE \<or> c = SQUOTE))]),
     RCap 2 (rseq [ralt [rseq [ropt (RChar (\<lambda>c. c = CHR ''0'' \<or> c = CHR ''1'')),
     RChar is_digit], rseq [rlit ''2'', RChar (char_between (CHR ''0'') (CHR ''3''))]], rlit '':'',
     RChar (char_between (CHR ''0'') (CHR ''5'')), RChar is_digit, rlit '':'',
     RChar (char_between (CHR ''0'') (CHR ''5'')), RChar is_digit, ropt (rseq [rlit ''.'',
     RRep 1 (Some 9) (RChar is_digit)])])]"

text \<open>Priority 14, \<open>TimeOnly\<close>, group 1: \<^verbatim>\<open>(?:^|`)((?:[01]\d|2[0-3]):[0-5]\d:[0-5]\d(?:\.\d{1,9})?)(?=`)\<close>\<close>

definition ts_pattern_14 :: regex where
  "ts_pattern_14 =
     rseq [ralt [RBol, rlit ''`''],
     RCap 1 (rseq [ralt [rseq [RChar (\<lambda>c. c = CHR ''0'' \<or> c = CHR ''1''),
     RChar is_digit], rseq [rlit ''2'', RChar (char_between (CHR ''0'') (CHR ''3''))]], rlit '':'',
     RChar (char_between (CHR ''0'') (CHR ''5'')), RChar is_digit, rlit '':'',
     RChar (char_between (CHR ''0'') (CHR ''5'')), RChar is_digit, ropt (rseq [rlit ''.'',
     RRep 1 (Some 9) (RChar is_digit)])]), RLook (rlit ''`'')]"

definition timestamp_patterns :: "timestamp_pattern list" where
  "timestamp_patterns =
     [\<lparr>tp_expression = ts_pattern_0, tp_style = Iso8601, tp_priority = 0, tp_capture_group = 0\<rparr>,
      \<lparr>tp_expression = ts_pattern_1, tp_style = CompactWithT, tp_priority = 1, tp_capture_group = 2\<rparr>,
      \<lparr>tp_expression = ts_pattern_2, tp_style = MonthDayYear, tp_priority = 2, tp_capture_group = 0\<rparr>,
      \<lparr>tp_expression = ts_pattern_3, tp_style = SyslogWithYear, tp_priority = 3, tp_capture_group = 0\<rparr>,
      \<lparr>tp_expression = ts_pattern_4, tp_style = Apache, tp_priority = 4, tp_capture_group = 0\<rparr>,
      \<lparr>tp_expression = ts_pattern_5, tp_style = SyslogWithoutYear, tp_priority = 5, tp_capture_group = 0\<rparr>,
      \<lparr>tp_expression = ts_pattern_6, tp_style = Compact, tp_priority = 6, tp_capture_group = 2\<rparr>,
      \<lparr>tp_expression = ts_pattern_7, tp_style = YearFirstMinute, tp_priority = 7, tp_capture_group = 0\<rparr>,
      \<lparr>tp_expression = ts_pattern_8, tp_style = CompactDate, tp_priority = 8, tp_capture_group = 2\<rparr>,
      \<lparr>tp_expression = ts_pattern_9, tp_style = CompactYearMonth, tp_priority = 9, tp_capture_group = 2\<rparr>,
      \<lparr>tp_expression = ts_pattern_10, tp_style = CompactTime, tp_priority = 10, tp_capture_group = 2\<rparr>,
      \<lparr>tp_expression = ts_pattern_11, tp_style = DateOnly, tp_priority = 11, tp_capture_group = 0\<rparr>,
      \<lparr>tp_expression = ts_pattern_12, tp_style = YearMonth, tp_priority = 12, tp_capture_group = 0\<rparr>,
      \<lparr>tp_expression = ts_pattern_13, tp_style = TimeOnly, tp_priority = 13, tp_capture_group = 2\<rparr>,
      \<lparr>tp_expression = ts_pattern_14, tp_style = TimeOnly, tp_priority = 14, tp_capture_group = 1\<rparr>]"

subsection \<open>Candidates\<close>

record match_candidate =
  mc_position :: nat
  mc_length :: nat
  mc_priority :: int
  mc_kind :: segment_kind
  mc_token :: timestamp_token
  mc_privacy :: privacy_token_kind

text \<open>
  The order of the candidates: by position, the longer first, then by priority. No two candidates
  have the same key, so the order of the sorted vector does not depend on the algorithm.
\<close>

datatype candidate_key = Candidate_Key (key_position: nat) (key_length: nat) (key_priority: int)

instantiation candidate_key :: linorder
begin

definition less_candidate_key :: "candidate_key \<Rightarrow> candidate_key \<Rightarrow> bool" where
  "less_candidate_key left right \<longleftrightarrow>
     (if key_position left \<noteq> key_position right then key_position left < key_position right
      else if key_length left \<noteq> key_length right then key_length right < key_length left
      else key_priority left < key_priority right)"

definition less_eq_candidate_key :: "candidate_key \<Rightarrow> candidate_key \<Rightarrow> bool" where
  "less_eq_candidate_key left right \<longleftrightarrow> left < right \<or> left = right"

instance
proof
  fix x y z :: candidate_key
  note defs = less_candidate_key_def less_eq_candidate_key_def
  show "x < y \<longleftrightarrow> x \<le> y \<and> \<not> y \<le> x" by (auto simp: defs split: if_splits)
  show "x \<le> x" by (simp add: defs)
  show "x \<le> y \<Longrightarrow> y \<le> z \<Longrightarrow> x \<le> z" by (auto simp: defs split: if_splits)
  show "x \<le> y \<Longrightarrow> y \<le> x \<Longrightarrow> x = y" by (auto simp: defs split: if_splits)
  show "x \<le> y \<or> y \<le> x" by (cases x; cases y) (auto simp: defs)
qed

end

definition candidate_key_of :: "match_candidate \<Rightarrow> candidate_key" where
  "candidate_key_of c = Candidate_Key (mc_position c) (mc_length c) (mc_priority c)"

lemma find_from_bounds: "find_from pat s pos = Some i \<Longrightarrow> pos \<le> i \<and> i + length pat \<le> length s"
  using find_from_Some [of pat s pos i] by simp

text \<open>The scan for markers of timestamps that were tokenized before.\<close>

function marker_candidates :: "string \<Rightarrow> nat \<Rightarrow> match_candidate list" where
  "marker_candidates input start =
     (case find_from timestamp_marker_prefix input start of
        None \<Rightarrow> []
      | Some marker_position \<Rightarrow>
          (let key_begin = marker_position + length timestamp_marker_prefix
           in case find_from '':'' input key_begin of
                None \<Rightarrow> marker_candidates input key_begin
              | Some value_separator \<Rightarrow>
                  (case find_from timestamp_marker_suffix input (value_separator + 1) of
                     None \<Rightarrow> marker_candidates input key_begin
                   | Some marker_end \<Rightarrow>
                       (let after_marker = marker_end + length timestamp_marker_suffix
                        in case timestamp_style_from_key (substr input key_begin (value_separator - key_begin)) of
                             None \<Rightarrow> marker_candidates input after_marker
                           | Some style \<Rightarrow>
                               \<lparr>mc_position = marker_position, mc_length = after_marker - marker_position,
                                mc_priority = - 100, mc_kind = Timestamp,
                                mc_token = make_token style
                                  (substr input (value_separator + 1) (marker_end - value_separator - 1)),
                                mc_privacy = None_Kind\<rparr> # marker_candidates input after_marker))))"
  by pat_completeness auto
termination
  by (relation "measure (\<lambda>(input, start). Suc (length input) - start)")
     (auto simp: timestamp_marker_prefix_def dest!: find_from_bounds)

declare marker_candidates.simps [simp del]

definition pattern_candidates :: "string \<Rightarrow> timestamp_pattern \<Rightarrow> match_candidate list" where
  "pattern_candidates input p =
     concat (map (\<lambda>m. case group (tp_capture_group p) m of
         None \<Rightarrow> []
       | Some (b, e) \<Rightarrow>
           [\<lparr>mc_position = b, mc_length = e - b, mc_priority = int (tp_priority p), mc_kind = Timestamp,
             mc_token = make_token (tp_style p) (substr input b (e - b)), mc_privacy = None_Kind\<rparr>])
       (regex_matches (tp_expression p) input 0))"

definition timestamp_candidates :: "string \<Rightarrow> match_candidate list" where
  "timestamp_candidates input =
     sort_key candidate_key_of
       (marker_candidates input 0 @ concat (map (pattern_candidates input) timestamp_patterns))"

subsection \<open>Tokenizing\<close>

definition replace_capture :: "string \<Rightarrow> regex \<Rightarrow> string \<Rightarrow> string" where
  "replace_capture input pattern replacement =
     splice input 0
       (concat (map (\<lambda>m. case group 2 m of None \<Rightarrow> [] | Some (b, e) \<Rightarrow> [(b, e, replacement)])
                  (regex_matches pattern input 0)))"

definition timestamp_replacement :: "string \<Rightarrow> match_candidate \<Rightarrow> string" where
  "timestamp_replacement input c =
     (let original = substr input (mc_position c) (mc_length c)
      in if starts_with original timestamp_marker_prefix then original
         else timestamp_marker_prefix @ timestamp_style_key (tt_style (mc_token c)) @ '':'' @ original
              @ timestamp_marker_suffix)"

definition tokenize_timestamps :: "string \<Rightarrow> string" where
  "tokenize_timestamps input =
     splice input 0
       (map (\<lambda>c. (mc_position c, mc_position c + mc_length c, timestamp_replacement input c))
          (timestamp_candidates input))"

text \<open>\<open>LogRenderer::tokenize(std::string_view)\<close>.\<close>

definition tokenize :: "string \<Rightarrow> string" where
  "tokenize sample =
     (let r1 = sanitize sample;
          r2 = replace_capture r1 source_field_pattern ''{{SRC_IP}}'';
          r3 = replace_capture r2 destination_field_pattern ''{{DST_IP}}'';
          r4 = replace_capture r3 arrow_source_pattern ''{{SRC_IP}}'';
          r5 = replace_capture r4 arrow_destination_pattern ''{{DST_IP}}''
      in tokenize_timestamps r5)"

subsection \<open>Compiling\<close>

text \<open>The positions of a text, as \<open>while ((position = input.find(text, position)) != npos)\<close> visits them.\<close>

function occurrences :: "string \<Rightarrow> string \<Rightarrow> nat \<Rightarrow> nat list" where
  "occurrences text input start =
     (case find_from text input start of
        None \<Rightarrow> []
      | Some p \<Rightarrow> p # (if text = [] then [] else occurrences text input (p + length text)))"
  by pat_completeness auto
termination
  by (relation "measure (\<lambda>(text, input, start). Suc (length input) - start)")
     (auto dest!: find_from_bounds simp flip: length_greater_0_conv)

declare occurrences.simps [simp del]

definition text_candidates ::
    "string \<Rightarrow> string \<Rightarrow> int \<Rightarrow> segment_kind \<Rightarrow> privacy_token_kind \<Rightarrow> match_candidate list" where
  "text_candidates input text priority kind privacy =
     map (\<lambda>p. \<lparr>mc_position = p, mc_length = length text, mc_priority = priority, mc_kind = kind,
               mc_token = default_token, mc_privacy = privacy\<rparr>) (occurrences text input 0)"

definition segment_candidates :: "string \<Rightarrow> match_candidate list" where
  "segment_candidates input =
     sort_key candidate_key_of
       (timestamp_candidates input
        @ concat (map (\<lambda>kind. text_candidates input (marker kind) 100 Privacy kind) privacy_token_kinds)
        @ text_candidates input ''{{SRC_IP}}'' 90 SourceIp None_Kind
        @ text_candidates input ''{{DST_IP}}'' 90 DestinationIp None_Kind)"

definition literal_segment :: "string \<Rightarrow> render_segment" where
  "literal_segment text =
     \<lparr>rs_text = text, rs_kind = Literal, rs_timestamp = default_token, rs_privacy = None_Kind\<rparr>"

definition candidate_segment :: "match_candidate \<Rightarrow> render_segment" where
  "candidate_segment c =
     \<lparr>rs_text = [], rs_kind = mc_kind c, rs_timestamp = mc_token c, rs_privacy = mc_privacy c\<rparr>"

fun segment_loop :: "string \<Rightarrow> nat \<Rightarrow> match_candidate list \<Rightarrow> render_segment list" where
  "segment_loop input cursor [] =
     (if cursor < length input then [literal_segment (drop cursor input)] else [])"
| "segment_loop input cursor (c # cs) =
     (if mc_position c < cursor then segment_loop input cursor cs
      else (if cursor < mc_position c
            then [literal_segment (substr input cursor (mc_position c - cursor))] else [])
           @ candidate_segment c # segment_loop input (mc_position c + mc_length c) cs)"

definition compile_segments :: "string \<Rightarrow> render_segment list" where
  "compile_segments input =
     (let segments = segment_loop input 0 (segment_candidates input)
      in if segments = [] then [literal_segment input] else segments)"

subsection \<open>Printing\<close>

text \<open>\<open>make_time\<close>; \<open>localtime\<close> is the C library's, applied to \<open>to_time_t\<close> of the point.\<close>

definition make_time :: "(int \<Rightarrow> tm option) \<Rightarrow> int \<Rightarrow> timestamp_token \<Rightarrow> bool \<Rightarrow> tm" where
  "make_time localtime point token calendar_time =
     (if calendar_time then convert_utc_time point
      else
        let utc = (tt_zone_suffix token = ''Z'' \<or> tt_zone_suffix token = ''GMT'' \<or> tt_zone_suffix token \<noteq> []);
            point1 = (if utc \<and> tt_zone_offset_minutes token \<noteq> 0
                      then point + 60000000000 * tt_zone_offset_minutes token else point)
        in if utc then convert_utc_time point1
           else case localtime (point1 sdiv 1000000000) of None \<Rightarrow> empty_tm | Some t \<Rightarrow> t)"

definition fraction_text :: "int \<Rightarrow> nat \<Rightarrow> string" where
  "fraction_text point digits =
     (if digits = 0 then []
      else
        let remainder = point smod 1000000000;
            nanoseconds = (if remainder < 0 then remainder + 1000000000 else remainder)
        in take (digits + 1) (CHR ''.'' # zero_pad 9 (to_dec (nat nanoseconds))))"

text \<open>\<open>snprintf\<close> into a buffer of 64 characters, read back as a C string.\<close>

definition print_buffer :: "string \<Rightarrow> string" where
  "print_buffer s = take 63 (takeWhile (\<lambda>c. c \<noteq> CHR 0x00) s)"

definition print_hour :: "timestamp_token \<Rightarrow> tm \<Rightarrow> string" where
  "print_hour token t = format_padded (if tt_hour_width token = 1 then 1 else 2) (tm_hour t)"

definition print_date :: "char \<Rightarrow> tm \<Rightarrow> string" where
  "print_date separator t =
     format_padded 4 (tm_year t + 1900) @ [separator] @ format_padded 2 (tm_mon t + 1) @ [separator]
     @ format_padded 2 (tm_mday t)"

definition print_hms :: "tm \<Rightarrow> string" where
  "print_hms t =
     format_padded 2 (tm_hour t) @ '':'' @ format_padded 2 (tm_min t) @ '':'' @ format_padded 2 (tm_sec t)"

definition print_compact_date :: "tm \<Rightarrow> string" where
  "print_compact_date t =
     format_padded 4 (tm_year t + 1900) @ format_padded 2 (tm_mon t + 1) @ format_padded 2 (tm_mday t)"

definition print_compact_hms :: "tm \<Rightarrow> string" where
  "print_compact_hms t =
     format_padded 2 (tm_hour t) @ format_padded 2 (tm_min t) @ format_padded 2 (tm_sec t)"

definition month_name :: "tm \<Rightarrow> string" where
  "month_name t = month_names ! nat (tm_mon t)"

text \<open>The switch of \<open>append_timestamp\<close>.\<close>

definition print_styled :: "timestamp_token \<Rightarrow> int \<Rightarrow> tm \<Rightarrow> string" where
  "print_styled token point t =
     (let fraction = fraction_text point (tt_fractional_digits token);
          minutes = format_padded 2 (tm_min t); seconds = format_padded 2 (tm_sec t);
          year = format_padded 4 (tm_year t + 1900);
          year_first = print_buffer (print_date (tt_date_separator token) t @ [tt_date_time_separator token]
                         @ print_hour token t @ '':'' @ minutes @ '':'' @ seconds)
                       @ fraction @ tt_zone_suffix token
      in case tt_style token of
           Iso8601 \<Rightarrow> year_first
         | YearFirst \<Rightarrow> year_first
         | SyslogWithYear \<Rightarrow>
             print_buffer (month_name t @ '' '' @ format_padded 2 (tm_mday t) @ '' '' @ print_hms t @ '' '' @ year)
         | SyslogWithoutYear \<Rightarrow>
             print_buffer (month_name t @ '' '' @ format_padded 2 (tm_mday t) @ '' '' @ print_hms t)
         | MonthFirstGmt \<Rightarrow>
             print_buffer (month_name t @ '' '' @ format_padded 2 (tm_mday t) @ '' '' @ year @ '' '' @ print_hms t
                           @ '' GMT'')
         | Apache \<Rightarrow>
             print_buffer (format_padded 2 (tm_mday t) @ ''/'' @ month_name t @ ''/'' @ year @ '':'' @ print_hms t
                           @ '' '' @ tt_zone_suffix token)
         | Compact \<Rightarrow> print_buffer (print_compact_date t @ print_compact_hms t)
         | CompactWithT \<Rightarrow>
             print_buffer (print_compact_date t @ ''T'' @ print_compact_hms t) @ fraction @ tt_zone_suffix token
         | CompactDate \<Rightarrow> print_buffer (print_compact_date t)
         | CompactYearMonth \<Rightarrow> print_buffer (year @ format_padded 2 (tm_mon t + 1))
         | CompactTime \<Rightarrow> print_buffer (print_compact_hms t)
         | YearFirstMinute \<Rightarrow>
             print_buffer (print_date (tt_date_separator token) t @ [tt_date_time_separator token]
                           @ print_hour token t @ '':'' @ minutes)
         | MonthDayYear \<Rightarrow>
             print_buffer (month_name t @ '' '' @ format_padded 2 (tm_mday t) @ '' '' @ year @ '' '' @ print_hms t)
             @ (if tt_zone_suffix token \<noteq> [] then '' '' @ tt_zone_suffix token else [])
         | DateOnly \<Rightarrow> print_buffer (print_date (tt_date_separator token) t)
         | YearMonth \<Rightarrow>
             print_buffer (year @ [tt_date_separator token] @ format_padded 2 (tm_mon t + 1))
         | TimeOnly \<Rightarrow> print_buffer (print_hour token t @ '':'' @ minutes @ '':'' @ seconds) @ fraction)"

definition timestamp_text :: "(int \<Rightarrow> tm option) \<Rightarrow> timestamp_token \<Rightarrow> int \<Rightarrow> bool \<Rightarrow> string" where
  "timestamp_text localtime token point calendar_time =
     (let t = make_time localtime point token calendar_time
      in (if tt_has_weekday token then weekday_names ! nat (tm_wday t) @ '' '' else [])
         @ print_styled token point t)"

subsection \<open>Where candidates lie\<close>

lemma timestamp_style_from_key_key: "timestamp_style_from_key (timestamp_style_key style) = Some style"
  by (cases style) (simp_all add: timestamp_style_from_key_def timestamp_style_key_def timestamp_style_keys_def)

text \<open>What a candidate says about the text it covers.\<close>

definition marker_text :: "string \<Rightarrow> string \<Rightarrow> string" where
  "marker_text key v = timestamp_marker_prefix @ key @ '':'' @ v @ timestamp_marker_suffix"

definition timestamp_piece :: "string \<Rightarrow> timestamp_token \<Rightarrow> bool" where
  "timestamp_piece piece token \<longleftrightarrow>
     (\<exists>style. token = make_token style piece)
     \<or> (\<exists>key style v. timestamp_style_from_key key = Some style \<and> piece = marker_text key v
          \<and> token = make_token style v)"

definition candidate_ok :: "string \<Rightarrow> match_candidate \<Rightarrow> bool" where
  "candidate_ok input c \<longleftrightarrow>
     mc_position c + mc_length c \<le> length input \<and>
     (case mc_kind c of
        Literal \<Rightarrow> False
      | Timestamp \<Rightarrow> timestamp_piece (substr input (mc_position c) (mc_length c)) (mc_token c)
      | Privacy \<Rightarrow> substr input (mc_position c) (mc_length c) = marker (mc_privacy c)
      | SourceIp \<Rightarrow> substr input (mc_position c) (mc_length c) = ''{{SRC_IP}}''
      | DestinationIp \<Rightarrow> substr input (mc_position c) (mc_length c) = ''{{DST_IP}}'')"

lemma substr_split:
  assumes "a \<le> b" "b \<le> c"
  shows "substr s a (c - a) = substr s a (b - a) @ substr s b (c - b)"
proof -
  have "c - a = (b - a) + (c - b)" using assms by simp
  then show ?thesis using assms(1) unfolding substr_def by (simp only: take_add) simp
qed

lemma substr_found: "find_from pat s pos = Some i \<Longrightarrow> substr s i (length pat) = pat"
  using find_from_Some(3) [of pat s pos i] by (simp add: substr_def)

lemma marker_piece:
  assumes "find_from timestamp_marker_prefix input start = Some p"
    "find_from '':'' input (p + length timestamp_marker_prefix) = Some v"
    "find_from timestamp_marker_suffix input (v + 1) = Some e"
  shows "substr input p (e + length timestamp_marker_suffix - p)
    = marker_text (substr input (p + length timestamp_marker_prefix) (v - (p + length timestamp_marker_prefix)))
        (substr input (v + 1) (e - (v + 1)))"
proof -
  let ?k = "p + length timestamp_marker_prefix" and ?a = "e + length timestamp_marker_suffix"
  have le: "p \<le> ?k" "?k \<le> v" "v \<le> v + 1" "v + 1 \<le> e" "e \<le> ?a"
    using find_from_bounds [OF assms(2)] find_from_bounds [OF assms(3)] by simp_all
  have "substr input p (?a - p) = substr input p (?k - p) @ substr input ?k (?a - ?k)"
    using le by (intro substr_split) auto
  also have "substr input ?k (?a - ?k) = substr input ?k (v - ?k) @ substr input v (?a - v)"
    using le by (intro substr_split) auto
  also have "substr input v (?a - v) = substr input v (v + 1 - v) @ substr input (v + 1) (?a - (v + 1))"
    using le by (intro substr_split) auto
  also have "substr input (v + 1) (?a - (v + 1)) = substr input (v + 1) (e - (v + 1)) @ substr input e (?a - e)"
    using le by (intro substr_split) auto
  finally show ?thesis
    using substr_found [OF assms(1)] substr_found [OF assms(2)] substr_found [OF assms(3)]
    by (simp add: marker_text_def)
qed

lemma marker_candidates_ok:
  "c \<in> set (marker_candidates input start) \<Longrightarrow> candidate_ok input c \<and> mc_kind c = Timestamp"
proof (induction input start rule: marker_candidates.induct)
  case (1 input start)
  show ?case
  proof (cases "find_from timestamp_marker_prefix input start")
    case None
    with "1.prems" show ?thesis unfolding marker_candidates.simps [of input start] by simp
  next
    case p: (Some p)
    let ?k = "p + length timestamp_marker_prefix"
    show ?thesis
    proof (cases "find_from '':'' input ?k")
      case None
      with "1.prems" p have "c \<in> set (marker_candidates input ?k)"
        unfolding marker_candidates.simps [of input start] by (simp add: Let_def)
      from "1.IH"(1) [OF p refl None this] show ?thesis .
    next
      case v: (Some v)
      show ?thesis
      proof (cases "find_from timestamp_marker_suffix input (v + 1)")
        case None
        with "1.prems" p v have "c \<in> set (marker_candidates input ?k)"
          unfolding marker_candidates.simps [of input start] by (simp add: Let_def)
        from "1.IH"(2) [OF p refl v None this] show ?thesis .
      next
        case e: (Some e)
        let ?a = "e + length timestamp_marker_suffix" and ?key = "substr input ?k (v - ?k)"
        show ?thesis
        proof (cases "timestamp_style_from_key ?key")
          case None
          with "1.prems" p v e have "c \<in> set (marker_candidates input ?a)"
            unfolding marker_candidates.simps [of input start] by (simp add: Let_def)
          from "1.IH"(3) [OF p refl v e refl None this] show ?thesis .
        next
          case style: (Some style)
          let ?c = "\<lparr>mc_position = p, mc_length = ?a - p, mc_priority = - 100, mc_kind = Timestamp,
              mc_token = make_token style (substr input (v + 1) (e - v - 1)), mc_privacy = None_Kind\<rparr>"
          from "1.prems" p v e style consider "c = ?c" | "c \<in> set (marker_candidates input ?a)"
            unfolding marker_candidates.simps [of input start] by (auto simp: Let_def)
          then show ?thesis
          proof cases
            case 1
            have "p \<le> ?a" "?a \<le> length input"
              using find_from_bounds [OF v] find_from_bounds [OF e] by simp_all
            moreover have "timestamp_piece (substr input p (?a - p))
                (make_token style (substr input (v + 1) (e - v - 1)))"
              unfolding timestamp_piece_def marker_piece [OF p v e] using style by auto
            ultimately show ?thesis unfolding 1 candidate_ok_def by simp
          next
            case 2
            from "1.IH"(4) [OF p refl v e refl style this] show ?thesis .
          qed
        qed
      qed
    qed
  qed
qed

lemma timestamp_candidates_ok:
  assumes "c \<in> set (timestamp_candidates input)"
  shows "candidate_ok input c \<and> mc_kind c = Timestamp"
proof -
  from assms consider "c \<in> set (marker_candidates input 0)"
    | p where "p \<in> set timestamp_patterns" "c \<in> set (pattern_candidates input p)"
    by (auto simp: timestamp_candidates_def)
  then show ?thesis
  proof cases
    case (2 p)
    from 2(2) obtain m where m0: "m \<in> set (regex_matches (tp_expression p) input 0)"
      "c \<in> set (case group (tp_capture_group p) m of
         None \<Rightarrow> []
       | Some (b, e) \<Rightarrow>
           [\<lparr>mc_position = b, mc_length = e - b, mc_priority = int (tp_priority p), mc_kind = Timestamp,
             mc_token = make_token (tp_style p) (substr input b (e - b)), mc_privacy = None_Kind\<rparr>])"
      unfolding pattern_candidates_def by (auto simp only: set_concat set_map)
    then obtain b e where m: "m \<in> set (regex_matches (tp_expression p) input 0)"
      "group (tp_capture_group p) m = Some (b, e)" and
      c: "mc_position c = b" "mc_length c = e - b" "mc_kind c = Timestamp"
        "mc_token c = make_token (tp_style p) (substr input b (e - b))"
      by (cases "group (tp_capture_group p) m") auto
    from regex_matches_good [OF m] c show ?thesis
      by (auto simp: candidate_ok_def timestamp_piece_def)
  qed (rule marker_candidates_ok)
qed

lemma occurrences_found: "p \<in> set (occurrences t input start) \<Longrightarrow> \<exists>pos. find_from t input pos = Some p"
proof (induction t input start rule: occurrences.induct)
  case (1 t input start)
  show ?case
  proof (cases "find_from t input start")
    case None
    with "1.prems" show ?thesis unfolding occurrences.simps [of t input start] by simp
  next
    case (Some q)
    with "1.prems" consider "p = q" | "t \<noteq> []" "p \<in> set (occurrences t input (q + length t))"
      unfolding occurrences.simps [of t input start] by (auto split: if_splits)
    then show ?thesis using Some "1.IH" [OF Some] by cases auto
  qed
qed

lemma text_candidates_ok:
  assumes "c \<in> set (text_candidates input t priority kind privacy)"
  shows "mc_position c + mc_length c \<le> length input" "substr input (mc_position c) (mc_length c) = t"
    "mc_kind c = kind" "mc_privacy c = privacy"
proof -
  from assms obtain p where p: "p \<in> set (occurrences t input 0)" and
    c: "mc_position c = p" "mc_length c = length t" "mc_kind c = kind" "mc_privacy c = privacy"
    by (auto simp: text_candidates_def)
  from occurrences_found [OF p] obtain pos where f: "find_from t input pos = Some p" ..
  from find_from_bounds [OF f] substr_found [OF f] c
  show "mc_position c + mc_length c \<le> length input" "substr input (mc_position c) (mc_length c) = t"
    "mc_kind c = kind" "mc_privacy c = privacy" by auto
qed

lemma segment_candidates_ok:
  assumes "c \<in> set (segment_candidates input)"
  shows "candidate_ok input c"
proof -
  from assms consider "c \<in> set (timestamp_candidates input)"
    | kind where "c \<in> set (text_candidates input (marker kind) 100 Privacy kind)"
    | "c \<in> set (text_candidates input ''{{SRC_IP}}'' 90 SourceIp None_Kind)"
    | "c \<in> set (text_candidates input ''{{DST_IP}}'' 90 DestinationIp None_Kind)"
    by (auto simp: segment_candidates_def)
  then show ?thesis
  proof cases
    case 1
    then show ?thesis using timestamp_candidates_ok by blast
  next
    case (2 kind)
    from text_candidates_ok [OF this] show ?thesis by (simp add: candidate_ok_def)
  next
    case 3
    from text_candidates_ok [OF this] show ?thesis by (simp add: candidate_ok_def)
  next
    case 4
    from text_candidates_ok [OF this] show ?thesis by (simp add: candidate_ok_def)
  qed
qed

subsection \<open>Segments cover their input\<close>

definition segment_piece :: "render_segment \<Rightarrow> string \<Rightarrow> bool" where
  "segment_piece segment piece \<longleftrightarrow>
     (case rs_kind segment of
        Literal \<Rightarrow> piece = rs_text segment
      | Timestamp \<Rightarrow> timestamp_piece piece (rs_timestamp segment)
      | Privacy \<Rightarrow> piece = marker (rs_privacy segment)
      | SourceIp \<Rightarrow> piece = ''{{SRC_IP}}''
      | DestinationIp \<Rightarrow> piece = ''{{DST_IP}}'')"

lemma segment_piece_literal [simp]: "segment_piece (literal_segment t) t"
  by (simp add: segment_piece_def literal_segment_def)

lemma segment_piece_candidate:
  "candidate_ok input c \<Longrightarrow> segment_piece (candidate_segment c) (substr input (mc_position c) (mc_length c))"
  by (auto simp: candidate_ok_def segment_piece_def candidate_segment_def split: segment_kind.splits)

lemma segment_loop_pieces:
  "\<forall>c \<in> set cs. candidate_ok input c \<Longrightarrow>
     \<exists>pieces. drop cursor input = concat pieces \<and> list_all2 segment_piece (segment_loop input cursor cs) pieces"
proof (induction input cursor cs rule: segment_loop.induct)
  case (1 input cursor)
  show ?case
    by (intro exI [of _ "if cursor < length input then [drop cursor input] else []"]) simp
next
  case (2 input cursor c cs)
  show ?case
  proof (cases "mc_position c < cursor")
    case True
    with 2 show ?thesis by simp
  next
    case False
    let ?p = "mc_position c" and ?e = "mc_position c + mc_length c"
    from 2 False obtain pieces where pieces: "drop ?e input = concat pieces"
      "list_all2 segment_piece (segment_loop input ?e cs) pieces" by auto
    have "drop cursor input = substr input cursor (?p - cursor) @ substr input ?p (?e - ?p) @ drop ?e input"
      using take_drop_split [of cursor ?p input] take_drop_split [of ?p ?e input] False
      by (simp add: substr_def)
    moreover have "segment_piece (candidate_segment c) (substr input ?p (?e - ?p))"
      using segment_piece_candidate [of input c] 2 by simp
    ultimately show ?thesis
      using False pieces
      by (intro exI [of _ "(if cursor < ?p then [substr input cursor (?p - cursor)] else [])
              @ substr input ?p (?e - ?p) # pieces"]) (auto simp: substr_def)
  qed
qed

lemma compile_segments_pieces:
  "\<exists>pieces. input = concat pieces \<and> list_all2 segment_piece (compile_segments input) pieces"
proof (cases "segment_loop input 0 (segment_candidates input) = []")
  case True
  then show ?thesis by (intro exI [of _ "[input]"]) (simp add: compile_segments_def)
next
  case False
  with segment_loop_pieces [of "segment_candidates input" input 0] segment_candidates_ok show ?thesis
    by (auto simp: compile_segments_def)
qed

subsection \<open>Printed widths\<close>

lemma length_to_dec: "n < 10 ^ k \<Longrightarrow> 0 < k \<Longrightarrow> length (to_dec n) \<le> k"
proof (induction n arbitrary: k rule: to_dec.induct)
  case (1 n)
  show ?case
  proof (cases "n < 10")
    case True
    with "1.prems" show ?thesis by (simp add: to_dec.simps)
  next
    case False
    then obtain j where k: "k = Suc j" "0 < j" using "1.prems" by (cases k; cases "k - 1") auto
    with "1.prems"(1) have "n div 10 < 10 ^ j" by (simp add: div_less_iff_less_mult mult.commute)
    from "1.IH" [OF False this k(2)] False k show ?thesis by (subst to_dec.simps) simp
  qed
qed

lemma length_format_padded:
  assumes "0 \<le> v" "nat v < 10 ^ w" "0 < w"
  shows "length (format_padded w v) = w"
  using assms length_to_dec [OF assms(2,3)] by (simp add: format_padded_def)

lemma format_padded_digits: "0 \<le> v \<Longrightarrow> list_all is_digit (format_padded w v)"
  by (simp add: format_padded_def zero_pad_digits to_dec_digits)

lemma no_NUL_digits: "list_all is_digit s \<Longrightarrow> CHR 0x00 \<notin> set s"
  by (auto simp: list_all_iff is_digit_def)

lemma print_buffer_id: "CHR 0x00 \<notin> set s \<Longrightarrow> print_buffer s = take 63 s"
  unfolding print_buffer_def by (subst takeWhile_eq_all_conv [THEN iffD2]) auto

text \<open>Times whose year has four digits, as every time point of \<open>std::chrono::system_clock\<close> has.\<close>

definition printable :: "tm \<Rightarrow> bool" where
  "printable t \<longleftrightarrow> tm_ok t \<and> 0 \<le> tm_year t + 1900 \<and> tm_year t + 1900 \<le> 9999"

lemma days_in_month_le: "days_in_month y m \<le> 31"
  by (simp add: days_in_month_def)

lemma printed_fields:
  assumes "printable t"
  shows "length (format_padded 4 (tm_year t + 1900)) = 4" "length (format_padded 2 (tm_mon t + 1)) = 2"
    "length (format_padded 2 (tm_mday t)) = 2" "length (format_padded 2 (tm_hour t)) = 2"
    "length (format_padded 2 (tm_min t)) = 2" "length (format_padded 2 (tm_sec t)) = 2"
    "length (format_padded 1 (tm_hour t)) = (if tm_hour t < 10 then 1 else 2)"
    "length (month_name t) = 3"
proof -
  have t: "0 \<le> tm_sec t" "tm_sec t < 60" "0 \<le> tm_min t" "tm_min t < 60" "0 \<le> tm_hour t" "tm_hour t < 24"
    "0 \<le> tm_mon t" "tm_mon t < 12" "1 \<le> tm_mday t" "tm_mday t \<le> 31"
    "0 \<le> tm_year t + 1900" "tm_year t + 1900 \<le> 9999"
    using assms days_in_month_le [of "tm_year t + 1900" "tm_mon t + 1"] by (auto simp: printable_def tm_ok_def)
  show "length (format_padded 4 (tm_year t + 1900)) = 4" "length (format_padded 2 (tm_mon t + 1)) = 2"
    "length (format_padded 2 (tm_mday t)) = 2" "length (format_padded 2 (tm_hour t)) = 2"
    "length (format_padded 2 (tm_min t)) = 2" "length (format_padded 2 (tm_sec t)) = 2"
    by (rule length_format_padded; use t in simp)+
  have le: "length (to_dec (nat (tm_hour t))) \<le> 2" using t by (intro length_to_dec) auto
  have "length (to_dec (nat (tm_hour t))) = (if tm_hour t < 10 then 1 else 2)"
  proof (cases "tm_hour t < 10")
    case True
    with t show ?thesis by (subst to_dec.simps) simp
  next
    case False
    then have "to_dec (nat (tm_hour t)) = to_dec (nat (tm_hour t) div 10) @ [digit_char (nat (tm_hour t) mod 10)]"
      by (subst to_dec.simps) simp
    moreover have "length (to_dec (nat (tm_hour t) div 10)) \<noteq> 0" by simp
    ultimately have "2 \<le> length (to_dec (nat (tm_hour t)))" by (simp add: Suc_le_eq)
    with le False show ?thesis by simp
  qed
  then show "length (format_padded 1 (tm_hour t)) = (if tm_hour t < 10 then 1 else 2)"
    using t by (simp add: format_padded_def)
  have "nat (tm_mon t) < length month_names" using t by (simp add: month_names_def)
  moreover have "\<forall>m \<in> set month_names. length m = 3" by (simp add: month_names_def)
  ultimately show "length (month_name t) = 3" unfolding month_name_def by (meson nth_mem)
qed

text \<open>Everything printed by number or name is free of NUL.\<close>

lemma printed_no_NUL:
  assumes "printable t"
  shows "CHR 0x00 \<notin> set (format_padded w (tm_year t + 1900))" "CHR 0x00 \<notin> set (format_padded w (tm_mon t + 1))"
    "CHR 0x00 \<notin> set (format_padded w (tm_mday t))" "CHR 0x00 \<notin> set (format_padded w (tm_hour t))"
    "CHR 0x00 \<notin> set (format_padded w (tm_min t))" "CHR 0x00 \<notin> set (format_padded w (tm_sec t))"
    "CHR 0x00 \<notin> set (month_name t)"
proof -
  have t: "0 \<le> tm_sec t" "0 \<le> tm_min t" "0 \<le> tm_hour t" "0 \<le> tm_mon t" "tm_mon t < 12" "1 \<le> tm_mday t"
    "0 \<le> tm_year t + 1900"
    using assms by (auto simp: printable_def tm_ok_def)
  show "CHR 0x00 \<notin> set (format_padded w (tm_year t + 1900))" "CHR 0x00 \<notin> set (format_padded w (tm_mon t + 1))"
    "CHR 0x00 \<notin> set (format_padded w (tm_mday t))" "CHR 0x00 \<notin> set (format_padded w (tm_hour t))"
    "CHR 0x00 \<notin> set (format_padded w (tm_min t))" "CHR 0x00 \<notin> set (format_padded w (tm_sec t))"
    by (rule no_NUL_digits, rule format_padded_digits, use t in simp)+
  have "nat (tm_mon t) < length month_names" using t by (simp add: month_names_def)
  moreover have "\<forall>m \<in> set month_names. CHR 0x00 \<notin> set m" by (simp add: month_names_def)
  ultimately show "CHR 0x00 \<notin> set (month_name t)" unfolding month_name_def by (meson nth_mem)
qed

lemma length_fraction_text: "digits \<le> 9 \<Longrightarrow> length (fraction_text point digits) = (if digits = 0 then 0 else digits + 1)"
  by (simp add: fraction_text_def Let_def)

text \<open>The width of a timestamp, by its token and, with one-digit hours, the hour.\<close>

definition style_width :: "timestamp_token \<Rightarrow> tm \<Rightarrow> nat" where
  "style_width token t =
     (let hour = (if tt_hour_width token = 1 \<and> tm_hour t < 10 then 1 else 2);
          fraction = (if tt_fractional_digits token = 0 then 0 else tt_fractional_digits token + 1);
          zone = length (tt_zone_suffix token)
      in case tt_style token of
           Iso8601 \<Rightarrow> 17 + hour + fraction + zone
         | YearFirst \<Rightarrow> 17 + hour + fraction + zone
         | SyslogWithYear \<Rightarrow> 20
         | SyslogWithoutYear \<Rightarrow> 15
         | MonthFirstGmt \<Rightarrow> 24
         | Apache \<Rightarrow> min 63 (21 + zone)
         | Compact \<Rightarrow> 14
         | CompactWithT \<Rightarrow> 15 + fraction + zone
         | CompactDate \<Rightarrow> 8
         | CompactYearMonth \<Rightarrow> 6
         | CompactTime \<Rightarrow> 6
         | YearFirstMinute \<Rightarrow> 14 + hour
         | MonthDayYear \<Rightarrow> 20 + (if zone = 0 then 0 else 1 + zone)
         | DateOnly \<Rightarrow> 10
         | YearMonth \<Rightarrow> 7
         | TimeOnly \<Rightarrow> 6 + hour + fraction)"

lemma length_print_styled:
  assumes "printable t" "tt_fractional_digits token \<le> 9" "tt_date_separator token \<noteq> CHR 0x00"
    "tt_date_time_separator token \<noteq> CHR 0x00" "CHR 0x00 \<notin> set (tt_zone_suffix token)"
  shows "length (print_styled token point t) = style_width token t"
  using assms(2-)
  by (cases "tt_style token")
     (simp_all add: print_styled_def style_width_def Let_def print_buffer_id print_date_def print_hms_def
       print_hour_def print_compact_date_def print_compact_hms_def length_fraction_text
       printed_fields [OF assms(1)] printed_no_NUL [OF assms(1)] del: One_nat_def)

subsection \<open>Compact timestamps are numbers\<close>

lemma dec_value_append: "dec_value (a @ b) = dec_value a * 10 ^ length b + dec_value b"
  by (induction b rule: rev_induct) (simp_all add: dec_value_snoc append_assoc [symmetric] del: append_assoc,
      simp add: dec_value_def)

lemma dec_value_format_padded: "0 \<le> v \<Longrightarrow> dec_value (format_padded w v) = nat v"
  by (simp add: format_padded_def)

text \<open>The digits of a time, as one number.\<close>

definition tm_number :: "tm \<Rightarrow> nat" where
  "tm_number t = ((((nat (tm_year t + 1900) * 100 + nat (tm_mon t + 1)) * 100 + nat (tm_mday t)) * 100
     + nat (tm_hour t)) * 100 + nat (tm_min t)) * 100 + nat (tm_sec t)"

lemma compact_number:
  assumes "printable t" "tt_style token = Compact"
  shows "dec_value (print_styled token point t) = tm_number t"
proof -
  have t: "0 \<le> tm_sec t" "0 \<le> tm_min t" "0 \<le> tm_hour t" "0 \<le> tm_mon t" "1 \<le> tm_mday t" "0 \<le> tm_year t + 1900"
    using assms(1) by (auto simp: printable_def tm_ok_def)
  have "print_styled token point t = print_compact_date t @ print_compact_hms t"
    using assms(2) printed_no_NUL [OF assms(1)] printed_fields [OF assms(1)]
    by (simp add: print_styled_def Let_def print_buffer_id print_compact_date_def print_compact_hms_def)
  then show ?thesis
    using t by (simp add: print_compact_date_def print_compact_hms_def dec_value_append dec_value_format_padded
        printed_fields [OF assms(1)] tm_number_def)
qed

lemma radix_100: "b < 100 \<Longrightarrow> d < 100 \<Longrightarrow> (a :: nat) * 100 + b = c * 100 + d \<longleftrightarrow> a = c \<and> b = d"
proof
  assume less: "b < 100" "d < 100" and eq: "a * 100 + b = c * 100 + d"
  from arg_cong [OF eq, of "\<lambda>x. x div 100"] less have "a = c" by simp
  with eq show "a = c \<and> b = d" by simp
qed simp

lemma tm_number_inject:
  assumes "printable t" "printable u" "tm_number t = tm_number u"
  shows "tm_seconds t = tm_seconds u"
proof -
  have f: "nat (tm_sec v) < 100" "nat (tm_min v) < 100" "nat (tm_hour v) < 100" "nat (tm_mon v + 1) < 100"
    "nat (tm_mday v) < 100" "0 \<le> tm_sec v" "0 \<le> tm_min v" "0 \<le> tm_hour v" "0 \<le> tm_mon v" "0 \<le> tm_mday v"
    "0 \<le> tm_year v + 1900" if "printable v" for v
    using that days_in_month_le [of "tm_year v + 1900" "tm_mon v + 1"] by (auto simp: printable_def tm_ok_def)
  from assms(3) f [OF assms(1)] f [OF assms(2)]
  have "nat (tm_year t + 1900) = nat (tm_year u + 1900) \<and> nat (tm_mon t + 1) = nat (tm_mon u + 1)
    \<and> nat (tm_mday t) = nat (tm_mday u) \<and> nat (tm_hour t) = nat (tm_hour u) \<and> nat (tm_min t) = nat (tm_min u)
    \<and> nat (tm_sec t) = nat (tm_sec u)"
    unfolding tm_number_def by (simp only: radix_100 conj_assoc)
  then have "tm_year t + 1900 = tm_year u + 1900 \<and> tm_mon t + 1 = tm_mon u + 1 \<and> tm_mday t = tm_mday u
      \<and> tm_hour t = tm_hour u \<and> tm_min t = tm_min u \<and> tm_sec t = tm_sec u"
    using f [OF assms(1)] f [OF assms(2)] by (simp add: eq_nat_nat_iff)
  then show ?thesis by (simp add: tm_seconds_def)
qed

subsection \<open>Properties\<close>

text \<open>
  Compiling loses nothing: the segments of a compiled text cover it from beginning to end. The
  text is the concatenation of one piece per segment, where a literal segment's piece is its text,
  an address or privacy segment's piece is its marker, and a timestamp segment's piece is a
  timestamp (bare or in its marker) whose style and format the segment's token was made from.
\<close>

theorem compile_covers_input:
  "\<exists>pieces. input = concat pieces \<and> list_all2 segment_piece (compile_segments input) pieces"
  by (rule compile_segments_pieces)



text \<open>
  The width of a printed timestamp is fixed by its token: every style prints a year of four
  digits in the same number of characters for all times (one-digit hours aside), and no style is
  cut off by the 64-byte buffer except \<open>Apache\<close> with a zone of more than 42 characters.
\<close>

theorem timestamp_width_fixed:
  assumes "printable t" "tt_fractional_digits token \<le> 9" "tt_date_separator token \<noteq> CHR 0x00"
    "tt_date_time_separator token \<noteq> CHR 0x00" "CHR 0x00 \<notin> set (tt_zone_suffix token)"
  shows "length (print_styled token point t) = style_width token t"
  using assms by (rule length_print_styled)

theorem timestamp_width_fixed_witness:
  "length (print_styled (default_token\<lparr>tt_fractional_digits := 3, tt_zone_suffix := ''Z''\<rparr>) 0 (convert_utc_time 0)) = 24"
proof -
  have "printable (convert_utc_time 0)"
    by (simp add: printable_def tm_ok_def convert_utc_epoch days_in_month_def)
  from timestamp_width_fixed [OF this, of "default_token\<lparr>tt_fractional_digits := 3, tt_zone_suffix := ''Z''\<rparr>" 0]
  show ?thesis by (simp add: style_width_def default_token_def)
qed

text \<open>
  A compact UTC timestamp identifies its second: two time points (with four-digit years) that
  print alike in the style \<open>yyyyMMddHHmmss\<close> lie in the same second.
\<close>

theorem compact_timestamp_injective:
  assumes "tt_style token = Compact" "tt_has_weekday token = False"
    and "printable (convert_utc_time p)" "printable (convert_utc_time q)"
    and "timestamp_text localtime token p True = timestamp_text localtime token q True"
  shows "p div 1000000000 = q div 1000000000"
proof -
  from assms(2,5) have "print_styled token p (convert_utc_time p) = print_styled token q (convert_utc_time q)"
    by (simp add: timestamp_text_def make_time_def)
  then have "tm_number (convert_utc_time p) = tm_number (convert_utc_time q)"
    using compact_number [OF assms(3,1)] compact_number [OF assms(4,1)] by metis
  from tm_number_inject [OF assms(3,4) this] show ?thesis
    using convert_utc_time_correct by metis
qed

theorem compact_timestamp_injective_witness:
  "(5 :: int) div 1000000000 = 7 div 1000000000
   \<and> timestamp_text (\<lambda>_. None) (default_token\<lparr>tt_style := Compact\<rparr>) 5 True
     = timestamp_text (\<lambda>_. None) (default_token\<lparr>tt_style := Compact\<rparr>) 7 True"
proof -
  have p: "printable (convert_utc_time 5)" "printable (convert_utc_time 7)"
    by (simp_all add: printable_def tm_ok_def convert_utc_epoch days_in_month_def)
  have t: "timestamp_text (\<lambda>_. None) (default_token\<lparr>tt_style := Compact\<rparr>) 5 True
      = timestamp_text (\<lambda>_. None) (default_token\<lparr>tt_style := Compact\<rparr>) 7 True"
    by (simp add: timestamp_text_def make_time_def default_token_def print_styled_def convert_utc_epoch)
  from compact_timestamp_injective [OF _ _ p t] t show ?thesis by (simp add: default_token_def)
qed

end
