(* ===== verification/Rendering.thy ===== *)
theory Rendering
  imports Timestamps
begin

text \<open>
  Compiled and prepared logs (\<open>src/src/application/log_renderer.cpp\<close>): the expansion of test-case
  values, the summary that \<open>make_compiled_log\<close> computes, \<open>PreparedLog\<close> with its caches and its
  random profile index, and the operations of \<open>LogRenderer\<close>. Time points are nanoseconds, offsets
  are seconds; the local time conversion of the C library is the parameter \<open>localtime\<close>, and the
  process-wide seed sequence is passed along. The last sections relate the cached rendering to the
  rendering that uses no cache.
\<close>

subsection \<open>Expanding test cases\<close>

datatype expand_error =
    Invalid_Token_Name string
  | Value_Count_Mismatch string string
  | Out_Of_Range

text \<open>The loop of \<open>count_occurrences\<close>; the markers it is called with are not empty.\<close>

function count_from :: "string \<Rightarrow> string \<Rightarrow> nat \<Rightarrow> nat" where
  "count_from input pat position =
     (case find_from pat input position of
        None \<Rightarrow> 0
      | Some p \<Rightarrow> if pat = [] then 0 else Suc (count_from input pat (p + length pat)))"
  by pat_completeness auto
termination
  by (relation "measure (\<lambda>(input, pat, position). Suc (length input) - position)")
     (auto dest!: find_from_bounds simp flip: length_greater_0_conv)

declare count_from.simps [simp del]

definition count_occurrences :: "string \<Rightarrow> string \<Rightarrow> nat" where
  "count_occurrences input pat = count_from input pat 0"

definition valid_token_name :: "string \<Rightarrow> bool" where
  "valid_token_name token \<longleftrightarrow>
     token \<noteq> [] \<and> list_all (\<lambda>c. char_between (CHR ''A'') (CHR ''Z'') c \<or> c = CHR ''_'') token"

definition token_marker :: "string \<Rightarrow> string" where
  "token_marker token = ''{{'' @ token @ ''}}''"

text \<open>
  The loop over the values of a token. \<open>std::string::replace\<close> at \<open>npos\<close> throws
  \<open>std::out_of_range\<close>.
\<close>

fun place_values :: "string \<Rightarrow> string list \<Rightarrow> string \<Rightarrow> nat \<Rightarrow> expand_error + string" where
  "place_values pat [] result search_position = Inr result"
| "place_values pat (value # values) result search_position =
     (case find_from pat result search_position of
        None \<Rightarrow> Inl Out_Of_Range
      | Some p \<Rightarrow>
          let sanitized = sanitize value
          in place_values pat values (take p result @ sanitized @ drop (p + length pat) result)
               (p + length sanitized))"

fun expand_values :: "string \<Rightarrow> string \<Rightarrow> test_case \<Rightarrow> expand_error + string" where
  "expand_values item_id result [] = Inr result"
| "expand_values item_id result ((token, values) # rest) =
     bind_result (require_that (valid_token_name token) (Invalid_Token_Name item_id)) (\<lambda>_.
     bind_result (require_that (count_occurrences result (token_marker token) = length values)
                    (Value_Count_Mismatch item_id (token_marker token))) (\<lambda>_.
     bind_result (place_values (token_marker token) values result 0) (\<lambda>expanded.
     expand_values item_id expanded rest)))"

definition expand_test_case :: "log_template \<Rightarrow> expand_error + string" where
  "expand_test_case item = expand_values (lt_id item) (lt_sample item) (lt_test_case item)"

subsection \<open>Compiled logs\<close>

record compiled_log =
  cl_segments :: "render_segment list"
  cl_capacity_hint :: nat
  cl_has_timestamp :: bool
  cl_has_privacy :: bool
  cl_cache_privacy_profiles :: bool

definition summarize_segment :: "compiled_log \<Rightarrow> render_segment \<Rightarrow> compiled_log" where
  "summarize_segment compiled segment =
     (case rs_kind segment of
        Literal \<Rightarrow> compiled\<lparr>cl_capacity_hint := cl_capacity_hint compiled + length (rs_text segment)\<rparr>
      | Timestamp \<Rightarrow>
          compiled\<lparr>cl_capacity_hint := cl_capacity_hint compiled + 40, cl_has_timestamp := True\<rparr>
      | Privacy \<Rightarrow>
          compiled\<lparr>cl_capacity_hint := cl_capacity_hint compiled + 64, cl_has_privacy := True\<rparr>
      | SourceIp \<Rightarrow> compiled\<lparr>cl_capacity_hint := cl_capacity_hint compiled + 64\<rparr>
      | DestinationIp \<Rightarrow> compiled\<lparr>cl_capacity_hint := cl_capacity_hint compiled + 64\<rparr>)"

definition make_compiled_log :: "render_segment list \<Rightarrow> compiled_log" where
  "make_compiled_log segments =
     (let compiled = foldl summarize_segment
            \<lparr>cl_segments = segments, cl_capacity_hint = 0, cl_has_timestamp = False,
             cl_has_privacy = False, cl_cache_privacy_profiles = False\<rparr> segments
      in compiled\<lparr>cl_cache_privacy_profiles :=
           cl_has_privacy compiled \<and> cl_capacity_hint compiled \<le> 64 * 1024\<rparr>)"

subsection \<open>The random profile index\<close>

definition initial_sequence :: u64 where
  "initial_sequence = 0x9E3779B97F4A7C15"

text \<open>\<open>initialize_random_state\<close>: the next value of the sequence, and the state it seeds.\<close>

definition initialize_random_state :: "u64 \<Rightarrow> u64 \<times> u64" where
  "initialize_random_state sequence =
     (let v1 = xor sequence (drop_bit 30 sequence);
          v2 = v1 * 0xBF58476D1CE4E5B9;
          v3 = xor v2 (drop_bit 27 v2);
          v4 = v3 * 0x94D049BB133111EB;
          v5 = xor v4 (drop_bit 31 v4)
      in (sequence + 0x9E3779B97F4A7C15, if v5 = 0 then 0xA0761D6478BD642F else v5))"

definition next_profile_index :: "u64 \<Rightarrow> nat \<times> u64" where
  "next_profile_index state =
     (let s1 = xor state (drop_bit 12 state);
          s2 = xor s1 (push_bit 25 s1);
          s3 = xor s2 (drop_bit 27 s2)
      in (unat ((s3 * 0x2545F4914F6CDD1D) mod of_nat synthetic_profile_count), s3))"

subsection \<open>Prepared logs\<close>

record prepared_log =
  pl_compiled :: compiled_log
  pl_source_ip :: string
  pl_destination_ip :: string
  pl_cached :: string
  pl_timestamp_cache :: "string list"
  pl_privacy_cache :: "string list"
  pl_privacy_cache_seconds :: "int list"
  pl_privacy_cache_calendar_time :: "bool list"
  pl_privacy_cache_valid :: "bool list"
  pl_cached_second :: int
  pl_cached_calendar_time :: bool
  pl_offset :: int
  pl_random_state :: u64

definition non_timestamp_text :: "string \<Rightarrow> string \<Rightarrow> render_segment \<Rightarrow> nat \<Rightarrow> string" where
  "non_timestamp_text source_ip destination_ip segment profile_index =
     (case rs_kind segment of
        Literal \<Rightarrow> rs_text segment
      | Privacy \<Rightarrow> synthetic_value (rs_privacy segment) profile_index
      | SourceIp \<Rightarrow> source_ip
      | DestinationIp \<Rightarrow> destination_ip
      | Timestamp \<Rightarrow> [])"

definition initialize_cache :: "prepared_log \<Rightarrow> prepared_log" where
  "initialize_cache p =
     (let c = pl_compiled p;
          p1 = p\<lparr>pl_cached_second := - 1, pl_cached_calendar_time := False,
                 pl_privacy_cache_valid := replicate synthetic_profile_count False,
                 pl_privacy_cache_seconds := replicate synthetic_profile_count (- 1),
                 pl_privacy_cache_calendar_time := replicate synthetic_profile_count False,
                 pl_privacy_cache := replicate synthetic_profile_count [],
                 pl_timestamp_cache := replicate (length (cl_segments c)) []\<rparr>
      in if \<not> cl_has_timestamp c \<and> \<not> cl_has_privacy c
         then p1\<lparr>pl_cached := pl_cached p1 @ concat
                (map (\<lambda>segment. non_timestamp_text (pl_source_ip p) (pl_destination_ip p) segment 0)
                     (cl_segments c))\<rparr>
         else p1)"

text \<open>The constructor of a compiled log, which takes a value of the seed sequence.\<close>

definition prepared_init :: "compiled_log \<Rightarrow> string \<Rightarrow> string \<Rightarrow> int \<Rightarrow> u64 \<Rightarrow> prepared_log \<times> u64" where
  "prepared_init compiled source_ip destination_ip offset sequence =
     (let (sequence', state) = initialize_random_state sequence
      in (initialize_cache
            \<lparr>pl_compiled = compiled, pl_source_ip = source_ip, pl_destination_ip = destination_ip,
             pl_cached = [], pl_timestamp_cache = [], pl_privacy_cache = [],
             pl_privacy_cache_seconds = [], pl_privacy_cache_calendar_time = [],
             pl_privacy_cache_valid = [], pl_cached_second = - 1, pl_cached_calendar_time = False,
             pl_offset = offset, pl_random_state = state\<rparr>, sequence'))"

definition prepared_from_segments :: "render_segment list \<Rightarrow> int \<Rightarrow> u64 \<Rightarrow> prepared_log \<times> u64" where
  "prepared_from_segments segments offset sequence =
     prepared_init (make_compiled_log segments) [] [] offset sequence"

definition prepared_copy :: "prepared_log \<Rightarrow> u64 \<Rightarrow> prepared_log \<times> u64" where
  "prepared_copy other sequence =
     prepared_init (pl_compiled other) (pl_source_ip other) (pl_destination_ip other) (pl_offset other)
       sequence"

text \<open>Copy assignment to another object (to itself it does nothing).\<close>

definition prepared_assign :: "prepared_log \<Rightarrow> prepared_log \<Rightarrow> u64 \<Rightarrow> prepared_log \<times> u64" where
  "prepared_assign this other sequence =
     (let (sequence', state) = initialize_random_state sequence
      in (initialize_cache
            (this\<lparr>pl_compiled := pl_compiled other, pl_source_ip := pl_source_ip other,
                  pl_destination_ip := pl_destination_ip other, pl_offset := pl_offset other,
                  pl_cached := [], pl_timestamp_cache := [], pl_random_state := state\<rparr>), sequence'))"

definition prepared_capacity_hint :: "prepared_log \<Rightarrow> nat" where
  "prepared_capacity_hint p = cl_capacity_hint (pl_compiled p)"

subsection \<open>Rendering\<close>

definition adjusted_time :: "prepared_log \<Rightarrow> int \<Rightarrow> int" where
  "adjusted_time p now = now + 1000000000 * pl_offset p"

text \<open>\<open>duration_cast\<close> to seconds truncates towards zero.\<close>

definition second_of :: "int \<Rightarrow> int" where
  "second_of point = point sdiv 1000000000"

text \<open>The loop that prints every timestamp segment into \<open>timestamp_cache_\<close>.\<close>

definition refresh_timestamps ::
    "(int \<Rightarrow> tm option) \<Rightarrow> render_segment list \<Rightarrow> int \<Rightarrow> bool \<Rightarrow> string list \<Rightarrow> string list" where
  "refresh_timestamps localtime segments point calendar_time cache =
     map2 (\<lambda>segment old. if rs_kind segment = Timestamp
             then timestamp_text localtime (rs_timestamp segment) point calendar_time else old)
       segments cache"

text \<open>The loop that assembles the output from the segments and the timestamp cache.\<close>

definition assemble ::
    "(int \<Rightarrow> tm option) \<Rightarrow> prepared_log \<Rightarrow> string list \<Rightarrow> int \<Rightarrow> bool \<Rightarrow> nat \<Rightarrow> string" where
  "assemble localtime p cache point calendar_time profile_index =
     concat (map2 (\<lambda>segment cached_text.
       if rs_kind segment = Timestamp
       then if cl_has_privacy (pl_compiled p) then cached_text
            else timestamp_text localtime (rs_timestamp segment) point calendar_time
       else non_timestamp_text (pl_source_ip p) (pl_destination_ip p) segment profile_index)
       (cl_segments (pl_compiled p)) cache)"

definition render :: "(int \<Rightarrow> tm option) \<Rightarrow> int \<Rightarrow> bool \<Rightarrow> prepared_log \<Rightarrow> string \<times> prepared_log" where
  "render localtime now calendar_time p =
     (let c = pl_compiled p in
      if \<not> cl_has_timestamp c \<and> \<not> cl_has_privacy c then (pl_cached p, p)
      else
        let adjusted = adjusted_time p now; second = second_of adjusted in
        if \<not> cl_has_privacy c \<and> second = pl_cached_second p \<and> calendar_time = pl_cached_calendar_time p
        then (pl_cached p, p)
        else
          let (i, state) = (if cl_has_privacy c then next_profile_index (pl_random_state p)
                            else (0, pl_random_state p));
              p1 = p\<lparr>pl_random_state := state\<rparr> in
          if cl_cache_privacy_profiles c \<and> pl_privacy_cache_valid p1 ! i \<and>
             (\<not> cl_has_timestamp c \<or>
              pl_privacy_cache_seconds p1 ! i = second \<and>
              pl_privacy_cache_calendar_time p1 ! i = calendar_time)
          then (pl_privacy_cache p1 ! i, p1)
          else
            let p2 = (if cl_has_privacy c \<and> cl_has_timestamp c \<and>
                         (second \<noteq> pl_cached_second p1 \<or> calendar_time \<noteq> pl_cached_calendar_time p1)
                      then p1\<lparr>pl_timestamp_cache :=
                                refresh_timestamps localtime (cl_segments c) adjusted calendar_time
                                  (pl_timestamp_cache p1),
                              pl_cached_second := second, pl_cached_calendar_time := calendar_time\<rparr>
                      else p1);
                output = assemble localtime p2 (pl_timestamp_cache p2) adjusted calendar_time i;
                p3 = (if cl_cache_privacy_profiles c
                      then p2\<lparr>pl_privacy_cache := (pl_privacy_cache p2)[i := output],
                              pl_privacy_cache_valid := (pl_privacy_cache_valid p2)[i := True],
                              pl_privacy_cache_seconds := (pl_privacy_cache_seconds p2)[i := second],
                              pl_privacy_cache_calendar_time :=
                                (pl_privacy_cache_calendar_time p2)[i := calendar_time]\<rparr>
                      else p2\<lparr>pl_cached := output\<rparr>)
            in (output, p3\<lparr>pl_cached_second := second, pl_cached_calendar_time := calendar_time\<rparr>))"

subsection \<open>LogRenderer\<close>

definition tokenize_item :: "log_template \<Rightarrow> log_template" where
  "tokenize_item item =
     item\<lparr>lt_sample := tokenize (lt_sample item),
          lt_test_case := map (\<lambda>(token, values). (token, map tokenize values)) (lt_test_case item)\<rparr>"

definition compile_log :: "log_template \<Rightarrow> expand_error + compiled_log" where
  "compile_log item =
     bind_result (expand_test_case (tokenize_item item)) (\<lambda>expanded.
     Inr (make_compiled_log (compile_segments expanded)))"

definition bind_log :: "compiled_log \<Rightarrow> string \<Rightarrow> string \<Rightarrow> int \<Rightarrow> u64 \<Rightarrow> prepared_log \<times> u64" where
  "bind_log compiled source_ip destination_ip offset sequence =
     prepared_init compiled source_ip destination_ip offset sequence"

definition empty_analysis :: log_template_analysis where
  "empty_analysis =
     \<lparr>la_timestamp_count = 0, la_source_ip_count = 0, la_destination_ip_count = 0,
      la_privacy_token_count = 0, la_privacy_token_mask = 0, la_timestamp_styles = []\<rparr>"

definition analyze_segment :: "log_template_analysis \<Rightarrow> render_segment \<Rightarrow> log_template_analysis" where
  "analyze_segment result segment =
     (let r1 = (if rs_kind segment = Privacy
                then result\<lparr>la_privacy_token_count := la_privacy_token_count result + 1,
                            la_privacy_token_mask :=
                              or (la_privacy_token_mask result) (privacy_token_bit (rs_privacy segment))\<rparr>
                else result);
          style = tt_style (rs_timestamp segment)
      in if rs_kind segment = Timestamp
         then r1\<lparr>la_timestamp_count := la_timestamp_count r1 + 1,
                 la_timestamp_styles :=
                   (if style \<in> set (la_timestamp_styles r1) then la_timestamp_styles r1
                    else la_timestamp_styles r1 @ [style])\<rparr>
         else if rs_kind segment = SourceIp
         then r1\<lparr>la_source_ip_count := la_source_ip_count r1 + 1\<rparr>
         else if rs_kind segment = DestinationIp
         then r1\<lparr>la_destination_ip_count := la_destination_ip_count r1 + 1\<rparr>
         else r1)"

definition analyze_compiled :: "compiled_log \<Rightarrow> log_template_analysis" where
  "analyze_compiled compiled = foldl analyze_segment empty_analysis (cl_segments compiled)"

definition analyze_item :: "log_template \<Rightarrow> expand_error + log_template_analysis" where
  "analyze_item item = bind_result (compile_log item) (\<lambda>c. Inr (analyze_compiled c))"

definition analyze_sample :: "string \<Rightarrow> expand_error + log_template_analysis" where
  "analyze_sample sample =
     bind_result (compile_log (empty_template\<lparr>lt_sample := tokenize sample\<rparr>)) (\<lambda>c.
     Inr (analyze_compiled c))"

text \<open>The loop of \<open>prepare\<close>.\<close>

fun prepare_items ::
    "generator_config \<Rightarrow> log_template list \<Rightarrow> u64 \<Rightarrow> expand_error + prepared_log list \<times> u64" where
  "prepare_items config [] sequence = Inr ([], sequence)"
| "prepare_items config (item # items) sequence =
     (let generation = gc_timestamp_generation config;
          offset = (if tg_mode generation = Offset then time_offset_value (tg_offset generation) else 0)
      in bind_result (compile_log item) (\<lambda>compiled.
         let (p, sequence') = bind_log compiled (gc_source_ip config) (gc_destination_ip config) offset
                                sequence
         in bind_result (prepare_items config items sequence') (\<lambda>(ps, sequence'').
            Inr (p # ps, sequence''))))"

definition prepare :: "generator_config \<Rightarrow> u64 \<Rightarrow> expand_error + prepared_log list \<times> u64" where
  "prepare config sequence = prepare_items config (gc_templates config) sequence"

definition prepare_one ::
    "log_template \<Rightarrow> string \<Rightarrow> string \<Rightarrow> int \<Rightarrow> u64 \<Rightarrow> expand_error + prepared_log \<times> u64" where
  "prepare_one item source_ip destination_ip offset sequence =
     bind_result (compile_log item) (\<lambda>compiled.
     Inr (bind_log compiled source_ip destination_ip offset sequence))"

definition prepare_sample ::
    "string \<Rightarrow> string \<Rightarrow> string \<Rightarrow> int \<Rightarrow> u64 \<Rightarrow> expand_error + prepared_log \<times> u64" where
  "prepare_sample sample source_ip destination_ip offset sequence =
     bind_result (compile_log (empty_template\<lparr>lt_sample := sample\<rparr>)) (\<lambda>compiled.
     Inr (bind_log compiled source_ip destination_ip offset sequence))"

subsection \<open>What expanding does\<close>

text \<open>The text between the occurrences of a marker, and the text with values put back in between.\<close>

function split_marker :: "string \<Rightarrow> string \<Rightarrow> string list" where
  "split_marker pat s =
     (case find_sub pat s of
        None \<Rightarrow> [s]
      | Some p \<Rightarrow> if pat = [] then [s] else take p s # split_marker pat (drop (p + length pat) s))"
  by pat_completeness auto
termination
  by (relation "measure (\<lambda>(pat, s). length s)") (auto dest!: find_sub_Some simp flip: length_greater_0_conv)

declare split_marker.simps [simp del]

fun weave :: "string list \<Rightarrow> string list \<Rightarrow> string" where
  "weave [] values = []"
| "weave [piece] values = piece"
| "weave (piece # pieces) [] = piece"
| "weave (piece # pieces) (value # values) = piece @ value @ weave pieces values"

lemma split_marker_not_Nil [simp]: "split_marker pat s \<noteq> []"
  by (subst split_marker.simps) (auto split: option.splits)

lemma weave_Cons: "pieces \<noteq> [] \<Longrightarrow> weave (piece # pieces) (v # vs) = piece @ v @ weave pieces vs"
  by (cases pieces) auto

lemma weave_split_marker:
  "weave (split_marker pat s) (replicate (length (split_marker pat s) - 1) pat) = s"
proof (induction pat s rule: split_marker.induct)
  case (1 pat s)
  show ?case
  proof (cases "find_sub pat s")
    case None
    then show ?thesis by (simp add: split_marker.simps)
  next
    case (Some p)
    show ?thesis
    proof (cases "pat = []")
      case False
      let ?rest = "split_marker pat (drop (p + length pat) s)"
      have "replicate (length ?rest) pat = pat # replicate (length ?rest - 1) pat"
        by (cases ?rest) auto
      moreover have "s = take p s @ pat @ drop (p + length pat) s"
        using find_sub_Some [OF Some] by (metis append_take_drop_id drop_drop add.commute)
      ultimately show ?thesis
        using Some False 1 by (simp add: split_marker.simps [of pat s] weave_Cons)
    next
      case True
      with Some have "split_marker pat s = [s]" by (subst split_marker.simps) simp
      then show ?thesis by simp
    qed
  qed
qed

lemma count_from_split:
  assumes "pat \<noteq> []" "position \<le> length input"
  shows "Suc (count_from input pat position) = length (split_marker pat (drop position input))"
  using assms
proof (induction input pat position rule: count_from.induct)
  case (1 input pat position)
  show ?case
  proof (cases "find_sub pat (drop position input)")
    case None
    with 1(3) show ?thesis
      by (simp add: count_from.simps [of input] find_from_def split_marker.simps [of pat "drop position input"])
  next
    case (Some i)
    with 1(3) have f: "find_from pat input position = Some (position + i)" by (simp add: find_from_def)
    from find_from_Some(2) [OF f] 1(1) [OF f 1(2)] 1(2) Some f show ?thesis
      by (simp add: count_from.simps [of input pat position] add.assoc add.left_commute
            split_marker.simps [of pat "drop position input"] add.commute)
  qed
qed

lemma find_sub_least:
  "find_sub pat s = Some i \<Longrightarrow> take (length pat) (drop j s) = pat \<Longrightarrow> j + length pat \<le> length s \<Longrightarrow> i \<le> j"
proof (induction s arbitrary: i j)
  case (Cons c cs)
  then show ?case by (cases j) (auto simp: starts_with_def split: if_splits)
qed (simp split: if_splits)

lemma split_marker_free: "pat \<noteq> [] \<Longrightarrow> piece \<in> set (split_marker pat s) \<Longrightarrow> find_sub pat piece = None"
proof (induction pat s rule: split_marker.induct)
  case (1 pat s)
  show ?case
  proof (cases "find_sub pat s")
    case None
    with 1 show ?thesis by (simp add: split_marker.simps)
  next
    case (Some p)
    have "find_sub pat (take p s) = None"
    proof (rule ccontr)
      assume "find_sub pat (take p s) \<noteq> None"
      then obtain q where q: "find_sub pat (take p s) = Some q" by auto
      from find_sub_Some [OF this] have le: "q + length pat \<le> p" "q + length pat \<le> length s"
        and t: "take (length pat) (drop q (take p s)) = pat" by simp_all
      have "length pat \<le> p - q" using le by simp
      with t have "take (length pat) (drop q s) = pat" by (simp add: drop_take min_absorb1)
      with find_sub_least [OF Some] le(2) have "p \<le> q" by blast
      with le(1) 1(2) show False by (cases pat) simp_all
    qed
    with Some 1 show ?thesis by (auto simp: split_marker.simps [of pat s])
  qed
qed

lemma place_values_weave:
  assumes "pat \<noteq> []" "position \<le> length result"
    "length (split_marker pat (drop position result)) = Suc (length values)"
  shows "place_values pat values result position
    = Inr (take position result @ weave (split_marker pat (drop position result)) (map sanitize values))"
  using assms
proof (induction pat "values" result position rule: place_values.induct)
  case (1 pat result position)
  then obtain x where x: "split_marker pat (drop position result) = [x]"
    by (auto simp: length_Suc_conv)
  with weave_split_marker [of pat "drop position result"] show ?case by simp
next
  case (2 pat v vs result position)
  show ?case
  proof (cases "find_sub pat (drop position result)")
    case None
    with 2(4) show ?thesis by (simp add: split_marker.simps)
  next
    case (Some i)
    with 2(3) have f: "find_from pat result position = Some (position + i)" by (simp add: find_from_def)
    let ?rest = "drop (position + i + length pat) result" and ?sv = "sanitize v"
    let ?result = "take (position + i) result @ ?sv @ ?rest"
    have le: "position + i + length pat \<le> length result" using find_from_Some(2) [OF f] .
    have sp: "split_marker pat (drop position result)
        = take i (drop position result) # split_marker pat ?rest"
      using Some 2(2) by (subst split_marker.simps) (simp add: add.assoc add.left_commute add.commute)
    have dr: "drop (position + i + length ?sv) ?result = ?rest"
      and tk: "take (position + i + length ?sv) ?result = take (position + i) result @ ?sv"
      using le by (simp_all add: min_absorb2)
    have "place_values pat vs ?result (position + i + length ?sv)
        = Inr (take (position + i) result @ ?sv @ weave (split_marker pat ?rest) (map sanitize vs))"
    proof -
      have "position + i + length ?sv \<le> length ?result" using le by simp
      moreover have "length (split_marker pat (drop (position + i + length ?sv) ?result)) = Suc (length vs)"
        using 2(4) sp unfolding dr by simp
      ultimately show ?thesis using 2(1) [OF f refl 2(2)] unfolding dr tk by simp
    qed
    then show ?thesis using f unfolding sp by (simp add: Let_def weave_Cons take_add)
  qed
qed

text \<open>The values of each token, in the order of the map, replace the occurrences of its marker.\<close>

fun expansion :: "string \<Rightarrow> test_case \<Rightarrow> string option" where
  "expansion s [] = Some s"
| "expansion s ((token, values) # rest) =
     (let pieces = split_marker (token_marker token) s
      in if valid_token_name token \<and> length pieces = length values + 1
         then expansion (weave pieces (map sanitize values)) rest else None)"

lemma token_marker_not_Nil [simp]: "token_marker token \<noteq> []"
  by (simp add: token_marker_def)

lemma count_occurrences_split:
  "count_occurrences s (token_marker token) = n
     \<longleftrightarrow> length (split_marker (token_marker token) s) = n + 1"
  using count_from_split [of "token_marker token" 0 s] by (auto simp: count_occurrences_def)

lemma expand_values_Cons:
  "expand_values item_id s ((token, vs) # rest) =
     (let pieces = split_marker (token_marker token) s in
      if \<not> valid_token_name token then Inl (Invalid_Token_Name item_id)
      else if length pieces \<noteq> length vs + 1 then Inl (Value_Count_Mismatch item_id (token_marker token))
      else expand_values item_id (weave pieces (map sanitize vs)) rest)"
  using place_values_weave [of "token_marker token" 0 s vs]
  by (simp add: Let_def require_that_def count_occurrences_split)

lemma expand_values_expansion:
  "(expand_values item_id s tvs = Inr r \<longleftrightarrow> expansion s tvs = Some r)
   \<and> expand_values item_id s tvs \<noteq> Inl Out_Of_Range"
proof (induction s tvs rule: expansion.induct)
  case (2 s token vs rest)
  then show ?case unfolding expand_values_Cons by (simp add: Let_def)
qed simp

subsection \<open>Cached rendering and plain rendering\<close>

definition segment_text ::
    "(int \<Rightarrow> tm option) \<Rightarrow> string \<Rightarrow> string \<Rightarrow> int \<Rightarrow> bool \<Rightarrow> nat \<Rightarrow> render_segment \<Rightarrow> string" where
  "segment_text localtime source_ip destination_ip point calendar_time profile segment =
     (if rs_kind segment = Timestamp
      then timestamp_text localtime (rs_timestamp segment) point calendar_time
      else non_timestamp_text source_ip destination_ip segment profile)"

text \<open>Rendering without caches: every segment printed anew for the time point and the profile.\<close>

definition plain_render :: "(int \<Rightarrow> tm option) \<Rightarrow> prepared_log \<Rightarrow> int \<Rightarrow> bool \<Rightarrow> nat \<Rightarrow> string" where
  "plain_render localtime p point calendar_time profile =
     concat (map (segment_text localtime (pl_source_ip p) (pl_destination_ip p) point calendar_time profile)
                 (cl_segments (pl_compiled p)))"

definition has_kind :: "segment_kind \<Rightarrow> compiled_log \<Rightarrow> bool" where
  "has_kind kind c \<longleftrightarrow> (\<exists>segment \<in> set (cl_segments c). rs_kind segment = kind)"

definition compiled_ok :: "compiled_log \<Rightarrow> bool" where
  "compiled_ok c \<longleftrightarrow>
     (cl_has_timestamp c \<longleftrightarrow> has_kind Timestamp c) \<and> (cl_has_privacy c \<longleftrightarrow> has_kind Privacy c) \<and>
     (cl_cache_privacy_profiles c \<longrightarrow> cl_has_privacy c)"

lemma summarize_segments:
  "cl_segments (foldl summarize_segment c segments) = cl_segments c
   \<and> (cl_has_timestamp (foldl summarize_segment c segments) \<longleftrightarrow>
        cl_has_timestamp c \<or> (\<exists>s \<in> set segments. rs_kind s = Timestamp))
   \<and> (cl_has_privacy (foldl summarize_segment c segments) \<longleftrightarrow>
        cl_has_privacy c \<or> (\<exists>s \<in> set segments. rs_kind s = Privacy))"
  by (induction segments arbitrary: c) (auto simp: summarize_segment_def split: segment_kind.splits)

lemma make_compiled_log_ok: "compiled_ok (make_compiled_log segments)"
  by (simp add: compiled_ok_def make_compiled_log_def Let_def has_kind_def summarize_segments)

lemma make_compiled_log_segments [simp]: "cl_segments (make_compiled_log segments) = segments"
  by (simp add: make_compiled_log_def Let_def summarize_segments)

lemma plain_render_no_timestamp:
  assumes "compiled_ok (pl_compiled p)" "\<not> cl_has_timestamp (pl_compiled p)"
  shows "plain_render localtime p point cal i = plain_render localtime p point' cal' i"
  unfolding plain_render_def
  by (rule arg_cong [where f = concat], rule map_cong [OF refl])
     (use assms in \<open>auto simp: compiled_ok_def has_kind_def segment_text_def\<close>)

lemma non_timestamp_no_privacy: "rs_kind segment \<noteq> Privacy \<Longrightarrow>
    non_timestamp_text source_ip destination_ip segment i = non_timestamp_text source_ip destination_ip segment j"
  by (auto simp: non_timestamp_text_def split: segment_kind.splits)

text \<open>The cached texts of the timestamp segments, for the time they were printed at.\<close>

definition timestamps_for ::
    "(int \<Rightarrow> tm option) \<Rightarrow> render_segment list \<Rightarrow> string list \<Rightarrow> int \<Rightarrow> bool \<Rightarrow> bool" where
  "timestamps_for localtime segments cache point calendar_time \<longleftrightarrow>
     (\<forall>i < length segments. rs_kind (segments ! i) = Timestamp \<longrightarrow>
        cache ! i = timestamp_text localtime (rs_timestamp (segments ! i)) point calendar_time)"

definition prepared_ok :: "(int \<Rightarrow> tm option) \<Rightarrow> prepared_log \<Rightarrow> bool" where
  "prepared_ok localtime p \<longleftrightarrow>
     (let c = pl_compiled p in
      compiled_ok c \<and>
      length (pl_timestamp_cache p) = length (cl_segments c) \<and>
      length (pl_privacy_cache p) = synthetic_profile_count \<and>
      length (pl_privacy_cache_valid p) = synthetic_profile_count \<and>
      length (pl_privacy_cache_seconds p) = synthetic_profile_count \<and>
      length (pl_privacy_cache_calendar_time p) = synthetic_profile_count \<and>
      (\<not> cl_has_timestamp c \<longrightarrow> \<not> cl_has_privacy c \<longrightarrow> pl_cached p = plain_render localtime p 0 False 0) \<and>
      (cl_has_timestamp c \<longrightarrow> pl_cached_second p \<noteq> - 1 \<longrightarrow>
         (\<exists>point. second_of point = pl_cached_second p \<and>
            (if cl_has_privacy c
             then timestamps_for localtime (cl_segments c) (pl_timestamp_cache p) point (pl_cached_calendar_time p)
             else pl_cached p = plain_render localtime p point (pl_cached_calendar_time p) 0))) \<and>
      (\<forall>i < synthetic_profile_count. pl_privacy_cache_valid p ! i \<longrightarrow>
         \<not> (cl_has_timestamp c \<and> pl_privacy_cache_seconds p ! i = - 1) \<longrightarrow>
         (\<exists>point. (cl_has_timestamp c \<longrightarrow> second_of point = pl_privacy_cache_seconds p ! i) \<and>
            pl_privacy_cache p ! i =
              plain_render localtime p point (pl_privacy_cache_calendar_time p ! i) i)))"

lemma prepared_ok_random [simp]:
  "prepared_ok localtime (p\<lparr>pl_random_state := r\<rparr>) \<longleftrightarrow> prepared_ok localtime p"
proof -
  have "plain_render localtime (p\<lparr>pl_random_state := r\<rparr>) = plain_render localtime p"
    by (intro ext) (simp add: plain_render_def)
  then show ?thesis by (simp add: prepared_ok_def Let_def)
qed

lemma prepared_init_ok:
  assumes "compiled_ok compiled"
  shows "prepared_ok localtime (fst (prepared_init compiled source_ip destination_ip offset sequence))"
proof -
  have "concat (map (\<lambda>segment. non_timestamp_text source_ip destination_ip segment 0) (cl_segments compiled))
      = concat (map (segment_text localtime source_ip destination_ip 0 False 0) (cl_segments compiled))"
    if "\<not> cl_has_timestamp compiled"
    by (rule arg_cong [where f = concat], rule map_cong [OF refl])
       (use assms that in \<open>auto simp: compiled_ok_def has_kind_def segment_text_def\<close>)
  then show ?thesis
    using assms
    by (simp add: prepared_ok_def prepared_init_def initialize_cache_def Let_def plain_render_def
          split: prod.split)
qed

lemma length_refresh [simp]:
  "length cache = length segments \<Longrightarrow>
     length (refresh_timestamps localtime segments point cal cache) = length segments"
  by (simp add: refresh_timestamps_def)

lemma refresh_timestamps_for:
  "length cache = length segments \<Longrightarrow>
     timestamps_for localtime segments (refresh_timestamps localtime segments point cal cache) point cal"
  by (simp add: timestamps_for_def refresh_timestamps_def)

lemma assemble_plain:
  assumes "length cache = length (cl_segments (pl_compiled p))"
    "if cl_has_privacy (pl_compiled p)
     then timestamps_for localtime (cl_segments (pl_compiled p)) cache point' cal else point' = point"
  shows "assemble localtime p cache point cal i = plain_render localtime p point' cal i"
  unfolding assemble_def plain_render_def
  by (rule arg_cong [where f = concat], rule nth_equalityI)
     (use assms in \<open>auto simp: segment_text_def timestamps_for_def split: if_splits\<close>)

lemma plain_render_cong:
  "pl_compiled p = pl_compiled q \<Longrightarrow> pl_source_ip p = pl_source_ip q \<Longrightarrow>
   pl_destination_ip p = pl_destination_ip q \<Longrightarrow> plain_render localtime p = plain_render localtime q"
  by (intro ext) (simp add: plain_render_def)

lemma next_profile_index_less: "fst (next_profile_index state) < synthetic_profile_count"
proof -
  let ?w = "xor (xor (xor state (drop_bit 12 state)) (push_bit 25 (xor state (drop_bit 12 state))))
      (drop_bit 27 (xor (xor state (drop_bit 12 state)) (push_bit 25 (xor state (drop_bit 12 state)))))
      * 0x2545F4914F6CDD1D :: u64"
  have "unat (?w mod 50) = unat ?w mod 50" by (simp add: unat_mod)
  also have "\<dots> < 50" by simp
  finally show ?thesis by (simp add: next_profile_index_def Let_def synthetic_profile_count_def)
qed

text \<open>The profile a rendering uses.\<close>

definition profile_of :: "prepared_log \<Rightarrow> nat" where
  "profile_of p =
     (if cl_has_privacy (pl_compiled p) then fst (next_profile_index (pl_random_state p)) else 0)"

definition random_after :: "prepared_log \<Rightarrow> u64" where
  "random_after p =
     (if cl_has_privacy (pl_compiled p) then snd (next_profile_index (pl_random_state p))
      else pl_random_state p)"

lemma profile_of_less: "profile_of p < synthetic_profile_count"
  using next_profile_index_less by (simp add: profile_of_def synthetic_profile_count_def)

text \<open>What stays fixed over renderings.\<close>

definition same_log :: "prepared_log \<Rightarrow> prepared_log \<Rightarrow> bool" where
  "same_log p q \<longleftrightarrow> pl_compiled q = pl_compiled p \<and> pl_source_ip q = pl_source_ip p
     \<and> pl_destination_ip q = pl_destination_ip p \<and> pl_offset q = pl_offset p"

lemma same_log_plain: "same_log p q \<Longrightarrow> plain_render localtime q = plain_render localtime p"
  by (rule plain_render_cong) (simp_all add: same_log_def)

definition render_miss :: "(int \<Rightarrow> tm option) \<Rightarrow> int \<Rightarrow> bool \<Rightarrow> prepared_log \<Rightarrow> prepared_log" where
  "render_miss localtime adjusted calendar_time p =
     (let c = pl_compiled p; second = second_of adjusted; p1 = p\<lparr>pl_random_state := random_after p\<rparr>
      in if cl_has_privacy c \<and> cl_has_timestamp c \<and>
            (second \<noteq> pl_cached_second p \<or> calendar_time \<noteq> pl_cached_calendar_time p)
         then p1\<lparr>pl_timestamp_cache :=
                   refresh_timestamps localtime (cl_segments c) adjusted calendar_time
                     (pl_timestamp_cache p),
                 pl_cached_second := second, pl_cached_calendar_time := calendar_time\<rparr>
         else p1)"

definition store_output :: "nat \<Rightarrow> string \<Rightarrow> int \<Rightarrow> bool \<Rightarrow> prepared_log \<Rightarrow> prepared_log" where
  "store_output i output second calendar_time p =
     (if cl_cache_privacy_profiles (pl_compiled p)
      then p\<lparr>pl_privacy_cache := (pl_privacy_cache p)[i := output],
             pl_privacy_cache_valid := (pl_privacy_cache_valid p)[i := True],
             pl_privacy_cache_seconds := (pl_privacy_cache_seconds p)[i := second],
             pl_privacy_cache_calendar_time := (pl_privacy_cache_calendar_time p)[i := calendar_time],
             pl_cached_second := second, pl_cached_calendar_time := calendar_time\<rparr>
      else p\<lparr>pl_cached := output, pl_cached_second := second,
             pl_cached_calendar_time := calendar_time\<rparr>)"

definition privacy_hit :: "int \<Rightarrow> bool \<Rightarrow> prepared_log \<Rightarrow> bool" where
  "privacy_hit second calendar_time p \<longleftrightarrow>
     cl_cache_privacy_profiles (pl_compiled p) \<and> pl_privacy_cache_valid p ! profile_of p \<and>
     (\<not> cl_has_timestamp (pl_compiled p) \<or>
      pl_privacy_cache_seconds p ! profile_of p = second \<and>
      pl_privacy_cache_calendar_time p ! profile_of p = calendar_time)"

text \<open>The four ways a rendering can go.\<close>

lemma render_cases:
  "render localtime now cal p =
     (let adjusted = adjusted_time p now; second = second_of adjusted; c = pl_compiled p in
      if \<not> cl_has_timestamp c \<and> \<not> cl_has_privacy c \<or>
         \<not> cl_has_privacy c \<and> second = pl_cached_second p \<and> cal = pl_cached_calendar_time p
      then (pl_cached p, p)
      else if privacy_hit second cal p
      then (pl_privacy_cache p ! profile_of p, p\<lparr>pl_random_state := random_after p\<rparr>)
      else
        let q = render_miss localtime adjusted cal p;
            output = assemble localtime q (pl_timestamp_cache q) adjusted cal (profile_of p)
        in (output, store_output (profile_of p) output second cal q))"
proof -
  obtain i state where n: "next_profile_index (pl_random_state p) = (i, state)"
    by (cases "next_profile_index (pl_random_state p)")
  show ?thesis
    by (cases "cl_has_privacy (pl_compiled p)"; cases "cl_has_timestamp (pl_compiled p)";
        cases "second_of (adjusted_time p now) = pl_cached_second p";
        cases "cal = pl_cached_calendar_time p"; cases "cl_cache_privacy_profiles (pl_compiled p)")
       (simp_all add: render_def Let_def n profile_of_def random_after_def privacy_hit_def
          render_miss_def store_output_def)
qed

lemma render_miss_ok:
  assumes "prepared_ok localtime p"
  shows "prepared_ok localtime (render_miss localtime adjusted cal p)"
    and "same_log p (render_miss localtime adjusted cal p)"
    and "pl_random_state (render_miss localtime adjusted cal p) = random_after p"
  using assms refresh_timestamps_for [of "pl_timestamp_cache p" "cl_segments (pl_compiled p)"]
  by (auto simp: prepared_ok_def render_miss_def Let_def same_log_def plain_render_def)

lemma render_miss_timestamps:
  assumes "prepared_ok localtime p" "second_of adjusted \<noteq> - 1"
    "cl_has_timestamp (pl_compiled p)" "cl_has_privacy (pl_compiled p)"
  shows "\<exists>point. second_of point = second_of adjusted \<and>
    timestamps_for localtime (cl_segments (pl_compiled p))
      (pl_timestamp_cache (render_miss localtime adjusted cal p)) point cal"
  using assms refresh_timestamps_for [of "pl_timestamp_cache p" "cl_segments (pl_compiled p)"]
  by (auto simp: prepared_ok_def render_miss_def Let_def)

lemma assemble_ok:
  assumes ok: "prepared_ok localtime p" and "second_of adjusted \<noteq> - 1 \<or> \<not> cl_has_timestamp (pl_compiled p)"
    and q_def: "q = render_miss localtime adjusted cal p"
  shows "\<exists>point. second_of point = second_of adjusted
    \<and> assemble localtime q (pl_timestamp_cache q) adjusted cal i = plain_render localtime p point cal i
    \<and> (cl_has_timestamp (pl_compiled p) \<longrightarrow> cl_has_privacy (pl_compiled p) \<longrightarrow>
         timestamps_for localtime (cl_segments (pl_compiled p)) (pl_timestamp_cache q) point cal)"
proof -
  have q: "prepared_ok localtime q" "same_log p q"
    using render_miss_ok [OF ok] by (simp_all add: q_def)
  then have len: "length (pl_timestamp_cache q) = length (cl_segments (pl_compiled q))"
    and c: "pl_compiled q = pl_compiled p"
    by (simp_all add: prepared_ok_def Let_def same_log_def)
  have "\<exists>point. second_of point = second_of adjusted \<and>
      (if cl_has_privacy (pl_compiled q)
       then timestamps_for localtime (cl_segments (pl_compiled q)) (pl_timestamp_cache q) point cal
       else point = adjusted)"
  proof (cases "cl_has_privacy (pl_compiled p) \<and> cl_has_timestamp (pl_compiled p)")
    case True
    then show ?thesis using render_miss_timestamps [OF ok] assms(2) c by (simp add: q_def)
  next
    case False
    have "timestamps_for localtime (cl_segments (pl_compiled q)) (pl_timestamp_cache q) adjusted cal"
      if "\<not> cl_has_timestamp (pl_compiled p)"
      using that ok c by (auto simp: prepared_ok_def Let_def compiled_ok_def has_kind_def timestamps_for_def)
    with False c show ?thesis by auto
  qed
  then obtain point where point: "second_of point = second_of adjusted"
    "if cl_has_privacy (pl_compiled q)
       then timestamps_for localtime (cl_segments (pl_compiled q)) (pl_timestamp_cache q) point cal
       else point = adjusted" by blast
  from assemble_plain [OF len point(2)] point same_log_plain [OF q(2)] c show ?thesis
    by (intro exI [of _ point]) auto
qed

lemma store_output_ok:
  assumes ok: "prepared_ok localtime q" and i: "i < synthetic_profile_count"
    "\<not> cl_has_privacy (pl_compiled q) \<longrightarrow> i = 0"
    and out: "second \<noteq> - 1 \<or> \<not> cl_has_timestamp (pl_compiled q) \<Longrightarrow>
      \<exists>point. second_of point = second \<and> output = plain_render localtime q point cal i \<and>
        (cl_has_timestamp (pl_compiled q) \<longrightarrow> cl_has_privacy (pl_compiled q) \<longrightarrow>
           timestamps_for localtime (cl_segments (pl_compiled q)) (pl_timestamp_cache q) point cal)"
    and some: "cl_has_timestamp (pl_compiled q) \<or> cl_has_privacy (pl_compiled q)"
  shows "prepared_ok localtime (store_output i output second cal q)"
proof -
  let ?r = "store_output i output second cal q"
  have plain: "plain_render localtime ?r = plain_render localtime q" and c: "pl_compiled ?r = pl_compiled q"
    by (simp_all add: store_output_def plain_render_def fun_eq_iff)
  have cache_i: "\<exists>point. (cl_has_timestamp (pl_compiled q) \<longrightarrow> second_of point = pl_privacy_cache_seconds ?r ! j) \<and>
      pl_privacy_cache ?r ! j = plain_render localtime q point (pl_privacy_cache_calendar_time ?r ! j) j"
    if j: "j < synthetic_profile_count" "pl_privacy_cache_valid ?r ! j"
      "\<not> (cl_has_timestamp (pl_compiled q) \<and> pl_privacy_cache_seconds ?r ! j = - 1)" for j
  proof (cases "cl_cache_privacy_profiles (pl_compiled q) \<and> j = i")
    case True
    with j ok have "second \<noteq> - 1 \<or> \<not> cl_has_timestamp (pl_compiled q)"
      by (auto simp: store_output_def prepared_ok_def Let_def)
    from out [OF this] True j ok show ?thesis
      by (auto simp: store_output_def prepared_ok_def Let_def)
  next
    case False
    with j have "pl_privacy_cache_valid q ! j"
      "\<not> (cl_has_timestamp (pl_compiled q) \<and> pl_privacy_cache_seconds q ! j = - 1)"
      by (auto simp: store_output_def split: if_splits)
    with ok j(1) have "\<exists>point. (cl_has_timestamp (pl_compiled q) \<longrightarrow> second_of point = pl_privacy_cache_seconds q ! j) \<and>
      pl_privacy_cache q ! j = plain_render localtime q point (pl_privacy_cache_calendar_time q ! j) j"
      unfolding prepared_ok_def Let_def by blast
    with False show ?thesis by (auto simp: store_output_def)
  qed
  have second: "\<exists>point. second_of point = second \<and>
      (if cl_has_privacy (pl_compiled q)
       then timestamps_for localtime (cl_segments (pl_compiled q)) (pl_timestamp_cache ?r) point cal
       else pl_cached ?r = plain_render localtime q point cal 0)"
    if "cl_has_timestamp (pl_compiled q)" "second \<noteq> - 1"
  proof -
    have "cl_cache_privacy_profiles (pl_compiled q) \<Longrightarrow> cl_has_privacy (pl_compiled q)"
      using ok by (auto simp: prepared_ok_def Let_def compiled_ok_def)
    with out that i(2) show ?thesis by (auto simp: store_output_def)
  qed
  have now: "pl_cached_second ?r = second" "pl_cached_calendar_time ?r = cal"
    by (simp_all add: store_output_def)
  have lens: "length (pl_timestamp_cache ?r) = length (cl_segments (pl_compiled q)) \<and>
      length (pl_privacy_cache ?r) = synthetic_profile_count \<and>
      length (pl_privacy_cache_valid ?r) = synthetic_profile_count \<and>
      length (pl_privacy_cache_seconds ?r) = synthetic_profile_count \<and>
      length (pl_privacy_cache_calendar_time ?r) = synthetic_profile_count"
    using ok by (simp add: store_output_def prepared_ok_def Let_def)
  have cok: "compiled_ok (pl_compiled q)" using ok by (simp add: prepared_ok_def Let_def)
  show ?thesis
    unfolding prepared_ok_def Let_def c plain now
    using cok lens second cache_i some by blast
qed

lemma render_ok:
  assumes ok: "prepared_ok localtime p" and second_def: "second = second_of (adjusted_time p now)"
  shows "prepared_ok localtime (snd (render localtime now cal p))"
    and "same_log p (snd (render localtime now cal p))"
    and "pl_random_state (snd (render localtime now cal p)) = random_after p"
    and "second \<noteq> - 1 \<or> \<not> cl_has_timestamp (pl_compiled p) \<Longrightarrow>
      \<exists>point. second_of point = second \<and>
        fst (render localtime now cal p) = plain_render localtime p point cal (profile_of p)"
proof -
  let ?c = "pl_compiled p" and ?i = "profile_of p"
  let ?cached = "\<not> cl_has_timestamp ?c \<and> \<not> cl_has_privacy ?c \<or>
    \<not> cl_has_privacy ?c \<and> second = pl_cached_second p \<and> cal = pl_cached_calendar_time p"
  have cok: "compiled_ok ?c" using ok by (simp add: prepared_ok_def Let_def)
  have "prepared_ok localtime (snd (render localtime now cal p))
    \<and> same_log p (snd (render localtime now cal p))
    \<and> pl_random_state (snd (render localtime now cal p)) = random_after p
    \<and> (second \<noteq> - 1 \<or> \<not> cl_has_timestamp ?c \<longrightarrow>
        (\<exists>point. second_of point = second \<and>
          fst (render localtime now cal p) = plain_render localtime p point cal ?i))"
  proof (cases ?cached)
    case True
    then have r: "render localtime now cal p = (pl_cached p, p)" and np: "\<not> cl_has_privacy ?c"
      by (auto simp: render_cases Let_def second_def)
    have "\<exists>point. second_of point = second \<and> pl_cached p = plain_render localtime p point cal 0"
      if "second \<noteq> - 1 \<or> \<not> cl_has_timestamp ?c"
    proof (cases "cl_has_timestamp ?c")
      case True
      with \<open>?cached\<close> np that ok show ?thesis by (auto simp: prepared_ok_def Let_def)
    next
      case False
      with ok np plain_render_no_timestamp [OF cok False] show ?thesis
        by (intro exI [of _ "adjusted_time p now"]) (auto simp: prepared_ok_def Let_def second_def)
    qed
    with r np ok show ?thesis by (auto simp: same_log_def random_after_def profile_of_def)
  next
    case miss: False
    show ?thesis
    proof (cases "privacy_hit second cal p")
      case True
      with miss have r: "render localtime now cal p
          = (pl_privacy_cache p ! ?i, p\<lparr>pl_random_state := random_after p\<rparr>)"
        by (auto simp: render_cases Let_def second_def)
      have "prepared_ok localtime (p\<lparr>pl_random_state := random_after p\<rparr>)"
        using ok by simp
      moreover have "\<exists>point. second_of point = second \<and> pl_privacy_cache p ! ?i = plain_render localtime p point cal ?i"
        if s: "second \<noteq> - 1 \<or> \<not> cl_has_timestamp ?c"
      proof -
        from True s have v: "pl_privacy_cache_valid p ! ?i"
          "\<not> (cl_has_timestamp ?c \<and> pl_privacy_cache_seconds p ! ?i = - 1)"
          by (auto simp: privacy_hit_def)
        from ok v profile_of_less [of p] obtain point where
          point: "cl_has_timestamp ?c \<longrightarrow> second_of point = pl_privacy_cache_seconds p ! ?i"
          "pl_privacy_cache p ! ?i = plain_render localtime p point (pl_privacy_cache_calendar_time p ! ?i) ?i"
          unfolding prepared_ok_def Let_def by blast
        show ?thesis
        proof (cases "cl_has_timestamp ?c")
          case ts: True
          with True point show ?thesis by (intro exI [of _ point]) (auto simp: privacy_hit_def)
        next
          case False
          from point(2) plain_render_no_timestamp [OF cok False]
          have "pl_privacy_cache p ! ?i = plain_render localtime p (adjusted_time p now) cal ?i" by metis
          then show ?thesis by (auto simp: second_def)
        qed
      qed
      ultimately show ?thesis using r by (simp add: same_log_def)
    next
      case False
      define q where "q = render_miss localtime (adjusted_time p now) cal p"
      define out where "out = assemble localtime q (pl_timestamp_cache q) (adjusted_time p now) cal ?i"
      have r: "render localtime now cal p = (out, store_output ?i out second cal q)"
        using miss False by (auto simp: render_cases Let_def second_def q_def out_def)
      have q: "prepared_ok localtime q" "same_log p q" "pl_random_state q = random_after p"
        using render_miss_ok [OF ok] by (simp_all add: q_def)
      have a: "\<exists>point. second_of point = second \<and> out = plain_render localtime p point cal ?i
          \<and> (cl_has_timestamp ?c \<longrightarrow> cl_has_privacy ?c \<longrightarrow>
               timestamps_for localtime (cl_segments ?c) (pl_timestamp_cache q) point cal)"
        if "second \<noteq> - 1 \<or> \<not> cl_has_timestamp ?c"
        using assemble_ok [OF ok that [unfolded second_def] q_def] unfolding out_def second_def .
      have "prepared_ok localtime (store_output ?i out second cal q)"
        using a q(2) miss profile_of_less [of p] same_log_plain [OF q(2)]
        by (intro store_output_ok [OF q(1)]) (auto simp: same_log_def profile_of_def)
      with r a q show ?thesis by (auto simp: same_log_def store_output_def)
    qed
  qed
  then show "prepared_ok localtime (snd (render localtime now cal p))"
    "same_log p (snd (render localtime now cal p))"
    "pl_random_state (snd (render localtime now cal p)) = random_after p"
    "second \<noteq> - 1 \<or> \<not> cl_has_timestamp ?c \<Longrightarrow> \<exists>point. second_of point = second \<and>
        fst (render localtime now cal p) = plain_render localtime p point cal ?i" by auto
qed

text \<open>A sequence of renderings, each with its time and calendar flag.\<close>

fun render_all :: "(int \<Rightarrow> tm option) \<Rightarrow> (int \<times> bool) list \<Rightarrow> prepared_log \<Rightarrow> string list" where
  "render_all localtime [] p = []"
| "render_all localtime ((now, cal) # calls) p =
     (let (text, p') = render localtime now cal p in text # render_all localtime calls p')"

text \<open>The profiles that a sequence of renderings uses.\<close>

fun profile_sequence :: "bool \<Rightarrow> u64 \<Rightarrow> nat \<Rightarrow> nat" where
  "profile_sequence False state k = 0"
| "profile_sequence True state 0 = fst (next_profile_index state)"
| "profile_sequence True state (Suc k) = profile_sequence True (snd (next_profile_index state)) k"

lemma profile_sequence_less: "profile_sequence b state k < synthetic_profile_count"
  by (induction b state k rule: profile_sequence.induct)
     (simp_all add: next_profile_index_less, simp add: synthetic_profile_count_def)

lemma render_all_ok:
  assumes "prepared_ok localtime p" "k < length calls" "calls ! k = (now, cal)"
    "second_of (adjusted_time p now) \<noteq> - 1"
  shows "\<exists>point. second_of point = second_of (adjusted_time p now) \<and>
    render_all localtime calls p ! k = plain_render localtime p point cal
      (profile_sequence (cl_has_privacy (pl_compiled p)) (pl_random_state p) k)"
  using assms
proof (induction calls arbitrary: p k)
  case (Cons call calls)
  obtain now' cal' where call: "call = (now', cal')" by (cases call)
  define p' where "p' = snd (render localtime now' cal' p)"
  note r = render_ok [OF Cons.prems(1) refl, of now' cal', folded p'_def]
  show ?case
  proof (cases k)
    case 0
    with Cons.prems call render_ok(4) [OF Cons.prems(1) refl, of now cal] show ?thesis
      by (cases "cl_has_privacy (pl_compiled p)") (auto simp: profile_of_def split: prod.split)
  next
    case (Suc j)
    have same: "adjusted_time p' now = adjusted_time p now" "pl_compiled p' = pl_compiled p"
      "plain_render localtime p' = plain_render localtime p"
      using r(2) same_log_plain [OF r(2)] by (simp_all add: same_log_def adjusted_time_def)
    have "profile_sequence (cl_has_privacy (pl_compiled p')) (pl_random_state p') j
        = profile_sequence (cl_has_privacy (pl_compiled p)) (pl_random_state p) (Suc j)"
      using r(3) same(2) by (cases "cl_has_privacy (pl_compiled p)") (simp_all add: random_after_def)
    moreover have "render_all localtime (call # calls) p ! k = render_all localtime calls p' ! j"
      using Suc call by (simp add: p'_def split: prod.split)
    ultimately show ?thesis using Cons.IH [OF r(1), of j] Cons.prems Suc same by simp
  qed
qed simp

subsection \<open>The random state is never stuck\<close>

lemma xor_zero_eq: "xor x y = 0 \<Longrightarrow> x = (y :: u64)"
proof (rule bit_eqI)
  fix n
  assume "xor x y = 0"
  then have "\<not> bit (xor x y) n" by simp
  then show "bit x n \<longleftrightarrow> bit y n" by (simp add: bit_xor_iff)
qed

lemma xor_drop_bit_eq_0:
  assumes "xor x (drop_bit n x) = 0" "0 < n"
  shows "(x :: u64) = 0"
proof -
  have "x = drop_bit n x" using xor_zero_eq [OF assms(1)] .
  then have "unat x = unat (drop_bit n x)" by simp
  also have "\<dots> = unat x div 2 ^ n" by (subst unat_drop_bit_eq) (simp only: drop_bit_eq_div)
  finally have eq: "unat x = unat x div 2 ^ n" .
  have "unat x div 2 ^ n < unat x" if "unat x \<noteq> 0"
    using that one_less_power [of "2 :: nat" n] assms(2) by (intro div_less_dividend) simp_all
  with eq show "x = 0" by (cases "unat x = 0") (simp_all add: unat_eq_zero)
qed

lemma xor_push_bit_eq_0: "xor x (push_bit n x) = 0 \<Longrightarrow> 0 < n \<Longrightarrow> (x :: u64) = 0"
proof -
  assume x: "xor x (push_bit n x) = 0" and n: "0 < n"
  from xor_zero_eq [OF x] have eq: "x = push_bit n x" .
  have "\<not> bit x k" for k
  proof (induction k rule: less_induct)
    case (less k)
    show ?case
    proof
      assume b: "bit x k"
      then have "bit (push_bit n x) k" using eq by simp
      then have "n \<le> k" "bit x (k - n)" by (auto simp: bit_push_bit_iff)
      with less [of "k - n"] n show False by simp
    qed
  qed
  then show "x = 0" by (auto intro: bit_eqI)
qed

lemma next_profile_index_nonzero:
  assumes "state \<noteq> 0"
  shows "snd (next_profile_index state) \<noteq> 0"
proof -
  define s1 where "s1 = xor state (drop_bit 12 state)"
  define s2 where "s2 = xor s1 (push_bit 25 s1)"
  have "s1 \<noteq> 0" using xor_drop_bit_eq_0 [of state 12] assms by (auto simp: s1_def)
  then have "s2 \<noteq> 0" using xor_push_bit_eq_0 [of s1 25] by (auto simp: s2_def)
  then have "xor s2 (drop_bit 27 s2) \<noteq> 0" using xor_drop_bit_eq_0 [of s2 27] by auto
  then show ?thesis by (simp add: next_profile_index_def Let_def s1_def s2_def)
qed

lemma initialize_random_state_nonzero: "snd (initialize_random_state sequence) \<noteq> 0"
  by (simp add: initialize_random_state_def Let_def)

subsection \<open>Analysis\<close>

lemma privacy_token_value_bounds: "kind \<noteq> None_Kind \<Longrightarrow> 0 < privacy_token_value kind \<and> privacy_token_value kind \<le> 16"
  by (cases kind) simp_all

lemma privacy_token_value_inject: "privacy_token_value k = privacy_token_value k' \<longleftrightarrow> k = k'"
  by (cases k; cases k') simp_all

lemma privacy_token_bit_exp:
  "kind \<noteq> None_Kind \<Longrightarrow> privacy_token_bit kind = 2 ^ (privacy_token_value kind - Suc 0)"
  using privacy_token_value_bounds [of kind] by (simp add: privacy_token_bit_def Let_def)

lemma privacy_token_bit_iff:
  "and m (privacy_token_bit kind) \<noteq> 0
     \<longleftrightarrow> kind \<noteq> None_Kind \<and> bit (m :: u32) (privacy_token_value kind - Suc 0)"
  by (cases "kind = None_Kind")
     (simp_all add: privacy_token_bit_exp and_exp_eq_0_iff_not_bit, simp add: privacy_token_bit_def)

lemma bit_privacy_token_bit:
  assumes "kind \<noteq> None_Kind"
  shows "bit (privacy_token_bit k) (privacy_token_value kind - Suc 0) \<longleftrightarrow> k = kind"
proof (cases "k = None_Kind")
  case True
  with assms show ?thesis by (simp add: privacy_token_bit_def)
next
  case False
  have "bit (2 ^ (privacy_token_value k - Suc 0) :: u32) (privacy_token_value kind - Suc 0)
      \<longleftrightarrow> privacy_token_value kind - Suc 0 = privacy_token_value k - Suc 0"
    using privacy_token_value_bounds [OF assms] by (auto simp: bit_exp_iff)
  also have "\<dots> \<longleftrightarrow> k = kind"
    using privacy_token_value_bounds [OF assms] privacy_token_value_bounds [OF False]
      privacy_token_value_inject [of k kind] by auto
  finally show ?thesis using False by (simp add: privacy_token_bit_exp)
qed

definition kind_count :: "segment_kind \<Rightarrow> render_segment list \<Rightarrow> nat" where
  "kind_count kind segments = length (filter (\<lambda>s. rs_kind s = kind) segments)"

text \<open>An analysis of a prefix of the segments, given as what it counts.\<close>

definition analysis_of :: "render_segment list \<Rightarrow> log_template_analysis \<Rightarrow> bool" where
  "analysis_of segments r \<longleftrightarrow>
     la_timestamp_count r = kind_count Timestamp segments \<and>
     la_source_ip_count r = kind_count SourceIp segments \<and>
     la_destination_ip_count r = kind_count DestinationIp segments \<and>
     la_privacy_token_count r = kind_count Privacy segments \<and>
     {kind. and (la_privacy_token_mask r) (privacy_token_bit kind) \<noteq> 0}
       = {rs_privacy s | s. s \<in> set segments \<and> rs_kind s = Privacy \<and> rs_privacy s \<noteq> None_Kind} \<and>
     la_timestamp_styles r
       = rev (remdups (rev (map (\<lambda>s. tt_style (rs_timestamp s)) (filter (\<lambda>s. rs_kind s = Timestamp) segments))))"

lemma analysis_of_snoc:
  assumes "analysis_of segments r"
  shows "analysis_of (segments @ [s]) (analyze_segment r s)"
proof -
  have "{kind. and (la_privacy_token_mask (analyze_segment r s)) (privacy_token_bit kind) \<noteq> 0}
    = {rs_privacy t | t. t \<in> set (segments @ [s]) \<and> rs_kind t = Privacy \<and> rs_privacy t \<noteq> None_Kind}"
  proof -
    have "{kind. and (or m (privacy_token_bit k)) (privacy_token_bit kind) \<noteq> 0}
        = {kind. and m (privacy_token_bit kind) \<noteq> 0} \<union> ({k} - {None_Kind})" for m k
      by (auto simp: privacy_token_bit_iff bit_or_iff bit_privacy_token_bit)
    with assms show ?thesis
      by (auto simp: analysis_of_def analyze_segment_def Let_def)
  qed
  with assms show ?thesis
    by (cases "rs_kind s") (auto simp: analysis_of_def analyze_segment_def Let_def kind_count_def)
qed

lemma analyze_segments: "analysis_of segments (foldl analyze_segment empty_analysis segments)"
proof (induction segments rule: rev_induct)
  case Nil
  show ?case by (simp add: analysis_of_def empty_analysis_def kind_count_def)
next
  case (snoc s segments)
  then show ?case by (simp add: analysis_of_snoc)
qed

subsection \<open>Properties\<close>

text \<open>
  Expanding a test case puts the sanitized values of each token, in order, at the occurrences of
  its marker and changes nothing else; it succeeds exactly when every token name is valid and has as
  many values as occurrences at its turn, and the replacement never runs past the last occurrence.
\<close>

theorem expand_test_case_spec:
  "(expand_test_case item = Inr r) = (expansion (lt_sample item) (lt_test_case item) = Some r)
   \<and> expand_test_case item \<noteq> Inl Out_Of_Range"
  by (simp add: expand_test_case_def expand_values_expansion)

text \<open>
  C11. Rendering with caches gives what printing every segment anew gives: the k-th rendering of a
  freshly bound log is the plain rendering with the k-th profile of its random sequence, at a time
  within the requested second (fractions of a second are those of the rendering that filled the
  cache). The second \<open>- 1\<close>, which the code uses for an empty cache, is excepted.
\<close>

theorem cached_render_plain:
  assumes "k < length calls" "calls ! k = (now, cal)"
    "second_of (now + 1000000000 * offset) \<noteq> - 1"
    and p: "p = fst (bind_log (make_compiled_log segments) source_ip destination_ip offset sequence)"
  shows "\<exists>point. second_of point = second_of (now + 1000000000 * offset) \<and>
    render_all localtime calls p ! k
      = concat (map (segment_text localtime source_ip destination_ip point cal
                      (profile_sequence (has_kind Privacy (make_compiled_log segments))
                        (snd (initialize_random_state sequence)) k)) segments)"
proof -
  have ok: "prepared_ok localtime p"
    unfolding p bind_log_def by (rule prepared_init_ok [OF make_compiled_log_ok])
  have f: "pl_compiled p = make_compiled_log segments" "pl_source_ip p = source_ip"
    "pl_destination_ip p = destination_ip" "pl_offset p = offset"
    "pl_random_state p = snd (initialize_random_state sequence)"
    by (simp_all add: p bind_log_def prepared_init_def initialize_cache_def Let_def split: prod.split)
  have "cl_has_privacy (make_compiled_log segments) \<longleftrightarrow> has_kind Privacy (make_compiled_log segments)"
    using make_compiled_log_ok by (auto simp: compiled_ok_def)
  with render_all_ok [OF ok assms(1,2)] assms(3) show ?thesis
    by (simp add: f adjusted_time_def plain_render_def)
qed

theorem cached_render_plain_witness:
  "\<exists>point. second_of point = 1 \<and>
    render_all (\<lambda>_. None) [(1000000000, True), (1500000000, True)]
      (fst (bind_log (make_compiled_log [literal_segment ''a'',
              \<lparr>rs_text = [], rs_kind = Timestamp, rs_timestamp = default_token, rs_privacy = None_Kind\<rparr>])
            ''s'' ''d'' 0 initial_sequence)) ! 1
      = ''a'' @ timestamp_text (\<lambda>_. None) default_token point True"
proof -
  have s: "second_of (1500000000 + 1000000000 * 0) = 1" by (simp add: second_of_def)
  show ?thesis
    using cached_render_plain [of 1 "[(1000000000, True), (1500000000, True)]" 1500000000 True 0 _
        "[literal_segment ''a'', \<lparr>rs_text = [], rs_kind = Timestamp, rs_timestamp = default_token,
          rs_privacy = None_Kind\<rparr>]" "''s''" "''d''" initial_sequence "\<lambda>_. None", OF _ _ _ refl]
    by (simp add: s literal_segment_def segment_text_def non_timestamp_text_def second_of_def)
qed

text \<open>
  The random state that picks profiles is never 0, where it would pick profile 0 for ever: not
  after seeding, whatever the sequence, and not after any number of picks; each pick is the index of
  a profile.
\<close>

theorem random_state_never_zero:
  "((\<lambda>state. snd (next_profile_index state)) ^^ k) (snd (initialize_random_state sequence)) \<noteq> 0
   \<and> profile_sequence b (snd (initialize_random_state sequence)) k < 50"
proof
  show "((\<lambda>state. snd (next_profile_index state)) ^^ k) (snd (initialize_random_state sequence)) \<noteq> 0"
    by (induction k) (simp_all add: initialize_random_state_nonzero next_profile_index_nonzero)
  show "profile_sequence b (snd (initialize_random_state sequence)) k < 50"
    using profile_sequence_less [of b _ k] by (simp add: synthetic_profile_count_def)
qed

text \<open>
  The analysis of a compiled log counts its segments by kind, its mask has the bits of exactly the
  privacy kinds that occur, and its styles are those that occur, each once, in order of first
  occurrence.
\<close>

theorem analysis_counts:
  "la_timestamp_count (analyze_compiled c) = kind_count Timestamp (cl_segments c)
   \<and> la_source_ip_count (analyze_compiled c) = kind_count SourceIp (cl_segments c)
   \<and> la_destination_ip_count (analyze_compiled c) = kind_count DestinationIp (cl_segments c)
   \<and> la_privacy_token_count (analyze_compiled c) = kind_count Privacy (cl_segments c)
   \<and> {kind. and (la_privacy_token_mask (analyze_compiled c)) (privacy_token_bit kind) \<noteq> 0}
       = {rs_privacy s | s. s \<in> set (cl_segments c) \<and> rs_kind s = Privacy \<and> rs_privacy s \<noteq> None_Kind}
   \<and> la_timestamp_styles (analyze_compiled c)
       = rev (remdups (rev (map (\<lambda>s. tt_style (rs_timestamp s))
                                (filter (\<lambda>s. rs_kind s = Timestamp) (cl_segments c)))))"
  using analyze_segments [of "cl_segments c"] unfolding analysis_of_def analyze_compiled_def .

end
