(* ===== verification/Prep_Cache.thy ===== *)
theory Prep_Cache
  imports Rendering "HOL-Library.AList"
begin

text \<open>
  The cache of compiled templates (\<open>src/src/application/log_preparation_cache.cpp\<close>). The hash map is
  an association list without repeated keys; which entry \<open>entries_.begin()\<close> denotes is up to the
  standard library and is the parameter \<open>first\<close>. Every operation returns its value or exception
  and the cache it leaves. The store with eviction is an interface of its own: the client lemmas are
  proved from its laws.
\<close>

subsection \<open>Keys\<close>

definition append_key_component :: "string \<Rightarrow> string \<Rightarrow> string" where
  "append_key_component key component =
     key @ to_dec (length component) @ '':'' @ component @ ''|''"

definition append_key_entry :: "string \<Rightarrow> string \<times> string list \<Rightarrow> string" where
  "append_key_entry key = (\<lambda>(token, values). foldl append_key_component (append_key_component key token) values)"

definition cache_key :: "log_template \<Rightarrow> string" where
  "cache_key item = foldl append_key_entry (append_key_component [] (lt_sample item)) (lt_test_case item)"

subsection \<open>The store\<close>

record cache_entry =
  ce_compiled :: compiled_log
  ce_analysis :: log_template_analysis

type_synonym entries = "(string \<times> cache_entry) list"

definition maximum_entries :: nat where
  "maximum_entries = 512"

record preparation_cache =
  pc_entries :: entries
  pc_compilation_count :: u64

definition empty_cache :: preparation_cache where
  "empty_cache = \<lparr>pc_entries = [], pc_compilation_count = 0\<rparr>"

definition find_entry :: "string \<Rightarrow> preparation_cache \<Rightarrow> cache_entry option" where
  "find_entry key cache = map_of (pc_entries cache) key"

text \<open>\<open>insert_or_assign\<close>, and the same after making room.\<close>

definition assign_entry :: "string \<Rightarrow> cache_entry \<Rightarrow> preparation_cache \<Rightarrow> preparation_cache" where
  "assign_entry key e cache = cache\<lparr>pc_entries := AList.update key e (pc_entries cache)\<rparr>"

definition insert_alias ::
    "(entries \<Rightarrow> string) \<Rightarrow> string \<Rightarrow> cache_entry \<Rightarrow> preparation_cache \<Rightarrow> preparation_cache" where
  "insert_alias first key e cache =
     assign_entry key e
       (if maximum_entries \<le> length (pc_entries cache) \<and> find_entry key cache = None
        then cache\<lparr>pc_entries := AList.delete (first (pc_entries cache)) (pc_entries cache)\<rparr>
        else cache)"

text \<open>The locked section that publishes a compiled entry: the entry to use and the cache.\<close>

definition publish ::
    "(entries \<Rightarrow> string) \<Rightarrow> string \<Rightarrow> string \<Rightarrow> cache_entry \<Rightarrow> preparation_cache
       \<Rightarrow> cache_entry \<times> preparation_cache" where
  "publish first original_key tokenized_key e cache =
     (case find_entry tokenized_key cache of
        Some found \<Rightarrow> (found, assign_entry original_key found cache)
      | None \<Rightarrow>
          let c1 = insert_alias first tokenized_key e cache;
              c2 = (if original_key \<noteq> tokenized_key then insert_alias first original_key e c1 else c1)
          in (e, c2\<lparr>pc_compilation_count := pc_compilation_count c2 + 1\<rparr>))"

definition get_or_compile ::
    "(entries \<Rightarrow> string) \<Rightarrow> log_template \<Rightarrow> preparation_cache
       \<Rightarrow> (expand_error + cache_entry) \<times> preparation_cache" where
  "get_or_compile first item cache =
     (case find_entry (cache_key item) cache of
        Some e \<Rightarrow> (Inr e, cache)
      | None \<Rightarrow>
          let tokenized = tokenize_item item in
          (case find_entry (cache_key tokenized) cache of
             Some e \<Rightarrow> (Inr e, insert_alias first (cache_key item) e cache)
           | None \<Rightarrow>
               (case compile_log tokenized of
                  Inl err \<Rightarrow> (Inl err, cache)
                | Inr compiled \<Rightarrow>
                    let (e, cache') = publish first (cache_key item) (cache_key tokenized)
                          \<lparr>ce_compiled = compiled, ce_analysis = analyze_compiled compiled\<rparr> cache
                    in (Inr e, cache'))))"

definition tokenize_and_cache ::
    "(entries \<Rightarrow> string) \<Rightarrow> log_template \<Rightarrow> preparation_cache
       \<Rightarrow> (expand_error + tokenized_log_template) \<times> preparation_cache" where
  "tokenize_and_cache first item cache =
     (let tokenized = tokenize_item item in
      case get_or_compile first tokenized cache of
        (Inl err, cache') \<Rightarrow> (Inl err, cache')
      | (Inr e, cache') \<Rightarrow>
          (Inr \<lparr>tl_item = tokenized, tl_analysis = ce_analysis e\<rparr>,
           if cache_key item \<noteq> cache_key tokenized then insert_alias first (cache_key item) e cache'
           else cache'))"

fun precompile ::
    "(entries \<Rightarrow> string) \<Rightarrow> log_template list \<Rightarrow> preparation_cache
       \<Rightarrow> (expand_error + unit) \<times> preparation_cache" where
  "precompile first [] cache = (Inr (), cache)"
| "precompile first (item # items) cache =
     (case get_or_compile first item cache of
        (Inl err, cache') \<Rightarrow> (Inl err, cache')
      | (Inr e, cache') \<Rightarrow> precompile first items cache')"

text \<open>The loop of \<open>prepare\<close>; binding takes values of the seed sequence.\<close>

fun prepare_cached_items ::
    "(entries \<Rightarrow> string) \<Rightarrow> generator_config \<Rightarrow> int \<Rightarrow> log_template list
       \<Rightarrow> preparation_cache \<times> u64 \<Rightarrow> (expand_error + prepared_log list) \<times> preparation_cache \<times> u64" where
  "prepare_cached_items first config offset [] s = (Inr [], s)"
| "prepare_cached_items first config offset (item # items) (cache, sequence) =
     (case get_or_compile first item cache of
        (Inl err, cache') \<Rightarrow> (Inl err, cache', sequence)
      | (Inr e, cache') \<Rightarrow>
          let (p, sequence') =
                bind_log (ce_compiled e) (gc_source_ip config) (gc_destination_ip config) offset sequence
          in case prepare_cached_items first config offset items (cache', sequence') of
               (Inl err, s) \<Rightarrow> (Inl err, s)
             | (Inr ps, s) \<Rightarrow> (Inr (p # ps), s))"

definition prepare_cached ::
    "(entries \<Rightarrow> string) \<Rightarrow> generator_config \<Rightarrow> preparation_cache \<times> u64
       \<Rightarrow> (expand_error + prepared_log list) \<times> preparation_cache \<times> u64" where
  "prepare_cached first config s =
     (let generation = gc_timestamp_generation config;
          offset = (if tg_mode generation = Offset then time_offset_value (tg_offset generation) else 0)
      in prepare_cached_items first config offset (gc_templates config) s)"

definition cache_size :: "preparation_cache \<Rightarrow> nat" where
  "cache_size cache = length (pc_entries cache)"

subsection \<open>The store as an interface\<close>

text \<open>
  A bounded store that may forget entries: what is found was stored, what was just stored is found,
  and the size stays within the capacity.
\<close>

locale forgetful_store =
  fixes lookup :: "'k \<Rightarrow> 's \<Rightarrow> 'v option"
    and store :: "'k \<Rightarrow> 'v \<Rightarrow> 's \<Rightarrow> 's"
    and size_of :: "'s \<Rightarrow> nat"
    and capacity :: nat
    and inv :: "'s \<Rightarrow> bool"
  assumes lookup_stored: "inv s \<Longrightarrow> lookup k (store k v s) = Some v"
    and lookup_other: "inv s \<Longrightarrow> lookup k' (store k v s) = Some w \<Longrightarrow> k' \<noteq> k \<Longrightarrow> lookup k' s = Some w"
    and store_inv: "inv s \<Longrightarrow> inv (store k v s)"
    and store_size: "inv s \<Longrightarrow> size_of s \<le> capacity \<Longrightarrow> size_of (store k v s) \<le> capacity"
begin

definition holds :: "('k \<Rightarrow> 'v \<Rightarrow> bool) \<Rightarrow> 's \<Rightarrow> bool" where
  "holds P s \<longleftrightarrow> inv s \<and> size_of s \<le> capacity \<and> (\<forall>k v. lookup k s = Some v \<longrightarrow> P k v)"

lemma holdsD: "holds P s \<Longrightarrow> lookup k s = Some v \<Longrightarrow> P k v"
  by (simp add: holds_def)

lemma holds_store:
  assumes "holds P s" "P k v"
  shows "holds P (store k v s)"
proof -
  have "P k' w" if "lookup k' (store k v s) = Some w" for k' w
    using that assms lookup_stored [of s k v] lookup_other [of s k' k v w]
    by (cases "k' = k") (auto simp: holds_def)
  then show ?thesis using assms store_inv store_size by (simp add: holds_def)
qed

lemma holds_mono: "holds P s \<Longrightarrow> (\<And>k v. P k v \<Longrightarrow> Q k v) \<Longrightarrow> holds Q s"
  by (simp add: holds_def)

end

text \<open>What the standard library promises of \<open>begin()\<close> on a map that is not empty.\<close>

definition first_ok :: "(entries \<Rightarrow> string) \<Rightarrow> bool" where
  "first_ok first \<longleftrightarrow> (\<forall>es. es \<noteq> [] \<longrightarrow> first es \<in> fst ` set es)"

definition distinct_entries :: "preparation_cache \<Rightarrow> bool" where
  "distinct_entries cache \<longleftrightarrow> distinct (map fst (pc_entries cache))"

lemma length_update: "length (AList.update k v es) = length es + (if k \<in> fst ` set es then 0 else 1)"
  by (induction es) auto

lemma length_delete:
  "distinct (map fst es) \<Longrightarrow> k \<in> fst ` set es \<Longrightarrow> Suc (length (AList.delete k es)) = length es"
proof (induction es)
  case (Cons e es)
  show ?case
  proof (cases "fst e = k")
    case True
    with Cons.prems have "k \<notin> fst ` set es" by auto
    then have "AList.delete k es = es" by (force simp: AList.delete_eq filter_id_conv)
    with True show ?thesis by (cases e) simp
  next
    case False
    with Cons show ?thesis by (cases e) auto
  qed
qed simp

lemma find_entry_assign [simp]:
  "find_entry k (assign_entry k' e cache) = (if k = k' then Some e else find_entry k cache)"
  by (simp add: find_entry_def assign_entry_def update_conv')

lemma find_entry_delete:
  "find_entry k (cache\<lparr>pc_entries := AList.delete k' (pc_entries cache)\<rparr>)
     = (if k = k' then None else find_entry k cache)"
  by (simp add: find_entry_def delete_conv')

lemma find_entry_None: "find_entry k cache = None \<longleftrightarrow> k \<notin> fst ` set (pc_entries cache)"
  by (simp add: find_entry_def map_of_eq_None_iff)

lemma cache_size_assign:
  "cache_size (assign_entry k e cache) = cache_size cache + (if find_entry k cache = None then 1 else 0)"
  by (simp add: cache_size_def assign_entry_def length_update find_entry_None)

interpretation store: forgetful_store find_entry "insert_alias first" cache_size maximum_entries
  "\<lambda>cache. first_ok first \<and> distinct_entries cache" for first
proof
  fix s k v k' w
  assume inv: "first_ok first \<and> distinct_entries s"
  show "find_entry k (insert_alias first k v s) = Some v" by (simp add: insert_alias_def)
  show "find_entry k' (insert_alias first k v s) = Some w \<Longrightarrow> k' \<noteq> k \<Longrightarrow> find_entry k' s = Some w"
    by (auto simp: insert_alias_def find_entry_delete split: if_splits)
  show "first_ok first \<and> distinct_entries (insert_alias first k v s)"
    using inv by (simp add: distinct_entries_def insert_alias_def assign_entry_def distinct_update distinct_delete)
  assume size: "cache_size s \<le> maximum_entries"
  show "cache_size (insert_alias first k v s) \<le> maximum_entries"
  proof (cases "maximum_entries \<le> length (pc_entries s) \<and> find_entry k s = None")
    case True
    let ?d = "s\<lparr>pc_entries := AList.delete (first (pc_entries s)) (pc_entries s)\<rparr>"
    have "pc_entries s \<noteq> []" using True by (auto simp: maximum_entries_def)
    with inv have "Suc (cache_size ?d) = cache_size s"
      by (auto simp: cache_size_def first_ok_def distinct_entries_def length_delete)
    with True size show ?thesis by (simp add: insert_alias_def cache_size_assign)
  next
    case False
    then show ?thesis
      using size cache_size_assign [of k v s] by (auto simp: insert_alias_def cache_size_def split: if_splits)
  qed
qed


subsection \<open>What the operations keep\<close>

text \<open>
  A law on entries that compiling a template establishes and that an entry keeps when it is stored
  under the key its template had before tokenizing; \<open>good\<close> says which templates are requested.
\<close>

definition entry_law :: "(log_template \<Rightarrow> bool) \<Rightarrow> (string \<Rightarrow> cache_entry \<Rightarrow> bool) \<Rightarrow> bool" where
  "entry_law good P \<longleftrightarrow>
     (\<forall>item. good item \<longrightarrow> good (tokenize_item item)) \<and>
     (\<forall>item c. good item \<longrightarrow> compile_log item = Inr c \<longrightarrow>
        P (cache_key item) \<lparr>ce_compiled = c, ce_analysis = analyze_compiled c\<rparr>) \<and>
     (\<forall>item e. good item \<longrightarrow> P (cache_key (tokenize_item item)) e \<longrightarrow> P (cache_key item) e)"

text \<open>The state after any operations on requested templates.\<close>

inductive cache_reachable :: "(entries \<Rightarrow> string) \<Rightarrow> (log_template \<Rightarrow> bool) \<Rightarrow> preparation_cache \<Rightarrow> bool"
  for first good
where
  reach_empty: "cache_reachable first good empty_cache"
| reach_tokenize:
    "cache_reachable first good c \<Longrightarrow> good item
       \<Longrightarrow> cache_reachable first good (snd (tokenize_and_cache first item c))"
| reach_precompile:
    "cache_reachable first good c \<Longrightarrow> \<forall>item \<in> set items. good item
       \<Longrightarrow> cache_reachable first good (snd (precompile first items c))"
| reach_prepare:
    "cache_reachable first good c \<Longrightarrow> \<forall>item \<in> set (gc_templates config). good item
       \<Longrightarrow> cache_reachable first good (fst (snd (prepare_cached first config (c, sequence))))"

lemma publish_new:
  assumes "find_entry tokenized_key cache = None" "publish first original_key tokenized_key e cache = (r, cache')"
    "store.holds first P cache" "P original_key e" "P tokenized_key e"
  shows "r = e \<and> store.holds first P cache'"
proof -
  have "store.holds first P (c\<lparr>pc_compilation_count := n\<rparr>) \<longleftrightarrow> store.holds first P c" for c n
    unfolding store.holds_def by (simp add: distinct_entries_def cache_size_def find_entry_def)
  then show ?thesis
    using assms by (auto simp: publish_def Let_def intro!: store.holds_store)
qed

lemma get_or_compile_holds:
  assumes "entry_law good P" "good item" "store.holds first P c" "get_or_compile first item c = (r, c')"
  shows "store.holds first P c' \<and> (\<forall>e. r = Inr e \<longrightarrow> P (cache_key item) e)
    \<and> (\<forall>err. r = Inl err \<longrightarrow> compile_log (tokenize_item item) = Inl err)"
proof (cases "find_entry (cache_key item) c")
  case (Some e)
  with assms store.holdsD [OF assms(3) Some] show ?thesis by (auto simp: get_or_compile_def)
next
  case None
  let ?t = "tokenize_item item"
  have law: "good ?t" "P (cache_key ?t) e \<Longrightarrow> P (cache_key item) e" for e
    using assms(1,2) unfolding entry_law_def by blast+
  show ?thesis
  proof (cases "find_entry (cache_key ?t) c")
    case (Some e)
    with store.holdsD [OF assms(3) Some] law(2) [of e] assms None show ?thesis
      by (auto simp: get_or_compile_def Let_def intro!: store.holds_store)
  next
    case miss: None
    show ?thesis
    proof (cases "compile_log ?t")
      case (Inl err)
      with None miss assms show ?thesis by (auto simp: get_or_compile_def Let_def)
    next
      case (Inr compiled)
      let ?e = "\<lparr>ce_compiled = compiled, ce_analysis = analyze_compiled compiled\<rparr>"
      have P: "P (cache_key ?t) ?e" using assms(1) law(1) Inr unfolding entry_law_def by blast
      obtain e c2 where pub: "publish first (cache_key item) (cache_key ?t) ?e c = (e, c2)" by fastforce
      from publish_new [OF miss pub assms(3) law(2) [OF P] P] have "e = ?e" "store.holds first P c2" by simp_all
      with None miss Inr pub assms(4) law(2) [OF P] show ?thesis
        by (auto simp: get_or_compile_def Let_def)
    qed
  qed
qed

lemma tokenize_and_cache_holds:
  assumes "entry_law good P" "good item" "store.holds first P c"
  shows "store.holds first P (snd (tokenize_and_cache first item c))"
proof -
  let ?t = "tokenize_item item"
  have law: "good ?t" "P (cache_key ?t) e \<Longrightarrow> P (cache_key item) e" for e
    using assms(1,2) unfolding entry_law_def by blast+
  obtain r c' where g: "get_or_compile first ?t c = (r, c')" by fastforce
  from get_or_compile_holds [OF assms(1) law(1) assms(3) g] law(2) g show ?thesis
    by (cases r) (auto simp: tokenize_and_cache_def Let_def intro!: store.holds_store)
qed

lemma precompile_holds:
  assumes "entry_law good P"
  shows "\<forall>item \<in> set items. good item \<Longrightarrow> store.holds first P c
    \<Longrightarrow> store.holds first P (snd (precompile first items c))"
proof (induction items arbitrary: c)
  case (Cons item items)
  obtain r c' where g: "get_or_compile first item c = (r, c')" by fastforce
  with get_or_compile_holds [OF assms _ Cons.prems(2) g] Cons show ?case by (cases r) auto
qed simp

lemma prepare_cached_items_holds:
  assumes "entry_law good P"
  shows "\<forall>item \<in> set items. good item \<Longrightarrow> store.holds first P c
    \<Longrightarrow> store.holds first P (fst (snd (prepare_cached_items first config offset items (c, sequence))))"
proof (induction items arbitrary: c sequence)
  case (Cons item items)
  obtain r c' where g: "get_or_compile first item c = (r, c')" by fastforce
  have ok: "store.holds first P c'" using get_or_compile_holds [OF assms _ Cons.prems(2) g] Cons.prems by simp
  show ?case
  proof (cases r)
    case (Inr e)
    obtain p sequence' where b: "bind_log (ce_compiled e) (gc_source_ip config) (gc_destination_ip config) offset
        sequence = (p, sequence')" by fastforce
    from Cons.IH [OF _ ok, of sequence'] Cons.prems(1) g Inr b show ?thesis
      by (auto split: prod.splits sum.splits)
  qed (use g ok in simp)
qed simp

lemma cache_reachable_holds:
  assumes "cache_reachable first good c" "entry_law good P" "first_ok first"
  shows "store.holds first P c"
  using assms
proof induction
  case reach_empty
  then show ?case
    unfolding store.holds_def
    by (simp add: empty_cache_def find_entry_def distinct_entries_def cache_size_def)
next
  case (reach_tokenize c item)
  then show ?case by (intro tokenize_and_cache_holds)
next
  case (reach_precompile c items)
  then show ?case by (intro precompile_holds)
next
  case (reach_prepare c config sequence)
  then show ?case unfolding prepare_cached_def Let_def by (intro prepare_cached_items_holds)
qed

subsection \<open>Keys determine the templates that compile\<close>

lemma key_component_inject:
  assumes "append_key_component [] a @ x = append_key_component [] b @ y"
  shows "a = b \<and> x = y"
proof -
  have tw: "takeWhile is_digit (to_dec n @ '':'' @ r) = to_dec n" for n r
  proof -
    have "\<forall>c \<in> set (to_dec n). is_digit c" using to_dec_digits [of n] by (simp add: list_all_iff)
    moreover have "\<not> is_digit (CHR '':'')" by (simp add: is_digit_def)
    ultimately show ?thesis by (simp add: takeWhile_append2)
  qed
  have "to_dec (length a) = to_dec (length b)"
    using tw [of "length a" "a @ ''|'' @ x"] tw [of "length b" "b @ ''|'' @ y"] assms
    by (simp add: append_key_component_def)
  then have "length a = length b" by simp
  with assms show ?thesis by (simp add: append_key_component_def)
qed

text \<open>The strings of a test case in the order the key lists them.\<close>

definition key_texts :: "test_case \<Rightarrow> string list" where
  "key_texts tc = concat (map (\<lambda>(token, values). token # values) tc)"

lemma foldl_append_key_component:
  "foldl append_key_component key cs = key @ concat (map (append_key_component []) cs)"
  by (induction cs arbitrary: key) (simp_all add: append_key_component_def)

lemma cache_key_eq:
  "cache_key item = concat (map (append_key_component []) (lt_sample item # key_texts (lt_test_case item)))"
proof -
  have "foldl append_key_entry key tc = key @ concat (map (append_key_component []) (key_texts tc))" for key tc
    by (induction tc arbitrary: key)
       (auto simp: key_texts_def append_key_entry_def foldl_append_key_component append_key_component_def)
  then show ?thesis by (simp add: cache_key_def)
qed

lemma concat_key_components_inject:
  "concat (map (append_key_component []) as) = concat (map (append_key_component []) bs) \<Longrightarrow> as = bs"
proof (induction as arbitrary: bs)
  case Nil
  then show ?case by (cases bs) (simp_all add: append_key_component_def)
next
  case (Cons a as)
  then obtain b bs' where bs: "bs = b # bs'" by (cases bs) (simp_all add: append_key_component_def)
  with Cons.prems key_component_inject [of a "concat (map (append_key_component []) as)" b
      "concat (map (append_key_component []) bs')"]
  have "a = b" "concat (map (append_key_component []) as) = concat (map (append_key_component []) bs')"
    by simp_all
  with Cons.IH bs show ?case by blast
qed

lemma cache_key_texts:
  "cache_key x = cache_key y \<longleftrightarrow>
     lt_sample x = lt_sample y \<and> key_texts (lt_test_case x) = key_texts (lt_test_case y)"
  unfolding cache_key_eq using concat_key_components_inject [of "lt_sample x # key_texts (lt_test_case x)"
      "lt_sample y # key_texts (lt_test_case y)"] by auto

lemma expand_values_determines:
  assumes "key_texts as = key_texts bs"
    "expand_values i s (map (\<lambda>(token, vs). (token, map f vs)) as) = Inr r"
    "expand_values j s (map (\<lambda>(token, vs). (token, map f vs)) bs) = Inr r'"
  shows "as = bs"
  using assms
proof (induction as arbitrary: bs s)
  case Nil
  then show ?case by (cases bs) (auto simp: key_texts_def)
next
  case (Cons a as)
  obtain t vs where a: "a = (t, vs)" by (cases a)
  from Cons.prems(1) a obtain b bs' where bs: "bs = b # bs'" by (cases bs) (auto simp: key_texts_def)
  obtain t' vs' where b: "b = (t', vs')" by (cases b)
  have t: "t' = t" and texts: "vs @ key_texts as = vs' @ key_texts bs'"
    using Cons.prems(1) by (simp_all add: a b bs key_texts_def)
  have "length vs = length vs'"
    using Cons.prems(2,3) by (auto simp: a b bs t expand_values_Cons Let_def simp del: expand_values.simps(2) split: if_splits)
  with texts have "vs = vs'" "key_texts as = key_texts bs'" by auto
  with Cons.IH [of bs'] Cons.prems(2,3) show ?case
    by (auto simp: a b bs t expand_values_Cons Let_def simp del: expand_values.simps(2) split: if_splits)
qed

lemma compile_log_determined:
  assumes "cache_key x = cache_key y" "compile_log x = Inr c" "compile_log y = Inr c'"
  shows "lt_sample x = lt_sample y \<and> lt_test_case x = lt_test_case y"
  using assms expand_values_determines [of "lt_test_case x" "lt_test_case y" "lt_id x" "tokenize (lt_sample x)" tokenize]
  by (auto simp: cache_key_texts compile_log_def expand_test_case_def tokenize_item_def result_simps)

text \<open>Templates with the same sample and test case: their names play no part in compiling.\<close>

definition same_text :: "log_template \<Rightarrow> log_template \<Rightarrow> bool" where
  "same_text x y \<longleftrightarrow> lt_sample x = lt_sample y \<and> lt_test_case x = lt_test_case y"

lemma same_text_tokenize: "same_text x y \<Longrightarrow> same_text ((tokenize_item ^^ n) x) ((tokenize_item ^^ n) y)"
  by (induction n) (simp_all add: same_text_def tokenize_item_def)

lemma same_text_compile: "same_text x y \<Longrightarrow> compile_log x = Inr c \<longleftrightarrow> compile_log y = Inr c"
  by (simp add: same_text_def compile_log_def expand_test_case_def tokenize_item_def result_simps
      expand_values_expansion)

lemma compile_tokenized:
  assumes "tokenize_item (tokenize_item item) = tokenize_item item"
  shows "compile_log ((tokenize_item ^^ n) item) = compile_log item"
proof (cases n)
  case (Suc m)
  have "(tokenize_item ^^ Suc m) item = tokenize_item item" by (induction m) (simp_all add: assms)
  then show ?thesis using assms by (simp add: Suc compile_log_def)
qed simp

definition requestable :: "(log_template \<Rightarrow> bool) \<Rightarrow> bool" where
  "requestable good \<longleftrightarrow> (\<forall>item. good item \<longrightarrow> good (tokenize_item item) \<and> (\<exists>c. compile_log item = Inr c))"

definition compiled_from :: "(log_template \<Rightarrow> bool) \<Rightarrow> string \<Rightarrow> cache_entry \<Rightarrow> bool" where
  "compiled_from good key e \<longleftrightarrow>
     (\<exists>item n. good item \<and> key = cache_key item \<and>
        compile_log ((tokenize_item ^^ n) item) = Inr (ce_compiled e)) \<and>
     ce_analysis e = analyze_compiled (ce_compiled e)"

lemma compiled_from_key:
  assumes "requestable good" "good item" "compiled_from good (cache_key item) e"
  obtains n where "compile_log ((tokenize_item ^^ n) item) = Inr (ce_compiled e)"
proof -
  from assms(3) obtain y n where y: "good y" "cache_key item = cache_key y"
    "compile_log ((tokenize_item ^^ n) y) = Inr (ce_compiled e)" by (auto simp: compiled_from_def)
  from assms(1,2) y(1) obtain c c' where "compile_log item = Inr c" "compile_log y = Inr c'"
    unfolding requestable_def by blast
  from compile_log_determined [OF y(2) this] have "same_text item y" by (simp add: same_text_def)
  from same_text_compile [OF same_text_tokenize [OF this]] y(3) show ?thesis by (intro that) blast
qed

lemma compiled_from_law:
  assumes "requestable good"
  shows "entry_law good (compiled_from good)"
  unfolding entry_law_def
proof (intro conjI allI impI)
  fix item e
  assume good: "good item" and c: "compiled_from good (cache_key (tokenize_item item)) e"
  have "good (tokenize_item item)" using assms good by (simp add: requestable_def)
  from compiled_from_key [OF assms this c] obtain n where
    "compile_log ((tokenize_item ^^ n) (tokenize_item item)) = Inr (ce_compiled e)" .
  then have "compile_log ((tokenize_item ^^ Suc n) item) = Inr (ce_compiled e)"
    by (simp only: funpow_Suc_right comp_apply)
  then show "compiled_from good (cache_key item) e"
    using good c unfolding compiled_from_def by blast
next
  fix item c
  assume "good item" "compile_log item = Inr c"
  then show "compiled_from good (cache_key item) \<lparr>ce_compiled = c, ce_analysis = analyze_compiled c\<rparr>"
    unfolding compiled_from_def by (auto intro!: exI [of _ item] exI [of _ 0])
qed (use assms in \<open>simp add: requestable_def\<close>)

subsection \<open>Properties\<close>





text \<open>
  Two templates that compile and have the same key have the same sample and the same test case:
  the key, which does not say where the values of one token end, never confuses them.
\<close>

theorem cache_key_injective:
  assumes "compile_log x = Inr c" "compile_log y = Inr c'" "cache_key x = cache_key y"
  shows "lt_sample x = lt_sample y \<and> lt_test_case x = lt_test_case y \<and> c = c'"
  using compile_log_determined [OF assms(3,1,2)] same_text_compile [of x y c] assms
  by (auto simp: same_text_def)

theorem cache_key_injective_witness:
  "lt_sample (empty_template\<lparr>lt_id := ''1''\<rparr>) = lt_sample (empty_template\<lparr>lt_id := ''2''\<rparr>)
   \<and> make_compiled_log (compile_segments (tokenize [])) = make_compiled_log (compile_segments (tokenize []))"
proof -
  have c: "compile_log (empty_template\<lparr>lt_id := i\<rparr>) = Inr (make_compiled_log (compile_segments (tokenize [])))" for i
    by (simp add: compile_log_def expand_test_case_def tokenize_item_def empty_template_def)
  from cache_key_injective [OF c [of "''1''"] c [of "''2''"]] show ?thesis
    by (simp add: cache_key_def empty_template_def)
qed

text \<open>
  Without compiling the keys do collide, and then the cache hides an error: once a template without
  values is cached, one whose value has no marker gets its entry instead of the exception.
\<close>

definition collision_ok :: log_template where
  "collision_ok = empty_template\<lparr>lt_test_case := [(''A'', []), (''B'', [])]\<rparr>"

definition collision_bad :: log_template where
  "collision_bad = empty_template\<lparr>lt_test_case := [(''A'', [''B''])]\<rparr>"

lemma cache_key_collision: "cache_key collision_ok = cache_key collision_bad"
  by (simp add: cache_key_texts collision_ok_def collision_bad_def empty_template_def key_texts_def)

lemma tokenize_Nil: "tokenize [] = []"
  by code_simp

lemma cache_hides_error:
  "(\<exists>e. fst (get_or_compile first collision_bad
          (snd (get_or_compile first collision_ok empty_cache))) = Inr e)
   \<and> (\<exists>err. compile_log collision_bad = Inl err)"
proof
  have "count_occurrences [] (token_marker t) = 0" for t
    by (simp add: count_occurrences_def count_from.simps find_from_def token_marker_def)
  then obtain err where bad: "compile_log collision_bad = Inl err"
    by (simp add: compile_log_def expand_test_case_def tokenize_item_def collision_bad_def empty_template_def
        tokenize_Nil require_that_def valid_token_name_def char_between_def)
  have t: "tokenize_item collision_ok = collision_ok"
    by (simp add: tokenize_item_def collision_ok_def empty_template_def tokenize_Nil)
  have count: "count_occurrences [] (token_marker t) = 0" for t
    by (simp add: count_occurrences_def count_from.simps find_from_def token_marker_def)
  obtain c where c: "compile_log collision_ok = Inr c"
    by (simp add: compile_log_def expand_test_case_def tokenize_item_def collision_ok_def empty_template_def
        tokenize_Nil require_that_def valid_token_name_def char_between_def count)
  show "\<exists>err. compile_log collision_bad = Inl err" using bad by blast
  show "\<exists>e. fst (get_or_compile first collision_bad
          (snd (get_or_compile first collision_ok empty_cache))) = Inr e"
    using c t cache_key_collision
    by (simp add: get_or_compile_def find_entry_def empty_cache_def publish_def insert_alias_def
        assign_entry_def maximum_entries_def)
qed

end
