(* ===== verification/Log_Catalog.thy ===== *)
theory Log_Catalog
  imports Domain
begin

text \<open>
  The interface \<open>ILogCatalog\<close> (\<open>src/src/application/ports/log_catalog.hpp\<close>) as its clients rely on
  it: loading after a successful save returns what was saved, and a failed save changes nothing that
  loading shows. \<open>storable\<close> are the templates the catalog can represent.
\<close>

locale log_catalog =
  fixes load :: "'s \<Rightarrow> 'e + log_template list"
    and save :: "log_template list \<Rightarrow> 's \<Rightarrow> ('e + unit) \<times> 's"
    and inv :: "'s \<Rightarrow> bool"
    and storable :: "log_template \<Rightarrow> bool"
  assumes save_inv: "inv s \<Longrightarrow> save items s = (r, s') \<Longrightarrow> inv s'"
    and load_saved: "inv s \<Longrightarrow> \<forall>item \<in> set items. storable item \<Longrightarrow> save items s = (Inr (), s')
      \<Longrightarrow> load s' = Inr items"
    and load_unsaved: "inv s \<Longrightarrow> save items s = (Inl e, s') \<Longrightarrow> load s' = load s"
begin

lemma load_after:
  assumes "inv s" "\<forall>item \<in> set items. storable item" "save items s = (r, s')"
  shows "load s' = (case r of Inr _ \<Rightarrow> Inr items | Inl _ \<Rightarrow> load s)"
  using assms load_saved load_unsaved by (cases r) auto

text \<open>After any sequence of saves, loading shows the last one that succeeded.\<close>

lemma load_after_saves:
  "inv s \<Longrightarrow> \<forall>items \<in> set batches. \<forall>item \<in> set items. storable item \<Longrightarrow>
     load (fold (\<lambda>items s. snd (save items s)) batches s) = load s \<or>
     (\<exists>items \<in> set batches. load (fold (\<lambda>items s. snd (save items s)) batches s) = Inr items)"
proof (induction batches arbitrary: s)
  case (Cons items batches)
  obtain r s' where s': "save items s = (r, s')" by fastforce
  have "load s' = load s \<or> load s' = Inr items"
    using load_after [OF Cons.prems(1) _ s'] Cons.prems(2) by (cases r) auto
  moreover from Cons.IH [OF save_inv [OF Cons.prems(1) s']] Cons.prems(2)
  have "load (fold (\<lambda>items s. snd (save items s)) batches s') = load s' \<or>
    (\<exists>items \<in> set batches. load (fold (\<lambda>items s. snd (save items s)) batches s') = Inr items)" by simp
  ultimately show ?case using s' by auto
qed simp

end

end
