(* ===== verification/Json_Catalog.thy ===== *)
theory Json_Catalog
  imports Log_Catalog
begin

text \<open>
  The catalog of samples in a JSON file (\<open>src/src/infrastructure/json_log_catalog.cpp\<close>, POSIX
  branch). The JSON library is not part of the program: values are a datatype, an object being a
  list in ascending order of its keys as \<open>nlohmann::json\<close> keeps it, and parsing, printing and the
  conversion to \<open>int\<close> are parameters. The file system is a map from paths to contents, with the
  outcomes of its operations as parameters. The file catalog provides the interface of
  \<open>Log_Catalog\<close>.
\<close>

subsection \<open>JSON values\<close>

datatype json =
    JNull
  | JBool bool
  | JInt int
  | JFloat string
  | JString string
  | JArray "json list"
  | JObject "(string \<times> json) list"

text \<open>\<open>insert_or_assign\<close> of \<open>std::map\<close> with strings as keys.\<close>

fun map_insert :: "string \<Rightarrow> 'a \<Rightarrow> (string \<times> 'a) list \<Rightarrow> (string \<times> 'a) list" where
  "map_insert k v [] = [(k, v)]"
| "map_insert k v ((k', v') # r) =
     (if k < k' then (k, v) # (k', v') # r
      else if k = k' then (k, v) # r
      else (k', v') # map_insert k v r)"

fun json_member :: "string \<Rightarrow> json \<Rightarrow> json option" where
  "json_member key (JObject members) = map_of members key"
| "json_member key _ = None"

fun is_object :: "json \<Rightarrow> bool" where
  "is_object (JObject members) = True"
| "is_object _ = False"

text \<open>What the program uses of the library.\<close>

record json_library =
  jl_parse :: "string \<Rightarrow> string + json"
  jl_dump :: "json \<Rightarrow> string + string"
  jl_to_int :: "json \<Rightarrow> string + int"

subsection \<open>Reading\<close>

datatype catalog_error =
    Cannot_Open
  | Parse_Failed string
  | Type_Error string
  | Bad_Root
  | Entry_Not_Object
  | Missing_String string
  | Test_Case_Not_Object
  | Test_Case_Not_Arrays
  | Test_Case_Not_Strings
  | Bad_Id
  | Empty_Text
  | Repeated_Id string
  | Directory_Failed
  | Temporary_Not_Opened
  | Dump_Failed string
  | Temporary_Write_Failed
  | Replacement_Failed int

definition required_text :: "json \<Rightarrow> string \<Rightarrow> catalog_error + string" where
  "required_text j key =
     (case json_member key j of Some (JString s) \<Rightarrow> Inr s | _ \<Rightarrow> Inl (Missing_String key))"

fun read_strings :: "json list \<Rightarrow> catalog_error + string list" where
  "read_strings [] = Inr []"
| "read_strings (item # items) =
     (case item of
        JString s \<Rightarrow> bind_result (read_strings items) (\<lambda>strings. Inr (s # strings))
      | _ \<Rightarrow> Inl Test_Case_Not_Strings)"

fun read_members :: "(string \<times> json) list \<Rightarrow> test_case \<Rightarrow> catalog_error + test_case" where
  "read_members [] result = Inr result"
| "read_members ((token, v) # members) result =
     (case v of
        JArray items \<Rightarrow>
          if token = [] then Inl Test_Case_Not_Arrays
          else bind_result (read_strings items) (\<lambda>strings.
               read_members members (map_insert token strings result))
      | _ \<Rightarrow> Inl Test_Case_Not_Arrays)"

definition read_test_case :: "json \<Rightarrow> catalog_error + test_case" where
  "read_test_case j =
     (case json_member ''test_case'' j of
        None \<Rightarrow> Inr []
      | Some (JObject members) \<Rightarrow> read_members members []
      | Some _ \<Rightarrow> Inl Test_Case_Not_Object)"

text \<open>\<open>value.value("source", std::string{})\<close>: the conversion of another type throws.\<close>

definition optional_text :: "json \<Rightarrow> string \<Rightarrow> catalog_error + string" where
  "optional_text j key =
     (case json_member key j of
        None \<Rightarrow> Inr []
      | Some (JString s) \<Rightarrow> Inr s
      | Some _ \<Rightarrow> Inl (Type_Error key))"

fun check_item :: "string list \<Rightarrow> log_template \<Rightarrow> catalog_error + unit" where
  "check_item identifiers item =
     (if \<not> valid_sample_id (lt_id item) then Inl Bad_Id
      else if lt_name item = [] \<or> lt_sample item = [] then Inl Empty_Text
      else if lt_id item \<in> set identifiers then Inl (Repeated_Id (lt_id item))
      else Inr ())"

definition read_item :: "json \<Rightarrow> catalog_error + log_template" where
  "read_item j =
     bind_result (require_that (is_object j) Entry_Not_Object) (\<lambda>_.
     bind_result (required_text j ''id'') (\<lambda>i.
     bind_result (required_text j ''name'') (\<lambda>name.
     bind_result (required_text j ''sample'') (\<lambda>sample.
     bind_result (optional_text j ''source'') (\<lambda>source.
     bind_result (read_test_case j) (\<lambda>test_case.
     Inr \<lparr>lt_id = i, lt_name = name, lt_sample = sample, lt_source = source,
          lt_test_case = test_case\<rparr>))))))"

text \<open>The loop over the entries; \<open>identifiers\<close> are the ids read so far.\<close>

fun read_entries :: "string list \<Rightarrow> json list \<Rightarrow> catalog_error + log_template list" where
  "read_entries identifiers [] = Inr []"
| "read_entries identifiers (entry # rest) =
     bind_result (read_item entry) (\<lambda>item.
     bind_result (check_item identifiers item) (\<lambda>_.
     bind_result (read_entries (lt_id item # identifiers) rest) (\<lambda>items.
     Inr (item # items))))"

definition read_root :: "json_library \<Rightarrow> json \<Rightarrow> catalog_error + log_template list" where
  "read_root lib root =
     bind_result (require_that (is_object root) Bad_Root) (\<lambda>_.
     bind_result (case json_member ''schema_version'' root of
                    None \<Rightarrow> Inr 0
                  | Some v \<Rightarrow> (case jl_to_int lib v of Inl e \<Rightarrow> Inl (Type_Error e) | Inr n \<Rightarrow> Inr n)) (\<lambda>version.
     bind_result (require_that (version = 1) Bad_Root) (\<lambda>_.
     case json_member ''logs'' root of
       Some (JArray logs) \<Rightarrow> read_entries [] logs
     | _ \<Rightarrow> Inl Bad_Root)))"

definition catalog_load ::
    "json_library \<Rightarrow> (string \<Rightarrow> string option) \<Rightarrow> string \<Rightarrow> catalog_error + log_template list" where
  "catalog_load lib files file =
     (case files file of
        None \<Rightarrow> Inl Cannot_Open
      | Some text \<Rightarrow>
          (case jl_parse lib text of Inl e \<Rightarrow> Inl (Parse_Failed e) | Inr root \<Rightarrow> read_root lib root))"

subsection \<open>Writing\<close>

definition write_test_case :: "test_case \<Rightarrow> json" where
  "write_test_case tc =
     JObject (foldl (\<lambda>members (token, values). map_insert token (JArray (map JString values)) members) [] tc)"

definition write_item :: "log_template \<Rightarrow> json" where
  "write_item item =
     (let m1 = [(''id'', JString (lt_id item)), (''name'', JString (lt_name item)),
                (''sample'', JString (lt_sample item))];
          m2 = (if lt_source item \<noteq> [] then map_insert ''source'' (JString (lt_source item)) m1 else m1);
          m3 = (if lt_test_case item \<noteq> []
                then map_insert ''test_case'' (write_test_case (lt_test_case item)) m2 else m2)
      in JObject m3)"

fun write_entries :: "string list \<Rightarrow> log_template list \<Rightarrow> catalog_error + json list" where
  "write_entries identifiers [] = Inr []"
| "write_entries identifiers (item # items) =
     bind_result (check_item identifiers item) (\<lambda>_.
     bind_result (write_entries (lt_id item # identifiers) items) (\<lambda>logs.
     Inr (write_item item # logs)))"

text \<open>
  Outcomes of the file system: whether the directories could be made and the temporary file opened,
  after how many bytes a write failed, and the error number of renaming (0 is success).
\<close>

record catalog_env =
  ct_make_directories :: bool
  ct_open :: "string \<Rightarrow> bool"
  ct_write_fails :: "string \<Rightarrow> nat option"
  ct_rename :: "string \<Rightarrow> string \<Rightarrow> int"
  ct_remove :: "string \<Rightarrow> bool"
  ct_process_id :: nat

record catalog_world =
  cw_files :: "string \<Rightarrow> string option"
  cw_sequence :: u64

definition temporary_path_for :: "catalog_env \<Rightarrow> string \<Rightarrow> catalog_world \<Rightarrow> string \<times> catalog_world" where
  "temporary_path_for env file w =
     (file @ ''.tmp.'' @ to_dec (ct_process_id env) @ ''.'' @ to_dec (unat (cw_sequence w)),
      w\<lparr>cw_sequence := cw_sequence w + 1\<rparr>)"

definition set_file :: "string \<Rightarrow> string option \<Rightarrow> catalog_world \<Rightarrow> catalog_world" where
  "set_file path content w = w\<lparr>cw_files := (cw_files w)(path := content)\<rparr>"

definition replace_file :: "catalog_env \<Rightarrow> string \<Rightarrow> string \<Rightarrow> catalog_world \<Rightarrow> int \<times> catalog_world" where
  "replace_file env source destination w =
     (let error = ct_rename env source destination
      in (error, if error = 0
                 then set_file source None (set_file destination (cw_files w source) w) else w))"

definition catalog_save ::
    "json_library \<Rightarrow> catalog_env \<Rightarrow> string \<Rightarrow> log_template list \<Rightarrow> catalog_world
       \<Rightarrow> (catalog_error + unit) \<times> catalog_world" where
  "catalog_save lib env file items w =
     (case write_entries [] items of
        Inl e \<Rightarrow> (Inl e, w)
      | Inr logs \<Rightarrow>
          let root = JObject [(''logs'', JArray logs), (''schema_version'', JInt 1)] in
          if \<not> ct_make_directories env then (Inl Directory_Failed, w)
          else
            let (temporary, w1) = temporary_path_for env file w in
            if \<not> ct_open env temporary then (Inl Temporary_Not_Opened, w1)
            else
              (case jl_dump lib root of
                 Inl e \<Rightarrow> (Inl (Dump_Failed e), set_file temporary (Some []) w1)
               | Inr text \<Rightarrow>
                   (case ct_write_fails env temporary of
                      Some n \<Rightarrow>
                        (Inl Temporary_Write_Failed, set_file temporary (Some (take n (text @ [LF]))) w1)
                    | None \<Rightarrow>
                        let (error, w2) = replace_file env temporary file
                                            (set_file temporary (Some (text @ [LF])) w1)
                        in if error \<noteq> 0
                           then (Inl (Replacement_Failed error),
                                 if ct_remove env temporary then set_file temporary None w2 else w2)
                           else (Inr (), w2))))"

subsection \<open>Reading back what was written\<close>

lemma map_insert_last:
  "sorted_wrt (<) (map fst m @ [k]) \<Longrightarrow> map_insert k v m = m @ [(k, v)]"
proof (induction m)
  case (Cons e m)
  obtain k' v' where e: "e = (k', v')" by (cases e)
  from Cons.prems have "k' < k" by (simp add: e)
  then have "\<not> k < k'" "k \<noteq> k'" by auto
  with Cons show ?case by (simp add: e)
qed simp

lemma map_insert_keys: "fst ` set (map_insert k v m) = insert k (fst ` set m)"
  by (induction k v m rule: map_insert.induct) (simp_all add: insert_commute)

lemma map_insert_sorted:
  "sorted_wrt (<) (map fst m) \<Longrightarrow> sorted_wrt (<) (map fst (map_insert k v m))"
proof (induction m)
  case (Cons e m)
  obtain k' v' where e: "e = (k', v')" by (cases e)
  have keys: "set (map fst (map_insert k v m)) = insert k (set (map fst m))"
    using map_insert_keys [of k v m] by simp
  show ?case
  proof (cases "k < k'")
    case True
    with Cons.prems show ?thesis by (auto simp: e)
  next
    case False
    show ?thesis
    proof (cases "k = k'")
      case True
      with Cons.prems show ?thesis by (auto simp: e)
    next
      case neq: False
      with False have "k' < k" by simp
      with Cons keys False neq show ?thesis by (auto simp: e simp del: set_map)
    qed
  qed
qed simp

definition token_names_ok :: "test_case \<Rightarrow> bool" where
  "token_names_ok tc \<longleftrightarrow> test_case_ok tc \<and> [] \<notin> fst ` set tc"

lemma foldl_map_insert:
  assumes "sorted_wrt (<) (map fst m @ map fst tc)"
  shows "foldl (\<lambda>members (k, v). map_insert k (f v) members) m tc = m @ map (\<lambda>(k, v). (k, f v)) tc"
  using assms
proof (induction tc arbitrary: m)
  case (Cons e tc)
  obtain k v where e: "e = (k, v)" by (cases e)
  from Cons.prems have "sorted_wrt (<) (map fst m @ [k])" by (simp add: e sorted_wrt_append)
  then have "map_insert k (f v) m = m @ [(k, f v)]" by (rule map_insert_last)
  with Cons.IH [of "m @ [(k, f v)]"] Cons.prems show ?case by (simp add: e)
qed simp

lemma write_test_case_eq:
  "test_case_ok tc \<Longrightarrow> write_test_case tc = JObject (map (\<lambda>(token, vs). (token, JArray (map JString vs))) tc)"
  using foldl_map_insert [of "[]" tc "\<lambda>vs. JArray (map JString vs)"]
  by (simp add: write_test_case_def test_case_ok_def)

lemma read_strings_map: "read_strings (map JString vs) = Inr vs"
  by (induction vs) simp_all

lemma read_members_map:
  assumes "sorted_wrt (<) (map fst m @ map fst tc)" "[] \<notin> fst ` set tc"
  shows "read_members (map (\<lambda>(token, vs). (token, JArray (map JString vs))) tc) m = Inr (m @ tc)"
  using assms
proof (induction tc arbitrary: m)
  case (Cons e tc)
  obtain k v where e: "e = (k, v)" by (cases e)
  from Cons.prems have "sorted_wrt (<) (map fst m @ [k])" by (simp add: e sorted_wrt_append)
  then have "map_insert k v m = m @ [(k, v)]" by (rule map_insert_last)
  moreover have "k \<noteq> []" using Cons.prems(2) by (auto simp: e)
  ultimately show ?case using Cons.IH [of "m @ [(k, v)]"] Cons.prems by (simp add: e read_strings_map)
qed simp

lemma key_order:
  "''source'' < ''test_case''" "''sample'' < ''source''" "''name'' < ''sample''" "''id'' < ''name''"
  "''sample'' < ''test_case''" "''name'' < ''source''" "''id'' < ''source''" "''name'' < ''test_case''"
  "''id'' < ''test_case''" "''logs'' < ''schema_version''" "''id'' < ''sample''"
  by (code_simp)+

lemma map_insert_greater: "k' < k \<Longrightarrow> map_insert k v ((k', v') # r) = (k', v') # map_insert k v r"
  by (auto dest: less_not_sym)

lemma write_item_eq:
  "write_item item = JObject
     ([(''id'', JString (lt_id item)), (''name'', JString (lt_name item)), (''sample'', JString (lt_sample item))]
      @ (if lt_source item \<noteq> [] then [(''source'', JString (lt_source item))] else [])
      @ (if lt_test_case item \<noteq> [] then [(''test_case'', write_test_case (lt_test_case item))] else []))"
  by (simp add: write_item_def Let_def map_insert_greater key_order del: map_insert.simps(2))

lemma read_write_item:
  assumes "token_names_ok (lt_test_case item)"
  shows "read_item (write_item item) = Inr item"
proof -
  have "read_members (map (\<lambda>(token, vs). (token, JArray (map JString vs))) (lt_test_case item)) []
      = Inr (lt_test_case item)"
    using assms read_members_map [of "[]" "lt_test_case item"] by (simp add: token_names_ok_def test_case_ok_def)
  with assms have "read_test_case (write_item item) = Inr (lt_test_case item)"
    by (auto simp: read_test_case_def write_item_eq token_names_ok_def write_test_case_eq)
  moreover have "optional_text (write_item item) ''source'' = Inr (lt_source item)"
    by (simp add: optional_text_def write_item_eq)
  moreover have "required_text (write_item item) ''id'' = Inr (lt_id item)"
    "required_text (write_item item) ''name'' = Inr (lt_name item)"
    "required_text (write_item item) ''sample'' = Inr (lt_sample item)"
    by (simp_all add: required_text_def write_item_eq)
  moreover have "is_object (write_item item)" by (simp add: write_item_eq)
  ultimately show ?thesis by (simp add: read_item_def)
qed

lemma read_write_entries:
  "write_entries ids items = Inr logs \<Longrightarrow> \<forall>item \<in> set items. token_names_ok (lt_test_case item)
     \<Longrightarrow> read_entries ids logs = Inr items"
  by (induction items arbitrary: ids logs) (auto simp: result_simps read_write_item simp del: check_item.simps)

text \<open>Values as the library holds them: keys in ascending order; no floating-point numbers.\<close>

fun json_ok :: "json \<Rightarrow> bool" where
  "json_ok (JFloat x) = False"
| "json_ok (JArray js) = (\<forall>j \<in> set js. json_ok j)"
| "json_ok (JObject ms) = (sorted_wrt (<) (map fst ms) \<and> (\<forall>m \<in> set ms. json_ok (snd m)))"
| "json_ok _ = True"

text \<open>What the library documents: parsing inverts printing, and an integer converts to itself.\<close>

definition library_ok :: "json_library \<Rightarrow> bool" where
  "library_ok lib \<longleftrightarrow>
     (\<forall>j text. json_ok j \<longrightarrow> jl_dump lib j = Inr text \<longrightarrow> jl_parse lib (text @ [LF]) = Inr j) \<and>
     (\<forall>n. jl_to_int lib (JInt n) = Inr n)"

lemma write_item_ok: "test_case_ok (lt_test_case item) \<Longrightarrow> json_ok (write_item item)"
proof -
  assume tc: "test_case_ok (lt_test_case item)"
  have "json_ok (write_test_case (lt_test_case item))"
    using tc by (auto simp: write_test_case_eq test_case_ok_def sorted_wrt_map case_prod_beta comp_def)
  then show ?thesis by (auto simp: write_item_eq key_order)
qed

lemma write_entries_ok:
  "write_entries ids items = Inr logs \<Longrightarrow> \<forall>item \<in> set items. test_case_ok (lt_test_case item)
     \<Longrightarrow> \<forall>j \<in> set logs. json_ok j"
  by (induction items arbitrary: ids logs) (auto simp: result_simps write_item_ok simp del: check_item.simps)

subsection \<open>Saving\<close>

lemma temporary_path_neq: "fst (temporary_path_for env file w) \<noteq> file"
  by (simp add: temporary_path_for_def)

text \<open>How a save can end: in an error before the file system is touched, in one that leaves at most
  the temporary file, or with the new file in place.\<close>

lemma catalog_save_cases:
  assumes save: "catalog_save lib env file items w = (r, w')"
  defines "temporary \<equiv> fst (temporary_path_for env file w)"
  obtains (failed) e content where "r = Inl e"
      "cw_files w' = cw_files w \<or> cw_files w' = (cw_files w)(temporary := content)"
  | (saved) logs contents where "r = Inr ()" "write_entries [] items = Inr logs"
      "jl_dump lib (JObject [(''logs'', JArray logs), (''schema_version'', JInt 1)]) = Inr contents"
      "cw_files w' = (cw_files w)(file := Some (contents @ [LF]), temporary := None)"
proof -
  have neq: "temporary \<noteq> file" using temporary_path_neq by (simp add: temporary_def)
  show thesis
  proof (cases "write_entries [] items")
    case (Inl e)
    with save show ?thesis by (intro failed) (auto simp: catalog_save_def)
  next
    case logs: (Inr logs)
    let ?root = "JObject [(''logs'', JArray logs), (''schema_version'', JInt 1)]"
    obtain w1 where w1: "temporary_path_for env file w = (temporary, w1)" "cw_files w1 = cw_files w"
      by (simp add: temporary_path_for_def temporary_def)
    show ?thesis
    proof (cases "ct_make_directories env \<and> ct_open env temporary")
      case False
      with save logs w1 show ?thesis by (intro failed [of "if ct_make_directories env then Temporary_Not_Opened else Directory_Failed" None];
              cases "ct_make_directories env") (auto simp: catalog_save_def)
    next
      case True
      show ?thesis
      proof (cases "jl_dump lib ?root")
        case (Inl e)
        with True save logs w1 show ?thesis
          by (intro failed [of "Dump_Failed e" "Some []"]) (auto simp: catalog_save_def set_file_def)
      next
        case contents: (Inr contents)
        show ?thesis
        proof (cases "ct_write_fails env temporary")
          case (Some n)
          with True save logs w1 contents show ?thesis
            by (intro failed [of Temporary_Write_Failed "Some (take n (contents @ [LF]))"])
               (auto simp: catalog_save_def set_file_def)
        next
          case None
          show ?thesis
          proof (cases "ct_rename env temporary file = 0")
            case ok: True
            with True save logs w1 contents None neq show ?thesis
              by (intro saved) (auto simp: catalog_save_def set_file_def replace_file_def fun_eq_iff)
          next
            case False
            with True save logs w1 contents None show ?thesis
              by (intro failed [of "Replacement_Failed (ct_rename env temporary file)"
                      "if ct_remove env temporary then None else Some (contents @ [LF])"])
                 (auto simp: catalog_save_def set_file_def replace_file_def)
          qed
        qed
      qed
    qed
  qed
qed

lemma read_root_written:
  assumes "library_ok lib" "read_entries [] logs = Inr items"
  shows "read_root lib (JObject [(''logs'', JArray logs), (''schema_version'', JInt 1)]) = Inr items"
  using assms by (simp add: read_root_def library_ok_def)

lemma catalog_load_saved:
  assumes "library_ok lib" "\<forall>item \<in> set items. token_names_ok (lt_test_case item)"
    "catalog_save lib env file items w = (Inr (), w')"
  shows "catalog_load lib (cw_files w') file = Inr items"
  using assms(3)
proof (cases rule: catalog_save_cases)
  case (saved logs contents)
  have "\<forall>j \<in> set logs. json_ok j"
    using write_entries_ok [OF saved(2)] assms(2) by (auto simp: token_names_ok_def)
  then have "json_ok (JObject [(''logs'', JArray logs), (''schema_version'', JInt 1)])"
    by (simp add: key_order)
  with assms(1) saved(3) have "jl_parse lib (contents @ [LF]) = Inr (JObject [(''logs'', JArray logs), (''schema_version'', JInt 1)])"
    unfolding library_ok_def by blast
  moreover have "cw_files w' file = Some (contents @ [LF])"
    using saved(4) temporary_path_neq [of env "file" w] by simp
  ultimately show ?thesis
    using read_root_written [OF assms(1) read_write_entries [OF saved(2) assms(2)]]
    by (simp add: catalog_load_def)
qed simp

interpretation json: log_catalog
  "\<lambda>w. catalog_load lib (cw_files w) file" "\<lambda>items w. catalog_save lib env file items w"
  "\<lambda>w. library_ok lib" "\<lambda>item. token_names_ok (lt_test_case item)"
  for lib env "file"
proof
  fix w items r w' e
  show "library_ok lib \<Longrightarrow> catalog_save lib env file items w = (r, w') \<Longrightarrow> library_ok lib" .
  show "library_ok lib \<Longrightarrow> \<forall>item \<in> set items. token_names_ok (lt_test_case item) \<Longrightarrow>
      catalog_save lib env file items w = (Inr (), w') \<Longrightarrow> catalog_load lib (cw_files w') file = Inr items"
    by (rule catalog_load_saved)
  assume "catalog_save lib env file items w = (Inl e, w')"
  then show "catalog_load lib (cw_files w') file = catalog_load lib (cw_files w) file"
    using temporary_path_neq [of env "file" w] by (cases rule: catalog_save_cases) (auto simp: catalog_load_def)
qed

lemma read_members_ok:
  "read_members members tc = Inr r \<Longrightarrow> token_names_ok tc \<Longrightarrow> token_names_ok r"
proof (induction members arbitrary: tc)
  case (Cons m members)
  obtain token v where m: "m = (token, v)" by (cases m)
  from Cons.prems(1) obtain items strings where v: "v = JArray items" "token \<noteq> []"
    "read_strings items = Inr strings" "read_members members (map_insert token strings tc) = Inr r"
    by (auto simp: m result_simps split: json.splits if_splits)
  have "token_names_ok (map_insert token strings tc)"
    using Cons.prems(2) v(2) map_insert_keys [of token strings tc] map_insert_sorted [of tc token strings]
    by (simp add: token_names_ok_def test_case_ok_def)
  from Cons.IH [OF v(4) this] show ?case .
qed simp

lemma empty_token_names_ok: "token_names_ok []"
  by (simp add: token_names_ok_def test_case_ok_def)

lemma read_item_test_case: "read_item j = Inr item \<Longrightarrow> token_names_ok (lt_test_case item)"
  using read_members_ok [where tc = "[]"] empty_token_names_ok
  by (auto simp: read_item_def result_simps read_test_case_def split: option.splits json.splits)

lemma read_entries_sound:
  "read_entries ids logs = Inr items \<Longrightarrow>
     (\<forall>item \<in> set items. valid_sample_id (lt_id item) \<and> lt_name item \<noteq> [] \<and> lt_sample item \<noteq> []
        \<and> token_names_ok (lt_test_case item)) \<and>
     distinct (map lt_id items) \<and> lt_id ` set items \<inter> set ids = {} \<and> length items = length logs"
proof (induction ids logs arbitrary: items rule: read_entries.induct)
  case (2 ids entry rest)
  from "2.prems" obtain item its where i: "read_item entry = Inr item" "check_item ids item = Inr ()"
    "read_entries (lt_id item # ids) rest = Inr its" "items = item # its"
    by (auto simp: result_simps simp del: check_item.simps)
  from "2.IH" [OF i(1,2,3)] read_item_test_case [OF i(1)] i(2,4) show ?case
    by (auto split: if_splits)
qed simp

subsection \<open>Properties\<close>


definition sample_item :: log_template where
  "sample_item =
     \<lparr>lt_id = ''0001'', lt_name = ''n'', lt_sample = ''x {{A}}'', lt_source = ''s'',
      lt_test_case = [(''A'', [''v''])]\<rparr>"

definition sample_root :: json where
  "sample_root = JObject [(''logs'', JArray [write_item sample_item]), (''schema_version'', JInt 1)]"

text \<open>A library that prints this one value.\<close>

definition sample_library :: json_library where
  "sample_library =
     \<lparr>jl_parse = (\<lambda>s. if s = ''{}'' @ [LF] then Inr sample_root else Inl ''syntax''),
      jl_dump = (\<lambda>j. if j = sample_root then Inr ''{}'' else Inl ''utf8''),
      jl_to_int = (\<lambda>j. case j of JInt n \<Rightarrow> Inr n | _ \<Rightarrow> Inl ''type'')\<rparr>"

definition sample_catalog_env :: catalog_env where
  "sample_catalog_env =
     \<lparr>ct_make_directories = True, ct_open = (\<lambda>_. True), ct_write_fails = (\<lambda>_. None),
      ct_rename = (\<lambda>_ _. 0), ct_remove = (\<lambda>_. True), ct_process_id = 7\<rparr>"

lemma sample_save:
  "fst (catalog_save sample_library sample_catalog_env ''c.json'' [sample_item]
          \<lparr>cw_files = [''c.json'' \<mapsto> ''old''], cw_sequence = 0\<rparr>) = Inr ()"
  by (simp add: catalog_save_def sample_library_def sample_catalog_env_def sample_root_def sample_item_def
      valid_sample_id_def temporary_path_for_def replace_file_def)




text \<open>
  A catalog that loads has a template for every entry, with a numeric id of its own, a name, a
  sample, and token names that are not empty and in order.
\<close>

theorem catalog_load_sound:
  assumes "catalog_load lib files file = Inr items"
  shows "(\<forall>item \<in> set items. valid_sample_id (lt_id item) \<and> lt_name item \<noteq> [] \<and> lt_sample item \<noteq> []
        \<and> token_names_ok (lt_test_case item)) \<and> distinct (map lt_id items)"
proof -
  obtain logs where "read_entries [] logs = Inr items"
    using assms by (auto simp: catalog_load_def read_root_def result_simps split: option.splits sum.splits json.splits)
  from read_entries_sound [OF this] show ?thesis by simp
qed

theorem catalog_load_sound_witness:
  "valid_sample_id (lt_id sample_item) \<and> lt_name sample_item \<noteq> []"
proof -
  have "read_item (write_item sample_item) = Inr sample_item"
    by (rule read_write_item) (simp add: token_names_ok_def test_case_ok_def sample_item_def)
  then have "catalog_load sample_library [''c'' \<mapsto> ''{}'' @ [LF]] ''c'' = Inr [sample_item]"
    by (simp add: catalog_load_def sample_library_def read_root_def sample_root_def)
       (simp add: sample_item_def valid_sample_id_def)
  from catalog_load_sound [OF this] show ?thesis by simp
qed

end
