(* ===== verification/Catalog_Service.thy ===== *)
theory Catalog_Service
  imports Prep_Cache Sample_Ids Json_Catalog
begin

text \<open>
  \<open>LogCatalogService\<close> (\<open>src/src/application/log_catalog_service.cpp\<close>): the catalog behind the
  preparation cache. The catalog is an argument, \<open>load\<close> and \<open>save\<close> over a state of its own; what the
  service promises is proved from the catalog's interface and then stated for the file catalog.
\<close>

datatype 'e service_error =
    Catalog_Failed 'e
  | Id_Failed id_error
  | Expand_Failed expand_error

text \<open>The loop \<open>item = preparation_cache_.tokenize_and_cache(std::move(item)).item\<close>.\<close>

fun tokenize_items ::
    "(entries \<Rightarrow> string) \<Rightarrow> log_template list \<Rightarrow> preparation_cache
       \<Rightarrow> (expand_error + log_template list) \<times> preparation_cache" where
  "tokenize_items first [] cache = (Inr [], cache)"
| "tokenize_items first (item # items) cache =
     (case tokenize_and_cache first item cache of
        (Inl e, cache') \<Rightarrow> (Inl e, cache')
      | (Inr t, cache') \<Rightarrow>
          (case tokenize_items first items cache' of
             (Inl e, cache'') \<Rightarrow> (Inl e, cache'')
           | (Inr ts, cache'') \<Rightarrow> (Inr (tl_item t # ts), cache'')))"

definition service_load ::
    "(entries \<Rightarrow> string) \<Rightarrow> ('s \<Rightarrow> 'e + log_template list) \<Rightarrow> 's \<Rightarrow> preparation_cache
       \<Rightarrow> ('e service_error + log_template list) \<times> preparation_cache" where
  "service_load first load s cache =
     (case load s of
        Inl e \<Rightarrow> (Inl (Catalog_Failed e), cache)
      | Inr items \<Rightarrow>
          (case validate_ids items of
             Inl e \<Rightarrow> (Inl (Id_Failed e), cache)
           | Inr _ \<Rightarrow>
               (case tokenize_items first items cache of
                  (Inl e, cache') \<Rightarrow> (Inl (Expand_Failed e), cache')
                | (Inr tokenized, cache') \<Rightarrow> (Inr tokenized, cache'))))"

definition service_save ::
    "(entries \<Rightarrow> string) \<Rightarrow> (log_template list \<Rightarrow> 's \<Rightarrow> ('e + unit) \<times> 's) \<Rightarrow> log_template list
       \<Rightarrow> 's \<Rightarrow> preparation_cache \<Rightarrow> ('e service_error + unit) \<times> 's \<times> preparation_cache" where
  "service_save first save items s cache =
     (case validate_ids items of
        Inl e \<Rightarrow> (Inl (Id_Failed e), s, cache)
      | Inr _ \<Rightarrow>
          (case tokenize_items first items cache of
             (Inl e, cache') \<Rightarrow> (Inl (Expand_Failed e), s, cache')
           | (Inr sanitized, cache') \<Rightarrow>
               (case save sanitized s of
                  (Inl e, s') \<Rightarrow> (Inl (Catalog_Failed e), s', cache')
                | (Inr _, s') \<Rightarrow> (Inr (), s', cache'))))"

definition service_analyze_item ::
    "(entries \<Rightarrow> string) \<Rightarrow> log_template \<Rightarrow> preparation_cache
       \<Rightarrow> (expand_error + log_template_analysis) \<times> preparation_cache" where
  "service_analyze_item first item cache =
     (let (r, cache') = tokenize_and_cache first item cache
      in (bind_result r (\<lambda>t. Inr (tl_analysis t)), cache'))"

definition service_analyze_sample ::
    "(entries \<Rightarrow> string) \<Rightarrow> string \<Rightarrow> preparation_cache
       \<Rightarrow> (expand_error + log_template_analysis) \<times> preparation_cache" where
  "service_analyze_sample first sample cache =
     service_analyze_item first (empty_template\<lparr>lt_sample := sample\<rparr>) cache"

definition service_sanitize :: "string \<Rightarrow> string" where
  "service_sanitize sample = tokenize sample"

definition service_tokenize ::
    "(entries \<Rightarrow> string) \<Rightarrow> log_template \<Rightarrow> preparation_cache
       \<Rightarrow> (expand_error + tokenized_log_template) \<times> preparation_cache" where
  "service_tokenize first item cache = tokenize_and_cache first item cache"

fun add_terms :: "u32 \<Rightarrow> privacy_token_kind list \<Rightarrow> string \<Rightarrow> string" where
  "add_terms m [] result = result"
| "add_terms m (kind # kinds) result =
     (if and m (privacy_token_bit kind) = 0 then add_terms m kinds result
      else add_terms m kinds ((if result \<noteq> [] then result @ '' '' else result) @ search_terms kind))"

definition privacy_search_terms :: "log_template_analysis \<Rightarrow> string" where
  "privacy_search_terms analysis = add_terms (la_privacy_token_mask analysis) privacy_token_kinds []"

subsection \<open>What the service returns\<close>

lemma tokenize_and_cache_item:
  "tokenize_and_cache first item cache = (Inr t, cache') \<Longrightarrow> tl_item t = tokenize_item item"
  by (auto simp: tokenize_and_cache_def Let_def split: prod.splits sum.splits)

lemma tokenize_items_map:
  "tokenize_items first items cache = (Inr ts, cache') \<Longrightarrow> ts = map tokenize_item items"
  by (induction items arbitrary: cache ts cache')
     (auto dest: tokenize_and_cache_item split: prod.splits sum.splits)

text \<open>Tokenizing leaves ids, names, sources and the token names alone.\<close>

lemma tokenize_item_keeps [simp]:
  "lt_id (tokenize_item item) = lt_id item" "lt_name (tokenize_item item) = lt_name item"
  "lt_source (tokenize_item item) = lt_source item"
  "map fst (lt_test_case (tokenize_item item)) = map fst (lt_test_case item)"
  by (simp_all add: tokenize_item_def case_prod_beta)

lemma token_names_ok_tokenize [simp]:
  "token_names_ok (lt_test_case (tokenize_item item)) \<longleftrightarrow> token_names_ok (lt_test_case item)"
  using tokenize_item_keeps(4) [of item]
  by (simp add: token_names_ok_def test_case_ok_def flip: set_map)

lemma ids_ok_tokenize [simp]: "ids_ok (map tokenize_item items) \<longleftrightarrow> ids_ok items"
  by (simp add: ids_ok_def comp_def)

text \<open>A catalog whose storable templates stay storable when they are tokenized.\<close>

locale tokenized_catalog = log_catalog load save inv storable
  for load :: "'s \<Rightarrow> 'e + log_template list"
    and save :: "log_template list \<Rightarrow> 's \<Rightarrow> ('e + unit) \<times> 's"
    and inv :: "'s \<Rightarrow> bool"
    and storable :: "log_template \<Rightarrow> bool" +
  assumes storable_tokenize: "storable item \<Longrightarrow> storable (tokenize_item item)"
begin

lemma service_load_after_save:
  assumes "inv s" "\<forall>item \<in> set items. storable item"
    and save: "service_save first save items s cache = (Inr (), s', cache')"
    and load: "service_load first load s' cache2 = (r, cache3)"
  shows "case r of
      Inr loaded \<Rightarrow> loaded = map (\<lambda>item. tokenize_item (tokenize_item item)) items
    | Inl e \<Rightarrow> \<exists>err. e = Expand_Failed err"
proof -
  from save obtain c where v: "validate_ids items = Inr ()" and
    t: "tokenize_items first items cache = (Inr (map tokenize_item items), c)" and
    s: "save (map tokenize_item items) s = (Inr (), s')"
    by (auto simp: service_save_def dest: tokenize_items_map split: sum.splits prod.splits)
  have "\<forall>item \<in> set (map tokenize_item items). storable item" using assms(2) storable_tokenize by simp
  from load_saved [OF assms(1) this s] have l: "load s' = Inr (map tokenize_item items)" .
  have "ids_ok (map tokenize_item items)" using v by (simp add: result_simps)
  then have "validate_ids (map tokenize_item items) = Inr ()" by (simp add: result_simps)
  with l load show ?thesis
    by (auto simp: service_load_def comp_def dest: tokenize_items_map split: sum.splits prod.splits)
qed

lemma service_save_error:
  assumes "inv s" "service_save first save items s cache = (Inl e, s', cache')"
  shows "load s' = load s"
  using assms load_unsaved by (auto simp: service_save_def split: sum.splits prod.splits)

end

interpretation json_service: tokenized_catalog
  "\<lambda>w. catalog_load lib (cw_files w) file" "\<lambda>items w. catalog_save lib env file items w"
  "\<lambda>w. library_ok lib" "\<lambda>item. token_names_ok (lt_test_case item)"
  for lib env "file"
  by unfold_locales simp

lemma add_terms_filter:
  "add_terms m kinds result =
     (let terms = map search_terms (filter (\<lambda>kind. and m (privacy_token_bit kind) \<noteq> 0) kinds)
      in result @ concat (case result of
           [] \<Rightarrow> (case terms of [] \<Rightarrow> [] | t # ts \<Rightarrow> t # map (\<lambda>t. CHR '' '' # t) ts)
         | _ \<Rightarrow> map (\<lambda>t. CHR '' '' # t) terms))"
proof (induction kinds arbitrary: result)
  case (Cons kind kinds)
  have "search_terms kind \<noteq> [] \<or> kind = None_Kind" by (cases kind) simp_all
  moreover have "privacy_token_bit None_Kind = 0" by (simp add: privacy_token_bit_def)
  ultimately have "and m (privacy_token_bit kind) = 0 \<or> search_terms kind \<noteq> []" by auto
  then show ?case
    using Cons [of result] Cons [of "search_terms kind"] Cons [of "result @ '' '' @ search_terms kind"]
    by (cases result; cases "search_terms kind") (auto simp: Let_def split: list.splits)
qed (simp split: list.splits)

lemma tokenize_and_cache_plain:
  assumes "lt_test_case item = []"
  obtains t cache' where "tokenize_and_cache first item cache = (Inr t, cache')" "tl_item t = tokenize_item item"
proof -
  have "compile_log (tokenize_item (tokenize_item item)) \<noteq> Inl e" for e
    using assms by (simp add: compile_log_def expand_test_case_def tokenize_item_def)
  then have "\<exists>t cache'. tokenize_and_cache first item cache = (Inr t, cache')"
    by (auto simp: tokenize_and_cache_def get_or_compile_def Let_def split: option.splits sum.splits prod.splits)
  with that tokenize_and_cache_item show thesis by blast
qed

subsection \<open>Properties\<close>

text \<open>
  Saving through the service and loading again gives the tokenized templates, in the same order
  under the same ids: loading can fail neither in the file catalog nor on the ids, only where
  tokenizing twice breaks the expansion of a test case.
\<close>

theorem service_roundtrip:
  assumes "library_ok lib" "\<forall>item \<in> set items. token_names_ok (lt_test_case item)"
    "service_save first (\<lambda>items w. catalog_save lib env file items w) items w cache = (Inr (), w', cache')"
    "service_load first (\<lambda>w. catalog_load lib (cw_files w) file) w' cache2 = (r, cache3)"
  shows "case r of
      Inr loaded \<Rightarrow> loaded = map (\<lambda>item. tokenize_item (tokenize_item item)) items
    | Inl e \<Rightarrow> \<exists>err. e = Expand_Failed err"
  using json_service.service_load_after_save [OF assms] .

lemma tokenize_x: "tokenize ''x'' = ''x''"
  by code_simp

definition plain_item :: log_template where
  "plain_item = empty_template\<lparr>lt_id := ''0001'', lt_name := ''n'', lt_sample := ''x''\<rparr>"

definition plain_library :: json_library where
  "plain_library =
     (let root = JObject [(''logs'', JArray [write_item plain_item]), (''schema_version'', JInt 1)]
      in \<lparr>jl_parse = (\<lambda>s. if s = ''{}'' @ [LF] then Inr root else Inl ''syntax''),
          jl_dump = (\<lambda>j. if j = root then Inr ''{}'' else Inl ''utf8''),
          jl_to_int = (\<lambda>j. case j of JInt n \<Rightarrow> Inr n | _ \<Rightarrow> Inl ''type'')\<rparr>)"

theorem service_roundtrip_witness:
  "case fst (service_load (\<lambda>es. fst (hd es)) (\<lambda>w. catalog_load plain_library (cw_files w) ''c'')
      (fst (snd (service_save (\<lambda>es. fst (hd es))
         (\<lambda>items w. catalog_save plain_library sample_catalog_env ''c'' items w) [plain_item]
         \<lparr>cw_files = Map.empty, cw_sequence = 0\<rparr> empty_cache))) empty_cache) of
     Inr loaded \<Rightarrow> loaded = [plain_item]
   | Inl e \<Rightarrow> \<exists>err. e = Expand_Failed err"
proof -
  let ?first = "\<lambda>es :: entries. fst (hd es)"
  let ?save = "\<lambda>items w. catalog_save plain_library sample_catalog_env ''c'' items w"
  let ?r = "service_save ?first ?save [plain_item] \<lparr>cw_files = Map.empty, cw_sequence = 0\<rparr> empty_cache"
  have t: "tokenize_item plain_item = plain_item"
    by (simp add: tokenize_item_def plain_item_def empty_template_def tokenize_x)
  have plain: "lt_test_case plain_item = []" by (simp add: plain_item_def empty_template_def)
  obtain tl c where c: "tokenize_and_cache ?first plain_item empty_cache = (Inr tl, c)" "tl_item tl = plain_item"
    using tokenize_and_cache_plain [OF plain] t by metis
  have "write_entries [] [plain_item] = Inr [write_item plain_item]"
    by (simp add: plain_item_def valid_sample_id_def empty_template_def)
  then have "fst (?save [plain_item] \<lparr>cw_files = Map.empty, cw_sequence = 0\<rparr>) = Inr ()"
    by (simp add: catalog_save_def plain_library_def sample_catalog_env_def temporary_path_for_def
        replace_file_def Let_def)
  moreover have "validate_ids [plain_item] = Inr ()"
    by (simp add: result_simps ids_ok_def plain_item_def valid_sample_id_def)
  ultimately have "fst ?r = Inr ()"
    using c by (auto simp: service_save_def split: sum.splits prod.splits)
  then have r: "?r = (Inr (), fst (snd ?r), snd (snd ?r))" by (simp only: prod_eq_iff fst_conv snd_conv)
  have lib: "library_ok plain_library" by (simp add: library_ok_def plain_library_def Let_def)
  have ok: "\<forall>item \<in> set [plain_item]. token_names_ok (lt_test_case item)"
    using plain by (simp add: token_names_ok_def test_case_ok_def)
  let ?l = "service_load ?first (\<lambda>w. catalog_load plain_library (cw_files w) ''c'') (fst (snd ?r)) empty_cache"
  have l: "?l = (fst ?l, snd ?l)" by simp
  have "map (\<lambda>item. tokenize_item (tokenize_item item)) [plain_item] = [plain_item]" by (simp add: t)
  from service_roundtrip [OF lib ok r l, unfolded this] show ?thesis .
qed

text \<open>
  The search terms of an analysis are those of exactly the privacy kinds in its mask, in the order
  of the kinds, separated by single spaces.
\<close>

lemma privacy_search_terms_spec:
  "privacy_search_terms analysis =
     (case map search_terms
             (filter (\<lambda>kind. and (la_privacy_token_mask analysis) (privacy_token_bit kind) \<noteq> 0)
                privacy_token_kinds) of
        [] \<Rightarrow> [] | t # ts \<Rightarrow> t @ concat (map (\<lambda>t. CHR '' '' # t) ts))"
  by (simp add: privacy_search_terms_def add_terms_filter Let_def split: list.split)

end
