(* ===== verification/Sample_Import.thy ===== *)
theory Sample_Import
  imports Catalog_Service Paths
begin

text \<open>
  \<open>SampleLogImportService\<close> (\<open>src/src/application/sample_log_import_service.cpp\<close>): samples of a file
  become templates with fresh ids. What the source loads is an argument; the catalog service is the
  one of \<open>Catalog_Service\<close>.
\<close>

datatype 'e import_error =
    Source_Failed 'e
  | No_Samples
  | Next_Id_Failed id_error
  | Tokenize_Failed expand_error

text \<open>The Korean texts of the names.\<close>

definition default_base_name :: string where
  "default_base_name = ''CSV '' @ bytes [0xEC, 0x83, 0x98, 0xED, 0x94, 0x8C] @ '' ''
     @ bytes [0xEB, 0xA1, 0x9C, 0xEA, 0xB7, 0xB8]"

definition import_source_prefix :: string where
  "import_source_prefix = ''CSV '' @ bytes [0xEA, 0xB0, 0x80, 0xEC, 0xA0, 0xB8, 0xEC, 0x98, 0xA4, 0xEA, 0xB8, 0xB0]
     @ '': ''"

fun import_samples ::
    "(entries \<Rightarrow> string) \<Rightarrow> string \<Rightarrow> string \<Rightarrow> nat \<Rightarrow> string list \<Rightarrow> log_template list \<Rightarrow> preparation_cache
       \<Rightarrow> ('e import_error + tokenized_log_template list) \<times> preparation_cache" where
  "import_samples first base_name source_name index [] assigned cache = (Inr [], cache)"
| "import_samples first base_name source_name index (sample # samples) assigned cache =
     (case next_id assigned of
        Inl e \<Rightarrow> (Inl (Next_Id_Failed e), cache)
      | Inr i \<Rightarrow>
          let item = \<lparr>lt_id = i, lt_name = base_name @ '' #'' @ to_dec (index + 1), lt_sample = sample,
                      lt_source = source_name, lt_test_case = []\<rparr>
          in case service_tokenize first item cache of
               (Inl e, cache') \<Rightarrow> (Inl (Tokenize_Failed e), cache')
             | (Inr t, cache') \<Rightarrow>
                 (case import_samples first base_name source_name (index + 1) samples
                         (assigned @ [tl_item t]) cache' of
                    (Inl e, cache'') \<Rightarrow> (Inl e, cache'')
                  | (Inr ts, cache'') \<Rightarrow> (Inr (t # ts), cache'')))"

definition import_file ::
    "(entries \<Rightarrow> string) \<Rightarrow> ('e + string list) \<Rightarrow> string \<Rightarrow> log_template list \<Rightarrow> preparation_cache
       \<Rightarrow> ('e import_error + tokenized_log_template list) \<times> preparation_cache" where
  "import_file first loaded file existing cache =
     (case loaded of
        Inl e \<Rightarrow> (Inl (Source_Failed e), cache)
      | Inr samples \<Rightarrow>
          if samples = [] then (Inl No_Samples, cache)
          else
            let stem = path_stem file;
                base_name = (if stem = [] then default_base_name else stem)
            in import_samples first base_name (import_source_prefix @ path_filename file) 0 samples existing cache)"

lemma import_samples_ok:
  assumes "import_samples first base source index samples assigned cache
    = (Inr ts :: 'e import_error + tokenized_log_template list, cache')"
  shows "length ts = length samples
    \<and> map (lt_sample \<circ> tl_item) ts = map tokenize samples
    \<and> map (lt_name \<circ> tl_item) ts
        = map (\<lambda>k. base @ '' #'' @ to_dec (k + 1)) [index ..< index + length samples]
    \<and> (ts \<noteq> [] \<longrightarrow> ids_ok (assigned @ map tl_item ts))"
  using assms
proof (induction samples arbitrary: index assigned cache ts cache')
  case (Cons sample samples)
  from Cons.prems obtain i where i: "next_id assigned = Inr i"
    by (auto split: sum.splits)
  let ?item = "\<lparr>lt_id = i, lt_name = base @ '' #'' @ to_dec (index + 1), lt_sample = sample,
      lt_source = source, lt_test_case = []\<rparr>"
  from Cons.prems i obtain t c1 where t: "tokenize_and_cache first ?item cache = (Inr t, c1)"
    by (auto simp: Let_def service_tokenize_def split: sum.splits prod.splits)
  obtain r1 c2 where r1: "import_samples first base source (index + 1) samples (assigned @ [tl_item t]) c1
      = (r1 :: 'e import_error + tokenized_log_template list, c2)" by fastforce
  obtain ts' where ts: "ts = t # ts'" "r1 = Inr ts'" "c2 = cache'"
    using Cons.prems i t r1 by (cases r1) (auto simp: Let_def service_tokenize_def)
  note r = r1 [unfolded ts(2,3)]
  have item: "tl_item t = tokenize_item ?item" by (rule tokenize_and_cache_item [OF t])
  have ok: "ids_ok (assigned @ [tl_item t])" by (rule next_id_extends [OF i]) (simp add: item)
  from Cons.IH [OF r] have "ids_ok ((assigned @ [tl_item t]) @ map tl_item ts')"
    using ok by (cases ts') auto
  moreover have "[index ..< index + length (sample # samples)] = index # [index + 1 ..< index + 1 + length samples]"
    by (subst upt_conv_Cons) simp_all
  ultimately show ?case
    using Cons.IH [OF r] ts(1) item by (simp add: tokenize_item_def del: upt_Suc)
qed simp

subsection \<open>Properties\<close>

text \<open>
  C16. An import gives one template per sample, in order, with the tokenized sample, the name of the
  file and its number, and an id that is numeric and differs from every other id, those of the
  existing templates included.
\<close>

theorem import_file_fresh:
  assumes "import_file first (loaded :: 'e + string list) file existing cache = (Inr ts, cache')"
  shows "\<exists>samples base. loaded = Inr samples \<and> samples \<noteq> [] \<and> base \<noteq> []
    \<and> map (lt_sample \<circ> tl_item) ts = map tokenize samples
    \<and> map (lt_name \<circ> tl_item) ts = map (\<lambda>k. base @ '' #'' @ to_dec (k + 1)) [0 ..< length samples]
    \<and> ids_ok (existing @ map tl_item ts)"
proof -
  from assms obtain samples where s: "loaded = Inr samples" "samples \<noteq> []"
    by (auto simp: import_file_def split: sum.splits if_splits)
  let ?base = "if path_stem file = [] then default_base_name else path_stem file"
  from assms s have r: "import_samples first ?base (import_source_prefix @ path_filename file) 0 samples existing cache
      = (Inr ts :: 'e import_error + tokenized_log_template list, cache')" by (simp add: import_file_def Let_def split del: if_split)
  have "?base \<noteq> []" by (simp add: default_base_name_def)
  moreover have "ts \<noteq> []" using import_samples_ok [OF r] s(2) by auto
  ultimately show ?thesis
    using import_samples_ok [OF r] s by (intro exI [of _ samples] exI [of _ ?base]) simp
qed

theorem import_file_fresh_witness:
  "ids_ok ([empty_template\<lparr>lt_id := ''0041''\<rparr>]
     @ map tl_item (case fst (import_file (\<lambda>es. fst (hd es)) (Inr [''a''] :: unit + string list) ''/d/logs.csv''
         [empty_template\<lparr>lt_id := ''0041''\<rparr>] empty_cache) of Inr ts \<Rightarrow> ts | Inl _ \<Rightarrow> []))"
proof -
  let ?r = "import_file (\<lambda>es. fst (hd es)) (Inr [''a''] :: unit + string list) ''/d/logs.csv''
         [empty_template\<lparr>lt_id := ''0041''\<rparr>] empty_cache"
  have n: "next_id [empty_template\<lparr>lt_id := ''0041''\<rparr>] = Inr ''0042''"
    by (simp add: next_id_def validate_ids_def valid_sample_id_def from_chars_unsigned_def is_digit_def
        dec_value_def digit_val_def to_dec.simps digit_char_numerals replicate_small empty_template_def
        minus_one_u64 Let_def)
  have path_run: "path_stem ''/d/logs.csv'' = ''logs''" "path_filename ''/d/logs.csv'' = ''logs.csv''"
    by code_simp+
  let ?item = "\<lparr>lt_id = ''0042'', lt_name = ''logs'' @ '' #'' @ to_dec (0 + 1), lt_sample = ''a'',
      lt_source = import_source_prefix @ ''logs.csv'', lt_test_case = []\<rparr>"
  obtain t c where t: "tokenize_and_cache (\<lambda>es. fst (hd es)) ?item empty_cache = (Inr t, c)"
    by (rule tokenize_and_cache_plain [of ?item]) simp_all
  have "fst ?r = Inr [t]"
    using t by (simp add: import_file_def path_run n service_tokenize_def Let_def)
  then have "?r = (Inr [t], snd ?r)" by (simp add: prod_eq_iff)
  from import_file_fresh [OF this] \<open>fst ?r = Inr [t]\<close> show ?thesis by auto
qed

end
