(* ===== verification/Worker.thy ===== *)
theory Worker
  imports Framing Pacing Rendering File_Transport
begin

text \<open>
  What one worker of a transmission does (\<open>StressTestService::run_worker\<close> in
  \<open>src/src/application/stress_test_service.cpp\<close>): drawing events, packing them into datagrams and
  batches, handing them to the transport and counting what was sent. The loops take the source of
  events as a function on a state of its own, so that what other workers do to the shared cursor
  between two draws is part of that state; the worker's own source is \<open>next_payload\<close>. The polls of
  the stop token are a function of their number. The waits of the pacer, modelled in \<open>Pacing\<close>, only
  let time pass. Moving from a \<open>std::string\<close> leaves it empty, as the standard libraries in use do.
\<close>

subsection \<open>Events\<close>

record worker_source =
  wk_logs :: "prepared_log list"
  wk_selection :: worker_cursor
  wk_shared :: round_robin
  wk_clock :: timestamp_cursor
  wk_readings :: nat
  wk_batch_time :: int

text \<open>\<open>clock.next()\<close> as a time point in nanoseconds; \<open>clk\<close> are the readings of the system clock.\<close>

definition next_time :: "(nat \<Rightarrow> int) \<Rightarrow> worker_source \<Rightarrow> int \<times> worker_source" where
  "next_time clk src =
     (let (t, clock) = timestamp_cursor_next (clk (wk_readings src)) (wk_clock src)
      in (if timestamp_cursor_calendar_time (wk_clock src) then 1000000000 * t else t,
          src\<lparr>wk_clock := clock, wk_readings := wk_readings src + 1\<rparr>))"

text \<open>\<open>logs[selection.next()].render(time, calendar_time)\<close>.\<close>

definition render_selected ::
    "(int \<Rightarrow> tm option) \<Rightarrow> nat \<Rightarrow> int \<Rightarrow> worker_source \<Rightarrow> string \<times> worker_source" where
  "render_selected localtime i time src =
     (let (payload, log) = render localtime time (timestamp_cursor_calendar_time (wk_clock src)) (wk_logs src ! i)
      in (payload, src\<lparr>wk_logs := (wk_logs src)[i := log]\<rparr>))"

definition next_selection :: "worker_source \<Rightarrow> nat \<times> worker_source" where
  "next_selection src =
     (let (i, selection, shared) = worker_cursor_next (wk_selection src) (wk_shared src)
      in (i, src\<lparr>wk_selection := selection, wk_shared := shared\<rparr>))"

definition next_payload ::
    "(int \<Rightarrow> tm option) \<Rightarrow> (nat \<Rightarrow> int) \<Rightarrow> worker_source \<Rightarrow> string \<times> worker_source" where
  "next_payload localtime clk src =
     (let (i, src1) = next_selection src; (time, src2) = next_time clk src1
      in render_selected localtime i time src2)"

text \<open>On stream transports the events of a batch share one time, except for calendar times.\<close>

definition start_batch :: "(nat \<Rightarrow> int) \<Rightarrow> worker_source \<Rightarrow> worker_source" where
  "start_batch clk src =
     (if timestamp_cursor_calendar_time (wk_clock src) then src\<lparr>wk_batch_time := 0\<rparr>
      else let (time, src1) = next_time clk src in src1\<lparr>wk_batch_time := time\<rparr>)"

definition next_batch_payload ::
    "(int \<Rightarrow> tm option) \<Rightarrow> (nat \<Rightarrow> int) \<Rightarrow> worker_source \<Rightarrow> string \<times> worker_source" where
  "next_batch_payload localtime clk src =
     (let (time, src1) = (if timestamp_cursor_calendar_time (wk_clock src) then next_time clk src
                          else (wk_batch_time src, src));
          (i, src2) = next_selection src1
      in render_selected localtime i time src2)"

subsection \<open>Newline-packed datagrams\<close>

definition packed_event_limit :: nat where "packed_event_limit = 256"
definition packed_datagram_target :: nat where "packed_datagram_target = 60 * 1024"
definition integrated_batch_target :: nat where "integrated_batch_target = 600 * 1024"
definition maximum_udp_payload :: nat where "maximum_udp_payload = 65507"

lemmas packing_limits =
  packed_event_limit_def packed_datagram_target_def integrated_batch_target_def maximum_udp_payload_def

text \<open>What a worker carries from one packet or batch to the next.\<close>

record pending =
  pd_payload :: "string option"
  pd_packet :: string
  pd_packet_events :: nat

definition no_pending :: pending where
  "no_pending = \<lparr>pd_payload = None, pd_packet = [], pd_packet_events = 0\<rparr>"

datatype pack_error = Log_Too_Large

definition rate_limited_event_target :: "u64 \<Rightarrow> nat" where
  "rate_limited_event_target quota =
     (if quota = 0 then 2 ^ 64 - 1 else unat (clamp (quota div 200) 1 (- 1)))"

function fill_packet ::
    "('s \<Rightarrow> string \<times> 's) \<Rightarrow> nat \<Rightarrow> nat \<Rightarrow> string \<Rightarrow> nat \<Rightarrow> 's
       \<Rightarrow> pack_error + string \<times> nat \<times> string option \<times> 's" where
  "fill_packet next_event events target packet n s =
     (if n < packed_event_limit \<and> events + n < target then
        let (payload, s') = next_event s; framed_size = newline_frame_size payload in
        if maximum_udp_payload < framed_size then Inl Log_Too_Large
        else if 0 < n \<and> packed_datagram_target < length packet + framed_size
        then Inr (packet, n, Some payload, s')
        else fill_packet next_event events target (append_frame packet payload Newline) (n + 1) s'
      else Inr (packet, n, None, s))"
  by pat_completeness auto
termination
  by (relation "measure (\<lambda>(next_event, events, target, packet, n, s). packed_event_limit - n)") auto

declare fill_packet.simps [simp del]

definition next_packet ::
    "('s \<Rightarrow> string \<times> 's) \<Rightarrow> nat \<Rightarrow> nat \<Rightarrow> pending \<Rightarrow> 's
       \<Rightarrow> pack_error + string \<times> nat \<times> pending \<times> 's" where
  "next_packet next_event events target pend s =
     (if pd_packet pend \<noteq> []
      then Inr (pd_packet pend, pd_packet_events pend, pend\<lparr>pd_packet := [], pd_packet_events := 0\<rparr>, s)
      else
        let (packet, n) = (case pd_payload pend of
                             None \<Rightarrow> ([], 0) | Some p \<Rightarrow> (append_frame [] p Newline, 1))
        in bind_result (fill_packet next_event events target packet n s) (\<lambda>(packet', n', payload, s').
           Inr (packet', n', pend\<lparr>pd_payload := payload\<rparr>, s')))"

text \<open>Drawing \<open>k\<close> events.\<close>

fun draw :: "('s \<Rightarrow> string \<times> 's) \<Rightarrow> nat \<Rightarrow> 's \<Rightarrow> string list \<times> 's" where
  "draw next_event 0 s = ([], s)"
| "draw next_event (Suc k) s =
     (let (p, s1) = next_event s; (ps, s2) = draw next_event k s1 in (p # ps, s2))"

lemma draw_add:
  "draw next_event j s = (ps, s1) \<Longrightarrow> draw next_event k s1 = (qs, s2)
     \<Longrightarrow> draw next_event (j + k) s = (ps @ qs, s2)"
  by (induction j arbitrary: s ps) (auto split: prod.splits)

lemma draw_length: "draw next_event k s = (ps, s') \<Longrightarrow> length ps = k"
  by (induction k arbitrary: s ps s') (auto split: prod.splits)

definition option_list :: "'a option \<Rightarrow> 'a list" where
  "option_list x = (case x of None \<Rightarrow> [] | Some y \<Rightarrow> [y])"

lemma option_list_simps [simp]: "option_list None = []" "option_list (Some y) = [y]"
  by (simp_all add: option_list_def)

lemma fill_packet_cases:
  assumes "next_event s = (p, s1)"
  shows "fill_packet next_event events target packet n s =
    (if \<not> (n < packed_event_limit \<and> events + n < target) then Inr (packet, n, None, s)
     else if maximum_udp_payload < newline_frame_size p then Inl Log_Too_Large
     else if 0 < n \<and> packed_datagram_target < length packet + newline_frame_size p
     then Inr (packet, n, Some p, s1)
     else fill_packet next_event events target (packet @ frame Newline p) (Suc n) s1)"
  using assms by (simp add: fill_packet.simps [of next_event events target packet n s] append_frame_eq)

text \<open>A packet under construction: its first \<open>n\<close> events, within the limits of a datagram.\<close>

definition packet_ok :: "string \<Rightarrow> nat \<Rightarrow> bool" where
  "packet_ok packet n \<longleftrightarrow>
     length packet \<le> maximum_udp_payload \<and> n \<le> packed_event_limit \<and> (n = 0 \<longleftrightarrow> packet = [])"

lemma packet_ok_append:
  assumes "packet_ok packet n" "n < packed_event_limit" "newline_frame_size p \<le> maximum_udp_payload"
    "n = 0 \<or> length packet + newline_frame_size p \<le> packed_datagram_target"
  shows "packet_ok (packet @ frame Newline p) (Suc n)"
  using assms by (auto simp: packet_ok_def packing_limits simp del: frame.simps)

lemma fill_packet_spec:
  "fill_packet next_event events target packet n s = Inr (packet', n', payload, s') \<Longrightarrow> packet_ok packet n \<Longrightarrow>
     \<exists>ps. draw next_event (length ps + length (option_list payload)) s = (ps @ option_list payload, s')
       \<and> packet' = packet @ frames Newline ps \<and> n' = n + length ps \<and> packet_ok packet' n'
       \<and> (\<forall>p \<in> set (option_list payload). newline_frame_size p \<le> maximum_udp_payload)
       \<and> (events < target \<longrightarrow> 0 < n') \<and> (n' \<le> n \<or> events + n' \<le> target)"
proof (induction next_event events target packet n s rule: fill_packet.induct)
  case (1 next_event events target packet n s)
  obtain p s1 where d: "next_event s = (p, s1)" by fastforce
  note cases = fill_packet_cases [of next_event s p s1 events target packet n, OF d]
  consider (full) "\<not> (n < packed_event_limit \<and> events + n < target)"
    | (large) "n < packed_event_limit \<and> events + n < target" "maximum_udp_payload < newline_frame_size p"
    | (break) "n < packed_event_limit \<and> events + n < target" "\<not> maximum_udp_payload < newline_frame_size p"
        "0 < n \<and> packed_datagram_target < length packet + newline_frame_size p"
    | (add) "n < packed_event_limit \<and> events + n < target" "\<not> maximum_udp_payload < newline_frame_size p"
        "\<not> (0 < n \<and> packed_datagram_target < length packet + newline_frame_size p)"
    by blast
  then show ?case
  proof cases
    case full
    then have "packet' = packet" "n' = n" "payload = None" "s' = s" using "1.prems"(1) by (simp_all add: cases)
    with full "1.prems"(2) show ?thesis
      by (intro exI [of _ "[]"]) (auto simp: packed_event_limit_def)
  next
    case large
    with "1.prems" show ?thesis by (simp add: cases)
  next
    case break
    with "1.prems" d show ?thesis by (auto simp: cases intro!: exI [of _ "[]"])
  next
    case add
    with "1.prems"(1) have r: "fill_packet next_event events target (append_frame packet p Newline) (n + 1) s1
        = Inr (packet', n', payload, s')" by (simp add: cases append_frame_eq)
    have "packet_ok (append_frame packet p Newline) (n + 1)"
      using packet_ok_append [OF "1.prems"(2), of p] add by (simp add: append_frame_eq not_less)
    from "1.IH" [OF add(1) refl d [symmetric] refl add(2,3) r this] obtain ps where ps:
      "draw next_event (length ps + length (option_list payload)) s1 = (ps @ option_list payload, s')"
      "packet' = append_frame packet p Newline @ frames Newline ps" "n' = n + 1 + length ps"
      "packet_ok packet' n'" "\<forall>p \<in> set (option_list payload). newline_frame_size p \<le> maximum_udp_payload"
      "events < target \<longrightarrow> 0 < n'" "n' \<le> n + 1 \<or> events + n' \<le> target"
      by (elim exE conjE) (rule that)
    have "draw next_event (length (p # ps) + length (option_list payload)) s = ((p # ps) @ option_list payload, s')"
      by (simp add: d ps(1))
    moreover have "packet' = packet @ frames Newline (p # ps)" "n' = n + length (p # ps)"
      using ps(2,3) by (simp_all add: append_frame_eq del: frame.simps)
    moreover have "n' \<le> n \<or> events + n' \<le> target" using ps(3,7) add(1) by linarith
    ultimately show ?thesis using ps(4-6) by blast
  qed
qed

lemma next_packet_spec:
  assumes "next_packet next_event events target pend s = Inr (packet, n, pend', s')" "events < target"
    "packet_ok (pd_packet pend) (pd_packet_events pend)"
    "\<forall>p \<in> set (option_list (pd_payload pend)). newline_frame_size p \<le> maximum_udp_payload"
  shows "\<exists>ps. draw next_event (length ps) s = (ps, s')
    \<and> pd_packet pend @ frames Newline (option_list (pd_payload pend)) @ frames Newline ps
        = packet @ pd_packet pend' @ frames Newline (option_list (pd_payload pend'))
    \<and> pd_packet_events pend + length (option_list (pd_payload pend)) + length ps
        = n + pd_packet_events pend' + length (option_list (pd_payload pend'))
    \<and> packet_ok packet n \<and> 0 < n \<and> pd_packet pend' = [] \<and> pd_packet_events pend' = 0
    \<and> (\<forall>p \<in> set (option_list (pd_payload pend')). newline_frame_size p \<le> maximum_udp_payload)"
proof (cases "pd_packet pend = []")
  case False
  with assms show ?thesis
    by (intro exI [of _ "[]"]) (auto simp: next_packet_def packet_ok_def)
next
  case True
  define packet0 where "packet0 = frames Newline (option_list (pd_payload pend))"
  define n0 where "n0 = length (option_list (pd_payload pend))"
  have ok: "packet_ok packet0 n0"
    using packet_ok_append [of "[]" 0 "the (pd_payload pend)"] assms(4)
    by (cases "pd_payload pend") (auto simp: packet0_def n0_def packet_ok_def packing_limits simp del: frame.simps)
  from assms(1) True have "bind_result (fill_packet next_event events target packet0 n0 s)
      (\<lambda>(packet', n', payload, s'). Inr (packet', n', pend\<lparr>pd_payload := payload\<rparr>, s')) = Inr (packet, n, pend', s')"
    by (cases "pd_payload pend") (simp_all add: next_packet_def packet0_def n0_def append_frame_eq)
  then obtain payload where f: "fill_packet next_event events target packet0 n0 s
      = Inr (packet, n, payload, s')" "pend' = pend\<lparr>pd_payload := payload\<rparr>"
    by (auto simp: bind_result_Inr_iff)
  from fill_packet_spec [OF f(1) ok] obtain ps where ps:
    "draw next_event (length ps + length (option_list payload)) s = (ps @ option_list payload, s')"
    "packet = packet0 @ frames Newline ps" "n = n0 + length ps" "packet_ok packet n"
    "\<forall>p \<in> set (option_list payload). newline_frame_size p \<le> maximum_udp_payload" "0 < n"
    using assms(2) by blast
  have "pd_packet_events pend = 0" using assms(3) True by (simp add: packet_ok_def)
  with ps f(2) True show ?thesis
    by (intro exI [of _ "ps @ option_list payload"]) (auto simp: packet0_def n0_def)
qed

lemma fill_packet_not_Nil:
  "fill_packet next_event events target packet n s = Inr (packet', n', payload, s')
     \<Longrightarrow> packet \<noteq> [] \<or> n = 0 \<and> events < target \<Longrightarrow> packet' \<noteq> []"
proof (induction next_event events target packet n s rule: fill_packet.induct)
  case (1 next_event events target packet n s)
  obtain p s1 where d: "next_event s = (p, s1)" by fastforce
  show ?case
  proof (cases "n < packed_event_limit \<and> events + n < target \<and> \<not> maximum_udp_payload < newline_frame_size p
      \<and> \<not> (0 < n \<and> packed_datagram_target < length packet + newline_frame_size p)")
    case True
    with "1.prems"(1) have "fill_packet next_event events target (append_frame packet p Newline) (n + 1) s1
        = Inr (packet', n', payload, s')"
      by (simp add: fill_packet_cases [of next_event s p s1 events target packet n, OF d] append_frame_eq split: if_splits)
    moreover have "append_frame packet p Newline \<noteq> []" by (simp add: append_frame_eq)
    ultimately show ?thesis using "1.IH" [OF _ refl d [symmetric] refl] True by blast
  next
    case False
    with "1.prems" show ?thesis
      by (auto simp: fill_packet_cases [of next_event s p s1 events target packet n, OF d] packed_event_limit_def split: if_splits)
  qed
qed

lemma next_packet_not_Nil:
  "next_packet next_event events target pend s = Inr (packet, n, pend', s') \<Longrightarrow> events < target \<Longrightarrow> packet \<noteq> []"
  by (cases "pd_payload pend")
     (auto simp: next_packet_def result_simps append_frame_eq dest: fill_packet_not_Nil split: if_splits)

function fill_batch ::
    "('s \<Rightarrow> string \<times> 's) \<Rightarrow> nat \<Rightarrow> string list \<Rightarrow> nat \<Rightarrow> nat \<Rightarrow> pending \<Rightarrow> 's
       \<Rightarrow> pack_error + string list \<times> nat \<times> nat \<times> pending \<times> 's" where
  "fill_batch next_event target packets batch_bytes events pend s =
     (if batch_bytes < integrated_batch_target \<and> events < target then
        bind_result (next_packet next_event events target pend s) (\<lambda>(packet, n, pend', s').
          if packets \<noteq> [] \<and> integrated_batch_target < batch_bytes + length packet
          then Inr (packets, batch_bytes, events,
                    pend'\<lparr>pd_packet := packet, pd_packet_events := n\<rparr>, s')
          else fill_batch next_event target (packets @ [packet]) (batch_bytes + length packet) (events + n)
                 pend' s')
      else Inr (packets, batch_bytes, events, pend, s))"
  by pat_completeness auto
termination
  by (relation "measure (\<lambda>(next_event, target, packets, batch_bytes, events, pend, s).
        integrated_batch_target - batch_bytes)")
     (auto dest!: next_packet_not_Nil simp flip: length_greater_0_conv)

declare fill_batch.simps [simp del]

definition pending_frames :: "pending \<Rightarrow> string" where
  "pending_frames pend = pd_packet pend @ frames Newline (option_list (pd_payload pend))"

definition pending_events :: "pending \<Rightarrow> nat" where
  "pending_events pend = pd_packet_events pend + length (option_list (pd_payload pend))"

definition pending_ok :: "pending \<Rightarrow> bool" where
  "pending_ok pend \<longleftrightarrow> packet_ok (pd_packet pend) (pd_packet_events pend)
     \<and> (\<forall>p \<in> set (option_list (pd_payload pend)). newline_frame_size p \<le> maximum_udp_payload)"

lemma pending_ok_no_pending [simp]: "pending_ok no_pending"
  by (simp add: pending_ok_def no_pending_def packet_ok_def)

definition batch_ok :: "string list \<Rightarrow> nat \<Rightarrow> nat \<Rightarrow> bool" where
  "batch_ok packets batch_bytes events \<longleftrightarrow>
     (\<forall>packet \<in> set packets. packet \<noteq> [] \<and> length packet \<le> maximum_udp_payload) \<and>
     batch_bytes = length (concat packets) \<and> batch_bytes \<le> integrated_batch_target \<and>
     length packets \<le> events \<and> events \<le> packed_event_limit * length packets"

lemma fill_batch_spec:
  "fill_batch next_event target packets batch_bytes events pend s = Inr (packets', bytes', events', pend', s')
     \<Longrightarrow> batch_ok packets batch_bytes events \<Longrightarrow> pending_ok pend \<Longrightarrow>
     \<exists>ps. draw next_event (length ps) s = (ps, s')
       \<and> concat packets @ pending_frames pend @ frames Newline ps = concat packets' @ pending_frames pend'
       \<and> events + pending_events pend + length ps = events' + pending_events pend'
       \<and> batch_ok packets' bytes' events' \<and> pending_ok pend'
       \<and> (packets \<noteq> [] \<or> events < target \<and> batch_bytes < integrated_batch_target \<longrightarrow> packets' \<noteq> [])"
proof (induction next_event target packets batch_bytes events pend s rule: fill_batch.induct)
  case (1 next_event target packets batch_bytes events pend s)
  show ?case
  proof (cases "batch_bytes < integrated_batch_target \<and> events < target")
    case False
    with "1.prems" show ?thesis
      by (auto simp: fill_batch.simps [of next_event target packets batch_bytes events pend s]
          intro!: exI [of _ "[]"])
  next
    case True
    with "1.prems"(1) obtain packet n pend1 s1 where
      np: "next_packet next_event events target pend s = Inr (packet, n, pend1, s1)"
      by (auto simp: fill_batch.simps [of next_event target packets batch_bytes events pend s] result_simps)
    have "packet_ok (pd_packet pend) (pd_packet_events pend)"
      "\<forall>p \<in> set (option_list (pd_payload pend)). newline_frame_size p \<le> maximum_udp_payload"
      using "1.prems"(3) by (simp_all add: pending_ok_def)
    from next_packet_spec [OF np _ this] True obtain ps where ps:
      "draw next_event (length ps) s = (ps, s1)"
      "pending_frames pend @ frames Newline ps = packet @ pending_frames pend1"
      "pending_events pend + length ps = n + pending_events pend1"
      "packet_ok packet n" "0 < n" "pd_packet pend1 = []" "pd_packet_events pend1 = 0" "pending_ok pend1"
      by (auto simp: pending_frames_def pending_events_def pending_ok_def packet_ok_def)
    show ?thesis
    proof (cases "packets \<noteq> [] \<and> integrated_batch_target < batch_bytes + length packet")
      case split: True
      with True "1.prems"(1) np have r: "packets' = packets" "bytes' = batch_bytes" "events' = events"
        "pend' = pend1\<lparr>pd_packet := packet, pd_packet_events := n\<rparr>" "s' = s1"
        by (simp_all add: fill_batch.simps [of next_event target packets batch_bytes events pend s])
      show ?thesis
        using ps "1.prems"(2) split unfolding r
        by (intro exI [of _ ps]) (auto simp: pending_frames_def pending_events_def pending_ok_def)
    next
      case False
      with True "1.prems"(1) np have r: "fill_batch next_event target (packets @ [packet])
          (batch_bytes + length packet) (events + n) pend1 s1 = Inr (packets', bytes', events', pend', s')"
        by (simp add: fill_batch.simps [of next_event target packets batch_bytes events pend s])
      have "packet \<noteq> []" "length packet \<le> maximum_udp_payload" "n \<le> packed_event_limit"
        using ps(4,5) by (auto simp: packet_ok_def)
      then have "batch_ok (packets @ [packet]) (batch_bytes + length packet) (events + n)"
        using "1.prems"(2) False ps(5) by (auto simp: batch_ok_def packing_limits)
      from "1.IH" [OF True np refl refl refl False r this ps(8)] obtain qs where qs:
        "draw next_event (length qs) s1 = (qs, s')"
        "concat (packets @ [packet]) @ pending_frames pend1 @ frames Newline qs = concat packets' @ pending_frames pend'"
        "events + n + pending_events pend1 + length qs = events' + pending_events pend'"
        "batch_ok packets' bytes' events'" "pending_ok pend'" "packets' \<noteq> []" by blast
      have eq: "concat packets @ pending_frames pend @ frames Newline (ps @ qs)
          = (concat packets @ packet) @ pending_frames pend1 @ frames Newline qs"
        using ps(2) by simp
      have "draw next_event (length (ps @ qs)) s = (ps @ qs, s')"
        using draw_add [OF ps(1) qs(1)] by simp
      with qs ps(3) eq show ?thesis by (intro exI [of _ "ps @ qs"]) auto
    qed
  qed
qed

subsection \<open>Counts\<close>

text \<open>The local counts of a worker, and what it has added to the totals of the service.\<close>

record worker_counts =
  wn_local_messages :: u64
  wn_local_datagrams :: u64
  wn_local_bytes :: u64
  wn_total_messages :: u64
  wn_total_datagrams :: u64
  wn_total_bytes :: u64

definition no_counts :: worker_counts where
  "no_counts =
     \<lparr>wn_local_messages = 0, wn_local_datagrams = 0, wn_local_bytes = 0,
      wn_total_messages = 0, wn_total_datagrams = 0, wn_total_bytes = 0\<rparr>"

definition flush_counts :: "worker_counts \<Rightarrow> worker_counts" where
  "flush_counts c =
     (let c1 = (if 0 < wn_local_messages c
                then c\<lparr>wn_total_messages := wn_total_messages c + wn_local_messages c, wn_local_messages := 0\<rparr>
                else c);
          c2 = (if 0 < wn_local_datagrams c1
                then c1\<lparr>wn_total_datagrams := wn_total_datagrams c1 + wn_local_datagrams c1,
                        wn_local_datagrams := 0\<rparr>
                else c1)
      in if 0 < wn_local_bytes c2
         then c2\<lparr>wn_total_bytes := wn_total_bytes c2 + wn_local_bytes c2, wn_local_bytes := 0\<rparr>
         else c2)"

definition count_sent :: "nat \<Rightarrow> nat \<Rightarrow> nat \<Rightarrow> worker_counts \<Rightarrow> worker_counts" where
  "count_sent messages datagrams bytes' c =
     c\<lparr>wn_local_messages := wn_local_messages c + of_nat messages,
       wn_local_datagrams := wn_local_datagrams c + of_nat datagrams,
       wn_local_bytes := wn_local_bytes c + of_nat bytes'\<rparr>"

definition statistics_publish_events :: "u64 \<Rightarrow> u64" where
  "statistics_publish_events quota = (if quota = 0 then 16384 else clamp (quota div 10) 1 16384)"

subsection \<open>The loops of a worker\<close>

datatype 'e worker_error = Packing pack_error | Transport_Failed 'e

datatype 'e worker_exit = Stop_Requested | Limit_Reached send_result | Worker_Failed "'e worker_error"

text \<open>What a worker works with: polls of the stop token, the source, and its transport.\<close>

record ('s, 't, 'e) worker_env =
  we_stop :: "nat \<Rightarrow> bool"
  we_next :: "'s \<Rightarrow> string \<times> 's"
  we_start_batch :: "'s \<Rightarrow> 's"
  we_next_in_batch :: "'s \<Rightarrow> string \<times> 's"
  we_send :: "string \<Rightarrow> 't \<Rightarrow> 'e + send_result \<times> 't"
  we_send_batch :: "string list \<Rightarrow> 't \<Rightarrow> 'e + send_result \<times> 't"
  we_quota :: u64

record ('s, 't) worker =
  wo_source :: 's
  wo_transport :: 't
  wo_pending :: pending
  wo_counts :: worker_counts
  wo_polls :: nat

definition poll_stop :: "('s, 't, 'e) worker_env \<Rightarrow> ('s, 't) worker \<Rightarrow> bool \<times> ('s, 't) worker" where
  "poll_stop env w = (we_stop env (wo_polls w), w\<lparr>wo_polls := wo_polls w + 1\<rparr>)"

text \<open>After a send: leave on a limit, count on success and publish the counts when due.\<close>

definition after_send ::
    "('s, 't, 'e) worker_env \<Rightarrow> bool \<Rightarrow> nat \<Rightarrow> nat \<Rightarrow> nat \<Rightarrow> 'e + send_result \<times> 't \<Rightarrow> ('s, 't) worker
       \<Rightarrow> 'e worker_exit option \<times> ('s, 't) worker" where
  "after_send env publish messages datagrams bytes' sent w =
     (case sent of
        Inl e \<Rightarrow> (Some (Worker_Failed (Transport_Failed e)), w)
      | Inr (result, t) \<Rightarrow>
          if result \<noteq> Sent
          then (Some (Limit_Reached result), w\<lparr>wo_transport := t, wo_counts := flush_counts (wo_counts w)\<rparr>)
          else
            let c = count_sent messages datagrams bytes' (wo_counts w)
            in (None, w\<lparr>wo_transport := t,
                        wo_counts := (if publish \<or> statistics_publish_events (we_quota env) \<le> wn_local_messages c
                                      then flush_counts c else c)\<rparr>))"

text \<open>Iterations of the four loops; \<open>None\<close> is going on.\<close>

definition packed_step ::
    "('s, 't, 'e) worker_env \<Rightarrow> ('s, 't) worker \<Rightarrow> 'e worker_exit option \<times> ('s, 't) worker" where
  "packed_step env w =
     (let (stopped, w1) = poll_stop env w in
      if stopped then (Some Stop_Requested, w1)
      else case fill_batch (we_next env) (rate_limited_event_target (we_quota env)) [] 0 0 (wo_pending w1)
                  (wo_source w1) of
             Inl e \<Rightarrow> (Some (Worker_Failed (Packing e)), w1)
           | Inr (packets, batch_bytes, events, pend, s) \<Rightarrow>
               let (stopped', w2) = poll_stop env (w1\<lparr>wo_source := s, wo_pending := pend\<rparr>) in
               if stopped' then (Some Stop_Requested, w2)
               else after_send env False events (length packets) batch_bytes
                      (we_send_batch env packets (wo_transport w2)) w2)"

definition single_step ::
    "('s, 't, 'e) worker_env \<Rightarrow> ('s, 't) worker \<Rightarrow> 'e worker_exit option \<times> ('s, 't) worker" where
  "single_step env w =
     (let (stopped, w1) = poll_stop env w in
      if stopped then (Some Stop_Requested, w1)
      else
        let (stopped', w2) = poll_stop env w1 in
        if stopped' then (Some Stop_Requested, w2)
        else
          let (payload, s) = we_next env (wo_source w2)
          in after_send env False 1 1 (length payload) (we_send env payload (wo_transport w2))
               (w2\<lparr>wo_source := s\<rparr>))"

text \<open>The payloads of a datagram batch.\<close>

fun fill_datagrams :: "('s \<Rightarrow> string \<times> 's) \<Rightarrow> nat \<Rightarrow> 's \<Rightarrow> string list \<times> nat \<times> 's" where
  "fill_datagrams next_event 0 s = ([], 0, s)"
| "fill_datagrams next_event (Suc n) s =
     (let (payload, s1) = next_event s; (payloads, batch_bytes, s2) = fill_datagrams next_event n s1
      in (payload # payloads, length payload + batch_bytes, s2))"

definition datagram_step ::
    "('s, 't, 'e) worker_env \<Rightarrow> nat \<Rightarrow> ('s, 't) worker \<Rightarrow> 'e worker_exit option \<times> ('s, 't) worker" where
  "datagram_step env batch_limit w =
     (let (stopped, w1) = poll_stop env w in
      if stopped then (Some Stop_Requested, w1)
      else
        let (payloads, batch_bytes, s) = fill_datagrams (we_next env) batch_limit (wo_source w1);
            (stopped', w2) = poll_stop env (w1\<lparr>wo_source := s\<rparr>) in
        if stopped' then (Some Stop_Requested, w2)
        else after_send env False batch_limit batch_limit batch_bytes
               (we_send_batch env payloads (wo_transport w2)) w2)"

function fill_stream ::
    "('s \<Rightarrow> string \<times> 's) \<Rightarrow> stream_framing \<Rightarrow> nat \<Rightarrow> nat \<Rightarrow> string \<Rightarrow> nat \<Rightarrow> 's \<Rightarrow> string \<times> nat \<times> 's" where
  "fill_stream next_event framing event_limit batch_limit batch events s =
     (if events < event_limit \<and> length batch < batch_limit
      then let (payload, s') = next_event s
           in fill_stream next_event framing event_limit batch_limit (append_frame batch payload framing)
                (events + 1) s'
      else (batch, events, s))"
  by pat_completeness auto
termination
  by (relation "measure (\<lambda>(next_event, framing, event_limit, batch_limit, batch, events, s). event_limit - events)")
     auto

declare fill_stream.simps [simp del]

definition stream_step ::
    "('s, 't, 'e) worker_env \<Rightarrow> endpoint_config \<Rightarrow> nat \<Rightarrow> nat \<Rightarrow> ('s, 't) worker
       \<Rightarrow> 'e worker_exit option \<times> ('s, 't) worker" where
  "stream_step env endpoint event_limit batch_limit w =
     (let (stopped, w1) = poll_stop env w in
      if stopped then (Some Stop_Requested, w1)
      else
        let (batch, events, s) = fill_stream (we_next_in_batch env) (ep_framing endpoint) event_limit batch_limit
                                   [] 0 (we_start_batch env (wo_source w1));
            (stopped', w2) = poll_stop env (w1\<lparr>wo_source := s\<rparr>) in
        if stopped' then (Some Stop_Requested, w2)
        else after_send env (ep_protocol endpoint = File) events 0 (length batch)
               (we_send env batch (wo_transport w2)) w2)"

definition worker_step ::
    "('s, 't, 'e) worker_env \<Rightarrow> endpoint_config \<Rightarrow> bool \<Rightarrow> nat \<Rightarrow> ('s, 't) worker
       \<Rightarrow> 'e worker_exit option \<times> ('s, 't) worker" where
  "worker_step env endpoint is_datagram preferred_batch_size w =
     (let quota = we_quota env in
      if is_datagram then
        if ep_udp_packetization endpoint = NewlinePacked then packed_step env w
        else
          let batch_limit = datagram_batch_events quota preferred_batch_size in
          if batch_limit = 1 then single_step env w else datagram_step env batch_limit w
      else if ep_protocol endpoint = File
      then stream_step env endpoint (file_batch_events quota endpoint) 65536 w
      else stream_step env endpoint (stream_batch_events quota) 1048576 w)"

text \<open>The loop; it runs until the worker leaves, so a run is given a number of iterations.\<close>

fun run_steps ::
    "nat \<Rightarrow> (('s, 't) worker \<Rightarrow> 'e worker_exit option \<times> ('s, 't) worker) \<Rightarrow> ('s, 't) worker
       \<Rightarrow> 'e worker_exit option \<times> ('s, 't) worker" where
  "run_steps 0 step w = (None, w)"
| "run_steps (Suc n) step w =
     (case step w of
        (Some x, w') \<Rightarrow> (Some x, w')
      | (None, w') \<Rightarrow> run_steps n step w')"

text \<open>Whatever the exit, the worker publishes its counts.\<close>

definition run_worker_loop ::
    "nat \<Rightarrow> ('s, 't, 'e) worker_env \<Rightarrow> endpoint_config \<Rightarrow> bool \<Rightarrow> nat \<Rightarrow> ('s, 't) worker
       \<Rightarrow> 'e worker_exit option \<times> ('s, 't) worker" where
  "run_worker_loop n env endpoint is_datagram preferred_batch_size w =
     (case run_steps n (worker_step env endpoint is_datagram preferred_batch_size) w of
        (Some x, w') \<Rightarrow> (Some x, w'\<lparr>wo_counts := flush_counts (wo_counts w')\<rparr>)
      | (None, w') \<Rightarrow> (None, w'))"

subsection \<open>What a stream worker delivers\<close>

definition sent_messages :: "worker_counts \<Rightarrow> u64" where
  "sent_messages c = wn_total_messages c + wn_local_messages c"

definition sent_bytes :: "worker_counts \<Rightarrow> u64" where
  "sent_bytes c = wn_total_bytes c + wn_local_bytes c"

lemma u64_not_pos: "\<not> 0 < (x :: u64) \<longleftrightarrow> x = 0"
  by (simp add: word_gt_0)

lemma flush_counts_simps [simp]:
  "sent_messages (flush_counts c) = sent_messages c" "sent_bytes (flush_counts c) = sent_bytes c"
  "wn_local_messages (flush_counts c) = 0" "wn_local_bytes (flush_counts c) = 0"
  by (auto simp: flush_counts_def sent_messages_def sent_bytes_def Let_def u64_not_pos)

lemma count_sent_simps [simp]:
  "sent_messages (count_sent m d b c) = sent_messages c + of_nat m"
  "sent_bytes (count_sent m d b c) = sent_bytes c + of_nat b"
  by (simp_all add: count_sent_def sent_messages_def sent_bytes_def)

lemma fill_stream_spec:
  "fill_stream next_event framing event_limit batch_limit batch events s = (batch', events', s') \<Longrightarrow>
     \<exists>ps. draw next_event (length ps) s = (ps, s') \<and> batch' = batch @ frames framing ps
       \<and> events' = events + length ps \<and> (events \<le> event_limit \<longrightarrow> events' \<le> event_limit)"
proof (induction next_event framing event_limit batch_limit batch events s rule: fill_stream.induct)
  case (1 next_event framing event_limit batch_limit batch events s)
  obtain p s1 where d: "next_event s = (p, s1)" by fastforce
  show ?case
  proof (cases "events < event_limit \<and> length batch < batch_limit")
    case True
    with "1.prems" d have "fill_stream next_event framing event_limit batch_limit (append_frame batch p framing)
        (events + 1) s1 = (batch', events', s')"
      by (simp add: fill_stream.simps [of next_event framing event_limit batch_limit batch events s])
    from "1.IH" [OF True refl d [symmetric] this] obtain ps where "draw next_event (length ps) s1 = (ps, s')"
      "batch' = append_frame batch p framing @ frames framing ps" "events' = events + 1 + length ps"
      "events + 1 \<le> event_limit \<longrightarrow> events' \<le> event_limit" by blast
    then show ?thesis
      using d True by (intro exI [of _ "p # ps"]) (simp add: append_frame_eq del: frame.simps)
  next
    case False
    with "1.prems" show ?thesis
      by (intro exI [of _ "[]"])
         (auto simp: fill_stream.simps [of next_event framing event_limit batch_limit batch events s])
  qed
qed

text \<open>The events of consecutive batches, given their sizes.\<close>

fun draw_batches :: "('s \<Rightarrow> 's) \<Rightarrow> ('s \<Rightarrow> string \<times> 's) \<Rightarrow> nat list \<Rightarrow> 's \<Rightarrow> string list" where
  "draw_batches start next_event [] s = []"
| "draw_batches start next_event (k # ks) s =
     (let (ps, s1) = draw next_event k (start s) in ps @ draw_batches start next_event ks s1)"

context log_transport begin

text \<open>From \<open>w\<close> to \<open>w'\<close> the worker delivered and counted the events of the batches \<open>ks\<close>.\<close>

definition delivered_batches ::
    "('s2, 's, 'e) worker_env \<Rightarrow> stream_framing \<Rightarrow> nat list \<Rightarrow> ('s2, 's) worker \<Rightarrow> ('s2, 's) worker \<Rightarrow> bool" where
  "delivered_batches env framing ks w w' \<longleftrightarrow>
     (let ps = draw_batches (we_start_batch env) (we_next_in_batch env) ks (wo_source w)
      in inv (wo_transport w') \<and>
         delivered (wo_transport w') = delivered (wo_transport w) @ frames framing ps \<and>
         sent_messages (wo_counts w') = sent_messages (wo_counts w) + of_nat (length ps) \<and>
         sent_bytes (wo_counts w') = sent_bytes (wo_counts w) + of_nat (length (frames framing ps)))"

lemma stream_step_delivers:
  assumes env: "we_send env = send" and inv: "inv (wo_transport w)"
    and step: "stream_step env endpoint event_limit batch_limit w = (x, w')"
  shows "case x of
      None \<Rightarrow> \<exists>k s1. delivered_batches env (ep_framing endpoint) [k] w w'
        \<and> wo_source w' = snd (draw (we_next_in_batch env) k (we_start_batch env (wo_source w)))
    | Some _ \<Rightarrow> delivered_batches env (ep_framing endpoint) [] w w'"
proof -
  define w1 where "w1 = w\<lparr>wo_polls := wo_polls w + 1\<rparr>"
  obtain batch events s where f: "fill_stream (we_next_in_batch env) (ep_framing endpoint) event_limit batch_limit
      [] 0 (we_start_batch env (wo_source w)) = (batch, events, s)" by (metis prod_cases3)
  from fill_stream_spec [OF f] obtain ps where ps:
    "draw (we_next_in_batch env) (length ps) (we_start_batch env (wo_source w)) = (ps, s)"
    "batch = frames (ep_framing endpoint) ps" "events = length ps" by auto
  define w2 where "w2 = w1\<lparr>wo_source := s, wo_polls := wo_polls w + 2\<rparr>"
  let ?publish = "ep_protocol endpoint = File"
  have cases: "stream_step env endpoint event_limit batch_limit w =
      (if we_stop env (wo_polls w) then (Some Stop_Requested, w1)
       else if we_stop env (wo_polls w + 1) then (Some Stop_Requested, w2)
       else after_send env ?publish events 0 (length batch) (send batch (wo_transport w)) w2)"
    using f env by (simp add: stream_step_def poll_stop_def Let_def w1_def w2_def)
  have same: "wo_transport w2 = wo_transport w" "wo_counts w2 = wo_counts w" "wo_transport w1 = wo_transport w"
    "wo_counts w1 = wo_counts w" "wo_source w2 = s"
    by (simp_all add: w1_def w2_def)
  show ?thesis
  proof (cases "we_stop env (wo_polls w) \<or> we_stop env (wo_polls w + 1)")
    case True
    with step inv same show ?thesis
      by (auto simp: cases delivered_batches_def split: if_splits)
  next
    case False
    show ?thesis
    proof (cases "send batch (wo_transport w)")
      case (Inl e)
      with False step inv same show ?thesis
        by (auto simp: cases after_send_def delivered_batches_def)
    next
      case (Inr rt)
      obtain r t where rt: "rt = (r, t)" by (cases rt)
      have inv': "inv t" using send_inv [OF inv] Inr rt by simp
      show ?thesis
      proof (cases "r = Sent")
        case sent: True
        have "delivered t = delivered (wo_transport w) @ batch"
          using send_Sent [OF inv] Inr rt sent by simp
        then have "delivered_batches env (ep_framing endpoint) [length ps] w w'"
          using False step inv' same Inr rt sent ps
          by (auto simp: cases after_send_def delivered_batches_def Let_def)
        moreover have "x = None" "wo_source w' = s"
          using False step same Inr rt sent by (auto simp: cases after_send_def Let_def)
        ultimately show ?thesis using ps(1) by (auto intro!: exI [of _ "length ps"])
      next
        case limit: False
        have "delivered t = delivered (wo_transport w)" using send_limit [OF inv] Inr rt limit by simp
        with False step inv' same Inr rt limit show ?thesis
          by (auto simp: cases after_send_def delivered_batches_def)
      qed
    qed
  qed
qed

lemma stream_run_delivers:
  assumes "we_send env = send"
  shows "inv (wo_transport w) \<Longrightarrow> run_steps n (stream_step env endpoint event_limit batch_limit) w = (x, w')
    \<Longrightarrow> \<exists>ks. delivered_batches env (ep_framing endpoint) ks w w'"
proof (induction n arbitrary: w)
  case 0
  then show ?case by (intro exI [of _ "[]"]) (simp add: delivered_batches_def)
next
  case (Suc n)
  obtain y w1 where step: "stream_step env endpoint event_limit batch_limit w = (y, w1)" by fastforce
  note s = stream_step_delivers [OF assms Suc.prems(1) step]
  show ?case
  proof (cases y)
    case (Some e)
    with Suc.prems(2) step s show ?thesis by (intro exI [of _ "[]"]) auto
  next
    case None
    with s obtain k where k: "delivered_batches env (ep_framing endpoint) [k] w w1"
      "wo_source w1 = snd (draw (we_next_in_batch env) k (we_start_batch env (wo_source w)))" by auto
    have inv: "inv (wo_transport w1)" using k(1) by (simp add: delivered_batches_def Let_def)
    have "run_steps n (stream_step env endpoint event_limit batch_limit) w1 = (x, w')"
      using Suc.prems(2) step None by simp
    from Suc.IH [OF inv this] obtain ks where "delivered_batches env (ep_framing endpoint) ks w1 w'" ..
    with k show ?thesis
      by (intro exI [of _ "k # ks"]) (auto simp: delivered_batches_def Let_def split: prod.splits)
  qed
qed

text \<open>A whole run over a stream transport, from fresh counts.\<close>

lemma run_worker_delivers:
  assumes run: "run_worker_loop n env endpoint False preferred w = (Some x, w')"
    and env: "we_send env = send" and start: "inv (wo_transport w)" "wo_counts w = no_counts"
  shows "\<exists>ks ps. ps = draw_batches (we_start_batch env) (we_next_in_batch env) ks (wo_source w)
    \<and> delivered (wo_transport w') = delivered (wo_transport w) @ frames (ep_framing endpoint) ps
    \<and> wn_total_messages (wo_counts w') = of_nat (length ps)
    \<and> wn_total_bytes (wo_counts w') = of_nat (length (frames (ep_framing endpoint) ps))"
proof -
  obtain event_limit batch_limit where
    "worker_step env endpoint False preferred = stream_step env endpoint event_limit batch_limit"
    by (cases "ep_protocol endpoint = File") (auto simp: worker_step_def fun_eq_iff)
  with run obtain w1 where r: "run_steps n (stream_step env endpoint event_limit batch_limit) w = (Some x, w1)"
    and w': "w' = w1\<lparr>wo_counts := flush_counts (wo_counts w1)\<rparr>"
    by (auto simp: run_worker_loop_def split: prod.splits option.splits)
  from stream_run_delivers [OF env start(1) r] obtain ks where
    d: "delivered_batches env (ep_framing endpoint) ks w w1" ..
  have t: "wn_total_messages (flush_counts c) = sent_messages c" "wn_total_bytes (flush_counts c) = sent_bytes c" for c
    using flush_counts_simps [of c] by (simp_all add: sent_messages_def sent_bytes_def)
  from d show ?thesis
    by (auto simp: delivered_batches_def Let_def w' t start(2) no_counts_def sent_messages_def sent_bytes_def)
qed

end

subsection \<open>Properties\<close>

text \<open>
  C17. Packing loses, repeats and reorders nothing: the packets of a batch and what stays pending are
  the newline frames of what was pending and of the events drawn, in order. No packet is empty or
  larger than a UDP payload, a batch is not empty, holds at most 600 KiB, and its byte and event
  counts are those of its packets.
\<close>

theorem packed_batch_conserves:
  assumes "fill_batch next_event target [] 0 0 pend s = Inr (packets, batch_bytes, events, pend', s')"
    "pending_ok pend" "0 < target"
  shows "\<exists>ps. draw next_event (length ps) s = (ps, s')
    \<and> pending_frames pend @ frames Newline ps = concat packets @ pending_frames pend'
    \<and> pending_events pend + length ps = events + pending_events pend'
    \<and> (\<forall>packet \<in> set packets. packet \<noteq> [] \<and> length packet \<le> 65507)
    \<and> batch_bytes = length (concat packets) \<and> batch_bytes \<le> 614400 \<and> packets \<noteq> []
    \<and> length packets \<le> events \<and> events \<le> 256 * length packets \<and> pending_ok pend'"
proof -
  have "batch_ok [] 0 0" by (simp add: batch_ok_def)
  from fill_batch_spec [OF assms(1) this assms(2)] obtain ps where
    "draw next_event (length ps) s = (ps, s')"
    "pending_frames pend @ frames Newline ps = concat packets @ pending_frames pend'"
    "pending_events pend + length ps = events + pending_events pend'"
    "batch_ok packets batch_bytes events" "pending_ok pend'" "packets \<noteq> []"
    using assms(3) by (auto simp: integrated_batch_target_def)
  then show ?thesis by (intro exI [of _ ps]) (simp add: batch_ok_def packing_limits)
qed

text \<open>With a rate of two events a batch, an event that says \<open>ab\<close> each time.\<close>

lemma sample_packing:
  "fill_batch (\<lambda>n :: nat. (''ab'', Suc n)) 2 [] 0 0 no_pending 0
     = Inr ([''ab'' @ [LF] @ ''ab'' @ [LF]], 6, 2, no_pending, 2)"
proof -
  have f: "fill_packet (\<lambda>n :: nat. (''ab'', Suc n)) 0 2 [] 0 0
      = Inr (''ab'' @ [LF] @ ''ab'' @ [LF], 2, None, 2)"
    by (simp add: fill_packet.simps packing_limits append_frame_eq newline_frame_size_def escape_payload_def
        escape_char_def numeral_2_eq_2)
  show ?thesis
    by (simp add: fill_batch.simps next_packet_def no_pending_def f integrated_batch_target_def)
qed

theorem packed_batch_conserves_witness:
  "\<exists>ps. draw (\<lambda>n :: nat. (''ab'', Suc n)) (length ps) 0 = (ps, 2)
    \<and> frames Newline ps = ''ab'' @ [LF] @ ''ab'' @ [LF]"
  using packed_batch_conserves [OF sample_packing pending_ok_no_pending]
  by (auto simp: pending_frames_def no_pending_def)


text \<open>A worker that is stopped at its third poll, after one batch of 256 one-letter events would have
  been sent; with a byte limit each batch has one event.\<close>

definition sample_worker_env :: "(nat, file_transport \<times> file_world, file_error option) worker_env" where
  "sample_worker_env =
     \<lparr>we_stop = (\<lambda>n. 1 < n), we_next = (\<lambda>n. (''a'', Suc n)), we_start_batch = (\<lambda>n. n),
      we_next_in_batch = (\<lambda>n. (''a'', Suc n)), we_send = file_transport_send 3 (\<lambda>_. 1) (\<lambda>_. 0),
      we_send_batch = (\<lambda>_ t. Inr (Sent, t)), we_quota = 0\<rparr>"

definition sample_worker :: "(nat, file_transport \<times> file_world) worker" where
  "sample_worker =
     \<lparr>wo_source = 0, wo_transport = (sample_file_transport\<lparr>ft_max_total_bytes := 100\<rparr>, sample_files),
      wo_pending = no_pending, wo_counts = no_counts, wo_polls = 0\<rparr>"

definition sample_file_endpoint :: endpoint_config where
  "sample_file_endpoint = default_endpoint\<lparr>ep_protocol := File, ep_file_max_count := 1\<rparr>"

lemma sample_worker_run:
  "\<exists>w'. run_worker_loop (Suc (Suc 0)) sample_worker_env sample_file_endpoint False 1 sample_worker
      = (Some Stop_Requested, w') \<and> wn_total_messages (wo_counts w') = 1"
proof -
  let ?t = "(sample_file_transport\<lparr>ft_max_total_bytes := 100\<rparr>, sample_files)"
  have fill: "fill_stream (\<lambda>n. (''a'', Suc n)) Newline (Suc 0) 65536 [] 0 0 = (''a'' @ [LF], 1, 1)"
    by (simp add: fill_stream.simps append_frame_eq escape_payload_def escape_char_def)
  have "\<exists>t. file_transport_send (Suc (Suc (Suc 0))) (\<lambda>_. 1) (\<lambda>_. 0) (''a'' @ [LF]) ?t = Inr (Sent, t)"
    by (simp add: file_transport_send_def file_run_simps)
  then obtain t where t: "file_transport_send 3 (\<lambda>_. 1) (\<lambda>_. 0) (''a'' @ [LF]) ?t = Inr (Sent, t)"
    by (auto simp: numeral_3_eq_3)
  show ?thesis
    using t fill
    by (simp add: run_worker_loop_def worker_step_def stream_step_def poll_stop_def
        sample_worker_env_def sample_worker_def sample_file_endpoint_def default_endpoint_def
        file_batch_events_def after_send_def count_sent_def no_counts_def flush_counts_def)
qed


end
