(* ===== verification/Service.thy ===== *)
theory Service
  imports Complex_Main Worker
begin

text \<open>
  The sequential parts of \<open>StressTestService\<close> (\<open>src/src/application/stress_test_service.cpp\<close>): the
  checks and the normalization of a configuration that starts a transmission, the number of workers,
  the messages it logs and shows, and the statistics of a snapshot with their rate meter. What several
  threads do at a time is in \<open>Lifecycle\<close>. Doubles of the source are reals here: their rounding is not
  modelled.
\<close>

subsection \<open>Starting\<close>

datatype start_error = No_Template | No_Destination | No_Time_Range

fun start_error_text :: "start_error \<Rightarrow> string" where
  "start_error_text No_Template = ''At least one log template is required''"
| "start_error_text No_Destination = ''A destination host and port are required''"
| "start_error_text No_Time_Range = ''A valid timestamp range is required''"

definition check_config :: "generator_config \<Rightarrow> start_error + unit" where
  "check_config config =
     (if gc_templates config = [] then Inl No_Template
      else if ep_protocol (gc_endpoint config) \<noteq> File
              \<and> (ep_host (gc_endpoint config) = [] \<or> ep_port (gc_endpoint config) = 0)
      then Inl No_Destination
      else if tg_mode (gc_timestamp_generation config) = Range
              \<and> \<not> time_range_valid (tg_range (gc_timestamp_generation config))
      then Inl No_Time_Range
      else Inr ())"

definition normalize_config :: "generator_config \<Rightarrow> generator_config" where
  "normalize_config config =
     (let config1 =
            (if ep_protocol (gc_endpoint config) = File
             then config\<lparr>gc_transmission_mode := Sequential,
                         gc_endpoint := (gc_endpoint config)\<lparr>ep_framing := Newline\<rparr>\<rparr>
             else config)
      in if ep_protocol (gc_endpoint config1) \<noteq> Udp
         then config1\<lparr>gc_endpoint := (gc_endpoint config1)\<lparr>ep_udp_packetization := OneEventPerDatagram\<rparr>\<rparr>
         else config1)"

text \<open>\<open>optimal\<close> is \<open>IExecutionRuntime::optimal_worker_count\<close>.\<close>

definition service_worker_count :: "(transport_protocol \<Rightarrow> u32) \<Rightarrow> generator_config \<Rightarrow> u32" where
  "service_worker_count optimal config =
     (let n = (if gc_transmission_mode config = Parallel \<and> ep_protocol (gc_endpoint config) \<noteq> File
                   then clamp (optimal (ep_protocol (gc_endpoint config))) 1 64
                   else 1)
      in if 0 < gc_target_eps config then ucast (min (ucast n) (gc_target_eps config)) else n)"

definition starting_message :: "generator_config \<Rightarrow> u32 \<Rightarrow> string" where
  "starting_message config n =
     (let endpoint = (if ep_protocol (gc_endpoint config) = File then ''generated directory''
                      else ep_host (gc_endpoint config) @ '':'' @ to_dec (unat (ep_port (gc_endpoint config))))
      in ''Stress test starting: protocol='' @ protocol_name (ep_protocol (gc_endpoint config))
         @ '', endpoint='' @ endpoint
         @ '', mode='' @ transmission_mode_name (gc_transmission_mode config)
         @ '', udp_packetization='' @ udp_packetization_name (ep_udp_packetization (gc_endpoint config))
         @ '', workers='' @ to_dec (unat n)
         @ '', templates='' @ to_dec (length (gc_templates config))
         @ '', target_eps=''
         @ (if gc_target_eps config = 0 then ''unlimited'' else to_dec (unat (gc_target_eps config))))"

text \<open>
  \<open>start\<close> up to the locked section: the configuration and the number of workers the supervisor gets.
\<close>

definition start_plan ::
    "(transport_protocol \<Rightarrow> u32) \<Rightarrow> generator_config \<Rightarrow> start_error + generator_config \<times> u32" where
  "start_plan optimal config =
     bind_result (check_config config) (\<lambda>_.
       let config' = normalize_config config
       in Inr (config', service_worker_count optimal config'))"

subsection \<open>Messages\<close>

text \<open>The ends of the messages, in UTF-8: the limit was reached and the generation stopped.\<close>

definition limit_reached_text :: string where
  "limit_reached_text =
     '' '' @ bytes [0xEC, 0xA0, 0x9C, 0xED, 0x95, 0x9C, 0xEC, 0x97, 0x90]
     @ '' '' @ bytes [0xEB, 0x8F, 0x84, 0xEB, 0x8B, 0xAC, 0xED, 0x95, 0x98, 0xEC, 0x97, 0xAC]
     @ '' '' @ bytes [0xEC, 0x9E, 0x90, 0xEB, 0x8F, 0x99]
     @ '' '' @ bytes [0xEC, 0xA4, 0x91, 0xEC, 0xA7, 0x80, 0xED, 0x96, 0x88, 0xEC, 0x8A, 0xB5, 0xEB, 0x8B, 0x88,
                      0xEB, 0x8B, 0xA4] @ ''.''"

fun completion_message :: "send_result \<Rightarrow> string" where
  "completion_message TotalBytesLimitReached =
     ''FILE '' @ bytes [0xEC, 0xB4, 0x9D] @ '' '' @ bytes [0xEC, 0x83, 0x9D, 0xEC, 0x84, 0xB1, 0xEB, 0x9F, 0x89]
     @ limit_reached_text"
| "completion_message FileCountLimitReached =
     ''FILE '' @ bytes [0xEC, 0x83, 0x9D, 0xEC, 0x84, 0xB1] @ '' '' @ bytes [0xED, 0x8C, 0x8C, 0xEC, 0x9D, 0xBC]
     @ '' '' @ bytes [0xEA, 0xB0, 0x9C, 0xEC, 0x88, 0x98] @ limit_reached_text"
| "completion_message DurationLimitReached =
     ''FILE '' @ bytes [0xEC, 0x8B, 0xA4, 0xED, 0x96, 0x89] @ '' '' @ bytes [0xEC, 0x8B, 0x9C, 0xEA, 0xB0, 0x84]
     @ limit_reached_text"
| "completion_message Sent = []"

lemma completion_message_not_Nil: "r \<noteq> Sent \<Longrightarrow> completion_message r \<noteq> []"
  by (cases r) simp_all

subsection \<open>The rate meter\<close>

text \<open>\<open>meter_*_\<close> and \<open>current_eps_\<close>; times are nanoseconds of the steady clock.\<close>

record rate_meter =
  mt_at :: int
  mt_progress_at :: int
  mt_messages :: u64
  mt_idle_seconds :: real
  mt_eps :: real

definition reset_meter :: rate_meter where
  "reset_meter =
     \<lparr>mt_at = 0, mt_progress_at = 0, mt_messages = 0, mt_idle_seconds = 3, mt_eps = 0\<rparr>"

text \<open>What the last worker to connect does to the meter.\<close>

definition start_meter :: "int \<Rightarrow> rate_meter \<Rightarrow> rate_meter" where
  "start_meter t m = m\<lparr>mt_at := t, mt_progress_at := t, mt_messages := 0, mt_eps := 0\<rparr>"

definition seconds_between :: "int \<Rightarrow> int \<Rightarrow> real" where
  "seconds_between a b = of_int (b - a) / 1000000000"

definition update_meter :: "int \<Rightarrow> u64 \<Rightarrow> rate_meter \<Rightarrow> rate_meter" where
  "update_meter now messages m =
     (let meter_seconds = seconds_between (mt_at m) now in
      if messages < mt_messages m
      then m\<lparr>mt_messages := messages, mt_at := now, mt_progress_at := now, mt_idle_seconds := 3, mt_eps := 0\<rparr>
      else if mt_messages m < messages \<and> 2 / 10 \<le> meter_seconds
      then m\<lparr>mt_eps := of_nat (unat (messages - mt_messages m)) / meter_seconds, mt_messages := messages,
             mt_at := now, mt_progress_at := now, mt_idle_seconds := max 3 (meter_seconds * 3)\<rparr>
      else if messages = mt_messages m \<and> 0 < mt_eps m
              \<and> mt_idle_seconds m \<le> seconds_between (mt_progress_at m) now
      then m\<lparr>mt_eps := 0, mt_at := now\<rparr>
      else m)"

subsection \<open>Snapshots\<close>

text \<open>The members \<open>snapshot\<close> reads besides the meter.\<close>

record service_members =
  sm_state :: generator_state
  sm_mode :: transmission_mode
  sm_packetization :: udp_packetization
  sm_active_workers :: u32
  sm_messages :: u64
  sm_datagrams :: u64
  sm_bytes :: u64
  sm_errors :: u64
  sm_started_at :: int
  sm_finished_at :: int
  sm_meter :: rate_meter
  sm_last_error :: string
  sm_status :: string

record transmission_stats =
  ts_state :: generator_state
  ts_mode :: transmission_mode
  ts_packetization :: udp_packetization
  ts_active_workers :: u32
  ts_messages :: u64
  ts_datagrams :: u64
  ts_bytes :: u64
  ts_errors :: u64
  ts_current_eps :: real
  ts_average_eps :: real
  ts_average_datagrams :: real
  ts_elapsed :: real
  ts_last_error :: string
  ts_status :: string

definition elapsed_seconds :: "int \<Rightarrow> service_members \<Rightarrow> real" where
  "elapsed_seconds now s =
     (if sm_started_at s \<noteq> 0
      then seconds_between (sm_started_at s) (if sm_finished_at s = 0 then now else sm_finished_at s)
      else 0)"

definition snapshot :: "int \<Rightarrow> service_members \<Rightarrow> transmission_stats \<times> service_members" where
  "snapshot now s =
     (let meter = update_meter now (sm_messages s) (sm_meter s);
          elapsed = elapsed_seconds now s
      in (\<lparr>ts_state = sm_state s, ts_mode = sm_mode s, ts_packetization = sm_packetization s,
           ts_active_workers = sm_active_workers s, ts_messages = sm_messages s,
           ts_datagrams = sm_datagrams s, ts_bytes = sm_bytes s, ts_errors = sm_errors s,
           ts_current_eps = (if sm_state s = Running then mt_eps meter else 0),
           ts_average_eps = (if 0 < elapsed then of_nat (unat (sm_messages s)) / elapsed else 0),
           ts_average_datagrams = (if 0 < elapsed then of_nat (unat (sm_datagrams s)) / elapsed else 0),
           ts_elapsed = elapsed, ts_last_error = sm_last_error s, ts_status = sm_status s\<rparr>,
          s\<lparr>sm_meter := meter\<rparr>))"

text \<open>The members at the construction of the service, and as \<open>start\<close> resets them.\<close>

definition initial_members :: service_members where
  "initial_members =
     \<lparr>sm_state = Stopped, sm_mode = Parallel, sm_packetization = OneEventPerDatagram,
      sm_active_workers = 0, sm_messages = 0, sm_datagrams = 0, sm_bytes = 0, sm_errors = 0,
      sm_started_at = 0, sm_finished_at = 0, sm_meter = reset_meter, sm_last_error = [], sm_status = []\<rparr>"

definition reset_members :: "generator_config \<Rightarrow> u32 \<Rightarrow> service_members \<Rightarrow> service_members" where
  "reset_members config n s =
     s\<lparr>sm_messages := 0, sm_datagrams := 0, sm_bytes := 0, sm_errors := 0, sm_active_workers := n,
       sm_mode := gc_transmission_mode config,
       sm_packetization := ep_udp_packetization (gc_endpoint config), sm_last_error := [], sm_status := [],
       sm_started_at := 0, sm_finished_at := 0, sm_meter := reset_meter, sm_state := Connecting\<rparr>"

subsection \<open>Facts\<close>

lemma seconds_between_nonneg: "a \<le> b \<Longrightarrow> 0 \<le> seconds_between a b"
  by (simp add: seconds_between_def)

lemma update_meter_cases:
  obtains (backwards) "messages < mt_messages m"
      "update_meter now messages m =
         m\<lparr>mt_messages := messages, mt_at := now, mt_progress_at := now, mt_idle_seconds := 3, mt_eps := 0\<rparr>"
  | (ahead) "mt_messages m < messages" "2 / 10 \<le> seconds_between (mt_at m) now"
      "update_meter now messages m =
         m\<lparr>mt_eps := of_nat (unat (messages - mt_messages m)) / seconds_between (mt_at m) now,
           mt_messages := messages, mt_at := now, mt_progress_at := now,
           mt_idle_seconds := max 3 (seconds_between (mt_at m) now * 3)\<rparr>"
  | (idle) "messages = mt_messages m" "0 < mt_eps m"
      "mt_idle_seconds m \<le> seconds_between (mt_progress_at m) now"
      "update_meter now messages m = m\<lparr>mt_eps := 0, mt_at := now\<rparr>"
  | (keep) "update_meter now messages m = m"
proof -
  consider "messages < mt_messages m"
    | "\<not> messages < mt_messages m" "mt_messages m < messages \<and> 2 / 10 \<le> seconds_between (mt_at m) now"
    | "\<not> messages < mt_messages m" "\<not> (mt_messages m < messages \<and> 2 / 10 \<le> seconds_between (mt_at m) now)"
      "messages = mt_messages m \<and> 0 < mt_eps m \<and> mt_idle_seconds m \<le> seconds_between (mt_progress_at m) now"
    | "\<not> messages < mt_messages m" "\<not> (mt_messages m < messages \<and> 2 / 10 \<le> seconds_between (mt_at m) now)"
      "\<not> (messages = mt_messages m \<and> 0 < mt_eps m \<and> mt_idle_seconds m \<le> seconds_between (mt_progress_at m) now)"
    by blast
  then show thesis
  proof cases
    case 1
    then show thesis by (intro backwards) (simp_all add: update_meter_def Let_def)
  next
    case 2
    then show thesis by (intro ahead) (simp_all add: update_meter_def Let_def)
  next
    case 3
    then show thesis by (intro idle) (simp_all add: update_meter_def Let_def)
  next
    case 4
    then show thesis by (intro keep) (simp only: update_meter_def Let_def if_False)
  qed
qed

text \<open>
  A run of snapshots under totals that grow. The meter never counts a message twice and loses none:
  the rates it published, each over the seconds it stands for, add up to the messages it counted.
\<close>

fun metered :: "(int \<times> u64) list \<Rightarrow> rate_meter \<Rightarrow> real \<times> rate_meter" where
  "metered [] m = (0, m)"
| "metered ((now, messages) # readings) m =
     (let m' = update_meter now messages m;
          counted = (if mt_messages m < mt_messages m'
                     then mt_eps m' * seconds_between (mt_at m) now else 0);
          (rest, last_meter) = metered readings m'
      in (counted + rest, last_meter))"

lemma metered_accounts:
  assumes "sorted (map snd readings)" "list_all (\<lambda>r. mt_messages m \<le> snd r) readings"
    "metered readings m = (counted, m')"
  shows "mt_messages m \<le> mt_messages m'
    \<and> counted = of_nat (unat (mt_messages m')) - of_nat (unat (mt_messages m))"
  using assms
proof (induction readings arbitrary: m counted)
  case (Cons r readings)
  obtain now messages where r: "r = (now, messages)" by (cases r)
  let ?m1 = "update_meter now messages m"
  obtain rest where rest: "metered readings ?m1 = (rest, m')"
    and counted: "counted = (if mt_messages m < mt_messages ?m1
        then mt_eps ?m1 * seconds_between (mt_at m) now else 0) + rest"
    using Cons.prems(3) by (auto simp: r Let_def split: prod.splits)
  have le: "mt_messages m \<le> messages" using Cons.prems(2) by (simp add: r)
  have ok: "mt_messages ?m1 = mt_messages m \<or> (mt_messages ?m1 = messages \<and> mt_messages m < messages
      \<and> mt_eps ?m1 * seconds_between (mt_at m) now
          = of_nat (unat messages) - of_nat (unat (mt_messages m)))"
    using le by (cases rule: update_meter_cases [of messages m now])
      (auto simp: unat_sub word_le_nat_alt word_less_nat_alt of_nat_diff)
  then have "mt_messages ?m1 \<le> messages" using le by auto
  then have "list_all (\<lambda>r. mt_messages ?m1 \<le> snd r) readings"
    using Cons.prems(1) by (auto simp: r list_all_iff intro: order_trans)
  from Cons.IH [OF _ this rest] Cons.prems(1) ok counted le show ?case
    by (auto simp: r)
qed simp

lemma metered_le_last:
  assumes "metered readings m = (counted, m')" "list_all (\<lambda>r. mt_messages m \<le> snd r) readings"
    "sorted (map snd readings)" "readings \<noteq> []"
  shows "mt_messages m' \<le> snd (last readings)"
  using assms
proof (induction readings arbitrary: m counted)
  case (Cons r readings)
  obtain now messages where r: "r = (now, messages)" by (cases r)
  let ?m1 = "update_meter now messages m"
  have le: "mt_messages ?m1 \<le> messages"
    using Cons.prems(2) by (cases rule: update_meter_cases [of messages m now]) (auto simp: r)
  obtain rest where rest: "metered readings ?m1 = (rest, m')"
    using Cons.prems(1) by (auto simp: r Let_def split: prod.splits)
  show ?case
  proof (cases "readings = []")
    case True
    then show ?thesis using le rest by (simp add: r)
  next
    case False
    have "list_all (\<lambda>r. mt_messages ?m1 \<le> snd r) readings"
      using Cons.prems(3) le by (auto simp: r list_all_iff intro: order_trans)
    from Cons.IH [OF rest this _ False] Cons.prems(3) show ?thesis by (simp add: r False)
  qed
qed simp

lemma start_plan_Inr:
  "start_plan optimal config = Inr (config', n) \<longleftrightarrow>
     check_config config = Inr () \<and> config' = normalize_config config
     \<and> n = service_worker_count optimal config'"
  by (auto simp: start_plan_def result_simps Let_def)

lemma service_worker_count_bounds:
  "1 \<le> service_worker_count optimal config \<and> service_worker_count optimal config \<le> 64
   \<and> (0 < gc_target_eps config \<longrightarrow>
        unat (service_worker_count optimal config) \<le> unat (gc_target_eps config))"
proof -
  let ?c = "if gc_transmission_mode config = Parallel \<and> ep_protocol (gc_endpoint config) \<noteq> File
            then clamp (optimal (ep_protocol (gc_endpoint config))) 1 64 else (1 :: u32)"
  let ?e = "gc_target_eps config"
  have c: "1 \<le> ?c" "?c \<le> 64" using clamp_bounds [of "1 :: u32" 64] by auto
  then have cn: "1 \<le> unat ?c" "unat ?c \<le> 64" by (simp_all add: word_le_nat_alt)
  show ?thesis
  proof (cases "0 < ?e")
    case True
    let ?m = "min (ucast ?c) ?e"
    have e: "1 \<le> unat ?e" using True by (simp add: word_less_nat_alt Suc_le_eq)
    have m: "unat ?m = min (unat ?c) (unat ?e)"
      by (auto simp: min_def word_le_nat_alt simp del: unsigned_ucast_eq)
    then have "unat ?m < 2 ^ 32" using cn by simp
    then have "unat (ucast ?m :: u32) = min (unat ?c) (unat ?e)"
      using m by (simp add: unsigned_ucast_eq take_bit_eq_mod del: unat_ucast_u32)
    then show ?thesis
      using True cn e by (simp add: service_worker_count_def Let_def word_le_nat_alt)
  next
    case False
    then show ?thesis using c by (simp add: service_worker_count_def Let_def)
  qed
qed

lemma normalize_config_simps [simp]:
  "gc_target_eps (normalize_config config) = gc_target_eps config"
  "gc_templates (normalize_config config) = gc_templates config"
  "gc_timestamp_generation (normalize_config config) = gc_timestamp_generation config"
  "ep_protocol (gc_endpoint (normalize_config config)) = ep_protocol (gc_endpoint config)"
  by (simp_all add: normalize_config_def Let_def)

lemma normalize_config_file:
  "ep_protocol (gc_endpoint config) = File \<Longrightarrow>
     gc_transmission_mode (normalize_config config) = Sequential
     \<and> ep_framing (gc_endpoint (normalize_config config)) = Newline"
  by (simp add: normalize_config_def Let_def)

lemma normalize_config_packed:
  "ep_udp_packetization (gc_endpoint (normalize_config config)) = NewlinePacked \<Longrightarrow>
     ep_protocol (gc_endpoint config) = Udp"
  by (auto simp: normalize_config_def Let_def split: if_splits)

lemma normalize_config_idem: "normalize_config (normalize_config config) = normalize_config config"
  by (simp add: normalize_config_def Let_def)

lemma quota_pos:
  assumes "0 < n" "unat n \<le> unat t"
  shows "quota_for_worker t w n \<noteq> 0"
proof -
  have "1 \<le> unat t div unat n"
    using assms by (simp add: word_less_nat_alt div_greater_zero_iff Suc_le_eq)
  then have "1 \<le> unat (quota_for_worker t w n)" by (simp add: unat_quota [OF assms(1)])
  then show ?thesis by auto
qed

subsection \<open>Properties\<close>

text \<open>
  C23. What \<open>start\<close> hands to the supervisor: between 1 and 64 workers whose quotas sum to the
  target rate, none of them unlimited (a quota of 0) when there is a target; a file transmission has
  one sequential worker and newline framing, and packed datagrams are only used with UDP.\<close>

theorem start_plan_sound:
  assumes "start_plan optimal config = Inr (config', n)"
  shows "1 \<le> n \<and> n \<le> 64
    \<and> (\<Sum>w<unat n. unat (quota_for_worker (gc_target_eps config') (of_nat w) n)) = unat (gc_target_eps config)
    \<and> (gc_target_eps config = 0 \<or> (\<forall>w. quota_for_worker (gc_target_eps config') w n \<noteq> 0))
    \<and> (ep_protocol (gc_endpoint config) = File \<longrightarrow>
         n = 1 \<and> gc_transmission_mode config' = Sequential \<and> ep_framing (gc_endpoint config') = Newline)
    \<and> (ep_udp_packetization (gc_endpoint config') = NewlinePacked \<longrightarrow>
         ep_protocol (gc_endpoint config') = Udp)"
proof -
  have config': "config' = normalize_config config" and n: "n = service_worker_count optimal config'"
    using assms by (simp_all add: start_plan_Inr)
  have b: "1 \<le> n" "n \<le> 64" "0 < gc_target_eps config \<longrightarrow> unat n \<le> unat (gc_target_eps config)"
    using service_worker_count_bounds [of optimal config'] by (simp_all add: n config')
  have pos: "0 < n" using b(1) by (simp add: word_le_nat_alt word_less_nat_alt)
  have one: "n = 1" if "ep_protocol (gc_endpoint config) = File"
    using b that
    by (auto simp: n config' service_worker_count_def Let_def min_def word_le_nat_alt word_less_nat_alt
        normalize_config_file split: if_splits)
  have limited: "gc_target_eps config = 0 \<or> (\<forall>w. quota_for_worker (gc_target_eps config') w n \<noteq> 0)"
    using b(3) quota_pos [OF pos, of "gc_target_eps config'"] by (auto simp: config' word_neq_0_conv)
  show ?thesis
    using b(1,2) quotas_sum [OF pos, of "gc_target_eps config'"] one limited
      normalize_config_packed [of config]
    by (simp add: config' normalize_config_file)
qed

definition sample_start_config :: generator_config where
  "sample_start_config =
     default_config\<lparr>gc_templates := [empty_template], gc_target_eps := 3\<rparr>"

lemma sample_start_plan:
  "start_plan (\<lambda>_. 8) sample_start_config = Inr (sample_start_config, 3)"
  by (simp add: start_plan_def sample_start_config_def check_config_def normalize_config_def
      default_config_def default_endpoint_def default_timestamp_generation_def
      service_worker_count_def clamp_def min_def bind_result_def)

theorem start_plan_sound_witness:
  "(\<Sum>w<unat (3 :: u32). unat (quota_for_worker 3 (of_nat w) 3)) = 3"
  using start_plan_sound [OF sample_start_plan]
  by (simp add: sample_start_config_def default_config_def)

text \<open>
  The rate meter accounts for every message once: over snapshots whose totals grow, the rates
  it publishes, each times the seconds it stands for, add up to the messages it has counted, which
  are never more than the last total.\<close>

theorem rate_meter_accounts:
  assumes "sorted (map snd readings)" "readings \<noteq> []"
    "metered readings (start_meter t m) = (counted, m')"
  shows "counted = of_nat (unat (mt_messages m')) \<and> mt_messages m' \<le> snd (last readings)"
proof -
  have all: "list_all (\<lambda>r. mt_messages (start_meter t m) \<le> snd r) readings"
    by (simp add: start_meter_def list_all_iff)
  have "mt_messages m' \<le> snd (last readings)"
    using assms by (intro metered_le_last [OF _ all]) simp_all
  then show ?thesis
    using metered_accounts [OF assms(1) all assms(3)] by (simp add: start_meter_def)
qed

theorem rate_meter_accounts_witness:
  "mt_eps (snd (metered [(100000000, 5), (500000000, 10), (1000000000, 20)] (start_meter 0 reset_meter))) = 20"
  using rate_meter_accounts [of "[(100000000, 5), (500000000, 10), (1000000000, 20)]" 0 reset_meter]
  by (simp add: update_meter_def start_meter_def reset_meter_def seconds_between_def Let_def)

end
