(* ===== verification/Lifecycle.thy ===== *)
theory Lifecycle
  imports Service
begin

text \<open>
  The threads of \<open>StressTestService\<close> (\<open>src/src/application/stress_test_service.cpp\<close>): the thread that
  calls \<open>start\<close>, \<open>request_stop\<close> and \<open>stop\<close>, the supervisor (\<open>run_supervisor\<close>) and the workers
  (\<open>run_worker\<close>), as step relations over the members they share. A step is one access to an atomic
  member, one section under \<open>error_mutex_\<close> or \<open>meter_mutex_\<close>, or one action on a thread; the three
  counters of a flush are added in one step. The client holds \<open>lifecycle_mutex_\<close> over several steps,
  which \<open>ss_locked\<close> records. What a worker does between two accesses is in \<open>Worker\<close>: here a batch is
  a step that adds some counts. One thread at a time calls the operations of the client, as in both
  front ends; a snapshot changes only the meter, which no other step reads.
\<close>

subsection \<open>Shared members\<close>

record shared =
  ss_members :: service_members
  ss_stop :: bool       \<comment> \<open>\<open>stop_source_\<close>\<close>
  ss_connected :: nat   \<comment> \<open>\<open>connected_workers_\<close>, at most 64\<close>
  ss_locked :: bool     \<comment> \<open>the client holds \<open>lifecycle_mutex_\<close>\<close>

definition get_state :: "shared \<Rightarrow> generator_state" where
  "get_state s = sm_state (ss_members s)"

definition set_state :: "generator_state \<Rightarrow> shared \<Rightarrow> shared" where
  "set_state g s = s\<lparr>ss_members := (ss_members s)\<lparr>sm_state := g\<rparr>\<rparr>"

definition set_stop :: "shared \<Rightarrow> shared" where
  "set_stop s = s\<lparr>ss_stop := True\<rparr>"

definition set_started :: "int \<Rightarrow> shared \<Rightarrow> shared" where
  "set_started t s = s\<lparr>ss_members := (ss_members s)\<lparr>sm_started_at := t\<rparr>\<rparr>"

definition set_finished :: "int \<Rightarrow> shared \<Rightarrow> shared" where
  "set_finished t s = s\<lparr>ss_members := (ss_members s)\<lparr>sm_finished_at := t\<rparr>\<rparr>"

definition meter_started :: "int \<Rightarrow> shared \<Rightarrow> shared" where
  "meter_started t s =
     s\<lparr>ss_members := (ss_members s)\<lparr>sm_meter := start_meter t (sm_meter (ss_members s))\<rparr>\<rparr>"

definition meter_stopped :: "shared \<Rightarrow> shared" where
  "meter_stopped s =
     s\<lparr>ss_members := (ss_members s)\<lparr>sm_meter := (sm_meter (ss_members s))\<lparr>mt_eps := 0\<rparr>\<rparr>\<rparr>"

definition count_connected :: "shared \<Rightarrow> shared" where
  "count_connected s = s\<lparr>ss_connected := ss_connected s + 1\<rparr>"

definition add_counts :: "u64 \<Rightarrow> u64 \<Rightarrow> u64 \<Rightarrow> shared \<Rightarrow> shared" where
  "add_counts messages datagrams bytes' s =
     s\<lparr>ss_members := (ss_members s)\<lparr>sm_messages := sm_messages (ss_members s) + messages,
          sm_datagrams := sm_datagrams (ss_members s) + datagrams,
          sm_bytes := sm_bytes (ss_members s) + bytes'\<rparr>\<rparr>"

definition count_error :: "shared \<Rightarrow> shared" where
  "count_error s = s\<lparr>ss_members := (ss_members s)\<lparr>sm_errors := sm_errors (ss_members s) + 1\<rparr>\<rparr>"

text \<open>The sections of \<open>publish_error\<close> and \<open>publish_completion\<close> under \<open>error_mutex_\<close>.\<close>

definition record_error :: "string \<Rightarrow> shared \<Rightarrow> shared" where
  "record_error message s =
     (if sm_last_error (ss_members s) = []
      then s\<lparr>ss_members := (ss_members s)\<lparr>sm_last_error := message\<rparr>\<rparr>
      else s)"

definition record_status :: "string \<Rightarrow> shared \<Rightarrow> shared" where
  "record_status message s = s\<lparr>ss_members := (ss_members s)\<lparr>sm_status := message\<rparr>\<rparr>"

text \<open>The locked section of \<open>start\<close>.\<close>

definition start_shared :: "generator_config \<Rightarrow> u32 \<Rightarrow> shared \<Rightarrow> shared" where
  "start_shared config n s =
     s\<lparr>ss_members := reset_members config n (ss_members s), ss_stop := False, ss_connected := 0\<rparr>"

definition initial_shared :: shared where
  "initial_shared =
     \<lparr>ss_members = initial_members, ss_stop = False, ss_connected = 0, ss_locked = False\<rparr>"

lemmas shared_updates =
  set_state_def set_stop_def set_started_def set_finished_def meter_started_def meter_stopped_def
  count_connected_def add_counts_def count_error_def record_error_def record_status_def

text \<open>What the updates leave alone.\<close>

lemma get_state_simps [simp]:
  "get_state (set_state g s) = g"
  "get_state (set_stop s) = get_state s"
  "get_state (set_started t s) = get_state s"
  "get_state (set_finished t s) = get_state s"
  "get_state (meter_started t s) = get_state s"
  "get_state (meter_stopped s) = get_state s"
  "get_state (count_connected s) = get_state s"
  "get_state (add_counts m d b s) = get_state s"
  "get_state (count_error s) = get_state s"
  "get_state (record_error e s) = get_state s"
  "get_state (record_status e s) = get_state s"
  "get_state (s\<lparr>ss_locked := l\<rparr>) = get_state s"
  "get_state (start_shared config n s) = Connecting"
  by (simp_all add: get_state_def shared_updates start_shared_def reset_members_def)

lemma ss_stop_simps [simp]:
  "ss_stop (set_state g s) = ss_stop s"
  "ss_stop (set_stop s)"
  "ss_stop (set_started t s) = ss_stop s"
  "ss_stop (set_finished t s) = ss_stop s"
  "ss_stop (meter_started t s) = ss_stop s"
  "ss_stop (meter_stopped s) = ss_stop s"
  "ss_stop (count_connected s) = ss_stop s"
  "ss_stop (add_counts m d b s) = ss_stop s"
  "ss_stop (count_error s) = ss_stop s"
  "ss_stop (record_error e s) = ss_stop s"
  "ss_stop (record_status e s) = ss_stop s"
  "\<not> ss_stop (start_shared config n s)"
  by (simp_all add: shared_updates start_shared_def)

lemma ss_connected_simps [simp]:
  "ss_connected (set_state g s) = ss_connected s"
  "ss_connected (set_stop s) = ss_connected s"
  "ss_connected (set_started t s) = ss_connected s"
  "ss_connected (set_finished t s) = ss_connected s"
  "ss_connected (meter_started t s) = ss_connected s"
  "ss_connected (meter_stopped s) = ss_connected s"
  "ss_connected (count_connected s) = Suc (ss_connected s)"
  "ss_connected (add_counts m d b s) = ss_connected s"
  "ss_connected (count_error s) = ss_connected s"
  "ss_connected (record_error e s) = ss_connected s"
  "ss_connected (record_status e s) = ss_connected s"
  "ss_connected (start_shared config n s) = 0"
  by (simp_all add: shared_updates start_shared_def)

lemma ss_locked_simps [simp]:
  "ss_locked (set_state g s) = ss_locked s"
  "ss_locked (set_stop s) = ss_locked s"
  "ss_locked (set_started t s) = ss_locked s"
  "ss_locked (set_finished t s) = ss_locked s"
  "ss_locked (meter_started t s) = ss_locked s"
  "ss_locked (meter_stopped s) = ss_locked s"
  "ss_locked (count_connected s) = ss_locked s"
  "ss_locked (add_counts m d b s) = ss_locked s"
  "ss_locked (count_error s) = ss_locked s"
  "ss_locked (record_error e s) = ss_locked s"
  "ss_locked (record_status e s) = ss_locked s"
  "ss_locked (start_shared config n s) = ss_locked s"
  by (simp_all add: shared_updates start_shared_def)

subsection \<open>Publishing errors and completions\<close>

text \<open>
  \<open>publish_error\<close> and \<open>publish_completion\<close>, called by workers and by the supervisor; where the caller is.
\<close>

datatype publishing =
    Record_Error string | Store_Failed | Fail_Stop
  | Record_Status string | Load_State | Store_Stopping | Complete_Stop
  | Published

inductive publish_step :: "shared \<times> publishing \<Rightarrow> shared \<times> publishing \<Rightarrow> bool" where
  record_error: "publish_step (s, Record_Error message) (record_error message s, Store_Failed)"
| store_failed: "publish_step (s, Store_Failed) (set_state Failed s, Fail_Stop)"
| fail_stop: "publish_step (s, Fail_Stop) (set_stop s, Published)"
| record_status: "publish_step (s, Record_Status message) (record_status message s, Load_State)"
| load_failed: "get_state s = Failed \<Longrightarrow> publish_step (s, Load_State) (s, Complete_Stop)"
| load_other: "get_state s \<noteq> Failed \<Longrightarrow> publish_step (s, Load_State) (s, Store_Stopping)"
| store_stopping: "publish_step (s, Store_Stopping) (set_state Stopping s, Complete_Stop)"
| complete_stop: "publish_step (s, Complete_Stop) (set_stop s, Published)"

subsection \<open>Workers\<close>

datatype worker_pc =
    Connect           \<comment> \<open>creating and connecting the transport\<close>
  | Count_Connected   \<comment> \<open>connected, before \<open>connected_workers_.fetch_add\<close>\<close>
  | Store_Started | Start_Meter | Elect   \<comment> \<open>the last worker to connect\<close>
  | Await_Stop | Await_State | Check_Running   \<comment> \<open>the others, in their loop and after it\<close>
  | Poll | Send       \<comment> \<open>the head of the sending loop, and its body\<close>
  | Count_Error string
  | Publish publishing
  | Worker_Done

text \<open>
  \<open>n\<close> is the number of workers and \<open>stopped\<close> the stop token of this one. The messages of exceptions
  are any strings. From the body of the loop a worker returns to its head, possibly having published
  counts, or leaves as \<open>Worker.worker_exit\<close> lists it.
\<close>

inductive worker_move :: "nat \<Rightarrow> bool \<Rightarrow> shared \<times> worker_pc \<Rightarrow> shared \<times> worker_pc \<Rightarrow> bool" for n stopped where
  connected: "worker_move n stopped (s, Connect) (s, Count_Connected)"
| not_connected: "worker_move n stopped (s, Connect) (s, Count_Error message)"
| last_connected: "ss_connected s + 1 = n \<Longrightarrow>
    worker_move n stopped (s, Count_Connected) (count_connected s, Store_Started)"
| other_connected: "ss_connected s + 1 \<noteq> n \<Longrightarrow>
    worker_move n stopped (s, Count_Connected) (count_connected s, Await_Stop)"
| store_started: "\<not> ss_locked s \<Longrightarrow> worker_move n stopped (s, Store_Started) (set_started t s, Start_Meter)"
| start_meter: "worker_move n stopped (s, Start_Meter) (meter_started t s, Elect)"
| elected: "get_state s = Connecting \<Longrightarrow> worker_move n stopped (s, Elect) (set_state Running s, Poll)"
| not_elected: "get_state s \<noteq> Connecting \<Longrightarrow> worker_move n stopped (s, Elect) (s, Worker_Done)"
| await_stopped: "stopped \<Longrightarrow> worker_move n stopped (s, Await_Stop) (s, Check_Running)"
| await_going: "\<not> stopped \<Longrightarrow> worker_move n stopped (s, Await_Stop) (s, Await_State)"
| await_again: "get_state s = Connecting \<Longrightarrow> worker_move n stopped (s, Await_State) (s, Await_Stop)"
| await_over: "get_state s \<noteq> Connecting \<Longrightarrow> worker_move n stopped (s, Await_State) (s, Check_Running)"
| running: "get_state s = Running \<Longrightarrow> worker_move n stopped (s, Check_Running) (s, Poll)"
| not_running: "get_state s \<noteq> Running \<Longrightarrow> worker_move n stopped (s, Check_Running) (s, Worker_Done)"
| poll_stopped: "stopped \<Longrightarrow> worker_move n stopped (s, Poll) (add_counts m d b s, Worker_Done)"
| poll_going: "\<not> stopped \<Longrightarrow> worker_move n stopped (s, Poll) (s, Send)"
| send_stopped: "stopped \<Longrightarrow> worker_move n stopped (s, Send) (add_counts m d b s, Worker_Done)"
| sent: "worker_move n stopped (s, Send) (add_counts m d b s, Poll)"
| limited: "result \<noteq> Sent \<Longrightarrow>
    worker_move n stopped (s, Send) (add_counts m d b s, Publish (Record_Status (completion_message result)))"
| failed: "worker_move n stopped (s, Send) (add_counts m d b s, Count_Error message)"
| count_error: "worker_move n stopped (s, Count_Error message) (count_error s, Publish (Record_Error message))"
| publish: "publish_step (s, p) (s', p') \<Longrightarrow> p' \<noteq> Published \<Longrightarrow>
    worker_move n stopped (s, Publish p) (s', Publish p')"
| published: "publish_step (s, p) (s', Published) \<Longrightarrow> worker_move n stopped (s, Publish p) (s', Worker_Done)"

subsection \<open>The supervisor\<close>

datatype supervisor_pc =
    Prepare                \<comment> \<open>the timer and the prepared logs\<close>
  | Check_Stop | Store_Stopped_Early
  | Spawn                  \<comment> \<open>creating the next worker\<close>
  | Supervise              \<comment> \<open>waiting for a stop request\<close>
  | Request nat | Join nat   \<comment> \<open>the loops over the workers\<close>
  | Store_Finished | Load_Final | Store_Stopped
  | Unwind_Request nat string | Unwind_Join nat string   \<comment> \<open>destroying the workers on an exception\<close>
  | Sup_Publish publishing
  | Sup_Done

record thread =
  th_pc :: worker_pc
  th_stopped :: bool

definition request_thread :: "nat \<Rightarrow> thread list \<Rightarrow> thread list" where
  "request_thread k ws = ws[k := (ws ! k)\<lparr>th_stopped := True\<rparr>]"

definition new_thread :: thread where
  "new_thread = \<lparr>th_pc = Connect, th_stopped = False\<rparr>"

text \<open>
  An exception while the logs are prepared or a worker is created ends in \<open>publish_error\<close>; in the
  second case the destructor of the vector has first stopped and joined the workers one by one.
\<close>

inductive supervisor_move ::
    "nat \<Rightarrow> shared \<times> thread list \<times> supervisor_pc \<Rightarrow> shared \<times> thread list \<times> supervisor_pc \<Rightarrow> bool" for n where
  prepared: "supervisor_move n (s, ws, Prepare) (s, ws, Check_Stop)"
| not_prepared: "supervisor_move n (s, ws, Prepare) (s, ws, Sup_Publish (Record_Error message))"
| stopped_early: "ss_stop s \<Longrightarrow> supervisor_move n (s, ws, Check_Stop) (s, ws, Store_Stopped_Early)"
| store_stopped_early: "supervisor_move n (s, ws, Store_Stopped_Early) (set_state Stopped s, ws, Sup_Done)"
| not_stopped: "\<not> ss_stop s \<Longrightarrow> supervisor_move n (s, ws, Check_Stop) (s, ws, Spawn)"
| spawn: "length ws < n \<Longrightarrow> supervisor_move n (s, ws, Spawn) (s, ws @ [new_thread], Spawn)"
| no_spawn: "length ws < n \<Longrightarrow> supervisor_move n (s, ws, Spawn) (s, ws, Unwind_Request 0 message)"
| spawned: "length ws = n \<Longrightarrow> supervisor_move n (s, ws, Spawn) (s, ws, Supervise)"
| stop_seen: "ss_stop s \<Longrightarrow> supervisor_move n (s, ws, Supervise) (s, ws, Request 0)"
| request: "k < length ws \<Longrightarrow>
    supervisor_move n (s, ws, Request k) (s, request_thread k ws, Request (Suc k))"
| requested: "k = length ws \<Longrightarrow> supervisor_move n (s, ws, Request k) (s, ws, Join 0)"
| join: "k < length ws \<Longrightarrow> th_pc (ws ! k) = Worker_Done \<Longrightarrow>
    supervisor_move n (s, ws, Join k) (s, ws, Join (Suc k))"
| joined: "k = length ws \<Longrightarrow> supervisor_move n (s, ws, Join k) (s, ws, Store_Finished)"
| store_finished: "\<not> ss_locked s \<Longrightarrow>
    supervisor_move n (s, ws, Store_Finished) (set_finished t s, ws, Load_Final)"
| final_failed: "get_state s = Failed \<Longrightarrow> supervisor_move n (s, ws, Load_Final) (s, ws, Sup_Done)"
| final_other: "get_state s \<noteq> Failed \<Longrightarrow> supervisor_move n (s, ws, Load_Final) (s, ws, Store_Stopped)"
| store_stopped: "supervisor_move n (s, ws, Store_Stopped) (set_state Stopped s, ws, Sup_Done)"
| unwind_request: "k < length ws \<Longrightarrow>
    supervisor_move n (s, ws, Unwind_Request k message) (s, request_thread k ws, Unwind_Join k message)"
| unwind_join: "th_pc (ws ! k) = Worker_Done \<Longrightarrow>
    supervisor_move n (s, ws, Unwind_Join k message) (s, ws, Unwind_Request (Suc k) message)"
| unwound: "k = length ws \<Longrightarrow>
    supervisor_move n (s, ws, Unwind_Request k message) (s, ws, Sup_Publish (Record_Error message))"
| sup_publish: "publish_step (s, p) (s', p') \<Longrightarrow> p' \<noteq> Published \<Longrightarrow>
    supervisor_move n (s, ws, Sup_Publish p) (s', ws, Sup_Publish p')"
| sup_published: "publish_step (s, p) (s', Published) \<Longrightarrow>
    supervisor_move n (s, ws, Sup_Publish p) (s', ws, Sup_Done)"

subsection \<open>The client\<close>

datatype client_pc =
    Client_Idle
  | Request_Load | Request_Store | Request_Stop   \<comment> \<open>in \<open>request_stop\<close>, with the mutex\<close>
  | Stop_Load | Stop_Store | Stop_Request | Stop_Release   \<comment> \<open>in \<open>stop\<close>, with the mutex\<close>
  | Stop_Join | Stop_Final | Stop_Meter           \<comment> \<open>in \<open>stop\<close>, without it\<close>

record service =
  sv_shared :: shared
  sv_count :: nat
  sv_threads :: "thread list"
  sv_supervisor :: supervisor_pc
  sv_joinable :: bool       \<comment> \<open>\<open>supervisor_.joinable()\<close>\<close>
  sv_client :: client_pc

definition initial_service :: service where
  "initial_service =
     \<lparr>sv_shared = initial_shared, sv_count = 0, sv_threads = [], sv_supervisor = Sup_Done,
      sv_joinable = False, sv_client = Client_Idle\<rparr>"

text \<open>
  \<open>start\<close> calls \<open>stop\<close> first, so it resets the members when no supervisor is left; no other thread
  runs then, and its locked section is one step. \<open>stop\<close> without a supervisor is one step as well.
\<close>

inductive client_move :: "service \<Rightarrow> service \<Rightarrow> bool" where
  start: "sv_client v = Client_Idle \<Longrightarrow> \<not> sv_joinable v \<Longrightarrow> start_plan optimal config = Inr (config', n) \<Longrightarrow>
    client_move v (v\<lparr>sv_shared := start_shared config' n (sv_shared v), sv_count := unat n, sv_threads := [],
                     sv_supervisor := Prepare, sv_joinable := True\<rparr>)"
| request: "sv_client v = Client_Idle \<Longrightarrow> sv_joinable v \<Longrightarrow>
    client_move v (v\<lparr>sv_client := Request_Load, sv_shared := (sv_shared v)\<lparr>ss_locked := True\<rparr>\<rparr>)"
| request_failed: "sv_client v = Request_Load \<Longrightarrow> get_state (sv_shared v) = Failed \<Longrightarrow>
    client_move v (v\<lparr>sv_client := Request_Stop\<rparr>)"
| request_other: "sv_client v = Request_Load \<Longrightarrow> get_state (sv_shared v) \<noteq> Failed \<Longrightarrow>
    client_move v (v\<lparr>sv_client := Request_Store\<rparr>)"
| request_store: "sv_client v = Request_Store \<Longrightarrow>
    client_move v (v\<lparr>sv_client := Request_Stop, sv_shared := set_state Stopping (sv_shared v)\<rparr>)"
| request_stop: "sv_client v = Request_Stop \<Longrightarrow>
    client_move v (v\<lparr>sv_client := Client_Idle, sv_shared := (set_stop (sv_shared v))\<lparr>ss_locked := False\<rparr>\<rparr>)"
| stop_idle: "sv_client v = Client_Idle \<Longrightarrow> \<not> sv_joinable v \<Longrightarrow>
    client_move v (v\<lparr>sv_shared := meter_stopped (set_state Stopped (sv_shared v))\<rparr>)"
| stop: "sv_client v = Client_Idle \<Longrightarrow> sv_joinable v \<Longrightarrow>
    client_move v (v\<lparr>sv_client := Stop_Load, sv_shared := (sv_shared v)\<lparr>ss_locked := True\<rparr>\<rparr>)"
| stop_failed: "sv_client v = Stop_Load \<Longrightarrow> get_state (sv_shared v) = Failed \<Longrightarrow>
    client_move v (v\<lparr>sv_client := Stop_Request\<rparr>)"
| stop_other: "sv_client v = Stop_Load \<Longrightarrow> get_state (sv_shared v) \<noteq> Failed \<Longrightarrow>
    client_move v (v\<lparr>sv_client := Stop_Store\<rparr>)"
| stop_store: "sv_client v = Stop_Store \<Longrightarrow>
    client_move v (v\<lparr>sv_client := Stop_Request, sv_shared := set_state Stopping (sv_shared v)\<rparr>)"
| stop_request: "sv_client v = Stop_Request \<Longrightarrow>
    client_move v (v\<lparr>sv_client := Stop_Release, sv_shared := set_stop (sv_shared v)\<rparr>)"
| stop_release: "sv_client v = Stop_Release \<Longrightarrow>
    client_move v (v\<lparr>sv_client := Stop_Join, sv_joinable := False,
                     sv_shared := (sv_shared v)\<lparr>ss_locked := False\<rparr>\<rparr>)"
| stop_join: "sv_client v = Stop_Join \<Longrightarrow> sv_supervisor v = Sup_Done \<Longrightarrow>
    client_move v (v\<lparr>sv_client := Stop_Final\<rparr>)"
| stop_final: "sv_client v = Stop_Final \<Longrightarrow>
    client_move v (v\<lparr>sv_client := Stop_Meter, sv_shared := set_state Stopped (sv_shared v)\<rparr>)"
| stop_meter: "sv_client v = Stop_Meter \<Longrightarrow>
    client_move v (v\<lparr>sv_client := Client_Idle, sv_shared := meter_stopped (sv_shared v)\<rparr>)"

subsection \<open>The service\<close>

text \<open>Steps of the supervisor and of the workers, the threads of a transmission.\<close>

inductive thread_step :: "service \<Rightarrow> service \<Rightarrow> bool" where
  supervisor: "supervisor_move (sv_count v) (sv_shared v, sv_threads v, sv_supervisor v) (s, ws, p) \<Longrightarrow>
    thread_step v (v\<lparr>sv_shared := s, sv_threads := ws, sv_supervisor := p\<rparr>)"
| worker: "k < length (sv_threads v) \<Longrightarrow>
    worker_move (sv_count v) (th_stopped (sv_threads v ! k)) (sv_shared v, th_pc (sv_threads v ! k)) (s, p) \<Longrightarrow>
    thread_step v (v\<lparr>sv_shared := s, sv_threads := (sv_threads v)[k := (sv_threads v ! k)\<lparr>th_pc := p\<rparr>]\<rparr>)"

inductive service_step :: "service \<Rightarrow> service \<Rightarrow> bool" where
  thread: "thread_step v v' \<Longrightarrow> service_step v v'"
| client: "client_move v v' \<Longrightarrow> service_step v v'"

definition reachable :: "service \<Rightarrow> bool" where
  "reachable v \<longleftrightarrow> service_step\<^sup>*\<^sup>* initial_service v"

subsection \<open>Elimination rules\<close>

inductive_cases publish_stepE: "publish_step (s, p) (s', p')"
inductive_cases worker_moveE: "worker_move n stopped (s, p) (s', p')"
inductive_cases supervisor_moveE: "supervisor_move n (s, ws, p) (s', ws', p')"
inductive_cases client_moveE: "client_move v v'"
inductive_cases thread_stepE: "thread_step v v'"
inductive_cases service_stepE: "service_step v v'"

lemma reachable_initial: "reachable initial_service"
  by (simp add: reachable_def)

lemma reachable_step: "reachable v \<Longrightarrow> service_step v v' \<Longrightarrow> reachable v'"
  by (simp add: reachable_def)

lemma reachable_thread: "reachable v \<Longrightarrow> thread_step v v' \<Longrightarrow> reachable v'"
  by (blast intro: reachable_step service_step.thread)

lemma reachable_client: "reachable v \<Longrightarrow> client_move v v' \<Longrightarrow> reachable v'"
  by (blast intro: reachable_step service_step.client)

text \<open>An invariant: it holds at first, and the three kinds of threads keep it.\<close>

lemma reachable_invariant:
  assumes "reachable v" "I initial_service"
    and "\<And>v s ws p. I v \<Longrightarrow>
      supervisor_move (sv_count v) (sv_shared v, sv_threads v, sv_supervisor v) (s, ws, p) \<Longrightarrow>
      I (v\<lparr>sv_shared := s, sv_threads := ws, sv_supervisor := p\<rparr>)"
    and "\<And>v k s p. I v \<Longrightarrow> k < length (sv_threads v) \<Longrightarrow>
      worker_move (sv_count v) (th_stopped (sv_threads v ! k)) (sv_shared v, th_pc (sv_threads v ! k)) (s, p) \<Longrightarrow>
      I (v\<lparr>sv_shared := s, sv_threads := (sv_threads v)[k := (sv_threads v ! k)\<lparr>th_pc := p\<rparr>]\<rparr>)"
    and "\<And>v v'. I v \<Longrightarrow> client_move v v' \<Longrightarrow> I v'"
  shows "I v"
proof -
  have "service_step\<^sup>*\<^sup>* initial_service v" using assms(1) by (simp add: reachable_def)
  then show ?thesis
  proof (induction rule: rtranclp_induct)
    case (step v v')
    show ?case
    proof (rule service_stepE [OF step(2)])
      assume "thread_step v v'"
      then show ?thesis by (elim thread_stepE) (simp_all add: assms(3,4) step.IH)
    next
      assume "client_move v v'"
      with step.IH show ?thesis by (rule assms(5))
    qed
  qed (rule assms(2))
qed

lemma publish_step_frame:
  assumes "publish_step (s, p) (s', p')"
  shows "ss_connected s' = ss_connected s" "ss_locked s' = ss_locked s" "ss_stop s \<Longrightarrow> ss_stop s'"
    "get_state s' \<in> {get_state s, Failed, Stopping}"
  using assms by (cases rule: publish_stepE; simp)+

subsection \<open>The barrier\<close>

text \<open>Before and after the worker has counted itself as connected.\<close>

fun unconnected :: "worker_pc \<Rightarrow> nat" where
  "unconnected Connect = 1"
| "unconnected Count_Connected = 1"
| "unconnected _ = 0"

fun past_barrier :: "worker_pc \<Rightarrow> bool" where
  "past_barrier Store_Started = True"
| "past_barrier Start_Meter = True"
| "past_barrier Elect = True"
| "past_barrier Poll = True"
| "past_barrier Send = True"
| "past_barrier _ = False"

definition barrier_inv :: "service \<Rightarrow> bool" where
  "barrier_inv v \<longleftrightarrow>
     length (sv_threads v) \<le> sv_count v
     \<and> ss_connected (sv_shared v) + sum_list (map (\<lambda>w. unconnected (th_pc w)) (sv_threads v))
         \<le> length (sv_threads v)
     \<and> (get_state (sv_shared v) = Running \<longrightarrow> ss_connected (sv_shared v) = sv_count v)
     \<and> (\<forall>w \<in> set (sv_threads v). past_barrier (th_pc w) \<longrightarrow> ss_connected (sv_shared v) = sv_count v)"

lemma sum_list_update_map:
  "k < length xs \<Longrightarrow> sum_list (map f (xs[k := x])) + f (xs ! k) = sum_list (map f xs) + (f x :: nat)"
  by (induction xs arbitrary: k) (auto split: nat.splits)

lemma worker_move_barrier:
  assumes "worker_move n stopped (s, p) (s', p')"
  shows "ss_connected s' + unconnected p' \<le> ss_connected s + unconnected p"
    "ss_connected s' \<noteq> ss_connected s \<Longrightarrow> unconnected p = 1"
    "get_state s' = Running \<Longrightarrow> get_state s = Running \<or> past_barrier p"
    "past_barrier p' \<Longrightarrow> past_barrier p \<or> get_state s = Running \<or> ss_connected s' = n"
proof -
  show "ss_connected s' + unconnected p' \<le> ss_connected s + unconnected p"
    by (rule worker_moveE [OF assms]) (simp_all add: publish_step_frame(1))
  show "ss_connected s' \<noteq> ss_connected s \<Longrightarrow> unconnected p = 1"
    by (rule worker_moveE [OF assms]) (simp_all add: publish_step_frame(1))
  show "get_state s' = Running \<Longrightarrow> get_state s = Running \<or> past_barrier p"
    by (rule worker_moveE [OF assms]) (auto dest!: publish_step_frame(4))
  show "past_barrier p' \<Longrightarrow> past_barrier p \<or> get_state s = Running \<or> ss_connected s' = n"
    by (rule worker_moveE [OF assms]) simp_all
qed

lemma worker_barrier_inv:
  assumes inv: "barrier_inv v" and k: "k < length (sv_threads v)"
    and move: "worker_move (sv_count v) (th_stopped (sv_threads v ! k))
      (sv_shared v, th_pc (sv_threads v ! k)) (s, p)"
  shows "barrier_inv (v\<lparr>sv_shared := s, sv_threads := (sv_threads v)[k := (sv_threads v ! k)\<lparr>th_pc := p\<rparr>]\<rparr>)"
proof -
  let ?ws = "sv_threads v"
  let ?w = "(?ws ! k)\<lparr>th_pc := p\<rparr>"
  let ?sum = "\<lambda>ws. sum_list (map (\<lambda>w. unconnected (th_pc w)) ws)"
  note facts = worker_move_barrier [OF move]
  have sum: "?sum (?ws[k := ?w]) + unconnected (th_pc (?ws ! k)) = ?sum ?ws + unconnected p"
    using sum_list_update_map [OF k, of "\<lambda>w. unconnected (th_pc w)" ?w] by simp
  have mem: "?ws ! k \<in> set ?ws" using k by simp
  have le: "unconnected (th_pc (?ws ! k)) \<le> ?sum ?ws"
    using member_le_sum_list [of "unconnected (th_pc (?ws ! k))" "map (\<lambda>w. unconnected (th_pc w)) ?ws"] mem
    by auto
  have inv': "length ?ws \<le> sv_count v" "ss_connected (sv_shared v) + ?sum ?ws \<le> length ?ws"
    "get_state (sv_shared v) = Running \<longrightarrow> ss_connected (sv_shared v) = sv_count v"
    "\<forall>w \<in> set ?ws. past_barrier (th_pc w) \<longrightarrow> ss_connected (sv_shared v) = sv_count v"
    using inv by (simp_all add: barrier_inv_def)
  have full: "ss_connected s = sv_count v" if "ss_connected (sv_shared v) = sv_count v"
    using facts(1,2) le inv'(1,2) that by (cases "ss_connected s = ss_connected (sv_shared v)") auto
  have "ss_connected s + ?sum (?ws[k := ?w]) \<le> length ?ws"
    using facts(1) sum inv'(2) le by linarith
  moreover have "get_state s = Running \<longrightarrow> ss_connected s = sv_count v"
    using facts(3) inv'(3,4) mem full by blast
  moreover have "\<forall>w \<in> set (?ws[k := ?w]). past_barrier (th_pc w) \<longrightarrow> ss_connected s = sv_count v"
  proof
    fix w assume "w \<in> set (?ws[k := ?w])"
    then have "w = ?w \<or> w \<in> set ?ws" using set_update_subset_insert [of ?ws k ?w] by auto
    then show "past_barrier (th_pc w) \<longrightarrow> ss_connected s = sv_count v"
      using facts(4) inv'(3,4) mem full by auto
  qed
  ultimately show ?thesis using inv'(1) by (simp add: barrier_inv_def)
qed

lemma request_thread_simps [simp]:
  "length (request_thread k ws) = length ws"
  "map (\<lambda>w. f (th_pc w)) (request_thread k ws) = map (\<lambda>w. f (th_pc w)) ws"
  by (cases "k < length ws"; auto simp: request_thread_def nth_list_update intro!: nth_equalityI)+

lemma request_thread_nth [simp]:
  "i < length ws \<Longrightarrow> th_pc (request_thread k ws ! i) = th_pc (ws ! i)"
  "i < length ws \<Longrightarrow> th_stopped (request_thread k ws ! i) \<longleftrightarrow> i = k \<or> th_stopped (ws ! i)"
  by (cases "i = k"; simp add: request_thread_def)+

lemma request_thread_mem:
  "w \<in> set (request_thread k ws) \<Longrightarrow> \<exists>w' \<in> set ws. th_pc w = th_pc w'"
  by (metis in_set_conv_nth request_thread_nth(1) request_thread_simps(1))

lemma supervisor_barrier_inv:
  assumes "barrier_inv v"
    and "supervisor_move (sv_count v) (sv_shared v, sv_threads v, sv_supervisor v) (s, ws, p)"
  shows "barrier_inv (v\<lparr>sv_shared := s, sv_threads := ws, sv_supervisor := p\<rparr>)"
proof (rule supervisor_moveE [OF assms(2)])
  fix q s' p'
  assume "publish_step (sv_shared v, q) (s, p')" "ws = sv_threads v"
  then show ?thesis
    using assms(1) publish_step_frame(1,4) [of "sv_shared v" q s p'] by (auto simp: barrier_inv_def)
next
  fix q
  assume "publish_step (sv_shared v, q) (s, Published)" "ws = sv_threads v"
  then show ?thesis
    using assms(1) publish_step_frame(1,4) [of "sv_shared v" q s Published] by (auto simp: barrier_inv_def)
qed (use assms(1) in \<open>auto simp: barrier_inv_def new_thread_def dest!: request_thread_mem\<close>)

subsection \<open>The stages of the supervisor\<close>

text \<open>What the supervisor has done to the workers at each of its stages.\<close>

definition all_done :: "thread list \<Rightarrow> bool" where
  "all_done ws \<longleftrightarrow> (\<forall>i < length ws. th_pc (ws ! i) = Worker_Done)"

fun stage_ok :: "thread list \<Rightarrow> supervisor_pc \<Rightarrow> bool" where
  "stage_ok ws Spawn = True"
| "stage_ok ws Supervise = True"
| "stage_ok ws (Request k) = (k \<le> length ws \<and> (\<forall>i < k. th_stopped (ws ! i)))"
| "stage_ok ws (Join k) =
     (k \<le> length ws \<and> (\<forall>i < length ws. th_stopped (ws ! i)) \<and> (\<forall>i < k. th_pc (ws ! i) = Worker_Done))"
| "stage_ok ws (Unwind_Request k m) = (k \<le> length ws \<and> (\<forall>i < k. th_pc (ws ! i) = Worker_Done))"
| "stage_ok ws (Unwind_Join k m) =
     (k < length ws \<and> th_stopped (ws ! k) \<and> (\<forall>i < k. th_pc (ws ! i) = Worker_Done))"
| "stage_ok ws Prepare = (ws = [])"
| "stage_ok ws Check_Stop = (ws = [])"
| "stage_ok ws Store_Stopped_Early = (ws = [])"
| "stage_ok ws _ = all_done ws"

lemma supervisor_stage_ok:
  assumes "supervisor_move n (s, ws, p) (s', ws', p')" "stage_ok ws p"
  shows "stage_ok ws' p'"
  by (rule supervisor_moveE [OF assms(1)]) (use assms(2) in \<open>auto simp: all_done_def less_Suc_eq\<close>)

lemma worker_move_not_done: "worker_move n stopped (s, p) (s', p') \<Longrightarrow> p \<noteq> Worker_Done"
  by (elim worker_moveE) simp_all

lemma worker_stage_ok:
  assumes "k < length ws" "th_pc (ws ! k) \<noteq> Worker_Done" "stage_ok ws p"
  shows "stage_ok (ws[k := (ws ! k)\<lparr>th_pc := q\<rparr>]) p"
proof -
  have stopped: "th_stopped (ws[k := (ws ! k)\<lparr>th_pc := q\<rparr>] ! i) = th_stopped (ws ! i)" for i
    using assms(1) by (cases "i = k") simp_all
  have "th_pc (ws[k := (ws ! k)\<lparr>th_pc := q\<rparr>] ! i) = Worker_Done" if "th_pc (ws ! i) = Worker_Done" for i
    using that assms(2) by (cases "i = k") simp_all
  with assms show ?thesis by (cases p) (auto simp: all_done_def stopped)
qed

definition stage_inv :: "service \<Rightarrow> bool" where
  "stage_inv v \<longleftrightarrow> stage_ok (sv_threads v) (sv_supervisor v)"

text \<open>Once the supervisor is done, no thread of the transmission can move.\<close>

lemma no_thread_step_when_done:
  assumes "stage_inv v" "sv_supervisor v = Sup_Done"
  shows "\<not> thread_step v v'"
proof
  assume "thread_step v v'"
  then show False
  proof (elim thread_stepE)
    fix s ws p
    assume "supervisor_move (sv_count v) (sv_shared v, sv_threads v, sv_supervisor v) (s, ws, p)"
    then show False using assms(2) by (elim supervisor_moveE) simp_all
  next
    fix k s p
    assume k: "k < length (sv_threads v)"
      and "worker_move (sv_count v) (th_stopped (sv_threads v ! k)) (sv_shared v, th_pc (sv_threads v ! k)) (s, p)"
    from this(2) have "th_pc (sv_threads v ! k) \<noteq> Worker_Done" by (rule worker_move_not_done)
    then show False using assms k by (simp add: stage_inv_def all_done_def)
  qed
qed

subsection \<open>The client\<close>

fun has_mutex :: "client_pc \<Rightarrow> bool" where
  "has_mutex Request_Load = True"
| "has_mutex Request_Store = True"
| "has_mutex Request_Stop = True"
| "has_mutex Stop_Load = True"
| "has_mutex Stop_Store = True"
| "has_mutex Stop_Request = True"
| "has_mutex Stop_Release = True"
| "has_mutex _ = False"

fun client_ok :: "generator_state \<Rightarrow> bool \<Rightarrow> bool \<Rightarrow> bool \<Rightarrow> client_pc \<Rightarrow> bool" where
  "client_ok g stop joinable sup_done Client_Idle \<longleftrightarrow> joinable \<or> g = Stopped \<and> sup_done"
| "client_ok g stop joinable sup_done Stop_Release \<longleftrightarrow> stop \<and> joinable"
| "client_ok g stop joinable sup_done Stop_Join \<longleftrightarrow> stop \<and> \<not> joinable"
| "client_ok g stop joinable sup_done Stop_Final \<longleftrightarrow> \<not> joinable \<and> sup_done"
| "client_ok g stop joinable sup_done Stop_Meter \<longleftrightarrow> \<not> joinable \<and> sup_done \<and> g = Stopped"
| "client_ok g stop joinable sup_done _ \<longleftrightarrow> joinable"

definition client_inv :: "service \<Rightarrow> bool" where
  "client_inv v \<longleftrightarrow>
     ss_locked (sv_shared v) = has_mutex (sv_client v)
     \<and> client_ok (get_state (sv_shared v)) (ss_stop (sv_shared v)) (sv_joinable v)
         (sv_supervisor v = Sup_Done) (sv_client v)"

definition service_inv :: "service \<Rightarrow> bool" where
  "service_inv v \<longleftrightarrow> barrier_inv v \<and> stage_inv v \<and> client_inv v"

lemma worker_move_frame:
  assumes "worker_move n stopped (s, p) (s', p')"
  shows "ss_locked s' = ss_locked s" "ss_stop s \<Longrightarrow> ss_stop s'"
proof -
  show "ss_locked s' = ss_locked s"
    by (rule worker_moveE [OF assms]) (simp_all add: publish_step_frame)
  show "ss_stop s \<Longrightarrow> ss_stop s'"
    by (rule worker_moveE [OF assms]) (simp_all add: publish_step_frame)
qed

lemma supervisor_move_frame:
  assumes "supervisor_move n (s, ws, p) (s', ws', p')"
  shows "ss_locked s' = ss_locked s" "ss_stop s \<Longrightarrow> ss_stop s'" "length ws \<le> length ws'"
proof -
  show "ss_locked s' = ss_locked s"
    by (rule supervisor_moveE [OF assms]) (simp_all add: publish_step_frame)
  show "ss_stop s \<Longrightarrow> ss_stop s'"
    by (rule supervisor_moveE [OF assms]) (simp_all add: publish_step_frame)
  show "length ws \<le> length ws'"
    by (rule supervisor_moveE [OF assms]) simp_all
qed

lemma client_ok_thread:
  assumes "client_ok g stop joinable False pc" "stop \<longrightarrow> stop'"
  shows "client_ok g' stop' joinable sup_done pc"
  using assms by (cases pc) auto

lemma thread_client_inv:
  assumes inv: "stage_inv v" "client_inv v" and step: "thread_step v v'"
  shows "client_inv v'"
proof -
  have undone: "sv_supervisor v \<noteq> Sup_Done" using no_thread_step_when_done inv(1) step by blast
  have "sv_client v' = sv_client v \<and> sv_joinable v' = sv_joinable v
      \<and> ss_locked (sv_shared v') = ss_locked (sv_shared v)
      \<and> (ss_stop (sv_shared v) \<longrightarrow> ss_stop (sv_shared v'))"
    using step
    by (elim thread_stepE) (auto dest: worker_move_frame supervisor_move_frame)
  then show ?thesis
    using inv(2) undone by (auto simp: client_inv_def intro: client_ok_thread)
qed

lemma client_service_inv:
  assumes "service_inv v" "client_move v v'"
  shows "service_inv v'"
  by (rule client_moveE [OF assms(2)])
    (use assms(1) in \<open>auto simp: service_inv_def barrier_inv_def stage_inv_def client_inv_def\<close>)

lemma reachable_service_inv: "reachable v \<Longrightarrow> service_inv v"
proof (erule reachable_invariant)
  show "service_inv initial_service"
    by (simp add: service_inv_def barrier_inv_def stage_inv_def client_inv_def initial_service_def
        initial_shared_def initial_members_def get_state_def all_done_def)
next
  fix v s ws p
  assume inv: "service_inv v"
    and move: "supervisor_move (sv_count v) (sv_shared v, sv_threads v, sv_supervisor v) (s, ws, p)"
  let ?v = "v\<lparr>sv_shared := s, sv_threads := ws, sv_supervisor := p\<rparr>"
  have "thread_step v ?v" using move by (rule thread_step.supervisor)
  then show "service_inv ?v"
    using inv supervisor_barrier_inv [OF _ move] supervisor_stage_ok [OF move] thread_client_inv
    by (auto simp: service_inv_def stage_inv_def)
next
  fix v k s p
  assume inv: "service_inv v" and k: "k < length (sv_threads v)"
    and move: "worker_move (sv_count v) (th_stopped (sv_threads v ! k))
      (sv_shared v, th_pc (sv_threads v ! k)) (s, p)"
  let ?v = "v\<lparr>sv_shared := s, sv_threads := (sv_threads v)[k := (sv_threads v ! k)\<lparr>th_pc := p\<rparr>]\<rparr>"
  have "thread_step v ?v" using k move by (rule thread_step.worker)
  then show "service_inv ?v"
    using inv worker_barrier_inv [OF _ k move] worker_stage_ok [OF k worker_move_not_done [OF move]]
      thread_client_inv
    by (auto simp: service_inv_def stage_inv_def)
qed (rule client_service_inv)

subsection \<open>What is left to do\<close>

text \<open>
  The steps a stopped worker and the supervisor have left at most; a worker that is to be created
  counts with all its steps.
\<close>

fun publish_left :: "publishing \<Rightarrow> nat" where
  "publish_left (Record_Error _) = 3"
| "publish_left Store_Failed = 2"
| "publish_left Fail_Stop = 1"
| "publish_left (Record_Status _) = 4"
| "publish_left Load_State = 3"
| "publish_left Store_Stopping = 2"
| "publish_left Complete_Stop = 1"
| "publish_left Published = 0"

fun worker_left :: "worker_pc \<Rightarrow> nat" where
  "worker_left Worker_Done = 0"
| "worker_left Poll = 1"
| "worker_left Check_Running = 2"
| "worker_left Await_Stop = 3"
| "worker_left Await_State = 4"
| "worker_left Elect = 2"
| "worker_left Start_Meter = 3"
| "worker_left Store_Started = 4"
| "worker_left Count_Connected = 5"
| "worker_left (Publish p) = publish_left p + 1"
| "worker_left (Count_Error _) = 6"
| "worker_left Send = 7"
| "worker_left Connect = 8"

fun supervisor_left :: "nat \<Rightarrow> nat \<Rightarrow> supervisor_pc \<Rightarrow> nat" where
  "supervisor_left n l Prepare = 3"
| "supervisor_left n l Check_Stop = 2"
| "supervisor_left n l Store_Stopped_Early = 1"
| "supervisor_left n l Spawn = (n - l) * 12 + 2 * l + 8"
| "supervisor_left n l Supervise = 2 * l + 7"
| "supervisor_left n l (Request k) = (l - k) + l + 6"
| "supervisor_left n l (Join k) = (l - k) + 4"
| "supervisor_left n l Store_Finished = 3"
| "supervisor_left n l Load_Final = 2"
| "supervisor_left n l Store_Stopped = 1"
| "supervisor_left n l (Unwind_Request k m) = (l - k) * 2 + 5"
| "supervisor_left n l (Unwind_Join k m) = (l - k) * 2 + 4"
| "supervisor_left n l (Sup_Publish p) = publish_left p + 1"
| "supervisor_left n l Sup_Done = 0"

definition steps_left :: "service \<Rightarrow> nat" where
  "steps_left v =
     supervisor_left (sv_count v) (length (sv_threads v)) (sv_supervisor v)
     + sum_list (map (\<lambda>w. worker_left (th_pc w)) (sv_threads v))"

lemma publish_step_left: "publish_step (s, p) (s', p') \<Longrightarrow> publish_left p' < publish_left p"
  by (elim publish_stepE) simp_all

lemma worker_move_left:
  assumes "worker_move n True (s, p) (s', p')"
  shows "worker_left p' < worker_left p"
  by (rule worker_moveE [OF assms]) (auto dest: publish_step_left)

lemma worker_step_left:
  assumes k: "k < length (sv_threads v)" and stopped: "th_stopped (sv_threads v ! k)"
    and move: "worker_move (sv_count v) (th_stopped (sv_threads v ! k))
      (sv_shared v, th_pc (sv_threads v ! k)) (s, p)"
  shows "steps_left (v\<lparr>sv_shared := s, sv_threads := (sv_threads v)[k := (sv_threads v ! k)\<lparr>th_pc := p\<rparr>]\<rparr>)
    < steps_left v"
proof -
  have "worker_left p < worker_left (th_pc (sv_threads v ! k))"
    using worker_move_left move stopped by simp
  then show ?thesis
    using sum_list_update_map [OF k, of "\<lambda>w. worker_left (th_pc w)" "(sv_threads v ! k)\<lparr>th_pc := p\<rparr>"]
    by (simp add: steps_left_def)
qed

subsection \<open>Progress\<close>

definition publishing_ok :: "service \<Rightarrow> bool" where
  "publishing_ok v \<longleftrightarrow>
     sv_supervisor v \<noteq> Sup_Publish Published \<and> (\<forall>w \<in> set (sv_threads v). th_pc w \<noteq> Publish Published)"

lemma reachable_publishing_ok: "reachable v \<Longrightarrow> publishing_ok v"
proof (erule reachable_invariant)
  show "publishing_ok initial_service" by (simp add: publishing_ok_def initial_service_def)
next
  fix v s ws p
  assume "publishing_ok v"
    "supervisor_move (sv_count v) (sv_shared v, sv_threads v, sv_supervisor v) (s, ws, p)"
  then show "publishing_ok (v\<lparr>sv_shared := s, sv_threads := ws, sv_supervisor := p\<rparr>)"
    by (elim supervisor_moveE) (auto simp: publishing_ok_def new_thread_def dest!: request_thread_mem)
next
  fix v k s p
  assume ok: "publishing_ok v" and k: "k < length (sv_threads v)"
    and move: "worker_move (sv_count v) (th_stopped (sv_threads v ! k))
      (sv_shared v, th_pc (sv_threads v ! k)) (s, p)"
  have "p \<noteq> Publish Published" using move by (elim worker_moveE) auto
  then show "publishing_ok (v\<lparr>sv_shared := s,
      sv_threads := (sv_threads v)[k := (sv_threads v ! k)\<lparr>th_pc := p\<rparr>]\<rparr>)"
    using ok set_update_subset_insert [of "sv_threads v" k "(sv_threads v ! k)\<lparr>th_pc := p\<rparr>"]
    by (auto simp: publishing_ok_def)
next
  fix v v' assume "publishing_ok v" "client_move v v'"
  then show "publishing_ok v'" by (elim client_moveE) (auto simp: publishing_ok_def)
qed

lemma publish_progress:
  assumes "p \<noteq> Published"
  obtains s' p' where "publish_step (s, p) (s', p')"
  using assms
  by (cases p; cases "get_state s = Failed") (auto intro: publish_step.intros)

lemma worker_progress:
  assumes "p \<noteq> Worker_Done" "p \<noteq> Publish Published" "\<not> ss_locked s"
  obtains s' p' where "worker_move n stopped (s, p) (s', p')"
proof (cases p)
  case (Publish q)
  with assms(2) obtain s' q' where "publish_step (s, q) (s', q')" using publish_progress by blast
  then show thesis using that worker_move.publish worker_move.published Publish by (cases "q' = Published") blast+
next
  case Count_Connected
  then show thesis using that worker_move.last_connected worker_move.other_connected by blast
next
  case Elect
  then show thesis using that worker_move.elected worker_move.not_elected by blast
next
  case Await_Stop
  then show thesis using that worker_move.await_stopped worker_move.await_going by (cases stopped) blast+
next
  case Await_State
  then show thesis using that worker_move.await_again worker_move.await_over by blast
next
  case Check_Running
  then show thesis using that worker_move.running worker_move.not_running by blast
next
  case Poll
  then show thesis using that worker_move.poll_stopped worker_move.poll_going by (cases stopped) blast+
qed (use assms that in \<open>blast intro: worker_move.intros\<close>)+

text \<open>A stopped worker the supervisor waits for can move, and this leaves less to do.\<close>

lemma join_progress:
  assumes "publishing_ok v" "\<not> ss_locked (sv_shared v)" "k < length (sv_threads v)"
    "th_stopped (sv_threads v ! k)" "th_pc (sv_threads v ! k) \<noteq> Worker_Done"
  shows "\<exists>v'. thread_step v v' \<and> steps_left v' < steps_left v"
proof -
  have "th_pc (sv_threads v ! k) \<noteq> Publish Published" using assms(1,3) by (auto simp: publishing_ok_def)
  then obtain s p where "worker_move (sv_count v) (th_stopped (sv_threads v ! k))
      (sv_shared v, th_pc (sv_threads v ! k)) (s, p)"
    using worker_progress assms(2,5) by blast
  with worker_step_left [OF assms(3,4)] thread_step.worker [OF assms(3)] show ?thesis by blast
qed

lemma supervisor_progress:
  assumes "supervisor_move (sv_count v) (sv_shared v, sv_threads v, sv_supervisor v) (s, ws, p)"
    "supervisor_left (sv_count v) (length ws) p + sum_list (map (\<lambda>w. worker_left (th_pc w)) ws) < steps_left v"
  shows "\<exists>v'. thread_step v v' \<and> steps_left v' < steps_left v"
  using thread_step.supervisor [OF assms(1)] assms(2)
  by (intro exI [of _ "v\<lparr>sv_shared := s, sv_threads := ws, sv_supervisor := p\<rparr>"]) (simp add: steps_left_def)

lemma thread_progress:
  assumes inv: "service_inv v" "publishing_ok v" and free: "\<not> ss_locked (sv_shared v)"
    and stop: "ss_stop (sv_shared v) \<or> sv_supervisor v \<notin> {Check_Stop, Supervise}"
    and undone: "sv_supervisor v \<noteq> Sup_Done"
  shows "\<exists>v'. thread_step v v' \<and> steps_left v' < steps_left v"
proof -
  have stage: "stage_ok (sv_threads v) (sv_supervisor v)" and le: "length (sv_threads v) \<le> sv_count v"
    using inv(1) by (simp_all add: service_inv_def stage_inv_def barrier_inv_def)
  note move = supervisor_progress [of v]
  show ?thesis
  proof (cases "sv_supervisor v")
    case Prepare
    then show ?thesis by (intro move) (auto intro: supervisor_move.prepared simp: steps_left_def)
  next
    case Check_Stop
    then show ?thesis by (intro move) (use stop in \<open>auto intro: supervisor_move.stopped_early simp: steps_left_def\<close>)
  next
    case Store_Stopped_Early
    then show ?thesis by (intro move) (auto intro: supervisor_move.store_stopped_early simp: steps_left_def)
  next
    case Spawn
    show ?thesis
    proof (cases "length (sv_threads v) < sv_count v")
      case True
      from supervisor_move.spawn [OF this] Spawn show ?thesis
        by (intro move) (use True in \<open>auto simp: steps_left_def new_thread_def\<close>)
    next
      case False
      then have full: "length (sv_threads v) = sv_count v" using le by simp
      from supervisor_move.spawned [OF full] Spawn show ?thesis
        by (intro move) (auto simp: steps_left_def full)
    qed
  next
    case Supervise
    then show ?thesis by (intro move) (use stop in \<open>auto intro: supervisor_move.stop_seen simp: steps_left_def\<close>)
  next
    case (Request k)
    show ?thesis
    proof (cases "k < length (sv_threads v)")
      case True
      from supervisor_move.request [OF this] Request show ?thesis
        by (intro move) (use True in \<open>auto simp: steps_left_def\<close>)
    next
      case False
      then have "k = length (sv_threads v)" using stage Request by simp
      from supervisor_move.requested [OF this] Request show ?thesis
        by (intro move) (auto simp: steps_left_def)
    qed
  next
    case (Join k)
    show ?thesis
    proof (cases "k < length (sv_threads v)")
      case True
      show ?thesis
      proof (cases "th_pc (sv_threads v ! k) = Worker_Done")
        case done': True
        from supervisor_move.join [OF True this] Join show ?thesis
          by (intro move) (use True in \<open>auto simp: steps_left_def\<close>)
      next
        case False
        with True stage Join inv(2) free show ?thesis by (intro join_progress) auto
      qed
    next
      case False
      then have "k = length (sv_threads v)" using stage Join by simp
      from supervisor_move.joined [OF this] Join show ?thesis by (intro move) (auto simp: steps_left_def)
    qed
  next
    case Store_Finished
    then show ?thesis
      by (intro move [of "set_finished 0 (sv_shared v)" "sv_threads v" Load_Final])
        (auto intro: supervisor_move.store_finished simp: steps_left_def free)
  next
    case Load_Final
    then show ?thesis
      using supervisor_move.final_failed [of "sv_shared v" "sv_count v" "sv_threads v"]
        supervisor_move.final_other [of "sv_shared v" "sv_count v" "sv_threads v"]
      by (cases "get_state (sv_shared v) = Failed") (fastforce intro!: move simp: steps_left_def)+
  next
    case Store_Stopped
    then show ?thesis by (intro move) (auto intro: supervisor_move.store_stopped simp: steps_left_def)
  next
    case (Unwind_Request k m)
    show ?thesis
    proof (cases "k < length (sv_threads v)")
      case True
      from supervisor_move.unwind_request [OF this] Unwind_Request show ?thesis
        by (intro move) (use True in \<open>auto simp: steps_left_def\<close>)
    next
      case False
      then have "k = length (sv_threads v)" using stage Unwind_Request by simp
      from supervisor_move.unwound [OF this] Unwind_Request show ?thesis
        by (intro move) (auto simp: steps_left_def)
    qed
  next
    case (Unwind_Join k m)
    show ?thesis
    proof (cases "th_pc (sv_threads v ! k) = Worker_Done")
      case True
      from supervisor_move.unwind_join [OF this] Unwind_Join stage show ?thesis
        by (intro move) (auto simp: steps_left_def)
    next
      case False
      with stage Unwind_Join inv(2) free show ?thesis by (intro join_progress) auto
    qed
  next
    case (Sup_Publish p)
    then have "p \<noteq> Published" using inv(2) by (auto simp: publishing_ok_def)
    then obtain s q where q: "publish_step (sv_shared v, p) (s, q)" using publish_progress by blast
    note left = publish_step_left [OF q]
    show ?thesis
    proof (cases "q = Published")
      case True
      from supervisor_move.sup_published [OF q [unfolded True]] Sup_Publish show ?thesis
        by (intro move) (auto simp: steps_left_def)
    next
      case False
      from supervisor_move.sup_publish [OF q False] Sup_Publish left show ?thesis
        by (intro move) (auto simp: steps_left_def)
    qed
  qed (use undone in simp)
qed

text \<open>The stages in which every worker has been told to stop.\<close>

fun draining :: "supervisor_pc \<Rightarrow> bool" where
  "draining (Join k) = True"
| "draining Store_Finished = True"
| "draining Load_Final = True"
| "draining Store_Stopped = True"
| "draining Sup_Done = True"
| "draining _ = False"

lemma draining_step:
  assumes inv: "service_inv v" and drain: "draining (sv_supervisor v)" and step: "thread_step v v'"
  shows "draining (sv_supervisor v') \<and> steps_left v' < steps_left v"
proof -
  have stage: "stage_ok (sv_threads v) (sv_supervisor v)"
    using inv by (simp add: service_inv_def stage_inv_def)
  show ?thesis
  proof (rule thread_stepE [OF step])
    fix s ws p
    assume v': "v' = v\<lparr>sv_shared := s, sv_threads := ws, sv_supervisor := p\<rparr>"
      and move: "supervisor_move (sv_count v) (sv_shared v, sv_threads v, sv_supervisor v) (s, ws, p)"
    show ?thesis
      by (rule supervisor_moveE [OF move]) (use drain in \<open>auto simp: v' steps_left_def\<close>)
  next
    fix k s p
    assume v': "v' = v\<lparr>sv_shared := s, sv_threads := (sv_threads v)[k := (sv_threads v ! k)\<lparr>th_pc := p\<rparr>]\<rparr>"
      and k: "k < length (sv_threads v)"
      and move: "worker_move (sv_count v) (th_stopped (sv_threads v ! k))
        (sv_shared v, th_pc (sv_threads v ! k)) (s, p)"
    have "th_stopped (sv_threads v ! k)"
      using stage drain k worker_move_not_done [OF move]
      by (cases "sv_supervisor v") (auto simp: all_done_def)
    with worker_step_left [OF k this move] drain show ?thesis by (simp add: v')
  qed
qed

lemma draining_progress:
  assumes inv: "service_inv v" "publishing_ok v" and free: "\<not> ss_locked (sv_shared v)"
    and drain: "draining (sv_supervisor v)" "sv_supervisor v \<noteq> Sup_Done"
  shows "\<exists>v'. thread_step v v'"
  using thread_progress [OF inv free _ drain(2)] drain(1) by (cases "sv_supervisor v") auto

lemma thread_step_client:
  "thread_step v v' \<Longrightarrow> sv_client v' = sv_client v \<and> sv_joinable v' = sv_joinable v
     \<and> (ss_stop (sv_shared v) \<longrightarrow> ss_stop (sv_shared v'))"
  by (elim thread_stepE) (auto dest: worker_move_frame supervisor_move_frame)

lemma unlocked_iff: "service_inv v \<Longrightarrow> ss_locked (sv_shared v) = has_mutex (sv_client v)"
  by (simp add: service_inv_def client_inv_def)

lemma threads_finish:
  assumes "reachable v" "ss_stop (sv_shared v)" "\<not> has_mutex (sv_client v)"
  shows "\<exists>v'. thread_step\<^sup>*\<^sup>* v v' \<and> reachable v' \<and> sv_supervisor v' = Sup_Done
    \<and> sv_client v' = sv_client v \<and> sv_joinable v' = sv_joinable v"
  using assms
proof (induction "steps_left v" arbitrary: v rule: less_induct)
  case less
  show ?case
  proof (cases "sv_supervisor v = Sup_Done")
    case True
    then show ?thesis using less.prems by blast
  next
    case False
    have inv: "service_inv v" "publishing_ok v"
      using less.prems(1) by (simp_all add: reachable_service_inv reachable_publishing_ok)
    obtain v1 where v1: "thread_step v v1" "steps_left v1 < steps_left v"
      using thread_progress [OF inv _ _ False] less.prems(2) unlocked_iff [OF inv(1)] less.prems(3) by blast
    note client = thread_step_client [OF v1(1)]
    obtain v' where "thread_step\<^sup>*\<^sup>* v1 v'" "reachable v'" "sv_supervisor v' = Sup_Done"
      "sv_client v' = sv_client v1" "sv_joinable v' = sv_joinable v1"
      using less.hyps [OF v1(2) reachable_thread [OF less.prems(1) v1(1)]] client less.prems(2,3) by auto
    then show ?thesis using v1(1) client by (auto intro: converse_rtranclp_into_rtranclp)
  qed
qed

subsection \<open>A transmission with one worker\<close>

text \<open>Runs of a service with one worker, for the witnesses.\<close>

definition one_worker :: "shared \<Rightarrow> worker_pc \<Rightarrow> bool \<Rightarrow> supervisor_pc \<Rightarrow> client_pc \<Rightarrow> service" where
  "one_worker s q stopped p c =
     \<lparr>sv_shared = s, sv_count = 1, sv_threads = [\<lparr>th_pc = q, th_stopped = stopped\<rparr>], sv_supervisor = p,
      sv_joinable = True, sv_client = c\<rparr>"

lemma one_worker_simps [simp]:
  "sv_shared (one_worker s q b p c) = s"
  "sv_count (one_worker s q b p c) = 1"
  "sv_threads (one_worker s q b p c) = [\<lparr>th_pc = q, th_stopped = b\<rparr>]"
  "sv_supervisor (one_worker s q b p c) = p"
  "sv_joinable (one_worker s q b p c)"
  "sv_client (one_worker s q b p c) = c"
  by (simp_all add: one_worker_def)

lemma one_worker_worker:
  assumes "reachable (one_worker s q b p c)" "worker_move 1 b (s, q) (s', q')"
  shows "reachable (one_worker s' q' b p c)"
  using reachable_thread [OF assms(1) thread_step.worker [of 0 "one_worker s q b p c" s' q']] assms(2)
  by (simp add: one_worker_def)

lemma one_worker_supervisor:
  assumes "reachable (one_worker s q b p c)"
    "supervisor_move 1 (s, [\<lparr>th_pc = q, th_stopped = b\<rparr>], p) (s', [\<lparr>th_pc = q, th_stopped = b'\<rparr>], p')"
  shows "reachable (one_worker s' q b' p' c)"
  using reachable_thread [OF assms(1) thread_step.supervisor
      [of "one_worker s q b p c" s' "[\<lparr>th_pc = q, th_stopped = b'\<rparr>]" p']] assms(2)
  by (simp add: one_worker_def)

lemma one_worker_client:
  "reachable (one_worker s q b p c) \<Longrightarrow> client_move (one_worker s q b p c) (one_worker s' q b p c') \<Longrightarrow>
   reachable (one_worker s' q b p c')"
  by (rule reachable_client)

definition one_worker_config :: generator_config where
  "one_worker_config = default_config\<lparr>gc_templates := [empty_template]\<rparr>"

lemma one_worker_plan: "start_plan (\<lambda>_. 1) one_worker_config = Inr (one_worker_config, 1)"
  by (simp add: start_plan_def one_worker_config_def check_config_def normalize_config_def
      default_config_def default_endpoint_def default_timestamp_generation_def
      service_worker_count_def clamp_def min_def bind_result_def)

definition running_shared :: shared where
  "running_shared =
     set_state Running (meter_started 5 (set_started 5
       (count_connected (start_shared one_worker_config 1 initial_shared))))"

lemma running_shared_simps [simp]:
  "get_state running_shared = Running" "\<not> ss_stop running_shared" "\<not> ss_locked running_shared"
  "ss_connected running_shared = 1"
  by (simp_all add: running_shared_def initial_shared_def)

lemma supervisor_thread_step:
  assumes "supervisor_move (sv_count v) (sv_shared v, sv_threads v, sv_supervisor v) (s, ws, p)"
    "v' = v\<lparr>sv_shared := s, sv_threads := ws, sv_supervisor := p\<rparr>"
  shows "thread_step v v'"
  using thread_step.supervisor [OF assms(1)] assms(2) by simp

lemma reachable_running: "reachable (one_worker running_shared Poll False Supervise Client_Idle)"
proof -
  let ?s = "start_shared one_worker_config 1 initial_shared"
  let ?v = "\<lambda>ws p. initial_service\<lparr>sv_shared := ?s, sv_count := 1, sv_threads := ws,
    sv_supervisor := p, sv_joinable := True\<rparr>"
  have "client_move initial_service (?v [] Prepare)"
    using client_move.start [of initial_service, OF _ _ one_worker_plan] by (simp add: initial_service_def)
  then have "reachable (?v [] Prepare)" by (rule reachable_client [OF reachable_initial])
  moreover have "thread_step (?v [] Prepare) (?v [] Check_Stop)"
    by (rule supervisor_thread_step [where s = ?s and ws = "[]" and p = Check_Stop])
      (simp_all add: supervisor_move.prepared)
  moreover have "thread_step (?v [] Check_Stop) (?v [] Spawn)"
    by (rule supervisor_thread_step [where s = ?s and ws = "[]" and p = Spawn])
      (simp_all add: supervisor_move.not_stopped)
  moreover have "thread_step (?v [] Spawn) (?v [new_thread] Spawn)"
    by (rule supervisor_thread_step [where s = ?s and ws = "[new_thread]" and p = Spawn])
      (use supervisor_move.spawn [of "[]" 1 ?s] in simp_all)
  moreover have "?v [new_thread] Spawn = one_worker ?s Connect False Spawn Client_Idle"
    by (simp add: one_worker_def initial_service_def new_thread_def)
  ultimately have "reachable (one_worker ?s Connect False Spawn Client_Idle)"
    by (metis reachable_thread)
  then have "reachable (one_worker ?s Connect False Supervise Client_Idle)"
    by (rule one_worker_supervisor) (simp add: supervisor_move.spawned)
  then have "reachable (one_worker ?s Count_Connected False Supervise Client_Idle)"
    by (rule one_worker_worker) (rule worker_move.connected)
  then have "reachable (one_worker (count_connected ?s) Store_Started False Supervise Client_Idle)"
    by (rule one_worker_worker) (simp add: worker_move.last_connected)
  then have "reachable (one_worker (set_started 5 (count_connected ?s)) Start_Meter False Supervise Client_Idle)"
    by (rule one_worker_worker) (simp add: worker_move.store_started initial_shared_def)
  then have "reachable (one_worker (meter_started 5 (set_started 5 (count_connected ?s))) Elect False
      Supervise Client_Idle)"
    by (rule one_worker_worker) (rule worker_move.start_meter)
  then show ?thesis
    unfolding running_shared_def by (rule one_worker_worker) (simp add: worker_move.elected)
qed

text \<open>From a stop request that is through to the end.\<close>

lemma reachable_after_request:
  assumes "reachable (one_worker s q False Supervise c)" "ss_stop s"
  shows "reachable (one_worker s q True (Join 0) c)"
proof -
  have "reachable (one_worker s q False (Request 0) c)"
    using assms(1) by (rule one_worker_supervisor) (simp add: supervisor_move.stop_seen assms(2))
  then have "reachable (one_worker s q True (Request 1) c)"
  proof (rule one_worker_supervisor)
    show "supervisor_move 1 (s, [\<lparr>th_pc = q, th_stopped = False\<rparr>], Request 0)
        (s, [\<lparr>th_pc = q, th_stopped = True\<rparr>], Request 1)"
      using supervisor_move.request [of 0 "[\<lparr>th_pc = q, th_stopped = False\<rparr>]" 1 s]
      by (simp add: request_thread_def)
  qed
  then show ?thesis by (rule one_worker_supervisor) (simp add: supervisor_move.requested)
qed

lemma reachable_after_join:
  assumes "reachable (one_worker s Worker_Done True (Join 0) c)" "\<not> ss_locked s" "get_state s \<noteq> Failed"
  shows "reachable (one_worker (set_state Stopped (set_finished 9 s)) Worker_Done True Sup_Done c)"
proof -
  have "reachable (one_worker s Worker_Done True (Join 1) c)"
    using assms(1) by (rule one_worker_supervisor)
      (use supervisor_move.join [of 0 "[\<lparr>th_pc = Worker_Done, th_stopped = True\<rparr>]" 1 s] in simp)
  then have "reachable (one_worker s Worker_Done True Store_Finished c)"
    by (rule one_worker_supervisor) (simp add: supervisor_move.joined)
  then have "reachable (one_worker (set_finished 9 s) Worker_Done True Load_Final c)"
    by (rule one_worker_supervisor) (simp add: supervisor_move.store_finished assms(2))
  then have "reachable (one_worker (set_finished 9 s) Worker_Done True Store_Stopped c)"
    by (rule one_worker_supervisor) (simp add: supervisor_move.final_other assms(3))
  then show ?thesis by (rule one_worker_supervisor) (rule supervisor_move.store_stopped)
qed

lemma reachable_request:
  assumes "reachable (one_worker s q b p Client_Idle)" "get_state s \<noteq> Failed"
  shows "reachable (one_worker (s\<lparr>ss_locked := True\<rparr>) q b p Request_Store)"
proof -
  let ?s = "s\<lparr>ss_locked := True\<rparr>"
  have "reachable (one_worker ?s q b p Request_Load)"
    using assms(1) by (rule one_worker_client)
      (use client_move.request [of "one_worker s q b p Client_Idle"] in \<open>simp add: one_worker_def\<close>)
  then show ?thesis
    by (rule one_worker_client)
      (use client_move.request_other [of "one_worker ?s q b p Request_Load"] assms(2)
        in \<open>simp add: one_worker_def\<close>)
qed

lemma reachable_requested:
  assumes "reachable (one_worker s q b p Request_Store)"
  shows "reachable (one_worker ((set_stop (set_state Stopping s))\<lparr>ss_locked := False\<rparr>) q b p Client_Idle)"
proof -
  have "reachable (one_worker (set_state Stopping s) q b p Request_Stop)"
    using assms by (rule one_worker_client)
      (use client_move.request_store [of "one_worker s q b p Request_Store"] in \<open>simp add: one_worker_def\<close>)
  then show ?thesis
    by (rule one_worker_client)
      (use client_move.request_stop [of "one_worker (set_state Stopping s) q b p Request_Stop"]
        in \<open>simp add: one_worker_def\<close>)
qed

definition stopping_shared :: shared where
  "stopping_shared =
     (set_stop (set_state Stopping (running_shared\<lparr>ss_locked := True\<rparr>)))\<lparr>ss_locked := False\<rparr>"

lemma stopping_shared_simps [simp]:
  "get_state stopping_shared = Stopping" "ss_stop stopping_shared" "\<not> ss_locked stopping_shared"
  by (simp_all add: stopping_shared_def set_stop_def get_state_def set_state_def)

lemma reachable_joining: "reachable (one_worker stopping_shared Poll True (Join 0) Client_Idle)"
  by (intro reachable_after_request stopping_shared_simps)
    (use reachable_requested [OF reachable_request [OF reachable_running]] in \<open>simp add: stopping_shared_def\<close>)

subsection \<open>Properties\<close>

text \<open>
  C19. No event is sent before every worker of the transmission has connected: when the state is
  \<open>Running\<close>, or a worker is in its sending loop, all workers have been created, each of them has
  counted itself as connected, and none is still connecting.\<close>

theorem sending_needs_all_connected:
  assumes "reachable v"
    "get_state (sv_shared v) = Running \<or> (\<exists>w \<in> set (sv_threads v). th_pc w \<in> {Poll, Send})"
  shows "ss_connected (sv_shared v) = sv_count v \<and> length (sv_threads v) = sv_count v
    \<and> (\<forall>w \<in> set (sv_threads v). th_pc w \<notin> {Connect, Count_Connected})"
proof -
  let ?sum = "sum_list (map (\<lambda>w. unconnected (th_pc w)) (sv_threads v))"
  have inv: "barrier_inv v" using reachable_service_inv [OF assms(1)] by (simp add: service_inv_def)
  then have full: "ss_connected (sv_shared v) = sv_count v" using assms(2) by (fastforce simp: barrier_inv_def)
  then have sum: "length (sv_threads v) = sv_count v" "?sum = 0"
    using inv by (auto simp: barrier_inv_def simp del: sum_list_eq_0_iff)
  have "unconnected (th_pc w) = 0" if "w \<in> set (sv_threads v)" for w
    using that sum(2) by (simp add: sum_list_eq_0_iff)
  then show ?thesis using full sum(1) by fastforce
qed

theorem sending_needs_all_connected_witness:
  "ss_connected running_shared = 1"
  using sending_needs_all_connected [OF reachable_running] by simp

text \<open>
  C20. When \<open>stop\<close> has returned and no transmission has been started since, the state is
  \<open>Stopped\<close>, every worker and the supervisor have finished, and none of them can take another step.\<close>

theorem stop_leaves_nothing_running:
  assumes "reachable v" "sv_client v = Client_Idle" "\<not> sv_joinable v"
  shows "get_state (sv_shared v) = Stopped \<and> sv_supervisor v = Sup_Done
    \<and> list_all (\<lambda>w. th_pc w = Worker_Done) (sv_threads v) \<and> \<not> thread_step v v'"
proof -
  have inv: "stage_inv v" "client_inv v"
    using reachable_service_inv [OF assms(1)] by (simp_all add: service_inv_def)
  then have "get_state (sv_shared v) = Stopped" "sv_supervisor v = Sup_Done"
    using assms(2,3) by (auto simp: client_inv_def)
  with inv(1) no_thread_step_when_done [OF inv(1), of v'] show ?thesis
    by (auto simp: stage_inv_def all_done_def list_all_length)
qed

theorem stop_leaves_nothing_running_witness:
  "\<not> thread_step initial_service (initial_service\<lparr>sv_supervisor := Prepare\<rparr>)"
  using stop_leaves_nothing_running [OF reachable_initial, of "initial_service\<lparr>sv_supervisor := Prepare\<rparr>"]
  by (simp add: initial_service_def)


definition stop_called :: service where
  "stop_called =
     (one_worker stopping_shared Poll False Supervise Stop_Join)\<lparr>sv_joinable := False\<rparr>"

lemma reachable_stop_called: "reachable stop_called"
proof -
  let ?v = "one_worker running_shared Poll False Supervise Client_Idle"
  let ?v1 = "?v\<lparr>sv_client := Stop_Load, sv_shared := (sv_shared ?v)\<lparr>ss_locked := True\<rparr>\<rparr>"
  let ?v2 = "?v1\<lparr>sv_client := Stop_Store\<rparr>"
  let ?v3 = "?v2\<lparr>sv_client := Stop_Request, sv_shared := set_state Stopping (sv_shared ?v2)\<rparr>"
  let ?v4 = "?v3\<lparr>sv_client := Stop_Release, sv_shared := set_stop (sv_shared ?v3)\<rparr>"
  let ?v5 = "?v4\<lparr>sv_client := Stop_Join, sv_joinable := False,
    sv_shared := (sv_shared ?v4)\<lparr>ss_locked := False\<rparr>\<rparr>"
  have "reachable ?v1" by (rule reachable_client [OF reachable_running client_move.stop]) simp_all
  then have "reachable ?v2" by (rule reachable_client [OF _ client_move.stop_other]) simp_all
  then have "reachable ?v3" by (rule reachable_client [OF _ client_move.stop_store]) simp_all
  then have "reachable ?v4" by (rule reachable_client [OF _ client_move.stop_request]) simp_all
  then have "reachable ?v5" by (rule reachable_client [OF _ client_move.stop_release]) simp_all
  then show ?thesis by (simp add: stop_called_def stopping_shared_def one_worker_def)
qed


text \<open>
  C22. Once the supervisor joins its workers, only finitely many steps are left: no schedule of the
  threads takes more than \<open>steps_left\<close> steps, and as long as the supervisor has not finished and
  the client does not hold the mutex, some thread can take one.\<close>

theorem joining_terminates:
  assumes "reachable v" "draining (sv_supervisor v)" "\<not> has_mutex (sv_client v)"
    "(thread_step ^^ m) v v'"
  shows "m + steps_left v' \<le> steps_left v \<and> (sv_supervisor v' = Sup_Done \<or> (\<exists>v''. thread_step v' v''))"
  using assms
proof (induction m arbitrary: v)
  case 0
  have inv: "service_inv v" using 0 by (simp add: reachable_service_inv)
  show ?case
  proof (cases "sv_supervisor v = Sup_Done")
    case False
    have "\<exists>w. thread_step v w"
      using inv False 0 by (intro draining_progress) (simp_all add: unlocked_iff reachable_publishing_ok)
    then show ?thesis using 0 by simp
  qed (use 0 in simp)
next
  case (Suc m)
  obtain w where w: "thread_step v w" "(thread_step ^^ m) w v'"
    using relpowp_Suc_D2 [OF Suc.prems(4)] by blast
  have "draining (sv_supervisor w) \<and> steps_left w < steps_left v"
    by (rule draining_step [OF reachable_service_inv [OF Suc.prems(1)] Suc.prems(2) w(1)])
  moreover have "sv_client w = sv_client v" using thread_step_client [OF w(1)] by simp
  ultimately show ?case
    using Suc.IH [OF reachable_thread [OF Suc.prems(1) w(1)] _ _ w(2)] Suc.prems(3) by auto
qed

theorem joining_terminates_witness:
  "\<exists>v. thread_step (one_worker stopping_shared Poll True (Join 0) Client_Idle) v"
  using joining_terminates [OF reachable_joining, of 0] by simp

lemma four_steps: "P a b \<Longrightarrow> P b c \<Longrightarrow> P c d \<Longrightarrow> P d e \<Longrightarrow> (P ^^ 4) a e"
  by (auto simp: eval_nat_numeral relcompp_apply)

text \<open>
  A \<open>request_stop\<close> that comes when the transmission has just ended by itself, as one with a
  limit does, sets the state to \<open>Stopping\<close> for good: no thread is left to set it to \<open>Stopped\<close>, so a
  client that polls for \<open>Stopped\<close>, as the command line does, waits forever.\<close>

theorem late_request_sticks:
  assumes "reachable v" "sv_client v = Client_Idle" "sv_joinable v" "sv_supervisor v = Sup_Done"
    "get_state (sv_shared v) = Stopped"
  shows "\<exists>v'. (client_move ^^ 4) v v' \<and> sv_client v' = Client_Idle
    \<and> get_state (sv_shared v') = Stopping \<and> (\<forall>v''. \<not> thread_step v' v'')"
proof -
  let ?v1 = "v\<lparr>sv_client := Request_Load, sv_shared := (sv_shared v)\<lparr>ss_locked := True\<rparr>\<rparr>"
  let ?v2 = "?v1\<lparr>sv_client := Request_Store\<rparr>"
  let ?v3 = "?v2\<lparr>sv_client := Request_Stop, sv_shared := set_state Stopping (sv_shared ?v2)\<rparr>"
  let ?v4 = "?v3\<lparr>sv_client := Client_Idle, sv_shared := (set_stop (sv_shared ?v3))\<lparr>ss_locked := False\<rparr>\<rparr>"
  have 1: "client_move v ?v1" by (rule client_move.request [OF assms(2,3)])
  have 2: "client_move ?v1 ?v2" by (rule client_move.request_other) (simp_all add: assms(5))
  have 3: "client_move ?v2 ?v3" by (rule client_move.request_store) simp
  have 4: "client_move ?v3 ?v4" by (rule client_move.request_stop) simp
  have "(client_move ^^ 4) v ?v4" by (rule four_steps [of client_move, OF 1 2 3 4])
  moreover have "\<not> thread_step ?v4 v''" for v''
  proof (rule no_thread_step_when_done)
    show "stage_inv ?v4" using reachable_service_inv [OF assms(1)] by (simp add: service_inv_def stage_inv_def)
  qed (simp add: assms(4))
  ultimately show ?thesis by (intro exI [of _ ?v4]) simp
qed

lemma reachable_ended:
  "reachable (one_worker (set_state Stopped (set_finished 9 (add_counts 0 0 0 stopping_shared)))
     Worker_Done True Sup_Done Client_Idle)"
proof (rule reachable_after_join)
  show "reachable (one_worker (add_counts 0 0 0 stopping_shared) Worker_Done True (Join 0) Client_Idle)"
    using reachable_joining by (rule one_worker_worker) (simp add: worker_move.poll_stopped)
qed simp_all

theorem late_request_sticks_witness:
  "\<exists>v. get_state (sv_shared v) = Stopping \<and> (\<forall>v'. \<not> thread_step v v')"
  using late_request_sticks [OF reachable_ended] by auto

text \<open>
  A failure can go unreported: with the error message recorded and the error counted, the
  transmission can end in the state \<open>Stopped\<close> instead of \<open>Failed\<close>, because \<open>request_stop\<close> reads the
  state and stores \<open>Stopping\<close> in two steps between which a worker stores \<open>Failed\<close>.\<close>

theorem failure_can_be_lost:
  "\<exists>v. reachable v \<and> sv_client v = Client_Idle \<and> sv_joinable v \<and> sv_supervisor v = Sup_Done
     \<and> get_state (sv_shared v) = Stopped
     \<and> sm_last_error (ss_members (sv_shared v)) = ''connection reset''
     \<and> sm_errors (ss_members (sv_shared v)) = 1"
proof -
  let ?m = "''connection reset''"
  let ?s = "running_shared\<lparr>ss_locked := True\<rparr>"
  let ?s1 = "count_error (add_counts 0 0 0 ?s)"
  let ?s2 = "set_stop (set_state Failed (record_error ?m ?s1))"
  let ?s3 = "(set_stop (set_state Stopping ?s2))\<lparr>ss_locked := False\<rparr>"
  let ?s4 = "set_state Stopped (set_finished 9 ?s3)"
  have "reachable (one_worker ?s Poll False Supervise Request_Store)"
    by (intro reachable_request reachable_running) simp
  then have "reachable (one_worker ?s Send False Supervise Request_Store)"
    by (rule one_worker_worker) (simp add: worker_move.poll_going)
  then have "reachable (one_worker (add_counts 0 0 0 ?s) (Count_Error ?m) False Supervise Request_Store)"
    by (rule one_worker_worker) (rule worker_move.failed)
  then have "reachable (one_worker ?s1 (Publish (Record_Error ?m)) False Supervise Request_Store)"
    by (rule one_worker_worker) (rule worker_move.count_error)
  then have "reachable (one_worker (record_error ?m ?s1) (Publish Store_Failed) False Supervise Request_Store)"
    by (rule one_worker_worker) (auto intro: worker_move.publish publish_step.record_error)
  then have "reachable (one_worker (set_state Failed (record_error ?m ?s1)) (Publish Fail_Stop) False
      Supervise Request_Store)"
    by (rule one_worker_worker) (auto intro: worker_move.publish publish_step.store_failed)
  then have "reachable (one_worker ?s2 Worker_Done False Supervise Request_Store)"
    by (rule one_worker_worker) (auto intro: worker_move.published publish_step.fail_stop)
  then have "reachable (one_worker ?s3 Worker_Done False Supervise Client_Idle)"
    by (rule reachable_requested)
  then have "reachable (one_worker ?s3 Worker_Done True (Join 0) Client_Idle)"
    by (rule reachable_after_request) (simp add: set_stop_def)
  then have "reachable (one_worker ?s4 Worker_Done True Sup_Done Client_Idle)"
    by (rule reachable_after_join) simp_all
  then show ?thesis
    by (intro exI [of _ "one_worker ?s4 Worker_Done True Sup_Done Client_Idle"] conjI)
      (simp_all add: shared_updates running_shared_def start_shared_def reset_members_def get_state_def)
qed

end
