(* ===== verification/Cli.thy ===== *)
theory Cli
  imports Lifecycle Catalog_Service Calendar
begin

text \<open>
  The command line front end (\<open>src/src/presentation/cli_app.cpp\<close>): parsing and checking of the
  arguments, the choice of the templates, the exit codes, and the loop that watches a running
  transmission. The catalog is the use case's \<open>load\<close>, an argument; the texts of error messages and
  the printing of help and statistics are not modelled.
\<close>

subsection \<open>Values\<close>

datatype cli_error =
    Unknown_Command | Missing_Value string | Unknown_Option string
  | Not_Unsigned string string | Not_Signed string string
  | Bad_Date_Format string | Invalid_Date string
  | Bad_Sample_Id | Bad_Protocol | Zero_Port | Bad_Integration | Bad_Framing | Bad_Mode
  | Duration_Too_Large | Bad_Status_Interval | File_Size_Too_Large | File_Duration_Too_Large
  | All_With_Ids | No_Ids | Ids_With_List | Bad_Ip | Packing_Without_Udp
  | Half_A_Range | Reversed_Range | Offset_Too_Large
  | Unknown_Sample_Id string | No_Samples_To_Run | No_Network_Destination

abbreviation max_u64 :: nat where "max_u64 \<equiv> 2 ^ 64 - 1"
abbreviation max_i64 :: nat where "max_i64 \<equiv> 2 ^ 63 - 1"
abbreviation max_i32 :: nat where "max_i32 \<equiv> 2 ^ 31 - 1"

text \<open>\<open>parse_unsigned<Value>\<close>, with the largest \<open>Value\<close>.\<close>

definition parse_unsigned :: "nat \<Rightarrow> string \<Rightarrow> string \<Rightarrow> cli_error + nat" where
  "parse_unsigned limit text' option =
     (case from_chars_unsigned max_u64 text' of
        (ec, n, parsed) \<Rightarrow>
          if text' = [] \<or> ec \<noteq> No_Error \<or> n \<noteq> length text' \<or> limit < parsed
          then Inl (Not_Unsigned option text') else Inr parsed)"

definition parse_signed :: "string \<Rightarrow> string \<Rightarrow> cli_error + int" where
  "parse_signed text' option =
     (case from_chars_signed max_i64 text' of
        (ec, n, parsed) \<Rightarrow>
          if text' = [] \<or> ec \<noteq> No_Error \<or> n \<noteq> length text'
          then Inl (Not_Signed option text') else Inr parsed)"

text \<open>A date as its number of days since the epoch.\<close>

definition parse_date :: "string \<Rightarrow> string \<Rightarrow> cli_error + int" where
  "parse_date text' option =
     (if length text' \<noteq> 10 \<or> text' ! 4 \<noteq> CHR ''-'' \<or> text' ! 7 \<noteq> CHR ''-''
      then Inl (Bad_Date_Format option)
      else
        let (year_ec, year_n, year) = from_chars_signed max_i32 (take 4 text');
            (month_ec, month_n, month) = from_chars_unsigned (2 ^ 32 - 1) (take 2 (drop 5 text'));
            (day_ec, day_n, day) = from_chars_unsigned (2 ^ 32 - 1) (take 2 (drop 8 text'))
        in if year_ec \<noteq> No_Error \<or> year_n \<noteq> 4 \<or> month_ec \<noteq> No_Error \<or> month_n \<noteq> 2
              \<or> day_ec \<noteq> No_Error \<or> day_n \<noteq> 2
           then Inl (Invalid_Date option)
           else if \<not> (1 \<le> month \<and> month \<le> 12 \<and> 1 \<le> day \<and> int day \<le> days_in_month year (int month))
           then Inl (Invalid_Date option)
           else Inr (days_from_civil (year, int month, int day)))"

text \<open>The loop of \<open>valid_ipv4\<close> over the rest of the text: the number of segments, or a failure.\<close>

definition valid_octet :: "string \<Rightarrow> bool" where
  "valid_octet part \<longleftrightarrow>
     part \<noteq> [] \<and> length part \<le> 3
     \<and> (case from_chars_signed max_i32 part of
          (ec, n, number) \<Rightarrow> ec = No_Error \<and> n = length part \<and> 0 \<le> number \<and> number \<le> 255)"

function ipv4_segments :: "nat \<Rightarrow> string \<Rightarrow> nat option" where
  "ipv4_segments segments rest =
     (let part = takeWhile (\<lambda>c. c \<noteq> CHR ''.'') rest in
      if \<not> valid_octet part then None
      else if length part = length rest then Some (segments + 1)
      else ipv4_segments (segments + 1) (drop (length part + 1) rest))"
  by pat_completeness auto
termination
proof (relation "measure (\<lambda>(segments, rest). length rest)", goal_cases)
  case (2 segments rest part)
  then have "length (takeWhile (\<lambda>c. c \<noteq> CHR ''.'') rest) < length rest"
    using length_takeWhile_le [of "\<lambda>c. c \<noteq> CHR ''.''" rest] by simp
  then show ?case by (simp add: 2(1))
qed simp

declare ipv4_segments.simps [simp del]

definition valid_ipv4 :: "string \<Rightarrow> bool" where
  "valid_ipv4 s \<longleftrightarrow> ipv4_segments 0 s = Some 4"

fun state_name :: "generator_state \<Rightarrow> string" where
  "state_name Stopped = ''STOPPED''"
| "state_name Connecting = ''CONNECTING''"
| "state_name Running = ''RUNNING''"
| "state_name Stopping = ''STOPPING''"
| "state_name Failed = ''FAILED''"

subsection \<open>Options\<close>

datatype cli_command = Help | List_Samples | Run

record cli_options =
  co_command :: cli_command
  co_config :: generator_config
  co_catalog_file :: string
  co_sample_ids :: "string list"
  co_duration :: int          \<comment> \<open>seconds\<close>
  co_status_interval :: int   \<comment> \<open>milliseconds\<close>
  co_all_samples :: bool
  co_quiet :: bool

text \<open>What \<open>parse_arguments\<close> keeps while it reads the options; dates are days.\<close>

record cli_parse =
  cp_options :: cli_options
  cp_range_start :: "int option"
  cp_range_end :: "int option"
  cp_offset_minutes :: int

definition initial_options :: cli_options where
  "initial_options =
     \<lparr>co_command = Help, co_config = default_config\<lparr>gc_endpoint := default_endpoint\<lparr>ep_protocol := File\<rparr>\<rparr>,
      co_catalog_file = [], co_sample_ids = [], co_duration = 0, co_status_interval = 1000,
      co_all_samples = False, co_quiet = False\<rparr>"

definition initial_parse :: cli_parse where
  "initial_parse =
     \<lparr>cp_options = initial_options, cp_range_start = None, cp_range_end = None, cp_offset_minutes = 0\<rparr>"

definition edit_options :: "(cli_options \<Rightarrow> cli_options) \<Rightarrow> cli_parse \<Rightarrow> cli_parse" where
  "edit_options f p = p\<lparr>cp_options := f (cp_options p)\<rparr>"

definition edit_config :: "(generator_config \<Rightarrow> generator_config) \<Rightarrow> cli_parse \<Rightarrow> cli_parse" where
  "edit_config f = edit_options (\<lambda>o'. o'\<lparr>co_config := f (co_config o')\<rparr>)"

definition edit_endpoint :: "(endpoint_config \<Rightarrow> endpoint_config) \<Rightarrow> cli_parse \<Rightarrow> cli_parse" where
  "edit_endpoint f = edit_config (\<lambda>c. c\<lparr>gc_endpoint := f (gc_endpoint c)\<rparr>)"

text \<open>The options without a value.\<close>

definition flag_option :: "string \<Rightarrow> (cli_parse \<Rightarrow> cli_parse) option" where
  "flag_option option =
     (if option = ''--help'' \<or> option = ''-h'' then Some (edit_options (\<lambda>o'. o'\<lparr>co_command := Help\<rparr>))
      else if option = ''--all'' then Some (edit_options (\<lambda>o'. o'\<lparr>co_all_samples := True\<rparr>))
      else if option = ''--insecure'' then Some (edit_endpoint (\<lambda>e. e\<lparr>ep_verify_certificate := False\<rparr>))
      else if option = ''--quiet'' then Some (edit_options (\<lambda>o'. o'\<lparr>co_quiet := True\<rparr>))
      else None)"

definition add_sample_id :: "string \<Rightarrow> cli_parse \<Rightarrow> cli_error + cli_parse" where
  "add_sample_id sample_id p =
     (if \<not> valid_sample_id sample_id then Inl Bad_Sample_Id
      else Inr (edit_options (\<lambda>o'. o'\<lparr>co_sample_ids := co_sample_ids o' @ [sample_id]\<rparr>) p))"

definition parse_protocol :: "string \<Rightarrow> cli_error + transport_protocol" where
  "parse_protocol name' =
     (if lowercase name' = ''udp'' then Inr Udp
      else if lowercase name' = ''tcp'' then Inr Tcp
      else if lowercase name' = ''tls'' then Inr Tls
      else if lowercase name' = ''file'' then Inr File
      else Inl Bad_Protocol)"

definition parse_integration :: "string \<Rightarrow> cli_error + udp_packetization" where
  "parse_integration name' =
     (if lowercase name' = ''deny'' then Inr OneEventPerDatagram
      else if lowercase name' = ''allow'' then Inr NewlinePacked
      else Inl Bad_Integration)"

definition parse_framing :: "string \<Rightarrow> cli_error + stream_framing" where
  "parse_framing name' =
     (if lowercase name' = ''newline'' then Inr Newline
      else if lowercase name' = ''octet'' then Inr OctetCounting
      else Inl Bad_Framing)"

definition parse_mode :: "string \<Rightarrow> cli_error + transmission_mode" where
  "parse_mode name' =
     (if lowercase name' = ''sequential'' then Inr Sequential
      else if lowercase name' = ''parallel'' then Inr Parallel
      else Inl Bad_Mode)"

text \<open>The numbers that are checked further.\<close>

definition parse_port :: "string \<Rightarrow> string \<Rightarrow> cli_error + nat" where
  "parse_port text' option =
     bind_result (parse_unsigned (2 ^ 16 - 1) text' option) (\<lambda>port.
       if port = 0 then Inl Zero_Port else Inr port)"

definition parse_duration :: "string \<Rightarrow> string \<Rightarrow> cli_error + nat" where
  "parse_duration text' option =
     bind_result (parse_unsigned max_u64 text' option) (\<lambda>seconds.
       if max_i64 < seconds then Inl Duration_Too_Large else Inr seconds)"

definition parse_status_interval :: "string \<Rightarrow> string \<Rightarrow> cli_error + nat" where
  "parse_status_interval text' option =
     bind_result (parse_unsigned max_u64 text' option) (\<lambda>seconds.
       if seconds = 0 \<or> max_i64 div 1000 < seconds then Inl Bad_Status_Interval else Inr (seconds * 1000))"

definition parse_file_mib :: "string \<Rightarrow> string \<Rightarrow> cli_error + nat" where
  "parse_file_mib text' option =
     bind_result (parse_unsigned max_u64 text' option) (\<lambda>mib.
       if max_u64 div (1024 * 1024) < mib then Inl File_Size_Too_Large else Inr (mib * (1024 * 1024)))"

definition parse_file_duration :: "string \<Rightarrow> string \<Rightarrow> cli_error + nat" where
  "parse_file_duration text' option =
     bind_result (parse_unsigned max_u64 text' option) (\<lambda>seconds.
       if max_i64 div 1000 < seconds then Inl File_Duration_Too_Large else Inr (seconds * 1000))"

text \<open>The options with a value, given the value.\<close>

definition value_option :: "string \<Rightarrow> (string \<Rightarrow> cli_parse \<Rightarrow> cli_error + cli_parse) option" where
  "value_option option =
     (if option = ''--catalog'' then Some (\<lambda>v p. Inr (edit_options (\<lambda>o'. o'\<lparr>co_catalog_file := v\<rparr>) p))
      else if option = ''--sample-id'' then Some add_sample_id
      else if option = ''--protocol'' then Some (\<lambda>v p.
        bind_result (parse_protocol v) (\<lambda>x. Inr (edit_endpoint (\<lambda>e. e\<lparr>ep_protocol := x\<rparr>) p)))
      else if option = ''--host'' then Some (\<lambda>v p. Inr (edit_endpoint (\<lambda>e. e\<lparr>ep_host := v\<rparr>) p))
      else if option = ''--port'' then Some (\<lambda>v p.
        bind_result (parse_port v option) (\<lambda>x. Inr (edit_endpoint (\<lambda>e. e\<lparr>ep_port := of_nat x\<rparr>) p)))
      else if option = ''--udp-integration'' then Some (\<lambda>v p.
        bind_result (parse_integration v) (\<lambda>x. Inr (edit_endpoint (\<lambda>e. e\<lparr>ep_udp_packetization := x\<rparr>) p)))
      else if option = ''--tls-server-name'' then Some (\<lambda>v p.
        Inr (edit_endpoint (\<lambda>e. e\<lparr>ep_tls_server_name := v\<rparr>) p))
      else if option = ''--framing'' then Some (\<lambda>v p.
        bind_result (parse_framing v) (\<lambda>x. Inr (edit_endpoint (\<lambda>e. e\<lparr>ep_framing := x\<rparr>) p)))
      else if option = ''--source-ip'' then Some (\<lambda>v p. Inr (edit_config (\<lambda>c. c\<lparr>gc_source_ip := v\<rparr>) p))
      else if option = ''--destination-ip'' then Some (\<lambda>v p.
        Inr (edit_config (\<lambda>c. c\<lparr>gc_destination_ip := v\<rparr>) p))
      else if option = ''--mode'' then Some (\<lambda>v p.
        bind_result (parse_mode v) (\<lambda>x. Inr (edit_config (\<lambda>c. c\<lparr>gc_transmission_mode := x\<rparr>) p)))
      else if option = ''--eps'' then Some (\<lambda>v p.
        bind_result (parse_unsigned max_u64 v option) (\<lambda>x.
          Inr (edit_config (\<lambda>c. c\<lparr>gc_target_eps := of_nat x\<rparr>) p)))
      else if option = ''--duration'' then Some (\<lambda>v p.
        bind_result (parse_duration v option) (\<lambda>x. Inr (edit_options (\<lambda>o'. o'\<lparr>co_duration := int x\<rparr>) p)))
      else if option = ''--status-interval'' then Some (\<lambda>v p.
        bind_result (parse_status_interval v option) (\<lambda>x.
          Inr (edit_options (\<lambda>o'. o'\<lparr>co_status_interval := int x\<rparr>) p)))
      else if option = ''--output-dir'' then Some (\<lambda>v p.
        Inr (edit_endpoint (\<lambda>e. e\<lparr>ep_file_output_directory := v\<rparr>) p))
      else if option = ''--file-max-mib'' then Some (\<lambda>v p.
        bind_result (parse_file_mib v option) (\<lambda>x.
          Inr (edit_endpoint (\<lambda>e. e\<lparr>ep_file_max_total_bytes := of_nat x\<rparr>) p)))
      else if option = ''--file-max-count'' then Some (\<lambda>v p.
        bind_result (parse_unsigned (2 ^ 32 - 1) v option) (\<lambda>x.
          Inr (edit_endpoint (\<lambda>e. e\<lparr>ep_file_max_count := of_nat x\<rparr>) p)))
      else if option = ''--file-max-duration'' then Some (\<lambda>v p.
        bind_result (parse_file_duration v option) (\<lambda>x.
          Inr (edit_endpoint (\<lambda>e. e\<lparr>ep_file_max_duration := int x\<rparr>) p)))
      else if option = ''--offset-minutes'' then Some (\<lambda>v p.
        bind_result (parse_signed v option) (\<lambda>x. Inr (p\<lparr>cp_offset_minutes := x\<rparr>)))
      else if option = ''--from'' then Some (\<lambda>v p.
        bind_result (parse_date v option) (\<lambda>x. Inr (p\<lparr>cp_range_start := Some x\<rparr>)))
      else if option = ''--to'' then Some (\<lambda>v p.
        bind_result (parse_date v option) (\<lambda>x. Inr (p\<lparr>cp_range_end := Some x\<rparr>)))
      else None)"

fun parse_options :: "string list \<Rightarrow> cli_parse \<Rightarrow> cli_error + cli_parse" where
  "parse_options [] p = Inr p"
| "parse_options [option] p =
     (case flag_option option of
        Some f \<Rightarrow> Inr (f p)
      | None \<Rightarrow> Inl (if value_option option = None then Unknown_Option option else Missing_Value option))"
| "parse_options (option # arg # rest) p =
     (case flag_option option of
        Some f \<Rightarrow> parse_options (arg # rest) (f p)
      | None \<Rightarrow>
          (case value_option option of
             Some g \<Rightarrow> bind_result (g arg p) (parse_options rest)
           | None \<Rightarrow> Inl (Unknown_Option option)))"

subsection \<open>The checks after the options\<close>

definition check_selection :: "cli_options \<Rightarrow> cli_error + unit" where
  "check_selection o' =
     (if co_command o' = Run then
        (if co_all_samples o' \<and> co_sample_ids o' \<noteq> [] then Inl All_With_Ids
         else if \<not> co_all_samples o' \<and> co_sample_ids o' = [] then Inl No_Ids
         else Inr ())
      else if co_command o' = List_Samples \<and> (co_all_samples o' \<or> co_sample_ids o' \<noteq> []) then Inl Ids_With_List
      else Inr ())"

text \<open>The magnitude is an unsigned number of 64 bits, so that the least offset has one.\<close>

definition offset_of_minutes :: "int \<Rightarrow> cli_error + time_offset" where
  "offset_of_minutes offset_minutes =
     (let magnitude = (if offset_minutes < 0 then nat (- (offset_minutes + 1)) + 1 else nat offset_minutes)
      in if max_i32 < magnitude div (24 * 60) then Inl Offset_Too_Large
         else Inr \<lparr>to_negative = offset_minutes < 0, to_days = int (magnitude div (24 * 60)),
                   to_hours = int (magnitude mod (24 * 60) div 60), to_minutes = int (magnitude mod 60)\<rparr>)"

definition set_generation :: "cli_parse \<Rightarrow> cli_error + timestamp_generation" where
  "set_generation p =
     (let generation = gc_timestamp_generation (co_config (cp_options p)) in
      case (cp_range_start p, cp_range_end p) of
        (Some a, Some b) \<Rightarrow>
          if b < a then Inl Reversed_Range
          else Inr (generation\<lparr>tg_mode := Range,
                               tg_range := \<lparr>tr_start = 86400 * a, tr_end = 86400 * (b + 1) - 1\<rparr>\<rparr>)
      | (None, None) \<Rightarrow>
          bind_result (offset_of_minutes (cp_offset_minutes p)) (\<lambda>x. Inr (generation\<lparr>tg_offset := x\<rparr>))
      | _ \<Rightarrow> Inl Half_A_Range)"

definition finish_options :: "cli_parse \<Rightarrow> cli_error + cli_options" where
  "finish_options p =
     (let o' = cp_options p; config = co_config o' in
      bind_result (check_selection o') (\<lambda>_.
      bind_result (require_that (valid_ipv4 (gc_source_ip config) \<and> valid_ipv4 (gc_destination_ip config)) Bad_Ip)
        (\<lambda>_.
      bind_result (require_that (\<not> (ep_udp_packetization (gc_endpoint config) = NewlinePacked
                                   \<and> ep_protocol (gc_endpoint config) \<noteq> Udp)) Packing_Without_Udp) (\<lambda>_.
      bind_result (set_generation p) (\<lambda>generation.
        Inr (o'\<lparr>co_config := config\<lparr>gc_timestamp_generation := generation\<rparr>\<rparr>))))))"

definition parse_command :: "string \<Rightarrow> cli_error + cli_command" where
  "parse_command command =
     (if command = ''list'' then Inr List_Samples
      else if command = ''run'' then Inr Run
      else Inl Unknown_Command)"

fun parse_arguments :: "string list \<Rightarrow> cli_error + cli_options" where
  "parse_arguments [] = Inr initial_options"
| "parse_arguments (first # options) =
     (let command = lowercase first in
      if command = ''--help'' \<or> command = ''-h'' \<or> command = ''help'' then Inr initial_options
      else bind_result (parse_command command) (\<lambda>c.
           bind_result (parse_options options (edit_options (\<lambda>o'. o'\<lparr>co_command := c\<rparr>) initial_parse))
             finish_options))"

subsection \<open>Commands\<close>

text \<open>
  The loop over the catalog: the requested templates in the order of the catalog, and the ids that are
  left. \<open>requested\<close> is the set, each id once.
\<close>

fun select_templates :: "string list \<Rightarrow> log_template list \<Rightarrow> log_template list \<times> string list" where
  "select_templates requested [] = ([], requested)"
| "select_templates requested (item # items) =
     (if lt_id item \<in> set requested
      then let (selected, rest) = select_templates (removeAll (lt_id item) requested) items
           in (item # selected, rest)
      else select_templates requested items)"

text \<open>
  The catalog comes from the use case's \<open>load\<close>; \<open>first\<close> is the element of a hash set that its
  \<open>begin()\<close> is.
\<close>

datatype cli_failure =
    Usage cli_error
  | Load_Failed "catalog_error service_error"
  | Not_Started start_error

definition choose_templates ::
    "(string list \<Rightarrow> string) \<Rightarrow> cli_options \<Rightarrow> log_template list \<Rightarrow> cli_error + log_template list" where
  "choose_templates first o' catalog =
     (if co_all_samples o' then Inr catalog
      else let (selected, rest) = select_templates (remdups (co_sample_ids o')) catalog
           in if rest \<noteq> [] then Inl (Unknown_Sample_Id (first rest)) else Inr selected)"

text \<open>\<open>run_generator\<close> up to the start.\<close>

definition prepare_run ::
    "(string list \<Rightarrow> string) \<Rightarrow> (string \<Rightarrow> catalog_error service_error + log_template list) \<Rightarrow> cli_options
       \<Rightarrow> cli_failure + generator_config" where
  "prepare_run first load o' =
     (case load (co_catalog_file o') of
        Inl e \<Rightarrow> Inl (Load_Failed e)
      | Inr catalog \<Rightarrow>
          (case choose_templates first o' catalog of
             Inl e \<Rightarrow> Inl (Usage e)
           | Inr selected \<Rightarrow>
               let config = (co_config o')\<lparr>gc_templates := selected\<rparr>; endpoint = gc_endpoint config in
               if selected = [] then Inl (Usage No_Samples_To_Run)
               else if ep_protocol endpoint \<noteq> File \<and> (ep_host endpoint = [] \<or> ep_port endpoint = 0)
               then Inl (Usage No_Network_Destination)
               else Inr config))"

text \<open>What \<open>list_catalog\<close> prints; the last line says how many samples there are.\<close>

definition catalog_lines :: "log_template list \<Rightarrow> string" where
  "catalog_lines items =
     concat (map (\<lambda>item. lt_id item @ TAB # lt_name item @ [LF]) items)
     @ bytes [0xEC, 0xB4, 0x9D] @ '' '' @ to_dec (length items)
     @ bytes [0xEA, 0xB0, 0x9C] @ '' '' @ bytes [0xEC, 0x83, 0x98, 0xED, 0x94, 0x8C] @ [LF]"

text \<open>Which exceptions are \<open>std::invalid_argument\<close>: these exit with 2, all others with 1.\<close>

fun is_invalid_argument :: "cli_failure \<Rightarrow> bool" where
  "is_invalid_argument (Usage e) = True"
| "is_invalid_argument (Not_Started e) = True"
| "is_invalid_argument (Load_Failed (Catalog_Failed e)) = False"
| "is_invalid_argument (Load_Failed (Id_Failed e)) = (case e of Id_Not_Digits x \<Rightarrow> True | Duplicate_Id x \<Rightarrow> True | _ \<Rightarrow> False)"
| "is_invalid_argument (Load_Failed (Expand_Failed e)) = (e \<noteq> Out_Of_Range)"

definition exit_code :: "cli_failure + int \<Rightarrow> int" where
  "exit_code r = (case r of Inl e \<Rightarrow> (if is_invalid_argument e then 2 else 1) | Inr code' \<Rightarrow> code')"

subsection \<open>Watching a transmission\<close>

text \<open>
  Times are nanoseconds of the steady clock, of 64 bits: what converts seconds and milliseconds to
  them multiplies without a check, and the product wraps on the platforms in use.
\<close>

definition wrap_i64 :: "int \<Rightarrow> int" where
  "wrap_i64 x = (x + 2 ^ 63) mod 2 ^ 64 - 2 ^ 63"

definition seconds_to_ns :: "int \<Rightarrow> int" where
  "seconds_to_ns s = wrap_i64 (s * 1000000000)"

definition milliseconds_to_ns :: "int \<Rightarrow> int" where
  "milliseconds_to_ns s = wrap_i64 (s * 1000000)"

record monitor =
  mo_next_status :: int
  mo_stop_requested :: bool

text \<open>What an iteration sees: the statistics, the time, and whether a signal has come.\<close>

record observation =
  ob_stats :: transmission_stats
  ob_now :: int
  ob_signal :: bool

datatype monitor_action = Ask_To_Stop | Print_Status

definition monitor_init :: "cli_options \<Rightarrow> int \<Rightarrow> monitor" where
  "monitor_init o' started =
     \<lparr>mo_next_status = wrap_i64 (started + milliseconds_to_ns (co_status_interval o')), mo_stop_requested = False\<rparr>"

text \<open>An iteration: the exit result, or what it does and the state for the next one.\<close>

definition monitor_step ::
    "cli_options \<Rightarrow> int \<Rightarrow> observation \<Rightarrow> monitor \<Rightarrow> int + monitor_action list \<times> monitor" where
  "monitor_step o' started ob m =
     (let stats = ob_stats ob in
      if ts_state stats = Failed then Inl 1
      else if ts_state stats = Stopped \<and> mo_stop_requested m then Inl 0
      else if ts_status stats \<noteq> [] \<and> ts_state stats = Stopped then Inl 0
      else
        let ask = \<not> mo_stop_requested m
              \<and> (ob_signal ob \<or> (0 < co_duration o' \<and> seconds_to_ns (co_duration o') \<le> ob_now ob - started));
            show_status = \<not> co_quiet o' \<and> mo_next_status m \<le> ob_now ob
        in Inr ((if ask then [Ask_To_Stop] else []) @ (if show_status then [Print_Status] else []),
                \<lparr>mo_next_status = (if show_status then wrap_i64 (ob_now ob + milliseconds_to_ns (co_status_interval o'))
                                  else mo_next_status m),
                 mo_stop_requested = mo_stop_requested m \<or> ask\<rparr>))"

text \<open>The loop over the observations, until it exits; the actions it takes and its result.\<close>

fun monitor_run ::
    "cli_options \<Rightarrow> int \<Rightarrow> observation list \<Rightarrow> monitor \<Rightarrow> monitor_action list \<times> int option" where
  "monitor_run o' started [] m = ([], None)"
| "monitor_run o' started (ob # obs) m =
     (case monitor_step o' started ob m of
        Inl result \<Rightarrow> ([], Some result)
      | Inr (actions, m') \<Rightarrow>
          let (rest, result) = monitor_run o' started obs m' in (actions @ rest, result))"

text \<open>
  \<open>CliApp::run\<close>; \<open>watch\<close> is the result of the loop for the transmission that was started. A help
  command prints the help, whatever else was given.
\<close>

definition cli_run ::
    "(string list \<Rightarrow> string) \<Rightarrow> (string \<Rightarrow> catalog_error service_error + log_template list)
       \<Rightarrow> (transport_protocol \<Rightarrow> u32) \<Rightarrow> (cli_options \<Rightarrow> generator_config \<times> u32 \<Rightarrow> int) \<Rightarrow> string
       \<Rightarrow> string list \<Rightarrow> cli_failure + int" where
  "cli_run first load optimal watch default_catalog arguments =
     (case parse_arguments arguments of
        Inl e \<Rightarrow> Inl (Usage e)
      | Inr parsed \<Rightarrow>
          let o' = (if co_catalog_file parsed = [] then parsed\<lparr>co_catalog_file := default_catalog\<rparr> else parsed) in
          case co_command o' of
            Help \<Rightarrow> Inr 0
          | List_Samples \<Rightarrow>
              (case load (co_catalog_file o') of Inl e \<Rightarrow> Inl (Load_Failed e) | Inr items \<Rightarrow> Inr 0)
          | Run \<Rightarrow>
              (case prepare_run first load o' of
                 Inl e \<Rightarrow> Inl e
               | Inr config \<Rightarrow>
                   (case start_plan optimal config of
                      Inl e \<Rightarrow> Inl (Not_Started e)
                    | Inr plan \<Rightarrow> Inr (watch o' plan))))"

subsection \<open>Facts on numbers, dates and addresses\<close>

lemma read_unsigned_Inr:
  "(case from_chars_unsigned l s of (ec, k, v) \<Rightarrow>
      if s = [] \<or> ec \<noteq> No_Error \<or> k \<noteq> length s \<or> limit < v then Inl e else Inr v) = Inr n \<longleftrightarrow>
     s \<noteq> [] \<and> list_all is_digit s \<and> n = dec_value s \<and> n \<le> l \<and> n \<le> limit"
proof -
  obtain ec k v where f: "from_chars_unsigned l s = (ec, k, v)" by (cases "from_chars_unsigned l s")
  show ?thesis using from_chars_unsigned_full [of l s v] from_chars_unsigned_full [of l s "dec_value s"] f by auto
qed

lemma parse_unsigned_Inr:
  "parse_unsigned limit s option = Inr n \<longleftrightarrow>
     s \<noteq> [] \<and> list_all is_digit s \<and> n = dec_value s \<and> n \<le> max_u64 \<and> n \<le> limit"
  unfolding parse_unsigned_def by (rule read_unsigned_Inr)

lemma parse_file_mib_exact:
  "parse_file_mib s option = Inr n \<Longrightarrow> unat (of_nat n :: u64) = dec_value s * 2 ^ 20"
  by (auto simp: parse_file_mib_def result_simps parse_unsigned_Inr unat_of_nat take_bit_eq_mod split: if_splits)

lemma offset_of_minutes_value:
  assumes "offset_of_minutes m = Inr x"
  shows "time_offset_value x = 60 * m"
proof -
  let ?n = "nat \<bar>m\<bar>"
  have n: "(if m < 0 then nat (- (m + 1)) + 1 else nat m) = ?n" by auto
  have "x = \<lparr>to_negative = m < 0, to_days = int (?n div (24 * 60)),
      to_hours = int (?n mod (24 * 60) div 60), to_minutes = int (?n mod 60)\<rparr>"
    using assms by (simp only: offset_of_minutes_def Let_def n split: if_splits) simp_all
  moreover have "?n = ?n div (24 * 60) * (24 * 60) + ?n mod (24 * 60) div 60 * 60 + ?n mod 60"
  proof -
    have "?n mod 60 = ?n mod (24 * 60) mod 60" by (simp add: mod_mod_cancel)
    then show ?thesis
      using div_mult_mod_eq [of ?n "24 * 60"] div_mult_mod_eq [of "?n mod (24 * 60)" 60] by linarith
  qed
  then have "int ?n = int (?n div (24 * 60)) * 1440 + int (?n mod (24 * 60) div 60) * 60 + int (?n mod 60)"
    by linarith
  ultimately show ?thesis by (auto simp: time_offset_value_def Let_def)
qed

text \<open>What \<open>valid_ipv4\<close> takes for an octet: also a negative zero.\<close>

definition octet_text :: "string \<Rightarrow> bool" where
  "octet_text p \<longleftrightarrow>
     p \<noteq> [] \<and> length p \<le> 3 \<and> list_all is_digit p \<and> dec_value p \<le> 255 \<or> p = ''-0'' \<or> p = ''-00''"

lemma digit_not_minus: "is_digit c \<Longrightarrow> c \<noteq> CHR ''-''"
  by (auto simp: is_digit_def)

fun join_dots :: "string list \<Rightarrow> string" where
  "join_dots [] = []"
| "join_dots [p] = p"
| "join_dots (p # q # ps) = p @ CHR ''.'' # join_dots (q # ps)"

lemma digit_zero: "is_digit c \<Longrightarrow> digit_val c = 0 \<Longrightarrow> c = CHR ''0''"
proof -
  assume "is_digit c" "digit_val c = 0"
  then have "code c = 48" by (simp add: is_digit_def digit_val_def)
  then have "c = char_of (48 :: nat)" by (metis char_of_char)
  also have "\<dots> = CHR ''0''" by code_simp
  finally show ?thesis .
qed

lemma zero_digits:
  assumes "list_all is_digit ds" "dec_value ds = 0" "ds \<noteq> []" "length ds \<le> 2"
  shows "ds = ''0'' \<or> ds = ''00''"
proof -
  consider a where "ds = [a]" | a b where "ds = [a, b]"
    using assms(3,4) by (cases ds rule: remdups_adj.cases) auto
  then show ?thesis
    using assms(1,2) by cases (auto simp: dec_value_def intro!: digit_zero)
qed

lemma valid_octet_iff: "valid_octet p \<longleftrightarrow> octet_text p"
proof (cases "p \<noteq> [] \<and> hd p = CHR ''-''")
  case True
  then obtain ds where p: "p = CHR ''-'' # ds" by (cases p) auto
  have not_digits: "\<not> list_all is_digit p" by (auto simp: p dest: digit_not_minus)
  show ?thesis
  proof
    assume v: "valid_octet p"
    have ds: "list_all is_digit ds" "ds \<noteq> []" "dec_value ds = 0" "length ds \<le> 2"
      using v by (auto simp: valid_octet_def from_chars_signed_def Let_def p takeWhile_full_length takeWhile_all
          split: if_splits)
    then have "ds = ''0'' \<or> ds = ''00''" by (intro zero_digits)
    then show "octet_text p" by (auto simp: octet_text_def p)
  next
    assume "octet_text p"
    then have "p = ''-0'' \<or> p = ''-00''" using not_digits by (auto simp: octet_text_def)
    then show "valid_octet p"
      by (elim disjE) (simp_all add: valid_octet_def from_chars_signed_def is_digit_def dec_value_def digit_val_def)
  qed
next
  case False
  then have "valid_octet p \<longleftrightarrow> p \<noteq> [] \<and> length p \<le> 3 \<and> list_all is_digit p \<and> dec_value p \<le> 255"
    by (auto simp: valid_octet_def from_chars_signed_def Let_def takeWhile_full_length takeWhile_all
        split: if_splits)
  moreover have "p \<noteq> ''-0''" "p \<noteq> ''-00''" using False by auto
  ultimately show ?thesis by (simp add: octet_text_def)
qed

lemma octet_no_dot:
  assumes "octet_text p"
  shows "\<forall>c \<in> set p. c \<noteq> CHR ''.''"
  using assms by (auto simp: octet_text_def list_all_iff is_digit_def)

lemma segments_of_octets:
  "ps \<noteq> [] \<Longrightarrow> list_all octet_text ps \<Longrightarrow> ipv4_segments n (join_dots ps) = Some (n + length ps)"
proof (induction ps arbitrary: n rule: join_dots.induct)
  case (2 p)
  then have part: "takeWhile (\<lambda>c. c \<noteq> CHR ''.'') (join_dots [p]) = p"
    using octet_no_dot [of p] by (simp add: takeWhile_all list_all_iff)
  from 2 show ?case by (subst ipv4_segments.simps) (simp only: part, simp add: valid_octet_iff)
next
  case (3 p q ps)
  then have part: "takeWhile (\<lambda>c. c \<noteq> CHR ''.'') (join_dots (p # q # ps)) = p"
    using octet_no_dot [of p] by (simp add: takeWhile_append2)
  from 3 show ?case
    by (subst ipv4_segments.simps) (simp only: part, simp add: valid_octet_iff)
qed simp

lemma octets_of_segments:
  assumes "ipv4_segments n s = Some k"
  shows "\<exists>ps. ps \<noteq> [] \<and> list_all octet_text ps \<and> s = join_dots ps \<and> k = n + length ps"
  using assms
proof (induction n s rule: ipv4_segments.induct)
  case (1 n s)
  let ?part = "takeWhile (\<lambda>c. c \<noteq> CHR ''.'') s"
  let ?rest = "drop (length ?part + 1) s"
  have octet: "valid_octet ?part" using 1(2) by (subst (asm) ipv4_segments.simps) (simp add: Let_def split: if_splits)
  show ?case
  proof (cases "length ?part = length s")
    case True
    then have "?part = s" by (simp add: takeWhile_full_length takeWhile_all)
    then have "octet_text s" using octet valid_octet_iff [of ?part] by (simp only:)
    moreover have "k = n + 1"
      using 1(2) octet True by (subst (asm) ipv4_segments.simps) (simp only: Let_def simp_thms if_True if_False option.inject)
    ultimately show ?thesis by (intro exI [of _ "[s]"]) simp
  next
    case False
    then have less: "length ?part < length s"
      using length_takeWhile_le [of "\<lambda>c. c \<noteq> CHR ''.''" s] by simp
    have "ipv4_segments (n + 1) ?rest = Some k"
      using 1(2) octet False by (subst (asm) ipv4_segments.simps) (simp only: Let_def simp_thms if_True if_False)
    from 1(1) [OF refl _ False this] octet obtain ps where ps: "ps \<noteq> []" "list_all octet_text ps"
      "?rest = join_dots ps" "k = n + 1 + length ps" by blast
    have "s = ?part @ drop (length ?part) s" by (simp add: dropWhile_eq_drop [symmetric])
    also have "drop (length ?part) s = CHR ''.'' # ?rest"
      using nth_length_takeWhile [OF less] less by (simp add: Cons_nth_drop_Suc [symmetric])
    finally have "s = join_dots (?part # ps)" using ps(1,3) by (cases ps) auto
    with ps octet show ?thesis by (intro exI [of _ "?part # ps"]) (simp add: valid_octet_iff)
  qed
qed

lemma ipv4_segments_iff:
  "ipv4_segments n s = Some k \<longleftrightarrow>
     (\<exists>ps. ps \<noteq> [] \<and> list_all octet_text ps \<and> s = join_dots ps \<and> k = n + length ps)"
  using segments_of_octets octets_of_segments by metis

subsection \<open>Facts on the options\<close>

text \<open>What holds while the options are read.\<close>

definition parse_ok :: "cli_parse \<Rightarrow> bool" where
  "parse_ok p \<longleftrightarrow>
     list_all valid_sample_id (co_sample_ids (cp_options p))
     \<and> 0 \<le> co_duration (cp_options p) \<and> co_duration (cp_options p) \<le> int max_i64
     \<and> 1000 \<le> co_status_interval (cp_options p) \<and> co_status_interval (cp_options p) \<le> int max_i64
     \<and> 0 \<le> ep_file_max_duration (gc_endpoint (co_config (cp_options p)))
     \<and> ep_file_max_duration (gc_endpoint (co_config (cp_options p))) \<le> int max_i64
     \<and> gc_timestamp_generation (co_config (cp_options p)) = default_timestamp_generation"

lemmas edit_defs = edit_endpoint_def edit_config_def edit_options_def

lemma flag_option_ok: "flag_option option = Some f \<Longrightarrow> parse_ok p \<Longrightarrow> parse_ok (f p)"
  by (auto simp: flag_option_def parse_ok_def edit_defs split: if_splits)

lemma parse_numbers:
  "parse_duration s option = Inr n \<Longrightarrow> n \<le> max_i64"
  "parse_status_interval s option = Inr n \<Longrightarrow> 1000 \<le> n \<and> n \<le> max_i64"
  "parse_file_duration s option = Inr n \<Longrightarrow> n \<le> max_i64"
  by (auto simp: parse_duration_def parse_status_interval_def parse_file_duration_def result_simps
      split: if_splits)

lemma value_option_ok:
  assumes "value_option option = Some g" "g v p = Inr p'" "parse_ok p"
  shows "parse_ok p'"
  using assms
  by (auto simp: value_option_def parse_ok_def edit_defs add_sample_id_def result_simps
      dest!: parse_numbers split: if_splits)

lemma parse_options_ok: "parse_options options p = Inr p' \<Longrightarrow> parse_ok p \<Longrightarrow> parse_ok p'"
proof (induction options p rule: parse_options.induct)
  case (2 option p)
  then show ?case by (auto intro: flag_option_ok split: option.splits)
next
  case (3 option arg rest p)
  show ?case
  proof (cases "flag_option option")
    case None
    then obtain g where g: "value_option option = Some g"
      using 3(3) by (cases "value_option option") auto
    then obtain q where q: "g arg p = Inr q" "parse_options rest q = Inr p'"
      using 3(3) None by (auto simp: result_simps)
    show ?thesis using 3(1) [OF None g q] value_option_ok [OF g q(1) 3(4)] by blast
  next
    case (Some f)
    then show ?thesis using 3(2) [OF Some] 3(3,4) flag_option_ok by simp
  qed
qed simp

text \<open>What the checks after the options leave: see the property on accepted arguments.\<close>

definition accepted :: "cli_options \<Rightarrow> bool" where
  "accepted o' \<longleftrightarrow>
     list_all valid_sample_id (co_sample_ids o')
     \<and> (co_command o' = Run \<longrightarrow> co_all_samples o' \<noteq> (co_sample_ids o' \<noteq> []))
     \<and> (co_command o' = List_Samples \<longrightarrow> \<not> co_all_samples o' \<and> co_sample_ids o' = [])
     \<and> valid_ipv4 (gc_source_ip (co_config o')) \<and> valid_ipv4 (gc_destination_ip (co_config o'))
     \<and> (ep_udp_packetization (gc_endpoint (co_config o')) = NewlinePacked \<longrightarrow>
          ep_protocol (gc_endpoint (co_config o')) = Udp)
     \<and> (tg_mode (gc_timestamp_generation (co_config o')) = Range \<longrightarrow>
          time_range_valid (tg_range (gc_timestamp_generation (co_config o'))))
     \<and> 0 \<le> co_duration o' \<and> co_duration o' \<le> int max_i64
     \<and> 1000 \<le> co_status_interval o' \<and> co_status_interval o' \<le> int max_i64"

lemma check_selection_ok:
  "check_selection o' = Inr u \<Longrightarrow>
     (co_command o' = Run \<longrightarrow> co_all_samples o' \<noteq> (co_sample_ids o' \<noteq> []))
     \<and> (co_command o' = List_Samples \<longrightarrow> \<not> co_all_samples o' \<and> co_sample_ids o' = [])"
  by (auto simp: check_selection_def split: if_splits)

lemma set_generation_ok:
  assumes "set_generation p = Inr g"
    "gc_timestamp_generation (co_config (cp_options p)) = default_timestamp_generation"
  shows "(tg_mode g = Range \<longrightarrow> time_range_valid (tg_range g))
    \<and> (tg_mode g = Offset \<longrightarrow> time_offset_value (tg_offset g) = 60 * cp_offset_minutes p)"
proof (cases "cp_range_start p")
  case None
  then obtain x where x: "offset_of_minutes (cp_offset_minutes p) = Inr x"
    "g = default_timestamp_generation\<lparr>tg_offset := x\<rparr>"
    using assms by (cases "cp_range_end p") (auto simp: set_generation_def result_simps)
  then show ?thesis using offset_of_minutes_value [OF x(1)] by (simp add: default_timestamp_generation_def)
next
  case (Some a)
  then show ?thesis
    using assms
    by (cases "cp_range_end p") (auto simp: set_generation_def time_range_valid_def split: if_splits)
qed

lemma finish_options_accepted:
  assumes "finish_options p = Inr o'" "parse_ok p"
  shows "accepted o'"
proof -
  obtain g where g: "set_generation p = Inr g"
    "o' = (cp_options p)\<lparr>co_config := (co_config (cp_options p))\<lparr>gc_timestamp_generation := g\<rparr>\<rparr>"
    and checks: "check_selection (cp_options p) = Inr ()"
      "valid_ipv4 (gc_source_ip (co_config (cp_options p)))"
      "valid_ipv4 (gc_destination_ip (co_config (cp_options p)))"
      "ep_udp_packetization (gc_endpoint (co_config (cp_options p))) = NewlinePacked \<longrightarrow>
         ep_protocol (gc_endpoint (co_config (cp_options p))) = Udp"
    using assms(1) by (auto simp: finish_options_def Let_def result_simps)
  have "gc_timestamp_generation (co_config (cp_options p)) = default_timestamp_generation"
    using assms(2) by (simp add: parse_ok_def)
  note range = set_generation_ok [OF g(1) this]
  then show ?thesis
    using assms(2) checks check_selection_ok [OF checks(1)] by (simp add: accepted_def parse_ok_def g(2))
qed

lemma default_ips: "valid_ipv4 ''10.0.0.10'' \<and> valid_ipv4 ''10.0.0.20''"
proof -
  have "ipv4_segments 0 (join_dots [''10'', ''0'', ''0'', ''10'']) = Some (0 + length [''10'', ''0'', ''0'', ''10''])"
    by (rule segments_of_octets) (simp_all add: octet_text_def is_digit_def dec_value_def digit_val_def)
  moreover have "ipv4_segments 0 (join_dots [''10'', ''0'', ''0'', ''20'']) = Some (0 + length [''10'', ''0'', ''0'', ''20''])"
    by (rule segments_of_octets) (simp_all add: octet_text_def is_digit_def dec_value_def digit_val_def)
  ultimately show ?thesis by (simp add: valid_ipv4_def)
qed

lemma initial_accepted: "accepted initial_options"
  using default_ips
  by (simp add: accepted_def initial_options_def default_config_def default_endpoint_def
      default_timestamp_generation_def)

lemma initial_parse_ok: "parse_ok (edit_options (\<lambda>o'. o'\<lparr>co_command := c\<rparr>) initial_parse)"
  by (simp add: parse_ok_def edit_options_def initial_parse_def initial_options_def default_config_def
      default_endpoint_def)

lemma parse_arguments_cases:
  assumes "parse_arguments args = Inr o'"
  obtains "o' = initial_options"
  | c p where "parse_options (tl args) (edit_options (\<lambda>o'. o'\<lparr>co_command := c\<rparr>) initial_parse) = Inr p"
      "finish_options p = Inr o'" "parse_ok p"
proof (cases args)
  case Nil
  then show thesis using assms that(1) by simp
next
  case (Cons first options)
  show thesis
  proof (cases "lowercase first \<in> {''--help'', ''-h'', ''help''}")
    case True
    then show thesis using assms Cons that(1) by (auto simp: Let_def)
  next
    case False
    then obtain c p where "parse_options (tl args) (edit_options (\<lambda>o'. o'\<lparr>co_command := c\<rparr>) initial_parse) = Inr p"
      "finish_options p = Inr o'"
      using assms Cons by (auto simp: Let_def result_simps)
    with parse_options_ok [OF this(1) initial_parse_ok] that(2) show thesis by blast
  qed
qed

lemma parse_arguments_accepted:
  assumes "parse_arguments args = Inr o'"
  shows "accepted o'"
  using assms by (cases rule: parse_arguments_cases) (simp_all add: initial_accepted finish_options_accepted)

subsection \<open>Facts on the choice of templates\<close>

lemma select_templates_spec:
  assumes "distinct (map lt_id items)" "distinct requested"
  shows "select_templates requested items =
    (filter (\<lambda>item. lt_id item \<in> set requested) items,
     filter (\<lambda>x. x \<notin> lt_id ` set items) requested)"
  using assms
proof (induction requested items rule: select_templates.induct)
  case (2 requested item items)
  show ?case
  proof (cases "lt_id item \<in> set requested")
    case True
    have "filter (\<lambda>i. lt_id i \<in> set (removeAll (lt_id item) requested)) items =
        filter (\<lambda>i. lt_id i \<in> set requested) items"
      using 2(3) by (intro filter_cong) (auto, metis image_eqI)
    moreover have "filter (\<lambda>x. x \<notin> lt_id ` set items) (removeAll (lt_id item) requested) =
        filter (\<lambda>x. x \<notin> lt_id ` set (item # items)) requested"
      by (induction requested) auto
    ultimately show ?thesis using 2(1) [OF True] 2(3,4) True by (simp add: distinct_removeAll)
  next
    case False
    then have "filter (\<lambda>x. x \<notin> lt_id ` set items) requested =
        filter (\<lambda>x. x \<notin> lt_id ` set (item # items)) requested"
      by (intro filter_cong) auto
    then show ?thesis using 2(2) [OF False] 2(3,4) False by simp
  qed
qed simp

lemma prepare_run_error: "prepare_run first load o' \<noteq> Inl (Not_Started e)"
  by (auto simp: prepare_run_def Let_def split: sum.splits)

lemma prepare_run_ok:
  "prepare_run first load o' = Inr config \<Longrightarrow>
     gc_templates config \<noteq> [] \<and> gc_timestamp_generation config = gc_timestamp_generation (co_config o')
     \<and> (ep_protocol (gc_endpoint config) = File
          \<or> ep_host (gc_endpoint config) \<noteq> [] \<and> ep_port (gc_endpoint config) \<noteq> 0)"
  by (auto simp: prepare_run_def Let_def split: sum.splits if_splits)

subsection \<open>Facts on watching\<close>

lemma seconds_to_ns_exact: "0 \<le> s \<Longrightarrow> s \<le> 9223372036 \<Longrightarrow> seconds_to_ns s = s * 1000000000"
  by (simp add: seconds_to_ns_def wrap_i64_def)

lemma seconds_to_ns_wraps: "9223372037 \<le> s \<Longrightarrow> s \<le> 18446744073 \<Longrightarrow> seconds_to_ns s < 0"
proof -
  assume s: "9223372037 \<le> s" "s \<le> 18446744073"
  then have "(s * 1000000000 + 2 ^ 63 - 2 ^ 64) mod 2 ^ 64 = s * 1000000000 + 2 ^ 63 - 2 ^ 64"
    by (intro mod_pos_pos_trivial) simp_all
  moreover have "(s * 1000000000 + 2 ^ 63 - 2 ^ 64) mod 2 ^ 64 = (s * 1000000000 + 2 ^ 63) mod (2 ^ 64 :: int)"
    by (rule minus_mod_self2)
  ultimately show ?thesis using s by (simp add: seconds_to_ns_def wrap_i64_def)
qed

definition asks :: "cli_options \<Rightarrow> int \<Rightarrow> observation \<Rightarrow> bool" where
  "asks o' started ob \<longleftrightarrow>
     ob_signal ob \<or> (0 < co_duration o' \<and> seconds_to_ns (co_duration o') \<le> ob_now ob - started)"

lemma monitor_step_Inl:
  "monitor_step o' started ob m = Inl r \<Longrightarrow>
     r = 1 \<and> ts_state (ob_stats ob) = Failed
     \<or> r = 0 \<and> ts_state (ob_stats ob) = Stopped \<and> (ts_status (ob_stats ob) \<noteq> [] \<or> mo_stop_requested m)"
  by (auto simp: monitor_step_def Let_def split: if_splits)

lemma monitor_step_Inr:
  "monitor_step o' started ob m = Inr (actions, m') \<Longrightarrow>
     (mo_stop_requested m' \<longleftrightarrow> mo_stop_requested m \<or> Ask_To_Stop \<in> set actions)
     \<and> count_list actions Ask_To_Stop = (if mo_stop_requested m' \<and> \<not> mo_stop_requested m then 1 else 0)
     \<and> (Ask_To_Stop \<in> set actions \<longrightarrow> asks o' started ob)"
  by (auto simp: monitor_step_def asks_def Let_def split: if_splits)

lemma monitor_run_spec:
  assumes "monitor_run o' started obs m = (actions, r)"
  shows "count_list actions Ask_To_Stop \<le> (if mo_stop_requested m then 0 else 1)
    \<and> (r = Some 1 \<longrightarrow> (\<exists>ob \<in> set obs. ts_state (ob_stats ob) = Failed))
    \<and> (r = Some 0 \<longrightarrow> (\<exists>ob \<in> set obs. ts_state (ob_stats ob) = Stopped
         \<and> (ts_status (ob_stats ob) \<noteq> [] \<or> mo_stop_requested m \<or> Ask_To_Stop \<in> set actions)))
    \<and> (r = None \<or> r = Some 0 \<or> r = Some 1)
    \<and> (Ask_To_Stop \<in> set actions \<longrightarrow> (\<exists>ob \<in> set obs. asks o' started ob))"
  using assms
proof (induction obs arbitrary: m actions)
  case (Cons ob obs)
  show ?case
  proof (cases "monitor_step o' started ob m")
    case (Inl result)
    with Cons.prems monitor_step_Inl [OF Inl] show ?thesis by auto
  next
    case (Inr am)
    then obtain a m' where step: "monitor_step o' started ob m = Inr (a, m')" by (cases am) auto
    obtain rest where rest: "monitor_run o' started obs m' = (rest, r)" "actions = a @ rest"
      using Cons.prems step by (auto split: prod.splits)
    from Cons.IH [OF rest(1)] monitor_step_Inr [OF step] show ?thesis
      by (auto simp: rest(2) split: if_splits)
  qed
qed simp

subsection \<open>Properties\<close>

text \<open>
  Which addresses the command line accepts: four parts separated by dots, each of one to three
  digits and at most 255, or a negative zero, which no address contains.\<close>

theorem valid_ipv4_accepts:
  "valid_ipv4 s \<longleftrightarrow>
     (\<exists>a b c d. list_all octet_text [a, b, c, d] \<and> s = a @ ''.'' @ b @ ''.'' @ c @ ''.'' @ d)"
proof
  assume "valid_ipv4 s"
  then obtain ps where ps: "list_all octet_text ps" "s = join_dots ps" "length ps = 4"
    by (auto simp: valid_ipv4_def ipv4_segments_iff)
  then obtain a b c d where "ps = [a, b, c, d]"
    by (auto simp: eval_nat_numeral length_Suc_conv)
  with ps show "\<exists>a b c d. list_all octet_text [a, b, c, d] \<and> s = a @ ''.'' @ b @ ''.'' @ c @ ''.'' @ d" by auto
next
  assume "\<exists>a b c d. list_all octet_text [a, b, c, d] \<and> s = a @ ''.'' @ b @ ''.'' @ c @ ''.'' @ d"
  then obtain a b c d where "list_all octet_text [a, b, c, d]" "s = join_dots [a, b, c, d]" by auto
  then show "valid_ipv4 s" using segments_of_octets [of "[a, b, c, d]" 0] by (simp add: valid_ipv4_def)
qed

text \<open>
  C24. Whatever arguments are accepted, the sample ids are numeric, a run names all samples or some ids
  and not both, the addresses are valid, packed datagrams go with UDP only, a time range is not
  reversed, and the durations are in range.\<close>

theorem parse_arguments_sound:
  assumes "parse_arguments args = Inr o'"
  shows "list_all valid_sample_id (co_sample_ids o')
    \<and> (co_command o' = Run \<longrightarrow> co_all_samples o' \<noteq> (co_sample_ids o' \<noteq> []))
    \<and> valid_ipv4 (gc_source_ip (co_config o')) \<and> valid_ipv4 (gc_destination_ip (co_config o'))
    \<and> (ep_udp_packetization (gc_endpoint (co_config o')) = NewlinePacked \<longrightarrow>
         ep_protocol (gc_endpoint (co_config o')) = Udp)
    \<and> (tg_mode (gc_timestamp_generation (co_config o')) = Range \<longrightarrow>
         time_range_valid (tg_range (gc_timestamp_generation (co_config o'))))
    \<and> 0 \<le> co_duration o' \<and> 1000 \<le> co_status_interval o'"
  using parse_arguments_accepted [OF assms] by (simp add: accepted_def)

lemma sample_arguments:
  "parse_arguments [''run'', ''--sample-id'', ''7''] =
     Inr (initial_options\<lparr>co_command := Run, co_sample_ids := [''7''],
       co_config := (co_config initial_options)\<lparr>gc_timestamp_generation :=
         (gc_timestamp_generation (co_config initial_options))\<lparr>tg_offset :=
           \<lparr>to_negative = False, to_days = 0, to_hours = 0, to_minutes = 0\<rparr>\<rparr>\<rparr>\<rparr>)"
  using default_ips
  by (simp add: lowercase_def to_lower_def is_upper_def parse_command_def flag_option_def value_option_def
      add_sample_id_def valid_sample_id_def edit_options_def initial_parse_def finish_options_def
      check_selection_def set_generation_def offset_of_minutes_def initial_options_def default_config_def
      default_endpoint_def bind_result_def)

theorem parse_arguments_sound_witness:
  "valid_ipv4 (gc_destination_ip (co_config initial_options))"
  using parse_arguments_sound [OF sample_arguments] by simp

text \<open>
  C25. A configuration the command line hands to the service is never rejected by \<open>start\<close>: the checks of
  the front end imply those of the service.\<close>

theorem run_never_rejected: "cli_run first load optimal watch default_catalog args \<noteq> Inl (Not_Started e)"
proof
  assume rejected: "cli_run first load optimal watch default_catalog args = Inl (Not_Started e)"
  obtain o' where o': "parse_arguments args = Inr o'"
    using rejected by (cases "parse_arguments args") (simp_all add: cli_run_def)
  define o2 where "o2 = (if co_catalog_file o' = [] then o'\<lparr>co_catalog_file := default_catalog\<rparr> else o')"
  have run: "(case co_command o2 of
      Help \<Rightarrow> Inr 0
    | List_Samples \<Rightarrow> (case load (co_catalog_file o2) of Inl e \<Rightarrow> Inl (Load_Failed e) | Inr items \<Rightarrow> Inr 0)
    | Run \<Rightarrow>
        (case prepare_run first load o2 of
           Inl e \<Rightarrow> Inl e
         | Inr config \<Rightarrow>
             (case start_plan optimal config of
                Inl e \<Rightarrow> Inl (Not_Started e)
              | Inr plan \<Rightarrow> Inr (watch o2 plan)))) = Inl (Not_Started e)"
    using rejected by (simp add: cli_run_def o' o2_def [symmetric] Let_def)
  obtain config where config: "prepare_run first load o2 = Inr config" and start: "start_plan optimal config = Inl e"
    using run prepare_run_error [of first load o2 e]
    by (auto split: cli_command.splits sum.splits)
  have "accepted o2" using parse_arguments_accepted [OF o'] by (simp add: accepted_def o2_def)
  then have "check_config config = Inr ()"
    using prepare_run_ok [OF config] by (auto simp: check_config_def accepted_def)
  with start show False by (simp add: start_plan_def Let_def)
qed

text \<open>
  The templates of a run: all of the catalog, or those with a requested id, in the order of the
  catalog; the choice fails exactly when a requested id is not in the catalog.\<close>

theorem choose_templates_spec:
  assumes "distinct (map lt_id catalog)"
  shows "choose_templates first o' catalog =
    (if co_all_samples o' then Inr catalog
     else if set (co_sample_ids o') \<subseteq> lt_id ` set catalog
     then Inr (filter (\<lambda>item. lt_id item \<in> set (co_sample_ids o')) catalog)
     else Inl (Unknown_Sample_Id
       (first (filter (\<lambda>x. x \<notin> lt_id ` set catalog) (remdups (co_sample_ids o'))))))"
proof -
  have "filter (\<lambda>x. x \<notin> lt_id ` set catalog) (remdups (co_sample_ids o')) = [] \<longleftrightarrow>
      set (co_sample_ids o') \<subseteq> lt_id ` set catalog"
    by (auto simp: filter_empty_conv)
  then show ?thesis
    using select_templates_spec [OF assms, of "remdups (co_sample_ids o')"]
    by (simp add: choose_templates_def Let_def)
qed

theorem choose_templates_spec_witness:
  "choose_templates hd (initial_options\<lparr>co_sample_ids := [''2'']\<rparr>)
     [empty_template\<lparr>lt_id := ''1''\<rparr>, empty_template\<lparr>lt_id := ''2''\<rparr>] = Inr [empty_template\<lparr>lt_id := ''2''\<rparr>]"
  using choose_templates_spec [of "[empty_template\<lparr>lt_id := ''1''\<rparr>, empty_template\<lparr>lt_id := ''2''\<rparr>]" hd
      "initial_options\<lparr>co_sample_ids := [''2'']\<rparr>"]
  by (simp add: initial_options_def empty_template_def)

text \<open>
  Watching a transmission: it is asked to stop at most once, and only after a signal or when the
  duration has passed (for durations that fit in nanoseconds); the loop ends with 1 only on a failure
  and with 0 only when the transmission has stopped, by a request or with a message.\<close>

theorem monitor_run_sound:
  assumes "monitor_run o' started obs (monitor_init o' started) = (actions, r)"
    "co_duration o' \<le> 9223372036"
  shows "count_list actions Ask_To_Stop \<le> 1
    \<and> (Ask_To_Stop \<in> set actions \<longrightarrow> (\<exists>ob \<in> set obs. ob_signal ob
         \<or> 0 < co_duration o' \<and> co_duration o' * 1000000000 \<le> ob_now ob - started))
    \<and> (r = Some 1 \<longrightarrow> (\<exists>ob \<in> set obs. ts_state (ob_stats ob) = Failed))
    \<and> (r = Some 0 \<longrightarrow> (\<exists>ob \<in> set obs. ts_state (ob_stats ob) = Stopped
         \<and> (ts_status (ob_stats ob) \<noteq> [] \<or> Ask_To_Stop \<in> set actions)))
    \<and> (r = None \<or> r = Some 0 \<or> r = Some 1)"
proof -
  note spec = monitor_run_spec [OF assms(1)]
  have "asks o' started ob \<Longrightarrow> ob_signal ob \<or> 0 < co_duration o' \<and> co_duration o' * 1000000000 \<le> ob_now ob - started"
    for ob
    using assms(2) by (auto simp: asks_def seconds_to_ns_exact)
  then show ?thesis using spec by (auto simp: monitor_init_def)
qed

definition sample_observation :: "generator_state \<Rightarrow> int \<Rightarrow> observation" where
  "sample_observation g t =
     \<lparr>ob_stats = fst (snapshot t (initial_members\<lparr>sm_state := g\<rparr>)), ob_now = t, ob_signal = False\<rparr>"

theorem monitor_run_sound_witness:
  "Ask_To_Stop \<in> set (fst (monitor_run (initial_options\<lparr>co_duration := 2, co_quiet := True\<rparr>) 5
     [sample_observation Running 100, sample_observation Running 2000000005, sample_observation Stopped 2100000000]
     (monitor_init (initial_options\<lparr>co_duration := 2, co_quiet := True\<rparr>) 5)))"
  using monitor_run_sound [of "initial_options\<lparr>co_duration := 2, co_quiet := True\<rparr>" 5
      "[sample_observation Running 100, sample_observation Running 2000000005, sample_observation Stopped 2100000000]"
      "[Ask_To_Stop]" "Some 0"]
  by (simp add: monitor_step_def monitor_init_def sample_observation_def snapshot_def initial_members_def
      seconds_to_ns_def wrap_i64_def Let_def)

text \<open>
  An accepted duration beyond 292 years stops a transmission at once: its nanoseconds wrap to a
  negative number, so the first iteration that sees it running asks it to stop.\<close>

theorem huge_duration_stops_at_once:
  assumes "9223372037 \<le> co_duration o'" "co_duration o' \<le> 18446744073"
    "ts_state (ob_stats ob) = Running" "started \<le> ob_now ob"
  shows "\<exists>actions m. monitor_step o' started ob (monitor_init o' started) = Inr (actions, m)
    \<and> Ask_To_Stop \<in> set actions"
  using seconds_to_ns_wraps [OF assms(1,2)] assms by (auto simp: monitor_step_def monitor_init_def Let_def)

theorem huge_duration_stops_at_once_witness:
  "\<exists>actions m. monitor_step (initial_options\<lparr>co_duration := 10000000000\<rparr>) 5 (sample_observation Running 6)
     (monitor_init (initial_options\<lparr>co_duration := 10000000000\<rparr>) 5) = Inr (actions, m) \<and> Ask_To_Stop \<in> set actions"
  using huge_duration_stops_at_once [of "initial_options\<lparr>co_duration := 10000000000\<rparr>" "sample_observation Running 6" 5]
  by (simp add: sample_observation_def snapshot_def initial_members_def Let_def)

end
