(* ===== verification/Sockets.thy ===== *)
theory Sockets
  imports Worker "HOL-Library.Sublist"
begin

text \<open>
  The network transports: \<open>socket_support.cpp\<close>, \<open>tcp_transport.cpp\<close> and \<open>udp_transport.cpp\<close> of
  \<open>src/src/infrastructure\<close>, on Linux. The system calls are arguments of the definitions, functions on
  a state \<open>'w\<close> of the system; what the code relies on of them is stated by \<open>stream_law\<close>,
  \<open>datagram_law\<close> and \<open>socket_law\<close>.
\<close>

subsection \<open>System calls\<close>

text \<open>A call that sends: the number of bytes or datagrams it took, or the error.\<close>

datatype io_result = Io_Count nat | Io_Error nat

definition ETIMEDOUT :: nat where "ETIMEDOUT = 110"
definition ECONNREFUSED :: nat where "ECONNREFUSED = 111"
definition EHOSTUNREACH :: nat where "EHOSTUNREACH = 113"
definition EINPROGRESS :: nat where "EINPROGRESS = 115"
definition EWOULDBLOCK :: nat where "EWOULDBLOCK = 11"

datatype socket_error =
    Resolution_Failed nat
  | Connection_Failed nat
  | Call_Failed string nat
  | Closed_By_Remote
  | Incomplete_Datagram
  | Payload_Too_Large
  | Bad_Datagram_Count

text \<open>\<open>select\<close> with one socket: an error, a timeout, or whether the socket is writable.\<close>

datatype select_result = Select_Error nat | Timed_Out | Ready bool

text \<open>
  The calls on sockets; \<open>None\<close> of an option is success, \<open>Some\<close> the error. \<open>os_close\<close> is the
  shutdown and the close of \<open>SocketHandle::reset\<close>.
\<close>

record ('a, 'w) socket_calls =
  os_lookup :: "string \<Rightarrow> string \<Rightarrow> 'w \<Rightarrow> (nat + 'a list) \<times> 'w"
  os_socket :: "'a \<Rightarrow> 'w \<Rightarrow> (nat + int) \<times> 'w"
  os_set_blocking :: "int \<Rightarrow> bool \<Rightarrow> 'w \<Rightarrow> nat option \<times> 'w"
  os_connect :: "int \<Rightarrow> 'a \<Rightarrow> 'w \<Rightarrow> nat option \<times> 'w"
  os_select :: "int \<Rightarrow> int \<Rightarrow> 'w \<Rightarrow> select_result \<times> 'w"
  os_socket_error :: "int \<Rightarrow> 'w \<Rightarrow> (nat + nat) \<times> 'w"
  os_set_send_timeout :: "int \<Rightarrow> int \<Rightarrow> 'w \<Rightarrow> nat option \<times> 'w"
  os_set_send_buffer :: "int \<Rightarrow> int \<Rightarrow> 'w \<Rightarrow> nat option \<times> 'w"
  os_set_no_delay :: "int \<Rightarrow> 'w \<Rightarrow> nat option \<times> 'w"
  os_set_keep_alive :: "int \<Rightarrow> 'w \<Rightarrow> nat option \<times> 'w"
  os_close :: "int \<Rightarrow> 'w \<Rightarrow> 'w"

subsection \<open>Connecting\<close>

text \<open>\<open>wait_for_connect\<close>: \<open>None\<close> when connected, else the error it leaves in \<open>errno\<close>.\<close>

definition wait_for_connect :: "('a, 'w) socket_calls \<Rightarrow> int \<Rightarrow> int \<Rightarrow> 'w \<Rightarrow> nat option \<times> 'w" where
  "wait_for_connect os fd timeout w =
     (case os_select os fd timeout w of
        (Select_Error e, w1) \<Rightarrow> (Some e, w1)
      | (Timed_Out, w1) \<Rightarrow> (Some ETIMEDOUT, w1)
      | (Ready writable, w1) \<Rightarrow>
          (case os_socket_error os fd w1 of
             (Inl e, w2) \<Rightarrow> (Some e, w2)
           | (Inr socket_error, w2) \<Rightarrow>
               (if socket_error = 0 \<and> writable then None else Some socket_error, w2)))"

text \<open>The body of the loop once the candidate is open: connected, or the last error.\<close>

definition try_connect :: "('a, 'w) socket_calls \<Rightarrow> int \<Rightarrow> 'a \<Rightarrow> int \<Rightarrow> 'w \<Rightarrow> nat option \<times> 'w" where
  "try_connect os fd address timeout w =
     (case os_set_blocking os fd False w of
        (Some e, w1) \<Rightarrow> (Some e, w1)
      | (None, w1) \<Rightarrow>
          let (pending, w2) =
                (case os_connect os fd address w1 of
                   (None, w2) \<Rightarrow> (None, w2)
                 | (Some e, w2) \<Rightarrow>
                     if e \<noteq> EWOULDBLOCK \<and> e \<noteq> EINPROGRESS then (Some e, w2)
                     else wait_for_connect os fd timeout w2)
          in (case pending of
                Some e \<Rightarrow> (Some e, w2)
              | None \<Rightarrow>
                  (case os_set_blocking os fd True w2 of
                     (Some e, w3) \<Rightarrow> (Some e, w3)
                   | (None, w3) \<Rightarrow> os_set_send_timeout os fd timeout w3)))"

fun connect_candidates ::
    "('a, 'w) socket_calls \<Rightarrow> int \<Rightarrow> nat \<Rightarrow> 'a list \<Rightarrow> 'w \<Rightarrow> (nat + int) \<times> 'w" where
  "connect_candidates os timeout last_error [] w = (Inl last_error, w)"
| "connect_candidates os timeout last_error (address # addresses) w =
     (case os_socket os address w of
        (Inl e, w1) \<Rightarrow> connect_candidates os timeout e addresses w1
      | (Inr fd, w1) \<Rightarrow>
          (case try_connect os fd address timeout w1 of
             (None, w2) \<Rightarrow> (Inr fd, w2)
           | (Some e, w2) \<Rightarrow> connect_candidates os timeout e addresses (os_close os fd w2)))"

definition connect_socket ::
    "('a, 'w) socket_calls \<Rightarrow> string \<Rightarrow> u16 \<Rightarrow> 'w \<Rightarrow> (socket_error + int) \<times> 'w" where
  "connect_socket os host port w =
     (case os_lookup os host (to_dec (unat port)) w of
        (Inl e, w1) \<Rightarrow> (Inl (Resolution_Failed e), w1)
      | (Inr addresses, w1) \<Rightarrow>
          (case connect_candidates os 5000 EHOSTUNREACH addresses w1 of
             (Inl e, w2) \<Rightarrow> (Inl (Connection_Failed e), w2)
           | (Inr fd, w2) \<Rightarrow> (Inr fd, w2)))"

definition configure_send_buffer :: "('a, 'w) socket_calls \<Rightarrow> int \<Rightarrow> int \<Rightarrow> 'w \<Rightarrow> (socket_error + unit) \<times> 'w" where
  "configure_send_buffer os fd size' w =
     (case os_set_send_buffer os fd size' w of
        (Some e, w1) \<Rightarrow> (Inl (Call_Failed ''setsockopt SO_SNDBUF'' e), w1)
      | (None, w1) \<Rightarrow> (Inr (), w1))"

definition configure_tcp_stream :: "('a, 'w) socket_calls \<Rightarrow> int \<Rightarrow> 'w \<Rightarrow> (socket_error + unit) \<times> 'w" where
  "configure_tcp_stream os fd w =
     (case os_set_no_delay os fd w of
        (Some e, w1) \<Rightarrow> (Inl (Call_Failed ''setsockopt TCP_NODELAY'' e), w1)
      | (None, w1) \<Rightarrow> (Inr (), snd (os_set_keep_alive os fd w1)))"

text \<open>\<open>SocketHandle\<close>: the descriptor, or \<open>None\<close> for \<open>invalid_socket\<close>; assigning closes the old one.\<close>

type_synonym socket_handle = "int option"

definition reset_handle :: "('a, 'w) socket_calls \<Rightarrow> socket_handle \<Rightarrow> socket_handle \<Rightarrow> 'w \<Rightarrow> socket_handle \<times> 'w" where
  "reset_handle os new old w = (new, case old of None \<Rightarrow> w | Some fd \<Rightarrow> os_close os fd w)"

text \<open>
  \<open>connect\<close> of the transports: the handle they hold afterwards, also when an exception leaves them.
\<close>

definition tcp_connect ::
    "('a, 'w) socket_calls \<Rightarrow> endpoint_config \<Rightarrow> socket_handle \<Rightarrow> 'w \<Rightarrow> (socket_error + unit) \<times> socket_handle \<times> 'w" where
  "tcp_connect os endpoint handle w =
     (case connect_socket os (ep_host endpoint) (ep_port endpoint) w of
        (Inl e, w1) \<Rightarrow> (Inl e, handle, w1)
      | (Inr fd, w1) \<Rightarrow>
          let (handle', w2) = reset_handle os (Some fd) handle w1 in
          (case configure_send_buffer os fd (4 * 1024 * 1024) w2 of
             (Inl e, w3) \<Rightarrow> (Inl e, handle', w3)
           | (Inr _, w3) \<Rightarrow> let (r, w4) = configure_tcp_stream os fd w3 in (r, handle', w4)))"

definition udp_connect ::
    "('a, 'w) socket_calls \<Rightarrow> endpoint_config \<Rightarrow> socket_handle \<Rightarrow> 'w \<Rightarrow> (socket_error + unit) \<times> socket_handle \<times> 'w" where
  "udp_connect os endpoint handle w =
     (case connect_socket os (ep_host endpoint) (ep_port endpoint) w of
        (Inl e, w1) \<Rightarrow> (Inl e, handle, w1)
      | (Inr fd, w1) \<Rightarrow>
          let (handle', w2) = reset_handle os (Some fd) handle w1;
              (r, w3) = configure_send_buffer os fd (4 * 1024 * 1024) w2
          in (r, handle', w3))"

subsection \<open>Sending\<close>

text \<open>
  The loop that \<open>send_all\<close> and the TLS transport's \<open>send_encrypted\<close> share, from an offset: \<open>os\<close> takes
  some of at most \<open>limit\<close> bytes; \<open>fail\<close> and \<open>stuck\<close> are the exceptions for an error and for no progress.
\<close>

function send_loop ::
    "nat \<Rightarrow> (nat \<Rightarrow> 'e) \<Rightarrow> 'e \<Rightarrow> (string \<Rightarrow> 'w \<Rightarrow> io_result \<times> 'w) \<Rightarrow> nat \<Rightarrow> string \<Rightarrow> 'w \<Rightarrow> ('e + unit) \<times> 'w" where
  "send_loop limit fail stuck os offset payload w =
     (if offset < length payload then
        let remaining = min (length payload - offset) limit in
        (case os (take remaining (drop offset payload)) w of
           (Io_Error e, w') \<Rightarrow> (Inl (fail e), w')
         | (Io_Count n, w') \<Rightarrow>
             if n = 0 then (Inl stuck, w') else send_loop limit fail stuck os (offset + n) payload w')
      else (Inr (), w))"
  by pat_completeness auto
termination
  by (relation "measure (\<lambda>(limit, fail, stuck, os, offset, payload, w). length payload - offset)") auto

declare send_loop.simps [simp del]

definition send_all ::
    "(string \<Rightarrow> 'w \<Rightarrow> io_result \<times> 'w) \<Rightarrow> string \<Rightarrow> 'w \<Rightarrow> (socket_error + unit) \<times> 'w" where
  "send_all os payload w = send_loop (2 ^ 31 - 1) (Call_Failed ''send'') Closed_By_Remote os 0 payload w"

definition tcp_send ::
    "(string \<Rightarrow> 'w \<Rightarrow> io_result \<times> 'w) \<Rightarrow> string \<Rightarrow> 'w \<Rightarrow> socket_error + send_result \<times> 'w" where
  "tcp_send os payload w =
     (case send_all os payload w of (Inl e, w') \<Rightarrow> Inl e | (Inr _, w') \<Rightarrow> Inr (Sent, w'))"

definition send_datagram ::
    "(string \<Rightarrow> 'w \<Rightarrow> io_result \<times> 'w) \<Rightarrow> string \<Rightarrow> 'w \<Rightarrow> (socket_error + unit) \<times> 'w" where
  "send_datagram os payload w =
     (case os payload w of
        (Io_Error e, w') \<Rightarrow> (if e = ECONNREFUSED then Inr () else Inl (Call_Failed ''UDP send'' e), w')
      | (Io_Count n, w') \<Rightarrow> (if n \<noteq> length payload then Inl Incomplete_Datagram else Inr (), w'))"

definition udp_send ::
    "(string \<Rightarrow> 'w \<Rightarrow> io_result \<times> 'w) \<Rightarrow> string \<Rightarrow> 'w \<Rightarrow> socket_error + send_result \<times> 'w" where
  "udp_send os payload w =
     (if 65507 < length payload then Inl Payload_Too_Large
      else case send_datagram os payload w of (Inl e, w') \<Rightarrow> Inl e | (Inr _, w') \<Rightarrow> Inr (Sent, w'))"

definition maximum_datagram_batch :: nat where "maximum_datagram_batch = 256"

text \<open>The loop of \<open>send_batch\<close>; \<open>os\<close> is \<open>::sendmmsg\<close> on the socket.\<close>

function udp_batch_from ::
    "(string list \<Rightarrow> 'w \<Rightarrow> io_result \<times> 'w) \<Rightarrow> nat \<Rightarrow> string list \<Rightarrow> 'w \<Rightarrow> (socket_error + unit) \<times> 'w" where
  "udp_batch_from os offset payloads w =
     (if offset < length payloads then
        let n = min maximum_datagram_batch (length payloads - offset) in
        (case os (take n (drop offset payloads)) w of
           (Io_Error e, w') \<Rightarrow>
             if e = ECONNREFUSED then udp_batch_from os (offset + n) payloads w'
             else (Inl (Call_Failed ''UDP sendmmsg'' e), w')
         | (Io_Count sent, w') \<Rightarrow>
             if sent = 0 \<or> n < sent then (Inl Bad_Datagram_Count, w')
             else udp_batch_from os (offset + sent) payloads w')
      else (Inr (), w))"
  by pat_completeness auto
termination
  by (relation "measure (\<lambda>(os, offset, payloads, w). length payloads - offset)")
    (auto simp: maximum_datagram_batch_def)

declare udp_batch_from.simps [simp del]

definition udp_send_batch ::
    "(string list \<Rightarrow> 'w \<Rightarrow> io_result \<times> 'w) \<Rightarrow> string list \<Rightarrow> 'w \<Rightarrow> socket_error + send_result \<times> 'w" where
  "udp_send_batch os payloads w =
     (if payloads = [] then Inr (Sent, w)
      else if \<exists>payload \<in> set payloads. 65507 < length payload then Inl Payload_Too_Large
      else case udp_batch_from os 0 payloads w of (Inl e, w') \<Rightarrow> Inl e | (Inr _, w') \<Rightarrow> Inr (Sent, w'))"

subsection \<open>The number of workers\<close>

text \<open>
  \<open>optimal_worker_count\<close> of the POSIX and Windows runtimes; \<open>hardware\<close> is what
  \<open>std::thread::hardware_concurrency\<close> says, and \<open>apple\<close> selects the branch for macOS.
\<close>

definition optimal_worker_count :: "bool \<Rightarrow> u32 \<Rightarrow> transport_protocol \<Rightarrow> u32" where
  "optimal_worker_count apple hardware protocol =
     (let detected = max 1 hardware in
      if protocol = File then 1
      else if protocol = Udp
      then (if apple then min 2 detected else min detected (clamp ((detected + 3) div 4) 2 8))
      else clamp (if 2 < detected then detected - 1 else detected) 1 16)"

lemma optimal_worker_count_bounds:
  "1 \<le> optimal_worker_count apple hardware protocol \<and> optimal_worker_count apple hardware protocol \<le> 16"
proof -
  have d: "1 \<le> max 1 hardware" by simp
  have c: "1 \<le> clamp x 2 8 \<and> clamp x 2 8 \<le> 16" for x :: u32
    using clamp_bounds [of "2 :: u32" 8 x] by (auto intro: order_trans [of 1 2] order_trans [of _ 8 16])
  have c': "1 \<le> clamp x 1 16 \<and> clamp x 1 16 \<le> 16" for x :: u32
    using clamp_bounds [of "1 :: u32" 16] by simp
  show ?thesis
    using d c c'
    by (auto simp: optimal_worker_count_def Let_def min_le_iff_disj intro: order_trans)
qed

subsection \<open>What the code relies on\<close>

definition stream_law :: "(string \<Rightarrow> 'w \<Rightarrow> io_result \<times> 'w) \<Rightarrow> ('w \<Rightarrow> string) \<Rightarrow> bool" where
  "stream_law os received \<longleftrightarrow>
     (\<forall>p w r w'. os p w = (r, w') \<longrightarrow>
        (case r of
           Io_Count n \<Rightarrow> n \<le> length p \<and> received w' = received w @ take n p
         | Io_Error e \<Rightarrow> received w' = received w))"

definition datagram_law :: "(string list \<Rightarrow> 'w \<Rightarrow> io_result \<times> 'w) \<Rightarrow> ('w \<Rightarrow> string list) \<Rightarrow> bool" where
  "datagram_law os datagrams \<longleftrightarrow>
     (\<forall>ps w r w'. os ps w = (r, w') \<longrightarrow>
        (case r of
           Io_Count n \<Rightarrow> n \<le> length ps \<and> datagrams w' = datagrams w @ take n ps
         | Io_Error e \<Rightarrow> datagrams w' = datagrams w))"

text \<open>Which descriptors are open, and which calls change that.\<close>

definition keeps_open :: "('w \<Rightarrow> 'h) \<Rightarrow> ('w \<Rightarrow> 'r \<times> 'w) \<Rightarrow> bool" where
  "keeps_open opened f \<longleftrightarrow> (\<forall>w r w'. f w = (r, w') \<longrightarrow> opened w' = opened w)"

definition socket_law :: "('a, 'w) socket_calls \<Rightarrow> ('w \<Rightarrow> int set) \<Rightarrow> bool" where
  "socket_law os opened \<longleftrightarrow>
     (\<forall>a w fd w'. os_socket os a w = (Inr fd, w') \<longrightarrow> fd \<notin> opened w \<and> opened w' = insert fd (opened w)) \<and>
     (\<forall>a w e w'. os_socket os a w = (Inl e, w') \<longrightarrow> opened w' = opened w) \<and>
     (\<forall>h p. keeps_open opened (os_lookup os h p)) \<and>
     (\<forall>fd b. keeps_open opened (os_set_blocking os fd b)) \<and>
     (\<forall>fd a. keeps_open opened (os_connect os fd a)) \<and>
     (\<forall>fd t. keeps_open opened (os_select os fd t)) \<and>
     (\<forall>fd. keeps_open opened (os_socket_error os fd)) \<and>
     (\<forall>fd t. keeps_open opened (os_set_send_timeout os fd t)) \<and>
     (\<forall>fd t. keeps_open opened (os_set_send_buffer os fd t)) \<and>
     (\<forall>fd. keeps_open opened (os_set_no_delay os fd)) \<and>
     (\<forall>fd. keeps_open opened (os_set_keep_alive os fd)) \<and>
     (\<forall>fd w. opened (os_close os fd w) = opened w - {fd})"

lemma keeps_openD: "keeps_open opened f \<Longrightarrow> f w = (r, w') \<Longrightarrow> opened w' = opened w"
  by (simp add: keeps_open_def)

lemma keeps_open_snd: "keeps_open opened f \<Longrightarrow> opened (snd (f w)) = opened w"
  by (cases "f w") (simp add: keeps_open_def)

lemma socket_lawD:
  assumes "socket_law os opened"
  shows "os_socket os a w = (Inr fd, w') \<Longrightarrow> fd \<notin> opened w \<and> opened w' = insert fd (opened w)"
    "os_socket os a w = (Inl e, w') \<Longrightarrow> opened w' = opened w"
    "opened (os_close os fd w) = opened w - {fd}"
  using assms by (simp_all add: socket_law_def)

lemma socket_law_keeps:
  assumes "socket_law os opened"
  shows "keeps_open opened (os_lookup os h p)" "keeps_open opened (os_set_blocking os fd b)"
    "keeps_open opened (os_connect os fd a)" "keeps_open opened (os_select os fd t)"
    "keeps_open opened (os_socket_error os fd)" "keeps_open opened (os_set_send_timeout os fd t)"
    "keeps_open opened (os_set_send_buffer os fd t)" "keeps_open opened (os_set_no_delay os fd)"
    "keeps_open opened (os_set_keep_alive os fd)"
  using assms by (simp_all add: socket_law_def)

subsection \<open>Facts on sending\<close>

lemma take_drop_step:
  "take n (drop offset xs) @ take j (drop (offset + n) xs) = take (n + j) (drop offset xs)"
  by (metis add.commute drop_drop take_add)

lemma stream_lawD:
  assumes "stream_law os received"
  shows "os p w = (Io_Count n, w') \<Longrightarrow> n \<le> length p \<and> received w' = received w @ take n p"
    "os p w = (Io_Error e, w') \<Longrightarrow> received w' = received w"
proof -
  have *: "os p w = (r, w') \<Longrightarrow> (case r of
      Io_Count n \<Rightarrow> n \<le> length p \<and> received w' = received w @ take n p
    | Io_Error e \<Rightarrow> received w' = received w)" for r
    using assms by (simp add: stream_law_def)
  show "os p w = (Io_Count n, w') \<Longrightarrow> n \<le> length p \<and> received w' = received w @ take n p"
    "os p w = (Io_Error e, w') \<Longrightarrow> received w' = received w"
    using * [of "Io_Count n"] * [of "Io_Error e"] by simp_all
qed

lemma datagram_lawD:
  assumes "datagram_law os datagrams"
  shows "os ps w = (Io_Count n, w') \<Longrightarrow> n \<le> length ps \<and> datagrams w' = datagrams w @ take n ps"
    "os ps w = (Io_Error e, w') \<Longrightarrow> datagrams w' = datagrams w"
proof -
  have *: "os ps w = (r, w') \<Longrightarrow> (case r of
      Io_Count n \<Rightarrow> n \<le> length ps \<and> datagrams w' = datagrams w @ take n ps
    | Io_Error e \<Rightarrow> datagrams w' = datagrams w)" for r
    using assms by (simp add: datagram_law_def)
  show "os ps w = (Io_Count n, w') \<Longrightarrow> n \<le> length ps \<and> datagrams w' = datagrams w @ take n ps"
    "os ps w = (Io_Error e, w') \<Longrightarrow> datagrams w' = datagrams w"
    using * [of "Io_Count n"] * [of "Io_Error e"] by simp_all
qed

lemma send_loop_spec:
  assumes law: "stream_law os received"
  shows "send_loop limit fail stuck os offset payload w = (r, w') \<Longrightarrow>
    \<exists>k \<le> length payload - offset. received w' = received w @ take k (drop offset payload)
      \<and> (r = Inr () \<longrightarrow> k = length payload - offset)"
proof (induction "length payload - offset" arbitrary: offset w rule: less_induct)
  case less
  show ?case
  proof (cases "offset < length payload")
    case False
    then have "r = Inr ()" "w' = w" using less.prems by (simp_all add: send_loop.simps)
    with False show ?thesis by (intro exI [of _ 0]) simp
  next
    case True
    let ?chunk = "take (min (length payload - offset) limit) (drop offset payload)"
    obtain io w1 where io: "os ?chunk w = (io, w1)" by fastforce
    have len: "length ?chunk \<le> length payload - offset" by simp
    show ?thesis
    proof (cases io)
      case (Io_Error e)
      have "received w1 = received w" using stream_lawD(2) [OF law io [unfolded Io_Error]] .
      moreover have "r = Inl (fail e)" "w' = w1"
        using less.prems True io Io_Error by (simp_all add: send_loop.simps [of limit fail stuck os offset] Let_def)
      ultimately show ?thesis by (intro exI [of _ 0]) simp
    next
      case (Io_Count n)
      have n: "n \<le> length ?chunk" "received w1 = received w @ take n ?chunk"
        using stream_lawD(1) [OF law io [unfolded Io_Count]] by simp_all
      have take_n: "take n ?chunk = take n (drop offset payload)" using n(1) by (simp add: min_absorb1)
      show ?thesis
      proof (cases "n = 0")
        case zero: True
        then have "r = Inl stuck" "w' = w1"
          using less.prems True io Io_Count by (simp_all add: send_loop.simps [of limit fail stuck os offset] Let_def)
        with n zero show ?thesis by (intro exI [of _ 0]) simp
      next
        case False
        have rest: "send_loop limit fail stuck os (offset + n) payload w1 = (r, w')"
          using less.prems True io Io_Count False by (simp add: send_loop.simps [of limit fail stuck os offset] Let_def)
        have "length payload - (offset + n) < length payload - offset" using True False by simp
        from less.hyps [OF this rest] obtain k where k: "k \<le> length payload - (offset + n)"
          "received w' = received w1 @ take k (drop (offset + n) payload)"
          "r = Inr () \<longrightarrow> k = length payload - (offset + n)" by blast
        have "received w' = received w @ take (n + k) (drop offset payload)"
          using k(2) n(2) take_n take_drop_step [of n offset payload k] by simp
        then show ?thesis using k n(1) len by (intro exI [of _ "n + k"]) auto
      qed
    qed
  qed
qed

lemma tcp_send_delivers:
  "stream_law os received \<Longrightarrow> tcp_send os payload w = Inr (r, w') \<Longrightarrow>
     r = Sent \<and> received w' = received w @ payload"
  using send_loop_spec [of os received "2 ^ 31 - 1" "Call_Failed ''send''" Closed_By_Remote 0 payload w]
  by (auto simp: tcp_send_def send_all_def split: prod.splits sum.splits)

interpretation tcp: log_transport "tcp_send os" "\<lambda>w. stream_law os received" received
  for os :: "string \<Rightarrow> 'w \<Rightarrow> io_result \<times> 'w" and received
  by unfold_locales (auto dest: tcp_send_delivers)

lemma udp_batch_from_spec:
  assumes law: "datagram_law os datagrams"
  shows "udp_batch_from os offset payloads w = (Inr (), w') \<Longrightarrow>
    \<exists>kept. subseq kept (drop offset payloads) \<and> datagrams w' = datagrams w @ kept
      \<and> ((\<forall>ps w. fst (os ps w) \<noteq> Io_Error ECONNREFUSED) \<longrightarrow> kept = drop offset payloads)"
proof (induction "length payloads - offset" arbitrary: offset w rule: less_induct)
  case less
  show ?case
  proof (cases "offset < length payloads")
    case False
    then have "w' = w" using less.prems by (simp add: udp_batch_from.simps)
    with False show ?thesis by (intro exI [of _ "[]"]) simp
  next
    case True
    let ?n = "min maximum_datagram_batch (length payloads - offset)"
    have pos: "0 < ?n" using True by (simp add: maximum_datagram_batch_def)
    let ?chunk = "take ?n (drop offset payloads)"
    obtain io w1 where io: "os ?chunk w = (io, w1)" by fastforce
    show ?thesis
    proof (cases io)
      case (Io_Error e)
      then have refused: "e = ECONNREFUSED" and rest: "udp_batch_from os (offset + ?n) payloads w1 = (Inr (), w')"
        using less.prems True io by (auto simp: udp_batch_from.simps [of os offset] Let_def split: if_splits)
      have same: "datagrams w1 = datagrams w"
        using datagram_lawD(2) [OF law io [unfolded Io_Error]] .
      have "length payloads - (offset + ?n) < length payloads - offset" using True pos by linarith
      from less.hyps [OF this rest] obtain kept where kept: "subseq kept (drop (offset + ?n) payloads)"
        "datagrams w' = datagrams w1 @ kept" by blast
      have "drop offset payloads = ?chunk @ drop (offset + ?n) payloads"
        by (metis add.commute append_take_drop_id drop_drop)
      then have "subseq kept (drop offset payloads)"
        using kept(1) by (metis list_emb_append2)
      moreover have "\<not> (\<forall>ps w. fst (os ps w) \<noteq> Io_Error ECONNREFUSED)"
        using io Io_Error refused by (metis fst_conv)
      ultimately show ?thesis using kept(2) same by auto
    next
      case (Io_Count sent)
      then have sent: "sent \<noteq> 0" "sent \<le> ?n" and rest: "udp_batch_from os (offset + sent) payloads w1 = (Inr (), w')"
        using less.prems True io by (auto simp: udp_batch_from.simps [of os offset] Let_def split: if_splits)
      have w1: "datagrams w1 = datagrams w @ take sent ?chunk"
        using datagram_lawD(1) [OF law io [unfolded Io_Count]] by simp
      have chunk: "take sent ?chunk = take sent (drop offset payloads)" using sent(2) by (simp add: min_absorb1)
      have "length payloads - (offset + sent) < length payloads - offset" using True sent by linarith
      from less.hyps [OF this rest] obtain kept where kept: "subseq kept (drop (offset + sent) payloads)"
        "datagrams w' = datagrams w1 @ kept"
        "(\<forall>ps w. fst (os ps w) \<noteq> Io_Error ECONNREFUSED) \<longrightarrow> kept = drop (offset + sent) payloads" by blast
      have split: "drop offset payloads = take sent (drop offset payloads) @ drop (offset + sent) payloads"
        by (metis add.commute append_take_drop_id drop_drop)
      have "subseq (take sent (drop offset payloads) @ kept) (drop offset payloads)"
        using kept(1) by (subst (2) split) (simp add: list_emb_append_mono)
      with kept(2,3) w1 chunk split show ?thesis
        by (intro exI [of _ "take sent (drop offset payloads) @ kept"]) auto
    qed
  qed
qed

subsection \<open>Facts on connecting\<close>

lemma wait_for_connect_keeps:
  assumes law: "socket_law os opened"
  shows "keeps_open opened (wait_for_connect os fd t)"
  unfolding keeps_open_def wait_for_connect_def
  by (auto dest: socket_law_keeps(4,5) [OF law, THEN keeps_openD]
      split: prod.splits select_result.splits sum.splits)

lemma try_connect_keeps:
  assumes law: "socket_law os opened"
  shows "keeps_open opened (try_connect os fd a t)"
  unfolding keeps_open_def try_connect_def
  by (auto simp: Let_def dest!: socket_law_keeps(2,3,6) [OF law, THEN keeps_openD]
      wait_for_connect_keeps [OF law, THEN keeps_openD]
      split: prod.splits option.splits if_splits)

definition opened_by :: "('w \<Rightarrow> int set) \<Rightarrow> 'w \<Rightarrow> 'e + int \<Rightarrow> 'w \<Rightarrow> bool" where
  "opened_by opened w r w' \<longleftrightarrow>
     (case r of Inl e \<Rightarrow> opened w' = opened w
      | Inr fd \<Rightarrow> fd \<notin> opened w \<and> opened w' = insert fd (opened w))"

lemma connect_candidates_open:
  assumes law: "socket_law os opened"
  shows "connect_candidates os t e addresses w = (r, w') \<Longrightarrow> opened_by opened w r w'"
proof (induction addresses arbitrary: e w)
  case (Cons address addresses)
  obtain s w1 where s: "os_socket os address w = (s, w1)" by fastforce
  show ?case
  proof (cases s)
    case (Inl e')
    with Cons s socket_lawD(2) [OF law s [unfolded Inl]] show ?thesis
      by (fastforce simp: opened_by_def split: sum.splits)
  next
    case (Inr fd)
    note open1 = socket_lawD(1) [OF law s [unfolded Inr]]
    obtain c w2 where c: "try_connect os fd address t w1 = (c, w2)" by fastforce
    have open2: "opened w2 = opened w1" by (rule keeps_openD [OF try_connect_keeps [OF law] c])
    show ?thesis
    proof (cases c)
      case None
      with Cons.prems s Inr c open1 open2 show ?thesis by (auto simp: opened_by_def)
    next
      case (Some e')
      have "opened (os_close os fd w2) = opened w"
        using open1 open2 socket_lawD(3) [OF law, of fd w2] by auto
      moreover have "opened_by opened (os_close os fd w2) r w'"
        using Cons.prems s Inr c Some by (intro Cons.IH [of e']) simp
      ultimately show ?thesis by (simp add: opened_by_def split: sum.splits)
    qed
  qed
qed (auto simp: opened_by_def)

lemma connect_socket_open:
  assumes law: "socket_law os opened" and run: "connect_socket os host port w = (r, w')"
  shows "opened_by opened w r w'"
proof -
  obtain l w1 where l: "os_lookup os host (to_dec (unat port)) w = (l, w1)" by fastforce
  have same: "opened w1 = opened w" by (rule keeps_openD [OF socket_law_keeps(1) [OF law] l])
  show ?thesis
  proof (cases l)
    case (Inl e)
    with run l same show ?thesis by (auto simp: connect_socket_def opened_by_def)
  next
    case (Inr addresses)
    obtain c w2 where c: "connect_candidates os 5000 EHOSTUNREACH addresses w1 = (c, w2)" by fastforce
    from connect_candidates_open [OF law c] run l Inr c same show ?thesis
      by (cases c) (auto simp: connect_socket_def opened_by_def)
  qed
qed

text \<open>The handle of a transport holds the only descriptor that is open besides \<open>others\<close>.\<close>

definition handle_ok :: "('w \<Rightarrow> int set) \<Rightarrow> int set \<Rightarrow> socket_handle \<Rightarrow> 'w \<Rightarrow> bool" where
  "handle_ok opened others handle w \<longleftrightarrow>
     opened w = others \<union> set_option handle \<and> others \<inter> set_option handle = {}"

lemma reset_handle_ok:
  assumes law: "socket_law os opened" and ok: "handle_ok opened others handle w"
    and fd: "opened_by opened w (Inr fd) w1" and reset: "reset_handle os (Some fd) handle w1 = (h', w2)"
  shows "h' = Some fd \<and> handle_ok opened others h' w2"
  using ok fd reset socket_lawD(3) [OF law]
  by (cases handle) (auto simp: reset_handle_def handle_ok_def opened_by_def)

lemma handle_ok_keep: "handle_ok opened others h w \<Longrightarrow> opened w' = opened w \<Longrightarrow> handle_ok opened others h w'"
  by (simp add: handle_ok_def)

lemma configure_keeps:
  assumes law: "socket_law os opened"
  shows "keeps_open opened (configure_send_buffer os fd size')" "keeps_open opened (configure_tcp_stream os fd)"
proof -
  show "keeps_open opened (configure_send_buffer os fd size')"
    unfolding keeps_open_def configure_send_buffer_def
    by (auto dest: socket_law_keeps(7) [OF law, THEN keeps_openD] split: prod.splits option.splits)
  show "keeps_open opened (configure_tcp_stream os fd)"
    unfolding keeps_open_def configure_tcp_stream_def
    by (auto simp: keeps_open_snd [OF socket_law_keeps(9) [OF law]]
        dest: socket_law_keeps(8) [OF law, THEN keeps_openD] split: prod.splits option.splits)
qed

lemma tcp_connect_ok:
  assumes law: "socket_law os opened" and ok: "handle_ok opened others handle w"
    and run: "tcp_connect os endpoint handle w = (r, handle', w')"
  shows "handle_ok opened others handle' w'"
proof -
  obtain c w1 where c: "connect_socket os (ep_host endpoint) (ep_port endpoint) w = (c, w1)" by fastforce
  note opened = connect_socket_open [OF law c]
  show ?thesis
  proof (cases c)
    case (Inl e)
    with run c opened ok show ?thesis by (auto simp: tcp_connect_def opened_by_def handle_ok_def)
  next
    case (Inr fd)
    obtain h w2 where h: "reset_handle os (Some fd) handle w1 = (h, w2)" by fastforce
    from reset_handle_ok [OF law ok opened [unfolded Inr] h] have "h = Some fd" "handle_ok opened others (Some fd) w2" by auto
    with run c Inr h show ?thesis
      by (auto simp: tcp_connect_def Let_def dest!: configure_keeps [OF law, THEN keeps_openD]
          split: prod.splits sum.splits elim: handle_ok_keep)
  qed
qed

lemma udp_connect_ok:
  assumes law: "socket_law os opened" and ok: "handle_ok opened others handle w"
    and run: "udp_connect os endpoint handle w = (r, handle', w')"
  shows "handle_ok opened others handle' w'"
proof -
  obtain c w1 where c: "connect_socket os (ep_host endpoint) (ep_port endpoint) w = (c, w1)" by fastforce
  note opened = connect_socket_open [OF law c]
  show ?thesis
  proof (cases c)
    case (Inl e)
    with run c opened ok show ?thesis by (auto simp: udp_connect_def opened_by_def handle_ok_def)
  next
    case (Inr fd)
    obtain h w2 where h: "reset_handle os (Some fd) handle w1 = (h, w2)" by fastforce
    from reset_handle_ok [OF law ok opened [unfolded Inr] h] have "h = Some fd" "handle_ok opened others (Some fd) w2" by auto
    with run c Inr h show ?thesis
      by (auto simp: udp_connect_def Let_def dest!: configure_keeps [OF law, THEN keeps_openD]
          split: prod.splits sum.splits elim: handle_ok_keep)
  qed
qed

subsection \<open>Properties\<close>


text \<open>A system that takes at most three bytes at a time and keeps them.\<close>

definition sample_stream :: "string \<Rightarrow> string \<Rightarrow> io_result \<times> string" where
  "sample_stream p w = (Io_Count (min 3 (length p)), w @ take (min 3 (length p)) p)"

lemma sample_stream_law: "stream_law sample_stream (\<lambda>w. w)"
  by (auto simp: stream_law_def sample_stream_def)

definition sample_tcp_env :: "(nat, string, socket_error) worker_env" where
  "sample_tcp_env =
     \<lparr>we_stop = (\<lambda>n. 1 < n), we_next = (\<lambda>n. (''abcd'', Suc n)), we_start_batch = (\<lambda>n. n),
      we_next_in_batch = (\<lambda>n. (''abcd'', Suc n)), we_send = tcp_send sample_stream,
      we_send_batch = (\<lambda>_ t. Inr (Sent, t)), we_quota = 5\<rparr>"

definition sample_tcp_worker :: "(nat, string) worker" where
  "sample_tcp_worker =
     \<lparr>wo_source = 0, wo_transport = [], wo_pending = no_pending, wo_counts = no_counts, wo_polls = 0\<rparr>"

definition sample_tcp_endpoint :: endpoint_config where
  "sample_tcp_endpoint = default_endpoint\<lparr>ep_protocol := Tcp\<rparr>"

lemma sample_tcp_run:
  "\<exists>w'. run_worker_loop (Suc (Suc 0)) sample_tcp_env sample_tcp_endpoint False 1 sample_tcp_worker
      = (Some Stop_Requested, w') \<and> wn_total_messages (wo_counts w') = 1 \<and> wo_transport w' = ''abcd'' @ [LF]"
proof -
  have one: "stream_batch_events 5 = Suc 0" by (simp add: stream_batch_events_def clamp_def)
  have fill: "fill_stream (\<lambda>n. (''abcd'', Suc n)) Newline (Suc 0) 1048576 [] 0 0 = (''abcd'' @ [LF], 1, 1)"
    by (simp add: fill_stream.simps append_frame_eq escape_payload_def escape_char_def)
  have send: "tcp_send sample_stream (''abcd'' @ [LF]) [] = Inr (Sent, ''abcd'' @ [LF])"
    by (simp add: tcp_send_def send_all_def send_loop.simps sample_stream_def)
  show ?thesis
    using send fill one
    by (simp add: run_worker_loop_def worker_step_def stream_step_def poll_stop_def
        sample_tcp_env_def sample_tcp_worker_def sample_tcp_endpoint_def default_endpoint_def
        after_send_def count_sent_def no_counts_def flush_counts_def statistics_publish_events_def clamp_def)
qed


text \<open>
  A UDP batch that is reported as sent has reached the system as a subsequence of its payloads, one
  datagram for each, in order; if the system never refused a send, as all of them.\<close>

theorem udp_batch_in_order:
  assumes "udp_send_batch os payloads w = Inr (r, w')" "datagram_law os datagrams"
  shows "r = Sent \<and> (\<exists>kept. subseq kept payloads \<and> datagrams w' = datagrams w @ kept
    \<and> ((\<forall>ps w. fst (os ps w) \<noteq> Io_Error ECONNREFUSED) \<longrightarrow> kept = payloads))"
proof (cases "payloads = []")
  case True
  with assms show ?thesis by (auto simp: udp_send_batch_def intro: exI [of _ "[]"])
next
  case False
  then have r: "r = Sent" and run: "udp_batch_from os 0 payloads w = (Inr (), w')"
    using assms(1) by (auto simp: udp_send_batch_def split: if_splits prod.splits sum.splits)
  from udp_batch_from_spec [OF assms(2) run] show ?thesis using r by simp
qed

text \<open>A system that takes at most two datagrams at a time, and one that refuses its first send.\<close>

definition sample_datagrams :: "string list \<Rightarrow> string list \<Rightarrow> io_result \<times> string list" where
  "sample_datagrams ps w = (Io_Count (min 2 (length ps)), w @ take (min 2 (length ps)) ps)"

definition refusing_datagrams :: "string list \<Rightarrow> bool \<times> string list \<Rightarrow> io_result \<times> bool \<times> string list" where
  "refusing_datagrams ps w =
     (if fst w then (Io_Error ECONNREFUSED, False, snd w) else (Io_Count (length ps), False, snd w @ ps))"

theorem udp_batch_in_order_witness:
  "\<exists>kept. subseq kept [''a'', ''b'', ''c''] \<and> snd (the (case udp_send_batch sample_datagrams [''a'', ''b'', ''c''] [] of
     Inr x \<Rightarrow> Some x | Inl _ \<Rightarrow> None)) = kept"
proof -
  have run: "udp_send_batch sample_datagrams [''a'', ''b'', ''c''] [] = Inr (Sent, [''a'', ''b'', ''c''])"
    by (simp add: udp_send_batch_def udp_batch_from.simps sample_datagrams_def maximum_datagram_batch_def)
  have law: "datagram_law sample_datagrams (\<lambda>w. w)"
    by (auto simp: datagram_law_def sample_datagrams_def)
  from udp_batch_in_order [OF run law] run show ?thesis by auto
qed

text \<open>
  When the system reports a pending refusal (\<open>ECONNREFUSED\<close> from an earlier datagram), a whole
  batch of up to 256 datagrams is skipped: it is reported as sent, and none of it was.\<close>

theorem udp_refusal_skips_batch:
  assumes "datagram_law os datagrams" "payloads \<noteq> []" "length payloads \<le> 256"
    "list_all (\<lambda>p. length p \<le> 65507) payloads" "os payloads w = (Io_Error ECONNREFUSED, w')"
  shows "udp_send_batch os payloads w = Inr (Sent, w') \<and> datagrams w' = datagrams w"
proof -
  have "udp_batch_from os (length payloads) payloads w' = (Inr (), w')" by (simp add: udp_batch_from.simps)
  then have "udp_batch_from os 0 payloads w = (Inr (), w')"
    using assms(2,3,5) by (subst udp_batch_from.simps) (simp add: maximum_datagram_batch_def min_absorb2)
  then show ?thesis
    using assms(2,4) datagram_lawD(2) [OF assms(1,5)]
    by (auto simp: udp_send_batch_def list_all_iff not_less split: sum.splits)
qed

theorem udp_refusal_skips_batch_witness:
  "udp_send_batch refusing_datagrams [''a'', ''b''] (True, []) = Inr (Sent, False, [])"
proof -
  have "datagram_law refusing_datagrams snd"
    by (auto simp: datagram_law_def refusing_datagrams_def split: io_result.splits if_splits)
  from udp_refusal_skips_batch [OF this, of "[''a'', ''b'']" "(True, [])" "(False, [])"]
  show ?thesis by (simp add: refusing_datagrams_def)
qed

text \<open>
  C27. Connecting leaks no descriptor, whatever call fails on whichever address: afterwards the
  transport's handle holds the only descriptor that is open besides the others of the program.\<close>

theorem connect_leaks_nothing:
  assumes "socket_law os opened" "handle_ok opened others handle w"
    "tcp_connect os endpoint handle w = (r, handle', w') \<or> udp_connect os endpoint handle w = (r, handle', w')"
  shows "opened w' = others \<union> set_option handle' \<and> others \<inter> set_option handle' = {}"
proof -
  have "handle_ok opened others handle' w'"
    using assms(3) tcp_connect_ok [OF assms(1,2)] udp_connect_ok [OF assms(1,2)] by (elim disjE)
  then show ?thesis by (simp add: handle_ok_def)
qed

text \<open>A system that numbers its descriptors, with two addresses of which the first refuses.\<close>

definition sample_sockets :: "(nat, int \<times> int list) socket_calls" where
  "sample_sockets =
     \<lparr>os_lookup = (\<lambda>h p w. (Inr [0, 1], w)), os_socket = (\<lambda>a w. (Inr (fst w), fst w + 1, fst w # snd w)),
      os_set_blocking = (\<lambda>fd b w. (None, w)),
      os_connect = (\<lambda>fd a w. (if a = 0 then Some ECONNREFUSED else None, w)),
      os_select = (\<lambda>fd t w. (Timed_Out, w)), os_socket_error = (\<lambda>fd w. (Inr 0, w)),
      os_set_send_timeout = (\<lambda>fd t w. (None, w)), os_set_send_buffer = (\<lambda>fd t w. (None, w)),
      os_set_no_delay = (\<lambda>fd w. (None, w)), os_set_keep_alive = (\<lambda>fd w. (None, w)),
      os_close = (\<lambda>fd w. (fst w, removeAll fd (snd w)))\<rparr>"

text \<open>The open descriptors; a descriptor the system will give next counts as not open.\<close>

definition sample_opened :: "int \<times> int list \<Rightarrow> int set" where
  "sample_opened w = {fd \<in> set (snd w). fd < fst w}"

lemma sample_socket_law: "socket_law sample_sockets sample_opened"
  by (auto simp: socket_law_def sample_sockets_def sample_opened_def keeps_open_def)

theorem connect_leaks_nothing_witness:
  "sample_opened (snd (snd (tcp_connect sample_sockets default_endpoint None (3, [])))) = {4}"
proof -
  have run: "tcp_connect sample_sockets default_endpoint None (3, []) = (Inr (), Some 4, 5, [4])"
    by (simp add: tcp_connect_def connect_socket_def sample_sockets_def try_connect_def reset_handle_def
        configure_send_buffer_def configure_tcp_stream_def ECONNREFUSED_def EWOULDBLOCK_def EINPROGRESS_def)
  have "handle_ok sample_opened {} None (3, [])" by (simp add: handle_ok_def sample_opened_def)
  from connect_leaks_nothing [OF sample_socket_law this disjI1 [OF run]] run show ?thesis by simp
qed

end
