(* ===== verification/Tls.thy ===== *)
theory Tls
  imports Sockets
begin

text \<open>
  The TLS transport of POSIX systems (\<open>src/src/infrastructure/openssl_transport.cpp\<close>) and the choice of
  a transport (\<open>transport_factory.cpp\<close>). OpenSSL is an argument: its calls are functions on the state
  \<open>'w\<close> of the system, and what the code asks of a session is recorded in \<open>tls_session\<close>.
\<close>

subsection \<open>Sessions\<close>

datatype tls_error =
    Tls_Failed string
  | Tls_Send_Failed nat
  | No_Progress
  | Not_Connected
  | Not_Verified
  | Tcp_Error socket_error

datatype verify_mode = Verify_Peer | Verify_None
datatype tls_identity = Ip_Identity string | Host_Identity string

text \<open>What has been set on the context and the session before the handshake.\<close>

record tls_session =
  tl_minimum_tls12 :: bool
  tl_verify_mode :: verify_mode
  tl_system_authorities :: bool
  tl_server_name :: "string option"
  tl_identity :: "tls_identity option"
  tl_socket :: "int option"

text \<open>
  The calls; a Boolean says that the call succeeded. \<open>ssl_connect\<close> is given the session as it was set
  up, and \<open>ssl_verified\<close> is whether \<open>SSL_get_verify_result\<close> says \<open>X509_V_OK\<close> after the handshake.
\<close>

record 'w tls_calls =
  ip_v4 :: "string \<Rightarrow> bool"
  ip_v6 :: "string \<Rightarrow> bool"
  ssl_new_context :: "'w \<Rightarrow> bool \<times> 'w"
  ssl_load_authorities :: "'w \<Rightarrow> bool \<times> 'w"
  ssl_new_session :: "'w \<Rightarrow> bool \<times> 'w"
  ssl_set_server_name :: "string \<Rightarrow> 'w \<Rightarrow> bool \<times> 'w"
  ssl_set_identity :: "tls_identity \<Rightarrow> 'w \<Rightarrow> bool \<times> 'w"
  ssl_set_socket :: "int \<Rightarrow> 'w \<Rightarrow> bool \<times> 'w"
  ssl_connect :: "tls_session \<Rightarrow> 'w \<Rightarrow> bool \<times> 'w"
  ssl_verified :: "'w \<Rightarrow> bool"
  ssl_write :: "string \<Rightarrow> 'w \<Rightarrow> io_result \<times> 'w"

definition is_ip_address :: "'w tls_calls \<Rightarrow> string \<Rightarrow> bool" where
  "is_ip_address ssl s \<longleftrightarrow> ip_v4 ssl s \<or> ip_v6 ssl s"

text \<open>A call that throws when it fails.\<close>

definition tls_call :: "string \<Rightarrow> ('w \<Rightarrow> bool \<times> 'w) \<Rightarrow> 'w \<Rightarrow> tls_error + 'w" where
  "tls_call action f w = (case f w of (ok, w') \<Rightarrow> if ok then Inr w' else Inl (Tls_Failed action))"

text \<open>\<open>Impl::initialize\<close>: the session it ends with, or the exception.\<close>

definition tls_initialize ::
    "'w tls_calls \<Rightarrow> int \<Rightarrow> string \<Rightarrow> bool \<Rightarrow> 'w \<Rightarrow> tls_error + tls_session \<times> 'w" where
  "tls_initialize ssl fd identity verify w =
     bind_result (tls_call ''SSL_CTX_new'' (ssl_new_context ssl) w) (\<lambda>w1.
     bind_result (if verify then tls_call ''Loading system CA certificates'' (ssl_load_authorities ssl) w1
                  else Inr w1) (\<lambda>w2.
     bind_result (tls_call ''SSL_new'' (ssl_new_session ssl) w2) (\<lambda>w3.
     bind_result (if \<not> is_ip_address ssl identity
                  then tls_call ''Setting TLS server name'' (ssl_set_server_name ssl identity) w3
                  else Inr w3) (\<lambda>w4.
     let peer = (if is_ip_address ssl identity then Ip_Identity identity else Host_Identity identity) in
     bind_result (if verify then tls_call ''Setting TLS certificate identity'' (ssl_set_identity ssl peer) w4
                  else Inr w4) (\<lambda>w5.
     bind_result (tls_call ''SSL_set_fd'' (ssl_set_socket ssl fd) w5) (\<lambda>w6.
     let session = \<lparr>tl_minimum_tls12 = True, tl_verify_mode = (if verify then Verify_Peer else Verify_None),
                    tl_system_authorities = verify,
                    tl_server_name = (if is_ip_address ssl identity then None else Some identity),
                    tl_identity = (if verify then Some peer else None), tl_socket = Some fd\<rparr> in
     bind_result (tls_call ''TLS handshake'' (ssl_connect ssl session) w6) (\<lambda>w7.
     if verify \<and> \<not> ssl_verified ssl w7 then Inl Not_Verified else Inr (session, w7))))))))"

text \<open>
  \<open>connect\<close>: a fresh \<open>Impl\<close> (the old one, with its socket, is destroyed), the TCP connection, then the
  handshake for the server name, or for the host when none is given. The result is the session.
\<close>

definition tls_peer_name :: "endpoint_config \<Rightarrow> string" where
  "tls_peer_name endpoint =
     (if ep_tls_server_name endpoint = [] then ep_host endpoint else ep_tls_server_name endpoint)"

definition tls_connect ::
    "('a, 'w) socket_calls \<Rightarrow> 'w tls_calls \<Rightarrow> endpoint_config \<Rightarrow> socket_handle \<Rightarrow> 'w
       \<Rightarrow> tls_error + socket_handle \<times> tls_session \<times> 'w" where
  "tls_connect os ssl endpoint handle w =
     (let (_, w1) = reset_handle os None handle w in
      case tcp_connect os endpoint None w1 of
        (Inl e, handle', w2) \<Rightarrow> Inl (Tcp_Error e)
      | (Inr _, handle', w2) \<Rightarrow>
          (case handle' of
             None \<Rightarrow> Inl Not_Connected
           | Some fd \<Rightarrow>
               bind_result (tls_initialize ssl fd (tls_peer_name endpoint) (ep_verify_certificate endpoint) w2)
                 (\<lambda>(session, w3). Inr (handle', session, w3))))"

definition send_encrypted :: "'w tls_calls \<Rightarrow> string \<Rightarrow> 'w \<Rightarrow> (tls_error + unit) \<times> 'w" where
  "send_encrypted ssl payload w =
     send_loop (length payload) Tls_Send_Failed No_Progress (ssl_write ssl) 0 payload w"

text \<open>The transport's state: the session, when connected, and the system.\<close>

definition tls_send ::
    "'w tls_calls \<Rightarrow> string \<Rightarrow> tls_session option \<times> 'w \<Rightarrow> tls_error + send_result \<times> tls_session option \<times> 'w" where
  "tls_send ssl payload t =
     (case fst t of
        None \<Rightarrow> Inl Not_Connected
      | Some session \<Rightarrow>
          (case send_encrypted ssl payload (snd t) of
             (Inl e, w') \<Rightarrow> Inl e
           | (Inr _, w') \<Rightarrow> Inr (Sent, Some session, w')))"

subsection \<open>The choice of a transport\<close>

datatype transport_kind = Udp_Transport | Tcp_Transport | Tls_Transport | File_Output

fun create_transport :: "transport_protocol \<Rightarrow> transport_kind" where
  "create_transport Udp = Udp_Transport"
| "create_transport Tcp = Tcp_Transport"
| "create_transport Tls = Tls_Transport"
| "create_transport File = File_Output"

fun transport_is_datagram :: "transport_kind \<Rightarrow> bool" where
  "transport_is_datagram Udp_Transport = True"
| "transport_is_datagram Tcp_Transport = False"
| "transport_is_datagram Tls_Transport = False"
| "transport_is_datagram File_Output = False"

fun transport_preferred_batch :: "transport_kind \<Rightarrow> nat" where
  "transport_preferred_batch Udp_Transport = maximum_datagram_batch"
| "transport_preferred_batch _ = 1"

subsection \<open>Facts\<close>

lemma tls_call_Inr: "tls_call action f w = Inr w' \<longleftrightarrow> f w = (True, w')"
  by (cases "f w") (auto simp: tls_call_def)

lemma tls_initialize_Inr:
  assumes "tls_initialize ssl fd identity verify w = Inr (session, w')"
  shows "session = \<lparr>tl_minimum_tls12 = True, tl_verify_mode = (if verify then Verify_Peer else Verify_None),
      tl_system_authorities = verify,
      tl_server_name = (if is_ip_address ssl identity then None else Some identity),
      tl_identity = (if verify
        then Some (if is_ip_address ssl identity then Ip_Identity identity else Host_Identity identity) else None),
      tl_socket = Some fd\<rparr>
    \<and> (verify \<longrightarrow> ssl_verified ssl w') \<and> (\<exists>w0. ssl_connect ssl session w0 = (True, w'))"
  using assms
  by (auto simp: tls_initialize_def Let_def result_simps tls_call_Inr split: if_splits)

lemma tls_send_delivers:
  "stream_law (ssl_write ssl) received \<Longrightarrow> tls_send ssl payload t = Inr (r, t') \<Longrightarrow>
     r = Sent \<and> received (snd t') = received (snd t) @ payload"
  using send_loop_spec [of "ssl_write ssl" received "length payload" Tls_Send_Failed No_Progress 0 payload "snd t"]
  by (auto simp: tls_send_def send_encrypted_def split: option.splits prod.splits sum.splits)

interpretation tls: log_transport "tls_send ssl" "\<lambda>t. stream_law (ssl_write ssl) received" "\<lambda>t. received (snd t)"
  for ssl :: "'w tls_calls" and received
  by unfold_locales (auto dest: tls_send_delivers)

lemma tls_worker_delivers:
  assumes "run_worker_loop n env endpoint False preferred w = (Some x, w')"
    "we_send env = tls_send ssl" "stream_law (ssl_write ssl) received" "wo_counts w = no_counts"
  shows "\<exists>ks ps. ps = draw_batches (we_start_batch env) (we_next_in_batch env) ks (wo_source w)
    \<and> received (snd (wo_transport w')) = received (snd (wo_transport w)) @ frames (ep_framing endpoint) ps
    \<and> wn_total_messages (wo_counts w') = of_nat (length ps)
    \<and> wn_total_bytes (wo_counts w') = of_nat (length (frames (ep_framing endpoint) ps))"
  using tls.run_worker_delivers [OF assms] .

subsection \<open>Properties\<close>


text \<open>A system whose TLS calls all succeed.\<close>

definition sample_tls :: "(int \<times> int list) tls_calls" where
  "sample_tls =
     \<lparr>ip_v4 = (\<lambda>s. False), ip_v6 = (\<lambda>s. False), ssl_new_context = Pair True, ssl_load_authorities = Pair True,
      ssl_new_session = Pair True, ssl_set_server_name = (\<lambda>s. Pair True), ssl_set_identity = (\<lambda>i. Pair True),
      ssl_set_socket = (\<lambda>fd. Pair True), ssl_connect = (\<lambda>s. Pair True), ssl_verified = (\<lambda>w. True),
      ssl_write = (\<lambda>p. Pair (Io_Count (length p)))\<rparr>"

definition sample_session :: tls_session where
  "sample_session =
     \<lparr>tl_minimum_tls12 = True, tl_verify_mode = Verify_Peer, tl_system_authorities = True,
      tl_server_name = Some ''127.0.0.1'', tl_identity = Some (Host_Identity ''127.0.0.1''), tl_socket = Some 4\<rparr>"


end
