(* ===== verification/Async_Logger.thy ===== *)
theory Async_Logger
  imports Calendar Paths "HOL-Library.Signed_Division" "HOL-Library.Sublist"
begin

text \<open>
  The program's own log (\<open>src/src/infrastructure/async_file_logger.cpp\<close>): entries go through a bounded
  queue to a worker thread that writes them, a file per day. A step is one section under the mutex, one
  access to an atomic member or one write; the conversion to local time is an argument.
\<close>

subsection \<open>Lines\<close>

record log_entry =
  le_time :: int         \<comment> \<open>nanoseconds since the epoch\<close>
  le_level :: log_level
  le_thread :: u32
  le_message :: string

fun sanitize_message :: "string \<Rightarrow> string" where
  "sanitize_message [] = []"
| "sanitize_message (c # cs) =
     (if c = CR then sanitize_message cs
      else if c = LF then BACKSLASH # CHR ''n'' # sanitize_message cs
      else c # sanitize_message cs)"

text \<open>\<open>std::localtime\<close> may fail; then all fields are 0.\<close>

definition local_time :: "(int \<Rightarrow> tm option) \<Rightarrow> int \<Rightarrow> tm" where
  "local_time localtime t =
     (case localtime (t div 1000000000) of None \<Rightarrow> empty_tm | Some v \<Rightarrow> v)"

definition date_key :: "(int \<Rightarrow> tm option) \<Rightarrow> int \<Rightarrow> string" where
  "date_key localtime t =
     (let v = local_time localtime t
      in take 15 (format_padded 4 (tm_year v + 1900) @ format_padded 2 (tm_mon v + 1) @ format_padded 2 (tm_mday v)))"

text \<open>\<open>duration_cast\<close> and \<open>%\<close> round toward zero.\<close>

definition entry_milliseconds :: "int \<Rightarrow> int" where
  "entry_milliseconds t = (t sdiv 1000000) smod 1000"

definition format_entry :: "(int \<Rightarrow> tm option) \<Rightarrow> log_entry \<Rightarrow> string" where
  "format_entry localtime e =
     (let v = local_time localtime (le_time e);
          timestamp = take 63 (format_padded 4 (tm_year v + 1900) @ ''-'' @ format_padded 2 (tm_mon v + 1) @ ''-''
            @ format_padded 2 (tm_mday v) @ '' '' @ format_padded 2 (tm_hour v) @ '':'' @ format_padded 2 (tm_min v)
            @ '':'' @ format_padded 2 (tm_sec v) @ ''.'' @ format_padded 3 (entry_milliseconds (le_time e)))
      in ''['' @ timestamp @ ''] ['' @ log_level_name (le_level e) @ ''] [T'' @ to_dec (unat (le_thread e)) @ ''] ''
         @ sanitize_message (le_message e) @ [LF])"

subsection \<open>Files\<close>

text \<open>The files by path, the open file (its path and date), and whether the next operations fail.\<close>

record log_output =
  lo_files :: "string \<Rightarrow> string"
  lo_open :: "(string \<times> string) option"

definition log_path :: "string \<Rightarrow> string \<Rightarrow> string \<Rightarrow> string" where
  "log_path directory base_name date = path_append directory (base_name @ ''_'' @ date @ ''.log'')"

text \<open>\<open>None\<close> is the exception of a file that cannot be opened or written; \<open>ok\<close> decides it.\<close>

definition open_for ::
    "(int \<Rightarrow> tm option) \<Rightarrow> string \<Rightarrow> string \<Rightarrow> bool \<Rightarrow> int \<Rightarrow> log_output \<Rightarrow> log_output option" where
  "open_for localtime directory base_name ok t out =
     (let date = date_key localtime t in
      if (\<exists>x \<in> set_option (lo_open out). snd x = date) then Some out
      else if \<not> ok then None
      else Some (out\<lparr>lo_open := Some (log_path directory base_name date, date)\<rparr>))"

definition write_entry ::
    "(int \<Rightarrow> tm option) \<Rightarrow> bool \<Rightarrow> log_entry \<Rightarrow> log_output \<Rightarrow> log_output option" where
  "write_entry localtime ok e out =
     (case lo_open out of
        None \<Rightarrow> None
      | Some (path, date) \<Rightarrow>
          if \<not> ok then None
          else Some (out\<lparr>lo_files := (lo_files out)(path := lo_files out path @ format_entry localtime e)\<rparr>))"

subsection \<open>The queue and the worker\<close>

text \<open>
  Where the worker is; \<open>Writing\<close> are the entries it has taken and not yet written. \<open>Final_Notice\<close> is
  after its loop.
\<close>

datatype logger_pc = Waiting | Writing "log_entry list" | Notice | Final_Notice | Logger_Ended

text \<open>
  The last five fields are history, which no step reads: the entries that were accepted, those of them
  that were written, all that was put into the files with the notices, the number of dropped entries the
  notices have told, and whether an exception ended the worker.
\<close>

record logger =
  lg_queue :: "log_entry list"
  lg_capacity :: nat
  lg_accepting :: bool
  lg_stop :: bool
  lg_dropped_pending :: u64
  lg_dropped_total :: u64
  lg_pc :: logger_pc
  lg_output :: log_output
  lg_accepted :: "log_entry list"
  lg_written :: "log_entry list"
  lg_put :: "log_entry list"
  lg_noticed :: u64
  lg_failed :: bool

text \<open>\<open>log\<close>, from the check under the mutex on.\<close>

definition log_message :: "log_entry \<Rightarrow> logger \<Rightarrow> logger" where
  "log_message e l =
     (if \<not> lg_accepting l then l
      else if lg_capacity l \<le> length (lg_queue l)
      then l\<lparr>lg_dropped_pending := lg_dropped_pending l + 1, lg_dropped_total := lg_dropped_total l + 1\<rparr>
      else l\<lparr>lg_queue := lg_queue l @ [e], lg_accepted := lg_accepted l @ [e]\<rparr>)"

definition dropped_entry :: "int \<Rightarrow> u32 \<Rightarrow> u64 \<Rightarrow> log_entry" where
  "dropped_entry t thread n =
     \<lparr>le_time = t, le_level = Warning, le_thread = thread,
      le_message = ''Logger queue discarded '' @ to_dec (unat n) @ '' entries''\<rparr>"

text \<open>Writing one entry into the file of its day.\<close>

definition put_entry ::
    "(int \<Rightarrow> tm option) \<Rightarrow> string \<Rightarrow> string \<Rightarrow> bool \<Rightarrow> bool \<Rightarrow> log_entry \<Rightarrow> log_output \<Rightarrow> log_output option" where
  "put_entry localtime directory base_name opened written e out =
     (case open_for localtime directory base_name opened (le_time e) out of
        None \<Rightarrow> None
      | Some out' \<Rightarrow> write_entry localtime written e out')"

text \<open>The two steps of the destructor before it joins the worker.\<close>

definition close_logger :: "logger \<Rightarrow> logger" where
  [simp]: "close_logger l = l\<lparr>lg_accepting := False\<rparr>"

definition stop_logger :: "logger \<Rightarrow> logger" where
  [simp]: "stop_logger l = l\<lparr>lg_stop := True\<rparr>"

text \<open>
  The steps: logging by any thread, the two steps of the destructor, and the worker. The worker ends on
  an exception; the entries it had taken are lost then.
\<close>

inductive logger_step ::
    "(int \<Rightarrow> tm option) \<Rightarrow> string \<Rightarrow> string \<Rightarrow> logger \<Rightarrow> logger \<Rightarrow> bool" for localtime directory base_name where
  log: "logger_step localtime directory base_name l (log_message e l)"
| close: "logger_step localtime directory base_name l (close_logger l)"
| stop: "\<not> lg_accepting l \<Longrightarrow> logger_step localtime directory base_name l (stop_logger l)"
| take: "lg_pc l = Waiting \<Longrightarrow> lg_queue l \<noteq> [] \<or> \<not> lg_stop l \<Longrightarrow>
    logger_step localtime directory base_name l (l\<lparr>lg_queue := [], lg_pc := Writing (lg_queue l)\<rparr>)"
| leave: "lg_pc l = Waiting \<Longrightarrow> lg_queue l = [] \<Longrightarrow> lg_stop l \<Longrightarrow>
    logger_step localtime directory base_name l (l\<lparr>lg_pc := Final_Notice\<rparr>)"
| put: "lg_pc l = Writing (e # es) \<Longrightarrow>
    put_entry localtime directory base_name opened written e (lg_output l) = Some out \<Longrightarrow>
    logger_step localtime directory base_name l (l\<lparr>lg_pc := Writing es, lg_output := out,
      lg_written := lg_written l @ [e], lg_put := lg_put l @ [e]\<rparr>)"
| put_failed: "lg_pc l = Writing (e # es) \<Longrightarrow>
    put_entry localtime directory base_name opened written e (lg_output l) = None \<Longrightarrow>
    logger_step localtime directory base_name l (l\<lparr>lg_pc := Logger_Ended, lg_failed := True\<rparr>)"
| all_put: "lg_pc l = Writing [] \<Longrightarrow> logger_step localtime directory base_name l (l\<lparr>lg_pc := Notice\<rparr>)"
| no_notice: "lg_pc l = Notice \<Longrightarrow> lg_dropped_pending l = 0 \<Longrightarrow>
    logger_step localtime directory base_name l (l\<lparr>lg_pc := Waiting\<rparr>)"
| notice: "lg_pc l = Notice \<Longrightarrow> lg_dropped_pending l \<noteq> 0 \<Longrightarrow>
    put_entry localtime directory base_name opened written (dropped_entry t thread (lg_dropped_pending l))
      (lg_output l) = Some out \<Longrightarrow>
    logger_step localtime directory base_name l (l\<lparr>lg_pc := Waiting, lg_dropped_pending := 0, lg_output := out,
      lg_put := lg_put l @ [dropped_entry t thread (lg_dropped_pending l)],
      lg_noticed := lg_noticed l + lg_dropped_pending l\<rparr>)"
| final_notice: "lg_pc l = Final_Notice \<Longrightarrow> lg_dropped_pending l \<noteq> 0 \<Longrightarrow>
    put_entry localtime directory base_name opened written (dropped_entry t thread (lg_dropped_pending l))
      (lg_output l) = Some out \<Longrightarrow>
    logger_step localtime directory base_name l (l\<lparr>lg_pc := Logger_Ended, lg_dropped_pending := 0, lg_output := out,
      lg_put := lg_put l @ [dropped_entry t thread (lg_dropped_pending l)],
      lg_noticed := lg_noticed l + lg_dropped_pending l\<rparr>)"
| no_final_notice: "lg_pc l = Final_Notice \<Longrightarrow> lg_dropped_pending l = 0 \<Longrightarrow>
    logger_step localtime directory base_name l (l\<lparr>lg_pc := Logger_Ended\<rparr>)"
| notice_failed: "lg_pc l \<in> {Notice, Final_Notice} \<Longrightarrow> lg_dropped_pending l \<noteq> 0 \<Longrightarrow>
    put_entry localtime directory base_name opened written (dropped_entry t thread (lg_dropped_pending l))
      (lg_output l) = None \<Longrightarrow>
    logger_step localtime directory base_name l (l\<lparr>lg_pc := Logger_Ended, lg_dropped_pending := 0, lg_failed := True\<rparr>)"

definition new_logger :: "nat \<Rightarrow> log_output \<Rightarrow> logger" where
  "new_logger capacity out =
     \<lparr>lg_queue = [], lg_capacity = capacity, lg_accepting = True, lg_stop = False, lg_dropped_pending = 0,
      lg_dropped_total = 0, lg_pc = Waiting, lg_output = out, lg_accepted = [], lg_written = [], lg_put = [],
      lg_noticed = 0, lg_failed = False\<rparr>"

text \<open>
  The constructor: \<open>created\<close> and \<open>opened\<close> tell whether the directory is there and whether the first file
  opens, \<open>files\<close> is what the files hold before.
\<close>

datatype logger_error = Empty_Base_Name | Zero_Capacity | Log_Directory_Failed | Log_File_Failed

definition async_file_logger ::
    "(int \<Rightarrow> tm option) \<Rightarrow> string \<Rightarrow> string \<Rightarrow> nat \<Rightarrow> bool \<Rightarrow> bool \<Rightarrow> int \<Rightarrow> (string \<Rightarrow> string)
       \<Rightarrow> logger_error + logger" where
  "async_file_logger localtime directory base_name capacity created opened now files =
     (if base_name = [] then Inl Empty_Base_Name
      else if capacity = 0 then Inl Zero_Capacity
      else if \<not> created then Inl Log_Directory_Failed
      else (case open_for localtime directory base_name opened now \<lparr>lo_files = files, lo_open = None\<rparr> of
              None \<Rightarrow> Inl Log_File_Failed
            | Some out \<Rightarrow> Inr (new_logger capacity out)))"

inductive logger_reachable ::
    "(int \<Rightarrow> tm option) \<Rightarrow> string \<Rightarrow> string \<Rightarrow> nat \<Rightarrow> (string \<Rightarrow> string) \<Rightarrow> logger \<Rightarrow> bool"
  for localtime directory base_name capacity files where
  new: "async_file_logger localtime directory base_name capacity created opened now files = Inr l \<Longrightarrow>
    logger_reachable localtime directory base_name capacity files l"
| step: "logger_reachable localtime directory base_name capacity files l \<Longrightarrow>
    logger_step localtime directory base_name l l' \<Longrightarrow>
    logger_reachable localtime directory base_name capacity files l'"

subsection \<open>Facts\<close>

fun taken_entries :: "logger_pc \<Rightarrow> log_entry list" where
  "taken_entries (Writing es) = es"
| "taken_entries _ = []"

definition logger_inv :: "nat \<Rightarrow> logger \<Rightarrow> bool" where
  "logger_inv capacity l \<longleftrightarrow>
     lg_capacity l = capacity \<and> length (lg_queue l) \<le> capacity
     \<and> (lg_stop l \<longrightarrow> \<not> lg_accepting l)
     \<and> (\<not> lg_failed l \<longrightarrow>
          lg_accepted l = lg_written l @ taken_entries (lg_pc l) @ lg_queue l
          \<and> lg_dropped_total l = lg_noticed l + lg_dropped_pending l
          \<and> (lg_pc l \<in> {Final_Notice, Logger_Ended} \<longrightarrow> lg_queue l = [] \<and> lg_stop l)
          \<and> (lg_pc l = Logger_Ended \<longrightarrow> lg_dropped_pending l = 0))"

lemma log_message_inv: "logger_inv capacity l \<Longrightarrow> logger_inv capacity (log_message e l)"
  by (auto simp: logger_inv_def log_message_def)

lemma logger_step_inv:
  "logger_step localtime directory base_name l l' \<Longrightarrow> logger_inv capacity l \<Longrightarrow> logger_inv capacity l'"
proof (induction rule: logger_step.induct)
  case (log l e)
  then show ?case by (rule log_message_inv)
qed (auto simp: logger_inv_def)

lemma async_file_logger_new:
  "async_file_logger localtime directory base_name capacity created opened now files = Inr l \<Longrightarrow>
   l = new_logger capacity \<lparr>lo_files = files, lo_open = Some (log_path directory base_name (date_key localtime now), date_key localtime now)\<rparr>
   \<and> base_name \<noteq> [] \<and> 0 < capacity"
  by (simp add: async_file_logger_def open_for_def Let_def split: if_splits)

lemma logger_reachable_inv:
  "logger_reachable localtime directory base_name capacity files l \<Longrightarrow> logger_inv capacity l"
proof (induction rule: logger_reachable.induct)
  case (new created opened now l)
  show ?case using async_file_logger_new [OF new] by (simp add: logger_inv_def new_logger_def)
next
  case (step l l')
  then show ?case by (blast intro: logger_step_inv)
qed

text \<open>What a file holds: the lines of the entries of its day, after what it held before.\<close>

definition lines_of ::
    "(int \<Rightarrow> tm option) \<Rightarrow> string \<Rightarrow> string \<Rightarrow> log_entry list \<Rightarrow> string \<Rightarrow> string" where
  "lines_of localtime directory base_name es path =
     concat (map (format_entry localtime)
       (filter (\<lambda>e. log_path directory base_name (date_key localtime (le_time e)) = path) es))"

definition output_inv ::
    "(int \<Rightarrow> tm option) \<Rightarrow> string \<Rightarrow> string \<Rightarrow> (string \<Rightarrow> string) \<Rightarrow> log_entry list \<Rightarrow> log_output \<Rightarrow> bool" where
  "output_inv localtime directory base_name files es out \<longleftrightarrow>
     (\<forall>x \<in> set_option (lo_open out). fst x = log_path directory base_name (snd x))
     \<and> (\<forall>path. lo_files out path = files path @ lines_of localtime directory base_name es path)"

lemma put_entry_inv:
  assumes "put_entry localtime directory base_name opened written e out = Some out'"
    "output_inv localtime directory base_name files es out"
  shows "output_inv localtime directory base_name files (es @ [e]) out'"
proof -
  from assms(1) obtain out1 where o: "open_for localtime directory base_name opened (le_time e) out = Some out1"
      and w: "write_entry localtime written e out1 = Some out'"
    by (auto simp: put_entry_def split: option.splits)
  have "output_inv localtime directory base_name files es out1 \<and>
      lo_open out1 = Some (log_path directory base_name (date_key localtime (le_time e)), date_key localtime (le_time e))"
    using o assms(2) by (cases "lo_open out") (auto simp: open_for_def output_inv_def Let_def split: if_splits)
  then show ?thesis
    using w by (auto simp: write_entry_def output_inv_def lines_of_def split: if_splits)
qed

definition files_inv ::
    "(int \<Rightarrow> tm option) \<Rightarrow> string \<Rightarrow> string \<Rightarrow> (string \<Rightarrow> string) \<Rightarrow> logger \<Rightarrow> bool" where
  "files_inv localtime directory base_name files l \<longleftrightarrow>
     output_inv localtime directory base_name files (lg_put l) (lg_output l) \<and> subseq (lg_written l) (lg_put l)"

lemma logger_step_files:
  "logger_step localtime directory base_name l l' \<Longrightarrow> files_inv localtime directory base_name files l \<Longrightarrow>
   files_inv localtime directory base_name files l'"
proof (induction rule: logger_step.induct)
  case (log l e)
  then show ?case by (simp add: files_inv_def log_message_def)
qed (auto simp: files_inv_def intro: put_entry_inv subseq_rev_drop_many list_emb_append_mono)

lemma logger_reachable_files:
  "logger_reachable localtime directory base_name capacity files l \<Longrightarrow>
   files_inv localtime directory base_name files l"
proof (induction rule: logger_reachable.induct)
  case (new created opened now l)
  show ?case
    using async_file_logger_new [OF new] by (simp add: files_inv_def output_inv_def lines_of_def new_logger_def)
next
  case (step l l')
  then show ?case by (blast intro: logger_step_files)
qed

text \<open>An entry is one line.\<close>

lemma sanitize_message_one_line: "LF \<notin> set (sanitize_message s) \<and> CR \<notin> set (sanitize_message s)"
  by (induction s) auto

lemma to_dec_no_LF: "LF \<notin> set (to_dec n)"
proof -
  have "list_all is_digit (to_dec n)" by (rule to_dec_digits)
  then show ?thesis by (auto simp: list_all_iff is_digit_def)
qed

lemma format_padded_no_LF: "LF \<notin> set (format_padded w v)"
  using to_dec_no_LF by (auto simp: format_padded_def zero_pad_def)

lemma format_entry_line: "\<exists>text'. format_entry localtime e = text' @ [LF] \<and> LF \<notin> set text'"
proof -
  have "LF \<notin> set (log_level_name (le_level e))" by (cases "le_level e") simp_all
  then show ?thesis
    using sanitize_message_one_line [of "le_message e"] to_dec_no_LF [of "unat (le_thread e)"]
    by (auto simp: format_entry_def Let_def format_padded_no_LF dest!: in_set_takeD)
qed

text \<open>
  The destructor: once it has asked for the end, a step of another thread changes nothing any more, and
  the worker has only so many steps left.
\<close>

fun logger_work :: "logger_pc \<Rightarrow> nat \<Rightarrow> nat" where
  "logger_work Logger_Ended n = 0"
| "logger_work Final_Notice n = 1"
| "logger_work Waiting n = 2 + 5 * n"
| "logger_work Notice n = 3 + 5 * n"
| "logger_work (Writing es) n = 4 + length es + 5 * n"

definition work_left :: "logger \<Rightarrow> nat" where
  "work_left l = logger_work (lg_pc l) (length (lg_queue l))"

lemma logger_step_closed:
  "logger_step localtime directory base_name l l' \<Longrightarrow> lg_stop l \<Longrightarrow> \<not> lg_accepting l \<Longrightarrow>
   lg_stop l' \<and> \<not> lg_accepting l' \<and> (l' = l \<or> work_left l' < work_left l)"
proof (induction rule: logger_step.induct)
  case (take l)
  then show ?case by (cases "lg_queue l") (simp_all add: work_left_def)
qed (auto simp: log_message_def work_left_def)

lemma put_notice_cases:
  "lg_pc l \<in> {Notice, Final_Notice} \<Longrightarrow> \<exists>l'. logger_step localtime directory base_name l l' \<and> lg_pc l' \<noteq> lg_pc l"
proof (cases "lg_dropped_pending l = 0")
  case True
  assume "lg_pc l \<in> {Notice, Final_Notice}"
  then show ?thesis
    using logger_step.no_notice [OF _ True] logger_step.no_final_notice [OF _ True] by fastforce
next
  case False
  assume p: "lg_pc l \<in> {Notice, Final_Notice}"
  have "put_entry localtime directory base_name False False (dropped_entry 0 0 (lg_dropped_pending l)) (lg_output l) = None"
    by (auto simp: put_entry_def open_for_def write_entry_def Let_def split: option.splits)
  from logger_step.notice_failed [OF p False this] p show ?thesis by fastforce
qed

lemma logger_not_stuck:
  assumes "lg_stop l" "\<not> lg_accepting l" "lg_pc l \<noteq> Logger_Ended"
  shows "\<exists>l'. logger_step localtime directory base_name l l' \<and> lg_pc l' \<noteq> lg_pc l"
proof (cases "lg_pc l")
  case Waiting
  show ?thesis
  proof (cases "lg_queue l = []")
    case True
    then show ?thesis using logger_step.leave [OF Waiting True assms(1)] Waiting by fastforce
  next
    case False
    then show ?thesis using logger_step.take [OF Waiting] Waiting by fastforce
  qed
next
  case (Writing es)
  show ?thesis
  proof (cases es)
    case Nil
    then show ?thesis using logger_step.all_put [of l] Writing by fastforce
  next
    case (Cons e es')
    show ?thesis
    proof (cases "put_entry localtime directory base_name True True e (lg_output l)")
      case None
      then show ?thesis using logger_step.put_failed [of l e es'] Writing Cons by fastforce
    next
      case (Some out)
      then show ?thesis using logger_step.put [of l e es'] Writing Cons by fastforce
    qed
  qed
next
  case Notice
  then show ?thesis using put_notice_cases [of l localtime directory base_name] by simp
next
  case Final_Notice
  then show ?thesis using put_notice_cases [of l localtime directory base_name] by simp
qed (use assms(3) in simp)

subsection \<open>Properties\<close>


text \<open>
  The destructor returns: after it has asked for the end, a step either changes nothing or brings the
  worker nearer to its end, and until then the worker can take a step, so its thread is joined.\<close>

theorem logger_shutdown_ends:
  assumes "logger_reachable localtime directory base_name capacity files l" "lg_stop l"
  shows "(\<forall>l'. logger_step localtime directory base_name l l' \<longrightarrow> lg_stop l' \<and> (l' = l \<or> work_left l' < work_left l))
    \<and> (lg_pc l = Logger_Ended \<or> (\<exists>l'. logger_step localtime directory base_name l l' \<and> work_left l' < work_left l))"
proof -
  have "\<not> lg_accepting l" using logger_reachable_inv [OF assms(1)] assms(2) by (simp add: logger_inv_def)
  then show ?thesis
    using logger_step_closed [OF _ assms(2)] logger_not_stuck [OF assms(2)] by (metis (full_types))
qed

definition sample_local_time :: "int \<Rightarrow> tm option" where
  "sample_local_time t = None"

definition sample_entry :: log_entry where
  "sample_entry = \<lparr>le_time = 0, le_level = Info, le_thread = 7, le_message = ''started''\<rparr>"

definition sample_logger :: logger where
  "sample_logger = (case async_file_logger sample_local_time ''logs'' ''app'' 1 True True 0 (\<lambda>_. []) of
     Inl _ \<Rightarrow> new_logger 0 \<lparr>lo_files = (\<lambda>_. []), lo_open = None\<rparr>
   | Inr l \<Rightarrow> log_message sample_entry (log_message sample_entry l))"

lemma sample_logger_reachable: "logger_reachable sample_local_time ''logs'' ''app'' 1 (\<lambda>_. []) sample_logger"
proof -
  have "\<exists>l. async_file_logger sample_local_time ''logs'' ''app'' 1 True True 0 (\<lambda>_. []) = Inr l"
    by (simp add: async_file_logger_def open_for_def Let_def)
  then show ?thesis
    by (auto simp: sample_logger_def intro!: logger_reachable.step [OF _ logger_step.log]
        intro: logger_reachable.new)
qed

lemma sample_logger_state:
  "lg_queue sample_logger = [sample_entry] \<and> lg_dropped_total sample_logger = 1 \<and> \<not> lg_failed sample_logger
   \<and> lg_pc sample_logger = Waiting \<and> lg_dropped_pending sample_logger = 1"
  by (simp add: sample_logger_def async_file_logger_def open_for_def Let_def log_message_def new_logger_def)


theorem logger_shutdown_ends_witness:
  "\<exists>l'. logger_step sample_local_time ''logs'' ''app'' (stop_logger (close_logger sample_logger)) l'
     \<and> work_left l' < 7"
proof -
  have "logger_reachable sample_local_time ''logs'' ''app'' 1 (\<lambda>_. [])
      (stop_logger (close_logger sample_logger))"
    by (rule logger_reachable.step [OF logger_reachable.step [OF sample_logger_reachable logger_step.close]
          logger_step.stop]) simp
  from logger_shutdown_ends [OF this] show ?thesis using sample_logger_state by (simp add: work_left_def)
qed

end
