(* ===== verification/Runtime_Paths.thy ===== *)
theory Runtime_Paths
  imports Paths
begin

text \<open>
  Where the program keeps its files and how the user's catalog is created on the first start of a
  packaged installation (\<open>src/src/infrastructure/runtime_paths.cpp\<close>). The directory of the executable
  and of the package are arguments; the file system is a map from paths to entries, and the outcome of
  each of its operations is an argument as well.
\<close>

subsection \<open>The paths\<close>

record runtime_paths =
  rp_application_directory :: string
  rp_data_directory :: string
  rp_bundled_catalog_file :: string
  rp_catalog_file :: string
  rp_log_directory :: string
  rp_generated_directory :: string
  rp_font_directory :: string
  rp_packaged :: bool

datatype path_error =
    Empty_Directory
  | Catalog_Not_Regular
  | Directory_Not_Created
  | Catalog_Not_Copied
  | Permissions_Not_Set
  | Catalog_Not_Published

definition catalog_in :: "string \<Rightarrow> string" where
  "catalog_in dir = path_append (path_append dir ''Sample Logs'') ''sample_logs.json''"

text \<open>\<open>exists\<close> is \<open>std::filesystem::exists\<close>.\<close>

definition resolve_runtime_paths ::
    "(string \<Rightarrow> bool) \<Rightarrow> string \<Rightarrow> string \<Rightarrow> string option \<Rightarrow> path_error + runtime_paths" where
  "resolve_runtime_paths exists application working package =
     (if application = [] \<or> package = Some [] then Inl Empty_Directory
      else
        let packaged = package \<noteq> None;
            data = (case package of Some d \<Rightarrow> d | None \<Rightarrow> application);
            bundled = catalog_in application;
            catalog = (if packaged then catalog_in data else bundled);
            catalog' = (if \<not> packaged \<and> \<not> exists catalog then catalog_in working else catalog)
        in Inr \<lparr>rp_application_directory = application, rp_data_directory = data,
                rp_bundled_catalog_file = bundled, rp_catalog_file = catalog',
                rp_log_directory = path_append data ''logs'',
                rp_generated_directory = path_append data ''generated'',
                rp_font_directory = path_append application ''fonts'', rp_packaged = packaged\<rparr>)"

text \<open>\<open>discover_runtime_paths\<close>, given what the system says.\<close>

definition discover_runtime_paths ::
    "(string \<Rightarrow> bool) \<Rightarrow> string \<Rightarrow> string option \<Rightarrow> string \<Rightarrow> path_error + runtime_paths" where
  "discover_runtime_paths exists executable_directory package current =
     resolve_runtime_paths exists executable_directory
       (if package \<noteq> None then executable_directory else current) package"

subsection \<open>Where the program is\<close>

text \<open>
  \<open>executable_directory\<close> of the three systems; \<open>current\<close> is the current directory. On Linux \<open>link\<close> is
  where \<open>/proc/self/exe\<close> points, unless it cannot be read.
\<close>

definition linux_executable_directory :: "string option \<Rightarrow> string \<Rightarrow> string" where
  "linux_executable_directory link current = (case link of None \<Rightarrow> current | Some path \<Rightarrow> path_parent path)"

text \<open>On Windows the name is cut when it does not fit, and the length is then that of the buffer.\<close>

definition windows_executable_directory :: "(nat \<Rightarrow> nat \<times> string) \<Rightarrow> string \<Rightarrow> string" where
  "windows_executable_directory module_name current =
     (let (n, name) = module_name 32768 in if n = 0 \<or> 32768 \<le> n then current else path_parent (take n name))"

text \<open>
  On macOS \<open>executable_path\<close> fills a buffer of a size, or says how large it has to be; \<open>canonical\<close> may fail.
\<close>

definition mac_executable_directory ::
    "(nat \<Rightarrow> nat + string) \<Rightarrow> (string \<Rightarrow> string option) \<Rightarrow> string \<Rightarrow> string" where
  "mac_executable_directory executable_path canonical current =
     (case (case executable_path 1024 of Inr path \<Rightarrow> Inr path | Inl needed \<Rightarrow> executable_path needed) of
        Inl _ \<Rightarrow> current
      | Inr path \<Rightarrow> path_parent (case canonical path of None \<Rightarrow> path | Some path' \<Rightarrow> path'))"

text \<open>
  \<open>package_data_directory\<close> on Windows: the calls for the size of the package's family name, for the name,
  and for the folder of local data, each with its status; \<open>Inl\<close> is the \<open>system_error\<close>.
\<close>

definition ERROR_INSUFFICIENT_BUFFER :: int where "ERROR_INSUFFICIENT_BUFFER = 122"
definition APPMODEL_ERROR_NO_PACKAGE :: int where "APPMODEL_ERROR_NO_PACKAGE = 15700"

record package_calls =
  pk_size :: "int \<times> nat"
  pk_name :: "nat \<Rightarrow> int \<times> string"
  pk_folder :: "int \<times> string option"

definition package_data_directory :: "package_calls \<Rightarrow> (string \<times> int) + string option" where
  "package_data_directory os =
     (let (size_result, n) = pk_size os in
      if size_result = APPMODEL_ERROR_NO_PACKAGE then Inr None
      else if size_result \<noteq> ERROR_INSUFFICIENT_BUFFER \<or> n = 0 then Inl (''GetCurrentPackageFamilyName'', size_result)
      else
        let (name_result, family_name) = pk_name os n in
        if name_result \<noteq> 0 then Inl (''GetCurrentPackageFamilyName'', name_result)
        else
          case pk_folder os of
            (path_result, folder) \<Rightarrow>
              (case folder of
                 Some local_app_data \<Rightarrow>
                   if path_result < 0 then Inl (''SHGetKnownFolderPath(LocalAppData)'', path_result)
                   else Inr (Some (path_append (path_append (path_append local_app_data ''Packages'') family_name)
                               ''LocalState''))
               | None \<Rightarrow> Inl (''SHGetKnownFolderPath(LocalAppData)'', path_result)))"

text \<open>Where the data of a packaged installation are is never empty, so \<open>resolve_runtime_paths\<close> takes it.\<close>

lemma package_data_directory_not_Nil: "package_data_directory os = Inr (Some d) \<Longrightarrow> d \<noteq> []"
  by (auto simp: package_data_directory_def path_append_def Let_def split: prod.splits if_splits option.splits)

subsection \<open>The user's catalog\<close>

datatype entry = Regular string | Not_Regular

type_synonym files = "string \<Rightarrow> entry option"

text \<open>
  The outcomes: whether the directories could be created; how many bytes of the copy were written when
  it failed; whether the permissions and the link could be set; and the catalog that another process may
  have put at the destination meanwhile. \<open>se_temporary\<close> is the suffix of the temporary name.
\<close>

record seed_env =
  se_temporary :: string
  se_directories :: bool
  se_copied :: "nat option"
  se_permissions :: bool
  se_link :: bool
  se_rival :: "entry option"

definition temporary_catalog :: "seed_env \<Rightarrow> string \<Rightarrow> string" where
  "temporary_catalog env destination = destination @ ''.seed.'' @ se_temporary env"

text \<open>\<open>copy_file\<close> does not overwrite; a failed copy leaves what it wrote.\<close>

definition copy_catalog :: "seed_env \<Rightarrow> string \<Rightarrow> string \<Rightarrow> files \<Rightarrow> bool \<times> files" where
  "copy_catalog env from to files =
     (case (files from, files to) of
        (Some (Regular content), None) \<Rightarrow>
          (case se_copied env of
             None \<Rightarrow> (True, files(to \<mapsto> Regular content))
           | Some n \<Rightarrow> (False, files(to \<mapsto> Regular (take n content))))
      | _ \<Rightarrow> (False, files))"

text \<open>A hard link is made only where nothing is; if it fails, any regular file there will do.\<close>

definition publish_catalog :: "seed_env \<Rightarrow> string \<Rightarrow> string \<Rightarrow> files \<Rightarrow> (path_error + unit) \<times> files" where
  "publish_catalog env temporary destination files =
     (let files1 = (case se_rival env of None \<Rightarrow> files | Some e \<Rightarrow> files(destination \<mapsto> e)) in
      if se_link env \<and> files1 destination = None
      then (Inr (), files1(destination := files1 temporary))
      else case files1 destination of
             Some (Regular content) \<Rightarrow> (Inr (), files1)
           | _ \<Rightarrow> (Inl Catalog_Not_Published, files1))"

text \<open>The destructor of \<open>TemporaryCatalog\<close> removes the temporary file on every way out.\<close>

definition initialize_runtime_catalog :: "seed_env \<Rightarrow> runtime_paths \<Rightarrow> files \<Rightarrow> (path_error + unit) \<times> files" where
  "initialize_runtime_catalog env paths files =
     (let destination = rp_catalog_file paths; temporary = temporary_catalog env destination in
      if \<not> rp_packaged paths then (Inr (), files)
      else case files destination of
          Some (Regular content) \<Rightarrow> (Inr (), files)
        | Some Not_Regular \<Rightarrow> (Inl Catalog_Not_Regular, files)
        | None \<Rightarrow>
            if \<not> se_directories env then (Inl Directory_Not_Created, files)
            else
              let (r, files') =
                    (case copy_catalog env (rp_bundled_catalog_file paths) temporary files of
                       (False, files1) \<Rightarrow> (Inl Catalog_Not_Copied, files1)
                     | (True, files1) \<Rightarrow>
                         if \<not> se_permissions env then (Inl Permissions_Not_Set, files1)
                         else publish_catalog env temporary destination files1)
              in (r, files'(temporary := None)))"

lemma temporary_catalog_neq [simp]:
  "temporary_catalog env d \<noteq> d" "d \<noteq> temporary_catalog env d"
  by (simp_all add: temporary_catalog_def)

lemma copy_catalog_spec:
  assumes "copy_catalog env from to files = (ok, files1)"
  shows "(\<forall>p. p \<noteq> to \<longrightarrow> files1 p = files p)
    \<and> (ok \<longrightarrow> files1 to = files from \<and> (\<exists>content. files from = Some (Regular content)))"
  using assms by (auto simp: copy_catalog_def split: option.splits entry.splits)

lemma publish_catalog_spec:
  assumes "publish_catalog env temporary destination files = (r, files')" "temporary \<noteq> destination"
  shows "(\<forall>p. p \<noteq> destination \<longrightarrow> files' p = files p)
    \<and> files' destination \<in> {files destination, se_rival env, files temporary}
    \<and> (r = Inr () \<longrightarrow> files' destination = files temporary
         \<or> (\<exists>content. files' destination = Some (Regular content)))"
proof -
  define files1 where "files1 = (case se_rival env of None \<Rightarrow> files | Some e \<Rightarrow> files(destination \<mapsto> e))"
  have 1: "files1 p = files p" if "p \<noteq> destination" for p
    using that by (auto simp: files1_def split: option.splits)
  have 2: "files1 destination \<in> {files destination, se_rival env}"
    by (auto simp: files1_def split: option.splits)
  have run: "(if se_link env \<and> files1 destination = None
      then (Inr (), files1(destination := files1 temporary))
      else case files1 destination of
             Some (Regular content) \<Rightarrow> (Inr (), files1)
           | _ \<Rightarrow> (Inl Catalog_Not_Published, files1)) = (r, files')"
    using assms(1) unfolding publish_catalog_def Let_def files1_def .
  show ?thesis
  proof (cases "se_link env \<and> files1 destination = None")
    case True
    then have "r = Inr ()" "files' = files1(destination := files1 temporary)" using run by simp_all
    then show ?thesis using 1 assms(2) by auto
  next
    case False
    then have "files' = files1" "r = Inr () \<longrightarrow> (\<exists>content. files1 destination = Some (Regular content))"
      using run by (auto split: option.splits entry.splits)
    then show ?thesis using 1 2 by auto
  qed
qed

subsection \<open>Properties\<close>

text \<open>
  C30. The user's catalog is created as a whole or not at all: whatever fails, a catalog that exists is
  not touched, no temporary file is left, no other file changes, and the catalog is afterwards what it was,
  what another process put there, or a complete copy of the bundled one; when the initialization returns,
  a packaged installation has one.\<close>

theorem catalog_seed_atomic:
  assumes "initialize_runtime_catalog env paths files = (r, files')"
    "files (temporary_catalog env (rp_catalog_file paths)) = None"
  shows "(files (rp_catalog_file paths) \<noteq> None \<longrightarrow> files' = files)
    \<and> files' (temporary_catalog env (rp_catalog_file paths)) = None
    \<and> (\<forall>p. p \<noteq> rp_catalog_file paths \<longrightarrow> files' p = files p)
    \<and> files' (rp_catalog_file paths) \<in>
        {files (rp_catalog_file paths), se_rival env, files (rp_bundled_catalog_file paths)}
    \<and> (r = Inr () \<and> rp_packaged paths \<longrightarrow> (\<exists>content. files' (rp_catalog_file paths) = Some (Regular content)))"
proof -
  let ?destination = "rp_catalog_file paths"
  let ?temporary = "temporary_catalog env ?destination"
  show ?thesis
  proof (cases "rp_packaged paths \<and> files ?destination = None \<and> se_directories env")
    case False
    then have "files' = files"
      "r = Inr () \<and> rp_packaged paths \<longrightarrow> (\<exists>content. files ?destination = Some (Regular content))"
      using assms(1)
      by (auto simp: initialize_runtime_catalog_def Let_def split: if_splits option.splits entry.splits)
    with assms(2) show ?thesis by simp
  next
    case True
    obtain ok files1 where copy: "copy_catalog env (rp_bundled_catalog_file paths) ?temporary files = (ok, files1)"
      by fastforce
    note c = copy_catalog_spec [OF copy]
    obtain r2 files2 where run: "(if \<not> ok then (Inl Catalog_Not_Copied, files1)
        else if \<not> se_permissions env then (Inl Permissions_Not_Set, files1)
        else publish_catalog env ?temporary ?destination files1) = (r2, files2)" by fastforce
    have r: "r = r2" "files' = files2(?temporary := None)"
      using assms(1) True copy run by (auto simp: initialize_runtime_catalog_def Let_def split: if_splits)
    show ?thesis
    proof (cases "ok \<and> se_permissions env")
      case False
      then have "r2 \<noteq> Inr ()" "files2 = files1" using run by (auto split: if_splits)
      with r c True assms(2) show ?thesis by auto
    next
      case ok: True
      then have "publish_catalog env ?temporary ?destination files1 = (r2, files2)" using run by simp
      note p = publish_catalog_spec [OF this temporary_catalog_neq(1)]
      have rest: "files' q = files q" if "q \<noteq> ?destination" for q
        using that r(2) p c assms(2) by auto
      have dest: "files' ?destination = files2 ?destination" using r(2) by simp
      have same: "files1 ?destination = files ?destination" using c by simp
      have temp: "files1 ?temporary = files (rp_bundled_catalog_file paths)"
        "\<exists>content. files1 ?temporary = Some (Regular content)" using c ok by auto
      show ?thesis using rest dest same temp p r True assms(2) by auto
    qed
  qed
qed

definition sample_seed :: seed_env where
  "sample_seed =
     \<lparr>se_temporary = ''1.2.0'', se_directories = True, se_copied = None, se_permissions = True,
      se_link = True, se_rival = None\<rparr>"

theorem catalog_seed_atomic_witness:
  "\<exists>paths files'. resolve_runtime_paths (\<lambda>_. False) ''/app'' ''/app'' (Some ''/data'') = Inr paths
    \<and> initialize_runtime_catalog sample_seed paths [rp_bundled_catalog_file paths \<mapsto> Regular ''[]''] = (Inr (), files')
    \<and> files' (temporary_catalog sample_seed (rp_catalog_file paths)) = None"
proof -
  obtain paths where paths: "resolve_runtime_paths (\<lambda>_. False) ''/app'' ''/app'' (Some ''/data'') = Inr paths"
    "rp_packaged paths" "rp_bundled_catalog_file paths = ''/app/Sample Logs/sample_logs.json''"
    "rp_catalog_file paths = ''/data/Sample Logs/sample_logs.json''"
    by (simp add: resolve_runtime_paths_def catalog_in_def path_append_def Let_def)
  let ?files = "[rp_bundled_catalog_file paths \<mapsto> Regular ''[]'']"
  have fresh: "?files (temporary_catalog sample_seed (rp_catalog_file paths)) = None"
    by (simp add: paths temporary_catalog_def)
  obtain files' where run: "initialize_runtime_catalog sample_seed paths ?files = (Inr (), files')"
    using fresh
    by (simp add: initialize_runtime_catalog_def copy_catalog_def publish_catalog_def Let_def sample_seed_def paths)
  from catalog_seed_atomic [OF run fresh] paths(1) run show ?thesis by blast
qed

end
