(* ===== verification/Gui_Text.thy ===== *)
theory Gui_Text
  imports Cli
begin

text \<open>
  The functions of \<open>src/src/presentation/app.cpp\<close> that the window shows and reads text with: the
  state of a transmission, numbers and sizes, previews, the text a search looks at, addresses and
  dates. Doubles are reals here, as in \<open>Service\<close>; what \<open>snprintf\<close> prints of one is the nearest
  decimal, ties going to the even digit. Texts outside ASCII are written by their UTF-8 codes.
\<close>

subsection \<open>The state of a transmission\<close>

definition is_active :: "generator_state \<Rightarrow> bool" where
  "is_active state \<longleftrightarrow> state = Connecting \<or> state = Running \<or> state = Stopping"

fun state_text :: "generator_state \<Rightarrow> string" where
  "state_text Stopped =
     bytes [0xEC, 0xA4, 0x91, 0xEC, 0xA7, 0x80, 0xEB, 0x90, 0xA8]"
| "state_text Connecting =
     bytes [0xEC, 0x97, 0xB0, 0xEA, 0xB2, 0xB0] @ '' '' @ bytes [0xEC, 0xA4, 0x91]"
| "state_text Running =
     bytes [0xEC, 0xA0, 0x84, 0xEC, 0x86, 0xA1] @ '' '' @ bytes [0xEC, 0xA4, 0x91]"
| "state_text Stopping =
     bytes [0xEC, 0xA4, 0x91, 0xEC, 0xA7, 0x80] @ '' '' @ bytes [0xEC, 0xA4, 0x91]"
| "state_text Failed =
     bytes [0xEC, 0x98, 0xA4, 0xEB, 0xA5, 0x98]"

text \<open>Red, green, blue and alpha.\<close>

fun state_color :: "generator_state \<Rightarrow> real \<times> real \<times> real \<times> real" where
  "state_color Running = (0.04, 0.56, 0.30, 1)"
| "state_color Connecting = (0.82, 0.49, 0.03, 1)"
| "state_color Stopping = (0.82, 0.49, 0.03, 1)"
| "state_color Failed = (0.82, 0.16, 0.19, 1)"
| "state_color Stopped = (0.39, 0.44, 0.52, 1)"

subsection \<open>Numbers and sizes\<close>

definition round_half_even :: "real \<Rightarrow> int" where
  "round_half_even x =
     (let n = \<lfloor>x\<rfloor>; rest = x - of_int n in
      if rest < 1 / 2 then n else if 1 / 2 < rest then n + 1 else if even n then n else n + 1)"

text \<open>\<open>%.<digits>f\<close> of a number that is not negative.\<close>

definition print_fixed :: "nat \<Rightarrow> real \<Rightarrow> string" where
  "print_fixed digits x =
     (let n = nat (round_half_even (x * 10 ^ digits)) in
      to_dec (n div 10 ^ digits)
      @ (if digits = 0 then [] else CHR ''.'' # zero_pad digits (to_dec (n mod 10 ^ digits))))"

definition format_number :: "real \<Rightarrow> string" where
  "format_number x =
     (if 1000000000 \<le> x then print_fixed 2 (x / 1000000000) @ ''B''
      else if 1000000 \<le> x then print_fixed 2 (x / 1000000) @ ''M''
      else if 1000 \<le> x then print_fixed 2 (x / 1000) @ ''K''
      else print_fixed 0 x)"

definition byte_units :: "string list" where
  "byte_units = [''B'', ''KiB'', ''MiB'', ''GiB'', ''TiB'']"

text \<open>The loop of \<open>format_bytes\<close>: the number in its unit, and the index of the unit.\<close>

function scale_units :: "real \<Rightarrow> nat \<Rightarrow> real \<times> nat" where
  "scale_units x n =
     (if 1024 \<le> x \<and> n + 1 < length byte_units then scale_units (x / 1024) (n + 1) else (x, n))"
  by pat_completeness auto
termination by (relation "measure (\<lambda>(x, n). length byte_units - n)") auto

declare scale_units.simps [simp del]

definition format_bytes :: "u64 \<Rightarrow> string" where
  "format_bytes amount =
     (let (x, n) = scale_units (real (unat amount)) 0 in
      print_fixed (if n = 0 then 0 else 2) x @ '' '' @ byte_units ! n)"

subsection \<open>Addresses\<close>

text \<open>
  The loop of \<open>valid_ipv4\<close> from a position on, with the final \<open>segments == 4\<close>. What it asks of a part
  is, word for word, what \<open>cli_app.cpp\<close> asks: \<open>valid_octet\<close>.
\<close>

function scan_segments :: "string \<Rightarrow> nat \<Rightarrow> nat \<Rightarrow> bool" where
  "scan_segments text' segments start =
     (if start \<le> length text' then
        case find_from ''.'' text' start of
          None \<Rightarrow> valid_octet (substr text' start (length text' - start)) \<and> segments + 1 = 4
        | Some e \<Rightarrow>
            valid_octet (substr text' start (e - start)) \<and> scan_segments text' (segments + 1) (e + 1)
      else segments = 4)"
  by pat_completeness auto
termination
proof (relation "measure (\<lambda>(text', segments, start). Suc (length text') - start)", goal_cases)
  case (2 text' segments start e)
  then show ?case using find_from_Some(1) [of "''.''" text' start e] by auto
qed simp

declare scan_segments.simps [simp del]

definition gui_valid_ipv4 :: "string \<Rightarrow> bool" where
  "gui_valid_ipv4 text' = scan_segments text' 0 0"

subsection \<open>Previews and the search\<close>

definition sample_preview :: "string \<Rightarrow> string" where
  "sample_preview sample =
     (let n = min (length sample) 180
      in take n sample @ (if n < length sample then ''...'' else []))"

definition catalog_search_text :: "log_template \<Rightarrow> string \<Rightarrow> string" where
  "catalog_search_text item terms =
     (let result = lt_name item @ '' '' @ lt_source item @ '' '' @ lt_sample item;
          result1 = foldl (\<lambda>result (token, vals).
                             foldl (\<lambda>result x. result @ '' '' @ x) (result @ '' '' @ token) vals)
                      result (lt_test_case item)
      in lowercase (if terms = [] then result1 else result1 @ '' '' @ terms))"

subsection \<open>Dates\<close>

text \<open>A date as its number of days since the epoch.\<close>

definition parse_iso_date :: "string \<Rightarrow> int option" where
  "parse_iso_date text' =
     (if length text' \<noteq> 10 \<or> text' ! 4 \<noteq> CHR ''-'' \<or> text' ! 7 \<noteq> CHR ''-'' then None
      else
        let (year_ec, year_n, year) = from_chars_signed max_i32 (substr text' 0 4);
            (month_ec, month_n, month) = from_chars_unsigned (2 ^ 32 - 1) (substr text' 5 2);
            (day_ec, day_n, day) = from_chars_unsigned (2 ^ 32 - 1) (substr text' 8 2)
        in if year_ec \<noteq> No_Error \<or> year_n \<noteq> 4 \<or> month_ec \<noteq> No_Error \<or> month_n \<noteq> 2
              \<or> day_ec \<noteq> No_Error \<or> day_n \<noteq> 2
           then None
           else if \<not> (1 \<le> month \<and> month \<le> 12 \<and> 1 \<le> day \<and> int day \<le> days_in_month year (int month))
           then None
           else Some (days_from_civil (year, int month, int day)))"

subsection \<open>Lemmas\<close>

lemma parse_iso_date_iff: "parse_iso_date text' = Some d \<longleftrightarrow> parse_date text' option = Inr d"
  by (auto simp: parse_iso_date_def parse_date_def substr_def Let_def split: prod.splits)

lemma find_dot: "find_sub ''.'' s =
  (if CHR ''.'' \<in> set s then Some (length (takeWhile (\<lambda>c. c \<noteq> CHR ''.'') s)) else None)"
  by (induction s) (auto simp: starts_with_def)

lemma length_takeWhile_member: "c \<in> set s \<Longrightarrow> length (takeWhile (\<lambda>x. x \<noteq> c) s) < length s"
  by (induction s) auto

lemma scan_segments_eq:
  "start \<le> length text' \<Longrightarrow>
     scan_segments text' segments start \<longleftrightarrow> ipv4_segments segments (drop start text') = Some 4"
proof (induction text' segments start rule: scan_segments.induct)
  case (1 text' segments start)
  let ?s = "drop start text'"
  let ?part = "takeWhile (\<lambda>c. c \<noteq> CHR ''.'') ?s"
  show ?case
  proof (cases "CHR ''.'' \<in> set ?s")
    case False
    then have whole: "?part = ?s" by (auto simp: takeWhile_eq_all_conv)
    have "find_from ''.'' text' start = None" using False 1(2) by (simp add: find_from_def find_dot)
    then have "scan_segments text' segments start \<longleftrightarrow> valid_octet ?s \<and> segments + 1 = 4"
      using 1(2) by (subst scan_segments.simps) (simp add: substr_def)
    moreover have "ipv4_segments segments ?s = (if valid_octet ?s then Some (segments + 1) else None)"
      by (subst ipv4_segments.simps) (simp only: whole Let_def, simp)
    ultimately show ?thesis by simp
  next
    case True
    define e where "e = start + length ?part"
    have fin: "find_from ''.'' text' start = Some e"
      using 1(2) True by (simp add: find_from_def find_dot e_def)
    have part: "substr text' start (e - start) = ?part"
      by (metis add_diff_cancel_left' e_def substr_def takeWhile_eq_take)
    have less: "length ?part < length ?s" using True by (rule length_takeWhile_member)
    then have e: "e + 1 \<le> length text'" by (simp add: e_def)
    have rest: "drop (length ?part + 1) ?s = drop (e + 1) text'"
      by (simp add: e_def add.commute add.left_commute)
    have "scan_segments text' segments start \<longleftrightarrow> valid_octet ?part \<and> scan_segments text' (segments + 1) (e + 1)"
      using 1(2) by (subst scan_segments.simps) (simp add: fin part)
    moreover have "ipv4_segments segments ?s
        = (if valid_octet ?part then ipv4_segments (segments + 1) (drop (e + 1) text') else None)"
      using less by (subst ipv4_segments.simps) (simp only: Let_def rest, simp)
    ultimately show ?thesis using 1(1) [OF 1(2) fin e] by simp
  qed
qed

lemma gui_valid_ipv4_eq: "gui_valid_ipv4 text' = valid_ipv4 text'"
  by (simp add: gui_valid_ipv4_def valid_ipv4_def scan_segments_eq)

lemma scale_units_spec:
  "scale_units x n = (y, k) \<Longrightarrow> n < length byte_units \<Longrightarrow>
     n \<le> k \<and> k < length byte_units \<and> x = y * 1024 ^ (k - n)
     \<and> (k + 1 < length byte_units \<longrightarrow> y < 1024) \<and> (n < k \<longrightarrow> 1 \<le> y)"
proof (induction x n rule: scale_units.induct)
  case (1 x n)
  show ?case
  proof (cases "1024 \<le> x \<and> n + 1 < length byte_units")
    case True
    then have "scale_units (x / 1024) (n + 1) = (y, k)" using 1(2) by (simp add: scale_units.simps [of x n])
    then have *: "n + 1 \<le> k \<and> k < length byte_units \<and> x / 1024 = y * 1024 ^ (k - (n + 1))
        \<and> (k + 1 < length byte_units \<longrightarrow> y < 1024) \<and> (n + 1 < k \<longrightarrow> 1 \<le> y)"
      using 1(1) [OF True] True by blast
    then have "k - n = Suc (k - (n + 1))" by linarith
    moreover have "n + 1 < k \<or> k = n + 1" using * by linarith
    moreover have "k = n + 1 \<Longrightarrow> 1 \<le> y" using * True by simp
    ultimately show ?thesis using * by auto
  next
    case False
    then have "(y, k) = (x, n)" using 1(2) by (simp add: scale_units.simps [of x n] split: if_splits)
    with False 1(3) show ?thesis by auto
  qed
qed

lemma find_sub_iff: "find_sub pat s \<noteq> None \<longleftrightarrow> (\<exists>a b. s = a @ pat @ b)"
proof
  assume "find_sub pat s \<noteq> None"
  then obtain i where "take (length pat) (drop i s) = pat" using find_sub_Some by blast
  then have "s = take i s @ pat @ drop (length pat) (drop i s)" by (metis append_take_drop_id)
  then show "\<exists>a b. s = a @ pat @ b" by blast
next
  assume "\<exists>a b. s = a @ pat @ b"
  then obtain a b where "s = a @ pat @ b" by blast
  then show "find_sub pat s \<noteq> None"
  proof (induction a arbitrary: s)
    case Nil
    then have "starts_with s pat" by (auto simp: starts_with_iff)
    moreover have "s = [] \<Longrightarrow> pat = []" using Nil by simp
    ultimately show ?case by (cases s) simp_all
  qed auto
qed

lemma find_from_0: "find_from pat s 0 = find_sub pat s"
  by (cases "find_sub pat s") (simp_all add: find_from_def)

text \<open>What the search text is made of.\<close>

definition test_case_words :: "test_case \<Rightarrow> string list" where
  "test_case_words tc = concat (map (\<lambda>(token, vals). token # vals) tc)"

lemma foldl_words: "foldl (\<lambda>result x. result @ CHR '' '' # x) r xs = r @ concat (map (\<lambda>x. CHR '' '' # x) xs)"
  by (induction xs arbitrary: r) simp_all

lemma search_text_words:
  "catalog_search_text item terms = lowercase
     (lt_name item @ concat (map (\<lambda>x. CHR '' '' # x)
        ([lt_source item, lt_sample item] @ test_case_words (lt_test_case item)
         @ (if terms = [] then [] else [terms]))))"
proof -
  have "foldl (\<lambda>result (token, vals). foldl (\<lambda>result x. result @ '' '' @ x) (result @ '' '' @ token) vals) r tc
      = r @ concat (map (\<lambda>x. CHR '' '' # x) (test_case_words tc))" for r tc
  proof (induction tc arbitrary: r)
    case (Cons p tc)
    then show ?case by (cases p) (simp add: test_case_words_def foldl_words)
  qed (simp add: test_case_words_def)
  then show ?thesis by (simp add: catalog_search_text_def Let_def)
qed

lemma lowercase_append: "lowercase (a @ b) = lowercase a @ lowercase b"
  by (simp add: lowercase_def)

lemma search_text_contains:
  assumes "x \<in> set (lt_name item # [lt_source item, lt_sample item] @ test_case_words (lt_test_case item)
                   @ (if terms = [] then [] else [terms]))"
  shows "\<exists>a b. catalog_search_text item terms = a @ lowercase x @ b"
proof -
  let ?ws = "[lt_source item, lt_sample item] @ test_case_words (lt_test_case item)
      @ (if terms = [] then [] else [terms])"
  let ?all = "lt_name item @ concat (map (\<lambda>x. CHR '' '' # x) ?ws)"
  have "\<exists>a b. ?all = a @ x @ b"
  proof (cases "x = lt_name item")
    case True
    then have "?all = [] @ x @ concat (map (\<lambda>x. CHR '' '' # x) ?ws)" by simp
    then show ?thesis by blast
  next
    case False
    then have "x \<in> set ?ws" using assms by (metis set_ConsD)
    then obtain us vs where ws: "?ws = us @ x # vs" by (meson split_list)
    have "?all = (lt_name item @ concat (map (\<lambda>x. CHR '' '' # x) us) @ '' '') @ x @ concat (map (\<lambda>x. CHR '' '' # x) vs)"
      unfolding ws by simp
    then show ?thesis by blast
  qed
  then obtain a b where "?all = a @ x @ b" by blast
  then have "catalog_search_text item terms = lowercase a @ lowercase x @ lowercase b"
    by (simp only: search_text_words lowercase_append)
  then show ?thesis by blast
qed

text \<open>
  The window and the command line agree on what an IPv4 address and what a date is, although each
  reads them with a function of its own: they accept the same texts, and read the same day.\<close>

theorem front_ends_agree:
  "gui_valid_ipv4 text' = valid_ipv4 text'
     \<and> parse_iso_date date = (case parse_date date option of Inl e \<Rightarrow> None | Inr d \<Rightarrow> Some d)"
proof -
  have "parse_iso_date date = (case parse_date date option of Inl e \<Rightarrow> None | Inr d \<Rightarrow> Some d)"
  proof (cases "parse_date date option")
    case (Inl e)
    then have "parse_iso_date date \<noteq> Some d" for d using parse_iso_date_iff [of date d option] by simp
    with Inl show ?thesis by (cases "parse_iso_date date") auto
  next
    case (Inr d)
    then show ?thesis using parse_iso_date_iff [of date d option] by simp
  qed
  then show ?thesis by (simp add: gui_valid_ipv4_eq)
qed

end
