(* ===== verification/Gui_Window.thy ===== *)
theory Gui_Window
  imports Gui_Text
begin

text \<open>
  What the window of \<open>src/src/presentation/app.cpp\<close> keeps, and what its inputs and buttons do to it on
  the thread of the window: the members of \<open>App\<close> (\<open>app.hpp\<close>), the settings panels, the catalog
  selector, the editor, and \<open>start_test\<close>, which makes a configuration of it all. An \<open>int\<close> of the
  source is an \<open>int\<close> between \<open>- 2 ^ 31\<close> and \<open>2 ^ 31 - 1\<close>; a character buffer is the string in front of
  its terminating zero. Fonts, colours, sizes and labels are not modelled. The threads that work for
  the window are in \<open>Gui_Steps\<close>.
\<close>

subsection \<open>Settings\<close>

record settings =
  st_protocol_index :: int
  st_udp_integration_index :: int
  st_transmission_mode_index :: int
  st_framing_index :: int
  st_timestamp_mode_index :: int
  st_offset_sign_index :: int
  st_port :: int
  st_offset_days :: int
  st_offset_hours :: int
  st_offset_minutes :: int
  st_target_eps :: u64
  st_file_max_total_mib :: u64
  st_file_max_count :: int
  st_file_max_duration_seconds :: int
  st_verify_certificate :: bool
  st_host :: string
  st_tls_server_name :: string
  st_source_ip :: string
  st_destination_ip :: string
  st_range_start :: string
  st_range_end :: string

definition initial_settings :: settings where
  "initial_settings =
     \<lparr>st_protocol_index = 0, st_udp_integration_index = 0, st_transmission_mode_index = 1,
      st_framing_index = 0, st_timestamp_mode_index = 0, st_offset_sign_index = 0, st_port = 514,
      st_offset_days = 0, st_offset_hours = 0, st_offset_minutes = 0, st_target_eps = 0,
      st_file_max_total_mib = 0, st_file_max_count = 0, st_file_max_duration_seconds = 0,
      st_verify_certificate = True, st_host = ''127.0.0.1'', st_tls_server_name = [],
      st_source_ip = ''10.0.0.10'', st_destination_ip = ''10.0.0.20'',
      st_range_start = ''2026-01-01'', st_range_end = ''2026-07-31''\<rparr>"

text \<open>\<open>static_cast\<close> of an index to an enum, in the order its constructors are declared.\<close>

definition protocol_at :: "int \<Rightarrow> transport_protocol" where
  "protocol_at i = [Udp, Tcp, Tls, File] ! nat i"

definition framing_at :: "int \<Rightarrow> stream_framing" where
  "framing_at i = [Newline, OctetCounting] ! nat i"

definition mode_at :: "int \<Rightarrow> transmission_mode" where
  "mode_at i = [Sequential, Parallel] ! nat i"

definition timestamp_mode_at :: "int \<Rightarrow> timestamp_generation_mode" where
  "timestamp_mode_at i = [Offset, Range] ! nat i"

subsection \<open>The settings panels\<close>

text \<open>What a user can change in the panels, with the new content of the input.\<close>

datatype setting_edit =
    Pick_Protocol int | Pick_Integration int | Pick_Framing int | Pick_Mode int
  | Enter_File_Mib u64 | Enter_File_Count int | Enter_File_Duration int
  | Type_Host string | Enter_Port int | Type_Tls_Name string | Check_Verify bool | Enter_Eps u64
  | Type_Source_Ip string | Type_Destination_Ip string
  | Pick_Timestamp_Mode int | Pick_Offset_Sign int
  | Enter_Offset_Days int | Enter_Offset_Hours int | Enter_Offset_Minutes int
  | Type_Range_Start string | Type_Range_End string

definition is_int32 :: "int \<Rightarrow> bool" where
  "is_int32 i \<longleftrightarrow> - (2 ^ 31) \<le> i \<and> i < 2 ^ 31"

text \<open>What fits into a buffer of \<open>n\<close> characters.\<close>

definition fits_buffer :: "nat \<Rightarrow> string \<Rightarrow> bool" where
  "fits_buffer n s \<longleftrightarrow> length s < n \<and> CHR 0x00 \<notin> set s"

text \<open>
  The inputs \<open>render_destination_panel\<close>, \<open>render_template_panel\<close>, \<open>render_time_offset\<close> and
  \<open>render_time_range\<close> show and do not disable, with the values a combo box or a buffer lets in.
\<close>

definition edit_offered :: "settings \<Rightarrow> setting_edit \<Rightarrow> bool" where
  "edit_offered s e =
     (let file_protocol = st_protocol_index s = 3; udp_protocol = st_protocol_index s = 0 in
      case e of
        Pick_Protocol i \<Rightarrow> 0 \<le> i \<and> i < 4
      | Pick_Integration i \<Rightarrow> udp_protocol \<and> 0 \<le> i \<and> i < 2
      | Enter_File_Mib n \<Rightarrow> file_protocol
      | Enter_File_Count i \<Rightarrow> file_protocol \<and> is_int32 i
      | Enter_File_Duration i \<Rightarrow> file_protocol \<and> is_int32 i
      | Type_Host t \<Rightarrow> \<not> file_protocol \<and> fits_buffer 256 t
      | Enter_Port i \<Rightarrow> \<not> file_protocol \<and> is_int32 i
      | Pick_Framing i \<Rightarrow> (st_protocol_index s = 1 \<or> st_protocol_index s = 2) \<and> 0 \<le> i \<and> i < 2
      | Type_Tls_Name t \<Rightarrow> st_protocol_index s = 2 \<and> fits_buffer 256 t
      | Check_Verify b \<Rightarrow> st_protocol_index s = 2
      | Pick_Mode i \<Rightarrow> \<not> file_protocol \<and> 0 \<le> i \<and> i < 2
      | Enter_Eps n \<Rightarrow> True
      | Type_Source_Ip t \<Rightarrow> fits_buffer 64 t
      | Type_Destination_Ip t \<Rightarrow> fits_buffer 64 t
      | Pick_Timestamp_Mode i \<Rightarrow> 0 \<le> i \<and> i < 2
      | Pick_Offset_Sign i \<Rightarrow> st_timestamp_mode_index s = 0 \<and> 0 \<le> i \<and> i < 2
      | Enter_Offset_Days i \<Rightarrow> st_timestamp_mode_index s = 0 \<and> is_int32 i
      | Enter_Offset_Hours i \<Rightarrow> st_timestamp_mode_index s = 0 \<and> is_int32 i
      | Enter_Offset_Minutes i \<Rightarrow> st_timestamp_mode_index s = 0 \<and> is_int32 i
      | Type_Range_Start t \<Rightarrow> st_timestamp_mode_index s \<noteq> 0 \<and> fits_buffer 11 t
      | Type_Range_End t \<Rightarrow> st_timestamp_mode_index s \<noteq> 0 \<and> fits_buffer 11 t)"

definition pick_protocol :: "int \<Rightarrow> settings \<Rightarrow> settings" where
  "pick_protocol i s =
     (let s1 = s\<lparr>st_protocol_index := i\<rparr>;
          s2 = (if st_protocol_index s1 = 3 then s1\<lparr>st_transmission_mode_index := 0\<rparr> else s1)
      in if st_protocol_index s2 \<noteq> 0 then s2\<lparr>st_udp_integration_index := 0\<rparr> else s2)"

fun edit_setting :: "setting_edit \<Rightarrow> settings \<Rightarrow> settings" where
  "edit_setting (Pick_Protocol i) s = pick_protocol i s"
| "edit_setting (Pick_Integration i) s = s\<lparr>st_udp_integration_index := i\<rparr>"
| "edit_setting (Pick_Framing i) s = s\<lparr>st_framing_index := i\<rparr>"
| "edit_setting (Pick_Mode i) s = s\<lparr>st_transmission_mode_index := i\<rparr>"
| "edit_setting (Enter_File_Mib n) s = s\<lparr>st_file_max_total_mib := n\<rparr>"
| "edit_setting (Enter_File_Count i) s = s\<lparr>st_file_max_count := i\<rparr>"
| "edit_setting (Enter_File_Duration i) s = s\<lparr>st_file_max_duration_seconds := i\<rparr>"
| "edit_setting (Type_Host t) s = s\<lparr>st_host := t\<rparr>"
| "edit_setting (Enter_Port i) s = s\<lparr>st_port := i\<rparr>"
| "edit_setting (Type_Tls_Name t) s = s\<lparr>st_tls_server_name := t\<rparr>"
| "edit_setting (Check_Verify b) s = s\<lparr>st_verify_certificate := b\<rparr>"
| "edit_setting (Enter_Eps n) s = s\<lparr>st_target_eps := n\<rparr>"
| "edit_setting (Type_Source_Ip t) s = s\<lparr>st_source_ip := t\<rparr>"
| "edit_setting (Type_Destination_Ip t) s = s\<lparr>st_destination_ip := t\<rparr>"
| "edit_setting (Pick_Timestamp_Mode i) s = s\<lparr>st_timestamp_mode_index := i\<rparr>"
| "edit_setting (Pick_Offset_Sign i) s = s\<lparr>st_offset_sign_index := i\<rparr>"
| "edit_setting (Enter_Offset_Days i) s = s\<lparr>st_offset_days := i\<rparr>"
| "edit_setting (Enter_Offset_Hours i) s = s\<lparr>st_offset_hours := i\<rparr>"
| "edit_setting (Enter_Offset_Minutes i) s = s\<lparr>st_offset_minutes := i\<rparr>"
| "edit_setting (Type_Range_Start t) s = s\<lparr>st_range_start := t\<rparr>"
| "edit_setting (Type_Range_End t) s = s\<lparr>st_range_end := t\<rparr>"

text \<open>The settings a user can arrive at.\<close>

definition settings_ok :: "settings \<Rightarrow> bool" where
  "settings_ok s \<longleftrightarrow>
     0 \<le> st_protocol_index s \<and> st_protocol_index s < 4
     \<and> 0 \<le> st_udp_integration_index s \<and> st_udp_integration_index s < 2
     \<and> 0 \<le> st_framing_index s \<and> st_framing_index s < 2
     \<and> 0 \<le> st_transmission_mode_index s \<and> st_transmission_mode_index s < 2
     \<and> 0 \<le> st_timestamp_mode_index s \<and> st_timestamp_mode_index s < 2
     \<and> (st_udp_integration_index s = 1 \<longrightarrow> st_protocol_index s = 0)
     \<and> (st_protocol_index s = 3 \<longrightarrow> st_transmission_mode_index s = 0)
     \<and> CHR 0x00 \<notin> set (st_host s)"

lemma initial_settings_ok: "settings_ok initial_settings"
  by (simp add: settings_ok_def initial_settings_def)

lemma edit_setting_ok: "settings_ok s \<Longrightarrow> edit_offered s e \<Longrightarrow> settings_ok (edit_setting e s)"
  by (cases e) (auto simp: settings_ok_def edit_offered_def pick_protocol_def fits_buffer_def Let_def)

subsection \<open>The window\<close>

datatype popup = Editor_Popup | Delete_Popup | Import_Popup

text \<open>
  The members of \<open>App\<close> the thread of the window owns. \<open>wi_popup\<close> is the modal popup that is open, which
  the source leaves to the user interface library; \<open>*_popup_requested_\<close> are requests to open one.
\<close>

record window =
  wi_settings :: settings
  wi_items :: "log_template list"
  wi_search_names :: "string list"
  wi_previews :: "string list"
  wi_analyses :: "log_template_analysis list"
  wi_filtered :: "nat list"
  wi_selected :: nat
  wi_rotate :: bool
  wi_search :: string
  wi_error :: string
  wi_notice :: string
  wi_editor_requested :: bool
  wi_delete_requested :: bool
  wi_import_requested :: bool
  wi_popup :: "popup option"
  wi_import_path :: string
  wi_editor_is_new :: bool
  wi_editor_index :: nat
  wi_delete_index :: nat
  wi_editor_name :: string
  wi_editor_sample :: string
  wi_editor_preview :: string
  wi_editor_item :: "log_template option"
  wi_editor_analysis :: log_template_analysis
  wi_editor_pending :: bool
  wi_editor_due :: int
  wi_editor_revision :: u64

definition initial_window :: window where
  "initial_window =
     \<lparr>wi_settings = initial_settings, wi_items = [], wi_search_names = [], wi_previews = [],
      wi_analyses = [], wi_filtered = [], wi_selected = 0, wi_rotate = True, wi_search = [],
      wi_error = [], wi_notice = [], wi_editor_requested = False, wi_delete_requested = False,
      wi_import_requested = False, wi_popup = None, wi_import_path = [], wi_editor_is_new = False,
      wi_editor_index = 0, wi_delete_index = 0, wi_editor_name = [], wi_editor_sample = [],
      wi_editor_preview = [], wi_editor_item = None, wi_editor_analysis = empty_analysis,
      wi_editor_pending = False, wi_editor_due = 0, wi_editor_revision = 0\<rparr>"

subsection \<open>The filter and the selection\<close>

definition matching_indices :: "string \<Rightarrow> string list \<Rightarrow> nat \<Rightarrow> nat list" where
  "matching_indices query names n =
     [i \<leftarrow> [0 ..< n]. query = [] \<or> find_from query (names ! i) 0 \<noteq> None]"

definition rebuild_filter :: "window \<Rightarrow> window" where
  "rebuild_filter w =
     (let query = lowercase (wi_search w);
          indices = matching_indices query (wi_search_names w) (length (wi_items w))
      in w\<lparr>wi_filtered := indices,
           wi_selected := (if indices \<noteq> [] \<and> wi_selected w \<notin> set indices then hd indices
                           else wi_selected w)\<rparr>)"

definition visible_catalog_index :: "window \<Rightarrow> nat" where
  "visible_catalog_index w =
     (if wi_items w = [] then 0
      else if wi_rotate w \<and> wi_filtered w \<noteq> [] then hd (wi_filtered w)
      else min (wi_selected w) (length (wi_items w) - 1))"

subsection \<open>Starting a transmission\<close>

datatype gui_error =
    Gui_No_Items | Gui_No_Destination | Gui_Bad_Ip | Gui_Negative_Limit | Gui_Size_Too_Large
  | Gui_Bad_Date | Gui_Reversed_Range | Gui_No_Match

fun gui_error_text :: "gui_error \<Rightarrow> string" where
  "gui_error_text Gui_No_Items =
     bytes [0xEC, 0xA0, 0x84, 0xEC, 0x86, 0xA1, 0xED, 0x95, 0xA0] @ '' '' @ bytes [0xEC, 0x83, 0x98, 0xED, 0x94,
     0x8C] @ '' '' @ bytes [0xEB, 0xA1, 0x9C, 0xEA, 0xB7, 0xB8, 0xEA, 0xB0, 0x80] @ '' '' @ bytes [0xEC, 0x97,
     0x86, 0xEC, 0x8A, 0xB5, 0xEB, 0x8B, 0x88, 0xEB, 0x8B, 0xA4] @ ''.''"
| "gui_error_text Gui_No_Destination =
     bytes [0xEB, 0x8C, 0x80, 0xEC, 0x83, 0x81] @ '' IP/Host'' @ bytes [0xEC, 0x99, 0x80] @ '' '' @ bytes [0xEC,
     0x9C, 0xA0, 0xED, 0x9A, 0xA8, 0xED, 0x95, 0x9C] @ '' Port'' @ bytes [0xEB, 0xA5, 0xBC] @ '' '' @
     bytes [0xEC, 0x9E, 0x85, 0xEB, 0xA0, 0xA5, 0xED, 0x95, 0x98, 0xEC, 0x84, 0xB8, 0xEC, 0x9A, 0x94] @ ''.''"
| "gui_error_text Gui_Bad_Ip =
     ''src_ip'' @ bytes [0xEC, 0x99, 0x80] @ '' dst_ip'' @ bytes [0xEB, 0x8A, 0x94] @ '' '' @ bytes [0xEC, 0x9C,
     0xA0, 0xED, 0x9A, 0xA8, 0xED, 0x95, 0x9C] @ '' IPv4 '' @ bytes [0xEC, 0xA3, 0xBC, 0xEC, 0x86, 0x8C, 0xEC,
     0x97, 0xAC, 0xEC, 0x95, 0xBC] @ '' '' @ bytes [0xED, 0x95, 0xA9, 0xEB, 0x8B, 0x88, 0xEB, 0x8B, 0xA4] @
     ''.''"
| "gui_error_text Gui_Negative_Limit =
     ''FILE '' @ bytes [0xEC, 0x83, 0x9D, 0xEC, 0x84, 0xB1] @ '' '' @ bytes [0xEC, 0xA0, 0x9C, 0xED, 0x95, 0x9C,
     0xEC, 0x9D, 0x80] @ '' 0 '' @ bytes [0xEC, 0x9D, 0xB4, 0xEC, 0x83, 0x81, 0xEC, 0x9D, 0x98] @ '' '' @
     bytes [0xEA, 0xB0, 0x92, 0xEC, 0x9D, 0xB4, 0xEC, 0x96, 0xB4, 0xEC, 0x95, 0xBC] @ '' '' @ bytes [0xED, 0x95,
     0xA9, 0xEB, 0x8B, 0x88, 0xEB, 0x8B, 0xA4] @ ''.''"
| "gui_error_text Gui_Size_Too_Large =
     ''FILE '' @ bytes [0xEC, 0xB5, 0x9C, 0xEB, 0x8C, 0x80] @ '' '' @ bytes [0xEC, 0xB4, 0x9D] @ '' '' @
     bytes [0xEC, 0x83, 0x9D, 0xEC, 0x84, 0xB1, 0xEB, 0x9F, 0x89, 0xEC, 0x9D, 0xB4] @ '' '' @ bytes [0xEB, 0x84,
     0x88, 0xEB, 0xAC, 0xB4] @ '' '' @ bytes [0xED, 0x81, 0xBD, 0xEB, 0x8B, 0x88, 0xEB, 0x8B, 0xA4] @ ''.''"
| "gui_error_text Gui_Bad_Date =
     bytes [0xEA, 0xB8, 0xB0, 0xEA, 0xB0, 0x84, 0xEC, 0x9D, 0x80] @ '' yyyy-MM-dd '' @ bytes [0xED, 0x98, 0x95,
     0xEC, 0x8B, 0x9D, 0xEC, 0x9D, 0x98] @ '' '' @ bytes [0xEC, 0x9C, 0xA0, 0xED, 0x9A, 0xA8, 0xED, 0x95,
     0x9C] @ '' '' @ bytes [0xEB, 0x82, 0xA0, 0xEC, 0xA7, 0x9C, 0xEC, 0x97, 0xAC, 0xEC, 0x95, 0xBC] @ '' '' @
     bytes [0xED, 0x95, 0xA9, 0xEB, 0x8B, 0x88, 0xEB, 0x8B, 0xA4] @ ''.''"
| "gui_error_text Gui_Reversed_Range =
     bytes [0xEA, 0xB8, 0xB0, 0xEA, 0xB0, 0x84] @ '' '' @ bytes [0xEC, 0x8B, 0x9C, 0xEC, 0x9E, 0x91, 0xEC, 0x9D,
     0xBC, 0xEC, 0x9D, 0x80] @ '' '' @ bytes [0xEC, 0xA2, 0x85, 0xEB, 0xA3, 0x8C, 0xEC, 0x9D, 0xBC, 0xEB, 0xB3,
     0xB4, 0xEB, 0x8B, 0xA4] @ '' '' @ bytes [0xEB, 0x8A, 0xA6, 0xEC, 0x9D, 0x84] @ '' '' @ bytes [0xEC, 0x88,
     0x98] @ '' '' @ bytes [0xEC, 0x97, 0x86, 0xEC, 0x8A, 0xB5, 0xEB, 0x8B, 0x88, 0xEB, 0x8B, 0xA4] @ ''.''"
| "gui_error_text Gui_No_Match =
     bytes [0xEA, 0xB2, 0x80, 0xEC, 0x83, 0x89] @ '' '' @ bytes [0xEC, 0xA1, 0xB0, 0xEA, 0xB1, 0xB4, 0xEC, 0x97,
     0x90] @ '' '' @ bytes [0xEB, 0xA7, 0x9E, 0xEB, 0x8A, 0x94] @ '' '' @ bytes [0xEC, 0x83, 0x98, 0xED, 0x94,
     0x8C] @ '' '' @ bytes [0xEB, 0xA1, 0x9C, 0xEA, 0xB7, 0xB8, 0xEA, 0xB0, 0x80] @ '' '' @ bytes [0xEC, 0x97,
     0x86, 0xEC, 0x8A, 0xB5, 0xEB, 0x8B, 0x88, 0xEB, 0x8B, 0xA4] @ ''.''"

text \<open>\<open>std::abs\<close> of an \<open>int\<close>; the least one has no absolute value, and keeps its own on the usual
  machines.\<close>

definition abs_int32 :: "int \<Rightarrow> int" where
  "abs_int32 i = (if i = - (2 ^ 31) then i else \<bar>i\<bar>)"

definition clamp_int :: "int \<Rightarrow> int \<Rightarrow> int \<Rightarrow> int" where
  "clamp_int x low high = (if x < low then low else if high < x then high else x)"

definition endpoint_of_settings :: "settings \<Rightarrow> gui_error + endpoint_config" where
  "endpoint_of_settings s =
     (let protocol = protocol_at (st_protocol_index s);
          endpoint = default_endpoint\<lparr>
            ep_protocol := protocol, ep_host := st_host s, ep_port := of_int (st_port s),
            ep_framing := framing_at (st_framing_index s),
            ep_udp_packetization :=
              (if st_udp_integration_index s = 1 then NewlinePacked else OneEventPerDatagram),
            ep_tls_server_name := st_tls_server_name s,
            ep_verify_certificate := st_verify_certificate s\<rparr>
      in if protocol = File then
           if st_file_max_count s < 0 \<or> st_file_max_duration_seconds s < 0 then Inl Gui_Negative_Limit
           else if (2 ^ 64 - 1) div (1024 * 1024) < unat (st_file_max_total_mib s) then Inl Gui_Size_Too_Large
           else Inr (endpoint\<lparr>
                  ep_file_max_total_bytes := st_file_max_total_mib s * (1024 * 1024),
                  ep_file_max_count := of_int (st_file_max_count s),
                  ep_file_max_duration := 1000 * st_file_max_duration_seconds s\<rparr>)
         else Inr endpoint)"

definition generation_of_settings :: "settings \<Rightarrow> gui_error + timestamp_generation" where
  "generation_of_settings s =
     (let mode = timestamp_mode_at (st_timestamp_mode_index s);
          generation = default_timestamp_generation\<lparr>tg_mode := mode\<rparr>
      in if mode = Offset then
           Inr (generation\<lparr>tg_offset :=
                  \<lparr>to_negative = (st_offset_sign_index s = 1),
                   to_days = clamp_int (abs_int32 (st_offset_days s)) 0 3650,
                   to_hours = clamp_int (abs_int32 (st_offset_hours s)) 0 23,
                   to_minutes = clamp_int (abs_int32 (st_offset_minutes s)) 0 59\<rparr>\<rparr>)
         else
           case (parse_iso_date (st_range_start s), parse_iso_date (st_range_end s)) of
             (Some first, Some last') \<Rightarrow>
               if last' < first then Inl Gui_Reversed_Range
               else Inr (generation\<lparr>tg_range := \<lparr>tr_start = 86400 * first, tr_end = 86400 * (last' + 1) - 1\<rparr>\<rparr>)
           | _ \<Rightarrow> Inl Gui_Bad_Date)"

text \<open>What \<open>start_test\<close> hands to the service, or the exception it throws before.\<close>

definition start_config :: "window \<Rightarrow> gui_error + generator_config" where
  "start_config w =
     (let s = wi_settings w in
      if wi_items w = [] then Inl Gui_No_Items
      else if protocol_at (st_protocol_index s) \<noteq> File
              \<and> (st_host s = [] \<or> st_port s < 1 \<or> 65535 < st_port s) then Inl Gui_No_Destination
      else if \<not> gui_valid_ipv4 (st_source_ip s) \<or> \<not> gui_valid_ipv4 (st_destination_ip s) then Inl Gui_Bad_Ip
      else
        bind_result (endpoint_of_settings s) (\<lambda>endpoint.
        bind_result (generation_of_settings s) (\<lambda>generation.
          let templates = (if wi_rotate w then map (\<lambda>i. wi_items w ! i) (wi_filtered w)
                           else [wi_items w ! wi_selected w])
          in if templates = [] then Inl Gui_No_Match
             else Inr (default_config\<lparr>
                    gc_endpoint := endpoint, gc_source_ip := st_source_ip s,
                    gc_destination_ip := st_destination_ip s, gc_timestamp_generation := generation,
                    gc_transmission_mode := mode_at (st_transmission_mode_index s),
                    gc_target_eps := st_target_eps s, gc_templates := templates\<rparr>))))"

text \<open>
  \<open>start_test\<close>, with what \<open>IStressTestUseCase::start\<close> throws, if it does. The result says which
  configuration was started.
\<close>

definition start_test :: "(generator_config \<Rightarrow> string option) \<Rightarrow> window \<Rightarrow> window \<times> generator_config option" where
  "start_test start w =
     (case start_config w of
        Inl e \<Rightarrow> (w\<lparr>wi_error := gui_error_text e\<rparr>, None)
      | Inr config \<Rightarrow>
          (case start config of
             Some e \<Rightarrow> (w\<lparr>wi_error := e\<rparr>, None)
           | None \<Rightarrow> (w\<lparr>wi_error := [], wi_notice := []\<rparr>, Some config)))"

end
