(* ===== verification/Gui_Catalog.thy ===== *)
theory Gui_Catalog
  imports Gui_Window Sample_Import
begin

text \<open>
  The work on the catalog in \<open>src/src/presentation/app.cpp\<close>: the jobs a loader thread does and their
  results, the requests that start them, the results applied to the window, and the editor of a sample
  with its tokenizer. The use cases are called through \<open>ILogCatalogUseCase\<close> and
  \<open>ISampleLogImportUseCase\<close>: a record of functions over a state of their own.
\<close>

subsection \<open>The use cases\<close>

text \<open>An exception is its \<open>what()\<close>.\<close>

record 's catalog_calls =
  cc_load :: "'s \<Rightarrow> (string + log_template list) \<times> 's"
  cc_save :: "log_template list \<Rightarrow> 's \<Rightarrow> (string + unit) \<times> 's"
  cc_analyze :: "log_template \<Rightarrow> 's \<Rightarrow> (string + log_template_analysis) \<times> 's"
  cc_tokenize :: "log_template \<Rightarrow> 's \<Rightarrow> (string + tokenized_log_template) \<times> 's"
  cc_import :: "string \<Rightarrow> log_template list \<Rightarrow> 's \<Rightarrow> (string + tokenized_log_template list) \<times> 's"
  cc_terms :: "log_template_analysis \<Rightarrow> string"
  cc_next_id :: "log_template list \<Rightarrow> string + string"

subsection \<open>Jobs\<close>

record catalog_result =
  cr_items :: "log_template list"
  cr_search_names :: "string list"
  cr_previews :: "string list"
  cr_analyses :: "log_template_analysis list"
  cr_error :: string
  cr_notice :: string
  cr_selected :: "nat option"
  cr_replace :: bool

definition empty_result :: catalog_result where
  "empty_result =
     \<lparr>cr_items = [], cr_search_names = [], cr_previews = [], cr_analyses = [], cr_error = [],
      cr_notice = [], cr_selected = None, cr_replace = True\<rparr>"

datatype catalog_job = Load_Job | Save_Job "log_template list" | Import_Job string "log_template list"

text \<open>The loop \<open>for (auto& item : result.items)\<close>; an exception leaves what was pushed.\<close>

fun analyze_items ::
    "'s catalog_calls \<Rightarrow> log_template list \<Rightarrow> catalog_result \<Rightarrow> 's
       \<Rightarrow> string option \<times> catalog_result \<times> 's" where
  "analyze_items svc [] result s = (None, result, s)"
| "analyze_items svc (item # items) result s =
     (case cc_analyze svc item s of
        (Inl e, s1) \<Rightarrow> (Some e, result, s1)
      | (Inr analysis, s1) \<Rightarrow>
          analyze_items svc items
            (result\<lparr>cr_search_names := cr_search_names result
                       @ [catalog_search_text item (cc_terms svc analysis)],
                    cr_previews := cr_previews result @ [sample_preview (lt_sample item)],
                    cr_analyses := cr_analyses result @ [analysis]\<rparr>) s1)"

text \<open>The \<open>catch\<close> of a job.\<close>

definition job_error :: "string \<Rightarrow> catalog_result \<Rightarrow> catalog_result" where
  "job_error e result = result\<lparr>cr_error := e\<rparr>"

definition load_job :: "'s catalog_calls \<Rightarrow> 's \<Rightarrow> catalog_result \<times> 's" where
  "load_job svc s =
     (case cc_load svc s of
        (Inl e, s1) \<Rightarrow> (job_error e empty_result, s1)
      | (Inr items, s1) \<Rightarrow>
          (case analyze_items svc items (empty_result\<lparr>cr_items := items\<rparr>) s1 of
             (Some e, result, s2) \<Rightarrow> (job_error e result, s2)
           | (None, result, s2) \<Rightarrow> (result, s2)))"

definition save_job :: "'s catalog_calls \<Rightarrow> log_template list \<Rightarrow> 's \<Rightarrow> catalog_result \<times> 's" where
  "save_job svc items s =
     (let result = empty_result\<lparr>cr_replace := False\<rparr> in
      case cc_save svc items s of
        (Inl e, s1) \<Rightarrow> (job_error e result, s1)
      | (Inr _, s1) \<Rightarrow> (result, s1))"

definition import_notice :: "nat \<Rightarrow> string \<Rightarrow> string" where
  "import_notice n file =
     bytes [0xEC, 0x83, 0x98, 0xED, 0x94, 0x8C] @ '' '' @ bytes [0xEB, 0xA1, 0x9C, 0xEA, 0xB7, 0xB8] @ '' '' @ to_dec n
     @ bytes [0xEA, 0xB0, 0x9C, 0xEB, 0xA5, 0xBC] @ '' '' @ [SQUOTE] @ path_filename file
     @ [SQUOTE] @ bytes [0xEC, 0x97, 0x90, 0xEC, 0x84, 0x9C] @ '' '' @ bytes [0xEA, 0xB0, 0x80, 0xEC, 0xA0, 0xB8,
     0xEC, 0x99, 0x80] @ '' '' @ bytes [0xEC, 0xA0, 0x80, 0xEC, 0x9E, 0xA5, 0xED, 0x96, 0x88, 0xEC, 0x8A, 0xB5,
     0xEB, 0x8B, 0x88, 0xEB, 0x8B, 0xA4] @ ''.''"

definition import_job :: "'s catalog_calls \<Rightarrow> string \<Rightarrow> log_template list \<Rightarrow> 's \<Rightarrow> catalog_result \<times> 's" where
  "import_job svc file items s =
     (let result = empty_result\<lparr>cr_items := items\<rparr> in
      case cc_import svc file items s of
        (Inl e, s1) \<Rightarrow> (job_error e result, s1)
      | (Inr imported, s1) \<Rightarrow>
          let all_items = items @ map tl_item imported; result1 = result\<lparr>cr_items := all_items\<rparr> in
          (case cc_save svc all_items s1 of
             (Inl e, s2) \<Rightarrow> (job_error e result1, s2)
           | (Inr _, s2) \<Rightarrow>
               (case analyze_items svc all_items result1 s2 of
                  (Some e, result2, s3) \<Rightarrow> (job_error e result2, s3)
                | (None, result2, s3) \<Rightarrow>
                    (result2\<lparr>cr_selected := Some (length items),
                             cr_notice := import_notice (length imported) file\<rparr>, s3))))"

fun run_job :: "'s catalog_calls \<Rightarrow> catalog_job \<Rightarrow> 's \<Rightarrow> catalog_result \<times> 's" where
  "run_job svc Load_Job s = load_job svc s"
| "run_job svc (Save_Job items) s = save_job svc items s"
| "run_job svc (Import_Job file items) s = import_job svc file items s"

subsection \<open>Requests\<close>

text \<open>
  The loader thread and what it shares with the window: \<open>catalog_loading_\<close>, \<open>catalog_result_ready_\<close>,
  \<open>pending_catalog_result_\<close>. The thread does its job, publishes the result, sets the one flag and then
  clears the other; \<open>Loader_Ended\<close> is a thread that has returned, or none.
\<close>

datatype loader_pc =
  Loader_Ended | Run_Job catalog_job | Publish_Result catalog_result | Set_Ready | Clear_Loading

record loader =
  ld_loading :: bool
  ld_ready :: bool
  ld_slot :: "catalog_result option"
  ld_pc :: loader_pc

definition initial_loader :: loader where
  "initial_loader = \<lparr>ld_loading = False, ld_ready = False, ld_slot = None, ld_pc = Loader_Ended\<rparr>"

text \<open>
  \<open>catalog_loader_ = std::jthread(...)\<close>; the thread before has been joined, which \<open>loader_ok\<close> below
  shows to be over at once.
\<close>

definition start_job :: "catalog_job \<Rightarrow> loader \<Rightarrow> loader" where
  "start_job job l = l\<lparr>ld_loading := True, ld_pc := Run_Job job\<rparr>"

definition busy_text :: string where
  "busy_text =
     bytes [0xEC, 0xB9, 0xB4, 0xED, 0x83, 0x88, 0xEB, 0xA1, 0x9C, 0xEA, 0xB7, 0xB8] @ '' '' @ bytes [0xEC, 0x9E,
     0x91, 0xEC, 0x97, 0x85, 0xEC, 0x9D, 0xB4] @ '' '' @ bytes [0xEC, 0x99, 0x84, 0xEB, 0xA3, 0x8C, 0xEB, 0x90,
     0x9C] @ '' '' @ bytes [0xEB, 0x92, 0xA4] @ '' '' @ bytes [0xEB, 0x8B, 0xA4, 0xEC, 0x8B, 0x9C] @ '' '' @
     bytes [0xEC, 0x8B, 0x9C, 0xEB, 0x8F, 0x84, 0xED, 0x95, 0x98, 0xEC, 0x84, 0xB8, 0xEC, 0x9A, 0x94] @ ''.''"

definition request_catalog_load :: "window \<times> loader \<Rightarrow> window \<times> loader" where
  "request_catalog_load wl =
     (case wl of (w, l) \<Rightarrow>
        if ld_loading l then (w, l) else (w\<lparr>wi_notice := []\<rparr>, start_job Load_Job l))"

definition request_catalog_save :: "window \<times> loader \<Rightarrow> window \<times> loader" where
  "request_catalog_save wl =
     (case wl of (w, l) \<Rightarrow>
        if ld_loading l then (w\<lparr>wi_error := busy_text\<rparr>, l)
        else (w\<lparr>wi_notice := []\<rparr>, start_job (Save_Job (wi_items w)) l))"

definition request_sample_log_import :: "string \<Rightarrow> window \<times> loader \<Rightarrow> window \<times> loader" where
  "request_sample_log_import file wl =
     (case wl of (w, l) \<Rightarrow>
        if ld_loading l then (w\<lparr>wi_error := busy_text\<rparr>, l)
        else (w\<lparr>wi_error := [], wi_notice := []\<rparr>, start_job (Import_Job file (wi_items w)) l))"

text \<open>\<open>apply_catalog_result\<close> after it has taken the result out of its slot.\<close>

definition apply_result :: "catalog_result option \<Rightarrow> window \<Rightarrow> window" where
  "apply_result r w =
     (case r of
        None \<Rightarrow> w
      | Some result \<Rightarrow>
          if cr_error result \<noteq> [] then w\<lparr>wi_error := cr_error result, wi_notice := []\<rparr>
          else if \<not> cr_replace result then w\<lparr>wi_error := [], wi_notice := []\<rparr>
          else
            let w1 = w\<lparr>wi_items := cr_items result, wi_search_names := cr_search_names result,
                       wi_previews := cr_previews result, wi_analyses := cr_analyses result\<rparr>;
                clamped = min (wi_selected w1) (if wi_items w1 = [] then 0 else length (wi_items w1) - 1);
                w2 = w1\<lparr>wi_selected :=
                       (case cr_selected result of
                          Some i \<Rightarrow> if i < length (wi_items w1) then i else clamped
                        | None \<Rightarrow> clamped)\<rparr>
            in (rebuild_filter w2)\<lparr>wi_error := [], wi_notice := cr_notice result\<rparr>)"

subsection \<open>The editor\<close>

record tokenization_request =
  tq_revision :: u64
  tq_source_sample :: string
  tq_item :: log_template

record tokenization_result =
  tr_revision :: u64
  tr_source_sample :: string
  tr_outcome :: "string + tokenized_log_template"

text \<open>The source of a template that is written in the editor.\<close>

definition custom_source :: string where
  "custom_source =
     bytes [0xEC, 0x82, 0xAC, 0xEC, 0x9A, 0xA9, 0xEC, 0x9E, 0x90] @ '' '' @ bytes [0xEC, 0xA0, 0x95, 0xEC, 0x9D,
     0x98]"

text \<open>\<open>now\<close> is the steady clock, in milliseconds.\<close>

definition mark_editor_sample_changed :: "bool \<Rightarrow> int \<Rightarrow> window \<Rightarrow> window" where
  "mark_editor_sample_changed immediate now w =
     (let w1 = w\<lparr>wi_editor_revision := wi_editor_revision w + 1, wi_editor_item := None,
                 wi_editor_preview := [], wi_editor_analysis := empty_analysis, wi_editor_pending := False\<rparr>
      in if wi_editor_sample w1 = [] then w1
         else w1\<lparr>wi_editor_pending := True, wi_editor_due := now + (if immediate then 0 else 120)\<rparr>)"

definition open_new_catalog_editor :: "int \<Rightarrow> window \<Rightarrow> window" where
  "open_new_catalog_editor now w =
     (mark_editor_sample_changed True now
        (w\<lparr>wi_editor_is_new := True, wi_editor_index := length (wi_items w), wi_editor_name := [],
           wi_editor_sample := []\<rparr>))\<lparr>wi_editor_requested := True\<rparr>"

definition open_selected_catalog_editor :: "int \<Rightarrow> window \<Rightarrow> window" where
  "open_selected_catalog_editor now w =
     (if wi_items w = [] then w
      else
        let i = visible_catalog_index w; item = wi_items w ! i in
        (mark_editor_sample_changed True now
           (w\<lparr>wi_editor_is_new := False, wi_editor_index := i, wi_editor_name := lt_name item,
              wi_editor_sample := lt_sample item\<rparr>))\<lparr>wi_editor_requested := True\<rparr>)"

text \<open>The request \<open>queue_editor_tokenization\<close> makes.\<close>

definition tokenization_request_of :: "window \<Rightarrow> tokenization_request" where
  "tokenization_request_of w =
     (let item = (if \<not> wi_editor_is_new w \<and> wi_editor_index w < length (wi_items w)
                  then wi_items w ! wi_editor_index w
                  else \<lparr>lt_id = ''0000'', lt_name = wi_editor_name w, lt_sample = [],
                        lt_source = custom_source, lt_test_case = []\<rparr>)
      in \<lparr>tq_revision = wi_editor_revision w, tq_source_sample = wi_editor_sample w,
          tq_item = item\<lparr>lt_name := wi_editor_name w, lt_sample := wi_editor_sample w\<rparr>\<rparr>)"

text \<open>The body of the tokenizer's loop between its two locked sections.\<close>

definition run_tokenization ::
    "'s catalog_calls \<Rightarrow> tokenization_request \<Rightarrow> 's \<Rightarrow> tokenization_result \<times> 's" where
  "run_tokenization svc request s =
     (let (outcome, s1) = cc_tokenize svc (tq_item request) s
      in (\<lparr>tr_revision = tq_revision request, tr_source_sample = tq_source_sample request,
           tr_outcome = outcome\<rparr>, s1))"

text \<open>\<open>apply_editor_tokenization_result\<close> after it has taken the result out of its slot; an exception
  with an empty text would count as none, and show an empty item.\<close>

definition apply_tokenization :: "tokenization_result option \<Rightarrow> window \<Rightarrow> window" where
  "apply_tokenization r w =
     (case r of
        None \<Rightarrow> w
      | Some result \<Rightarrow>
          if tr_revision result \<noteq> wi_editor_revision w \<or> tr_source_sample result \<noteq> wi_editor_sample w then w
          else
            (case tr_outcome result of
               Inl e \<Rightarrow>
                 if e \<noteq> [] then w\<lparr>wi_error := e\<rparr>
                 else w\<lparr>wi_editor_analysis := empty_analysis, wi_editor_preview := [],
                        wi_editor_item := Some empty_template\<rparr>
             | Inr tokenized \<Rightarrow>
                 w\<lparr>wi_editor_analysis := tl_analysis tokenized,
                   wi_editor_preview := lt_sample (tl_item tokenized),
                   wi_editor_item := Some (tl_item tokenized)\<rparr>))"

text \<open>
  \<open>save_catalog_editor\<close>; the exception \<open>next_id\<close> can throw leaves the window's loop.
\<close>

definition put_item :: "'s catalog_calls \<Rightarrow> log_template \<Rightarrow> window \<Rightarrow> string + window" where
  "put_item svc item w =
     (let terms = cc_terms svc (wi_editor_analysis w); i = wi_editor_index w in
      if wi_editor_is_new w then
        bind_result (cc_next_id svc (wi_items w)) (\<lambda>fresh.
          let item1 = item\<lparr>lt_id := fresh, lt_source := custom_source\<rparr>
          in Inr (w\<lparr>wi_items := wi_items w @ [item1],
                    wi_search_names := wi_search_names w @ [catalog_search_text item1 terms],
                    wi_previews := wi_previews w @ [sample_preview (lt_sample item1)],
                    wi_analyses := wi_analyses w @ [wi_editor_analysis w],
                    wi_selected := length (wi_items w)\<rparr>))
      else if i < length (wi_items w) then
        Inr (w\<lparr>wi_items := (wi_items w)[i := item],
               wi_search_names := (wi_search_names w)[i := catalog_search_text item terms],
               wi_previews := (wi_previews w)[i := sample_preview (lt_sample item)],
               wi_analyses := (wi_analyses w)[i := wi_editor_analysis w],
               wi_selected := i\<rparr>)
      else Inr w)"

definition save_catalog_editor :: "'s catalog_calls \<Rightarrow> window \<times> loader \<Rightarrow> string + window \<times> loader" where
  "save_catalog_editor svc wl =
     (case wl of (w, l) \<Rightarrow>
        if wi_editor_name w = [] \<or> wi_editor_sample w = [] then Inr (w, l)
        else (case wi_editor_item w of
                None \<Rightarrow> Inr (w, l)
              | Some item \<Rightarrow>
                  bind_result (put_item svc (item\<lparr>lt_name := wi_editor_name w\<rparr>) w) (\<lambda>w1.
                    Inr (request_catalog_save (rebuild_filter w1, l)))))"

definition erase_at :: "nat \<Rightarrow> 'a list \<Rightarrow> 'a list" where
  "erase_at i xs = take i xs @ drop (Suc i) xs"

definition delete_selected_catalog_item :: "window \<times> loader \<Rightarrow> window \<times> loader" where
  "delete_selected_catalog_item wl =
     (case wl of (w, l) \<Rightarrow>
        let i = wi_delete_index w in
        if length (wi_items w) \<le> i then (w, l)
        else
          let items = erase_at i (wi_items w);
              w1 = w\<lparr>wi_items := items, wi_search_names := erase_at i (wi_search_names w),
                     wi_previews := erase_at i (wi_previews w), wi_analyses := erase_at i (wi_analyses w),
                     wi_selected := (if items = [] then 0 else min i (length items - 1))\<rparr>
          in request_catalog_save (rebuild_filter w1, l))"

subsection \<open>What the window shows\<close>

text \<open>
  Every template of the window has gone through the anonymizer; each has its search text, its preview
  and its analysis at the same index, the filter lists the entries that match the search, and the
  selection is in range.
\<close>

definition anonymized :: "log_template \<Rightarrow> bool" where
  "anonymized item \<longleftrightarrow> (\<exists>raw. lt_sample item = tokenize raw)"

definition entries_ok ::
    "'s catalog_calls \<Rightarrow> log_template list \<Rightarrow> string list \<Rightarrow> string list \<Rightarrow> log_template_analysis list \<Rightarrow> bool"
where
  "entries_ok svc items names previews analyses \<longleftrightarrow>
     length analyses = length items
     \<and> names = map2 (\<lambda>item a. catalog_search_text item (cc_terms svc a)) items analyses
     \<and> previews = map (\<lambda>item. sample_preview (lt_sample item)) items
     \<and> list_all anonymized items"

definition window_ok :: "'s catalog_calls \<Rightarrow> window \<Rightarrow> bool" where
  "window_ok svc w \<longleftrightarrow>
     entries_ok svc (wi_items w) (wi_search_names w) (wi_previews w) (wi_analyses w)
     \<and> wi_filtered w = matching_indices (lowercase (wi_search w)) (wi_search_names w) (length (wi_items w))
     \<and> (wi_items w \<noteq> [] \<longrightarrow> wi_selected w < length (wi_items w))
     \<and> settings_ok (wi_settings w)"

definition result_ok :: "'s catalog_calls \<Rightarrow> catalog_result \<Rightarrow> bool" where
  "result_ok svc r \<longleftrightarrow>
     (cr_error r = [] \<and> cr_replace r \<longrightarrow>
        entries_ok svc (cr_items r) (cr_search_names r) (cr_previews r) (cr_analyses r))"

text \<open>What the work of a job may start with: the templates of the window.\<close>

fun job_ok :: "catalog_job \<Rightarrow> bool" where
  "job_ok Load_Job = True"
| "job_ok (Save_Job items) = list_all anonymized items"
| "job_ok (Import_Job file items) = list_all anonymized items"

lemma min_in_range: "n \<noteq> 0 \<Longrightarrow> min i (n - Suc 0) < n"
  by simp

lemma entries_ok_lengths:
  assumes "entries_ok svc items names previews analyses"
  shows "length names = length items" "length previews = length items" "length analyses = length items"
  using assms by (auto simp: entries_ok_def)

lemma entries_ok_Nil [simp]: "entries_ok svc [] [] [] []"
  by (simp add: entries_ok_def)

lemma entries_ok_snoc:
  assumes "entries_ok svc items names previews analyses" "anonymized item"
  shows "entries_ok svc (items @ [item]) (names @ [catalog_search_text item (cc_terms svc a)])
           (previews @ [sample_preview (lt_sample item)]) (analyses @ [a])"
  using assms by (simp add: entries_ok_def)

lemma entries_ok_update:
  assumes "entries_ok svc items names previews analyses" "anonymized item" "i < length items"
  shows "entries_ok svc (items[i := item]) (names[i := catalog_search_text item (cc_terms svc a)])
           (previews[i := sample_preview (lt_sample item)]) (analyses[i := a])"
proof -
  have "list_all anonymized (items[i := item])"
    using assms by (auto simp: entries_ok_def list_all_iff dest!: set_update_subset_insert [THEN subsetD])
  then show ?thesis using assms by (simp add: entries_ok_def zip_update map_update)
qed

lemma map_erase_at: "map f (erase_at i xs) = erase_at i (map f xs)"
  by (simp add: erase_at_def take_map drop_map)

lemma zip_erase_at: "zip (erase_at i xs) (erase_at i ys) = erase_at i (zip xs ys)" if "length xs = length ys"
  using that by (simp add: erase_at_def zip_append take_zip drop_zip)

lemma length_erase_at: "i < length xs \<Longrightarrow> length (erase_at i xs) = length xs - 1"
  by (simp add: erase_at_def)

lemma entries_ok_erase:
  assumes "entries_ok svc items names previews analyses" "i < length items"
  shows "entries_ok svc (erase_at i items) (erase_at i names) (erase_at i previews) (erase_at i analyses)"
proof -
  have "list_all anonymized (erase_at i items)"
    using assms(1) by (auto simp: entries_ok_def list_all_iff erase_at_def dest: in_set_takeD in_set_dropD)
  then show ?thesis
    using assms by (simp add: entries_ok_def map_erase_at [symmetric] zip_erase_at length_erase_at)
qed

lemma matching_in_range: "i \<in> set (matching_indices q names n) \<Longrightarrow> i < n"
  by (auto simp: matching_indices_def)

lemma rebuild_filter_ok:
  assumes "entries_ok svc (wi_items w) (wi_search_names w) (wi_previews w) (wi_analyses w)"
    and "wi_items w \<noteq> [] \<Longrightarrow> wi_selected w < length (wi_items w)" "settings_ok (wi_settings w)"
  shows "window_ok svc (rebuild_filter w)"
proof -
  have "hd f < length (wi_items w)" if "f = matching_indices q (wi_search_names w) (length (wi_items w))" "f \<noteq> []" for f q
    using that matching_in_range hd_in_set by metis
  then show ?thesis using assms by (auto simp: window_ok_def rebuild_filter_def Let_def)
qed

lemma rebuild_filter_keeps [simp]:
  "wi_items (rebuild_filter w) = wi_items w"
  "wi_popup (rebuild_filter w) = wi_popup w"
  "wi_editor_requested (rebuild_filter w) = wi_editor_requested w"
  "wi_delete_requested (rebuild_filter w) = wi_delete_requested w"
  "wi_import_requested (rebuild_filter w) = wi_import_requested w"
  "wi_editor_sample (rebuild_filter w) = wi_editor_sample w"
  "wi_editor_item (rebuild_filter w) = wi_editor_item w"
  "wi_editor_revision (rebuild_filter w) = wi_editor_revision w"
  "wi_editor_pending (rebuild_filter w) = wi_editor_pending w"
  by (simp_all add: rebuild_filter_def Let_def)

lemma window_ok_lists:
  assumes "window_ok svc w"
  shows "\<forall>i \<in> set (wi_filtered w). i < length (wi_items w)" "wi_items w \<noteq> [] \<Longrightarrow> visible_catalog_index w < length (wi_items w)"
proof -
  show range: "\<forall>i \<in> set (wi_filtered w). i < length (wi_items w)"
    using assms by (auto simp: window_ok_def dest: matching_in_range)
  show "visible_catalog_index w < length (wi_items w)" if "wi_items w \<noteq> []"
    using that range hd_in_set [of "wi_filtered w"] by (auto simp: visible_catalog_index_def min_in_range simp del: hd_in_set)
qed

subsection \<open>Operations keep it\<close>

lemma apply_result_ok:
  assumes "window_ok svc w" "\<And>r'. r = Some r' \<Longrightarrow> result_ok svc r'"
  shows "window_ok svc (apply_result r w)"
proof (cases r)
  case (Some result)
  define w2 where "w2 = w\<lparr>wi_items := cr_items result, wi_search_names := cr_search_names result,
      wi_previews := cr_previews result, wi_analyses := cr_analyses result,
      wi_selected := (case cr_selected result of
                        Some i \<Rightarrow> if i < length (cr_items result) then i
                                  else min (wi_selected w) (if cr_items result = [] then 0 else length (cr_items result) - 1)
                      | None \<Rightarrow> min (wi_selected w) (if cr_items result = [] then 0 else length (cr_items result) - 1))\<rparr>"
  have unfold: "apply_result r w =
     (if cr_error result \<noteq> [] then w\<lparr>wi_error := cr_error result, wi_notice := []\<rparr>
      else if \<not> cr_replace result then w\<lparr>wi_error := [], wi_notice := []\<rparr>
      else (rebuild_filter w2)\<lparr>wi_error := [], wi_notice := cr_notice result\<rparr>)"
    by (cases "cr_selected result") (simp_all add: apply_result_def Some w2_def Let_def)
  have error: "window_ok svc (w\<lparr>wi_error := e, wi_notice := n\<rparr>) = window_ok svc w" for w e n
    by (simp add: window_ok_def)
  have "window_ok svc (rebuild_filter w2)" if "cr_error result = []" "cr_replace result"
  proof (rule rebuild_filter_ok)
    show "entries_ok svc (wi_items w2) (wi_search_names w2) (wi_previews w2) (wi_analyses w2)"
      using assms(2) Some that by (simp add: w2_def result_ok_def)
    show "wi_selected w2 < length (wi_items w2)" if "wi_items w2 \<noteq> []"
      using that by (cases "cr_items result") (auto simp: w2_def split: option.splits)
    show "settings_ok (wi_settings w2)" using assms(1) by (simp add: w2_def window_ok_def)
  qed
  then show ?thesis using assms(1) by (simp add: unfold error)
qed (simp add: apply_result_def assms(1))

lemma delete_ok:
  assumes "window_ok svc w" "delete_selected_catalog_item (w, l) = (w', l')"
  shows "window_ok svc w'"
proof (cases "wi_delete_index w < length (wi_items w)")
  case True
  let ?i = "wi_delete_index w"
  define w1 where "w1 = w\<lparr>wi_items := erase_at ?i (wi_items w), wi_search_names := erase_at ?i (wi_search_names w),
      wi_previews := erase_at ?i (wi_previews w), wi_analyses := erase_at ?i (wi_analyses w),
      wi_selected := (if erase_at ?i (wi_items w) = [] then 0 else min ?i (length (erase_at ?i (wi_items w)) - 1))\<rparr>"
  have "window_ok svc (rebuild_filter w1)"
  proof (rule rebuild_filter_ok)
    show "entries_ok svc (wi_items w1) (wi_search_names w1) (wi_previews w1) (wi_analyses w1)"
      using assms(1) True by (simp add: w1_def window_ok_def entries_ok_erase)
    show "wi_selected w1 < length (wi_items w1)" if "wi_items w1 \<noteq> []"
      using that by (simp add: w1_def min_in_range)
    show "settings_ok (wi_settings w1)" using assms(1) by (simp add: w1_def window_ok_def)
  qed
  moreover have "(w', l') = request_catalog_save (rebuild_filter w1, l)"
    using assms(2) True by (simp add: delete_selected_catalog_item_def w1_def Let_def)
  ultimately show ?thesis
    by (auto simp: request_catalog_save_def window_ok_def split: if_splits)
qed (use assms in \<open>simp add: delete_selected_catalog_item_def Let_def\<close>)

lemma put_item_ok:
  assumes "window_ok svc w" "anonymized item" "put_item svc item w = Inr w'"
  shows "window_ok svc (rebuild_filter w')"
proof -
  have rename: "anonymized (item\<lparr>lt_id := i, lt_source := src\<rparr>) = anonymized item" for i src
    by (simp add: anonymized_def)
  have ok: "entries_ok svc (wi_items w) (wi_search_names w) (wi_previews w) (wi_analyses w)"
    and settings: "settings_ok (wi_settings w)"
    and selected: "wi_items w \<noteq> [] \<Longrightarrow> wi_selected w < length (wi_items w)"
    using assms(1) by (auto simp: window_ok_def)
  have "entries_ok svc (wi_items w') (wi_search_names w') (wi_previews w') (wi_analyses w')
      \<and> (wi_items w' \<noteq> [] \<longrightarrow> wi_selected w' < length (wi_items w')) \<and> settings_ok (wi_settings w')"
  proof (cases "wi_editor_is_new w")
    case True
    then obtain i where w': "w' = w\<lparr>
        wi_items := wi_items w @ [item\<lparr>lt_id := i, lt_source := custom_source\<rparr>],
        wi_search_names := wi_search_names w
          @ [catalog_search_text (item\<lparr>lt_id := i, lt_source := custom_source\<rparr>) (cc_terms svc (wi_editor_analysis w))],
        wi_previews := wi_previews w @ [sample_preview (lt_sample (item\<lparr>lt_id := i, lt_source := custom_source\<rparr>))],
        wi_analyses := wi_analyses w @ [wi_editor_analysis w], wi_selected := length (wi_items w)\<rparr>"
      using assms(3) by (auto simp: put_item_def Let_def result_simps)
    show ?thesis
      using entries_ok_snoc [OF ok, of "item\<lparr>lt_id := i, lt_source := custom_source\<rparr>"] settings assms(2)
      by (simp add: w' rename)
  next
    case False
    then show ?thesis
      using assms(2,3) ok settings selected
      by (auto simp: put_item_def Let_def intro: entries_ok_update split: if_splits)
  qed
  then show ?thesis by (intro rebuild_filter_ok) auto
qed

lemma save_editor_ok:
  assumes "window_ok svc w" "\<And>item. wi_editor_item w = Some item \<Longrightarrow> anonymized item"
    and "save_catalog_editor svc (w, l) = Inr (w', l')"
  shows "window_ok svc w'"
proof (cases "wi_editor_item w")
  case (Some item)
  let ?item = "item\<lparr>lt_name := wi_editor_name w\<rparr>"
  have item: "anonymized ?item" using assms(2) [OF Some] by (simp add: anonymized_def)
  show ?thesis
  proof (cases "wi_editor_name w = [] \<or> wi_editor_sample w = []")
    case False
    then obtain w1 where w1: "put_item svc ?item w = Inr w1"
      and req: "(w', l') = request_catalog_save (rebuild_filter w1, l)"
      using assms(3) Some by (auto simp: save_catalog_editor_def result_simps)
    have "window_ok svc (rebuild_filter w1)" by (rule put_item_ok [OF assms(1) item w1])
    then show ?thesis using req by (auto simp: request_catalog_save_def window_ok_def split: if_splits)
  qed (use assms in \<open>simp add: save_catalog_editor_def\<close>)
qed (use assms in \<open>auto simp: save_catalog_editor_def split: if_splits\<close>)

lemma apply_tokenization_keeps:
  "window_ok svc (apply_tokenization r w) = window_ok svc w"
  by (auto simp: apply_tokenization_def window_ok_def split: option.splits sum.splits)

subsection \<open>What the window relies on\<close>

text \<open>
  An exception says something, and what the use cases return has gone through the anonymizer; the
  tokenizer gives back the anonymized sample of its item.
\<close>

locale catalog_use_case =
  fixes svc :: "'s catalog_calls"
  assumes load_says: "cc_load svc s = (Inl e, s') \<Longrightarrow> e \<noteq> []"
    and save_says: "cc_save svc items s = (Inl e, s') \<Longrightarrow> e \<noteq> []"
    and analyze_says: "cc_analyze svc item s = (Inl e, s') \<Longrightarrow> e \<noteq> []"
    and tokenize_says: "cc_tokenize svc item s = (Inl e, s') \<Longrightarrow> e \<noteq> []"
    and import_says: "cc_import svc file items s = (Inl e, s') \<Longrightarrow> e \<noteq> []"
    and load_anonymized: "cc_load svc s = (Inr items, s') \<Longrightarrow> list_all anonymized items"
    and import_anonymized: "cc_import svc file items s = (Inr ts, s') \<Longrightarrow> list_all (anonymized \<circ> tl_item) ts"
    and tokenize_sample: "cc_tokenize svc item s = (Inr t, s')
      \<Longrightarrow> lt_sample (tl_item t) = tokenize (lt_sample item)"
begin

lemma analyze_items_ok:
  "analyze_items svc items r s = (e, r', s') \<Longrightarrow>
     entries_ok svc done_items (cr_search_names r) (cr_previews r) (cr_analyses r) \<Longrightarrow>
     list_all anonymized items \<Longrightarrow>
     (case e of
        Some text' \<Rightarrow> text' \<noteq> []
      | None \<Rightarrow> entries_ok svc (done_items @ items) (cr_search_names r') (cr_previews r') (cr_analyses r'))
     \<and> cr_items r' = cr_items r \<and> cr_error r' = cr_error r \<and> cr_replace r' = cr_replace r"
proof (induction items arbitrary: r s done_items)
  case (Cons item items)
  show ?case
  proof (cases "cc_analyze svc item s")
    case (Pair out s1)
    show ?thesis
    proof (cases out)
      case (Inl text')
      then show ?thesis using Cons.prems(1) Pair analyze_says by auto
    next
      case (Inr a)
      let ?r = "r\<lparr>cr_search_names := cr_search_names r @ [catalog_search_text item (cc_terms svc a)],
          cr_previews := cr_previews r @ [sample_preview (lt_sample item)], cr_analyses := cr_analyses r @ [a]\<rparr>"
      have run: "analyze_items svc items ?r s1 = (e, r', s')"
        using Cons.prems(1) Pair Inr by simp
      have "entries_ok svc (done_items @ [item]) (cr_search_names ?r) (cr_previews ?r) (cr_analyses ?r)"
        using entries_ok_snoc [OF Cons.prems(2)] Cons.prems(3) by simp
      from Cons.IH [OF run this] Cons.prems(3) show ?thesis by (cases e) simp_all
    qed
  qed
qed simp

lemma job_error_ok: "e \<noteq> [] \<Longrightarrow> result_ok svc (job_error e r)"
  by (simp add: result_ok_def job_error_def)

lemma load_job_ok: "load_job svc s = (r, s') \<Longrightarrow> result_ok svc r"
proof -
  assume run: "load_job svc s = (r, s')"
  show "result_ok svc r"
  proof (cases "cc_load svc s")
    case (Pair out s1)
    show ?thesis
    proof (cases out)
      case (Inl e)
      then show ?thesis using run Pair load_says job_error_ok by (auto simp: load_job_def)
    next
      case (Inr items)
      obtain e r2 s2 where a: "analyze_items svc items (empty_result\<lparr>cr_items := items\<rparr>) s1 = (e, r2, s2)"
        by (metis prod_cases3)
      note ok = analyze_items_ok [OF a, of "[]"]
      have "list_all anonymized items" using load_anonymized Pair Inr by simp
      with ok have ok: "(case e of Some text' \<Rightarrow> text' \<noteq> []
          | None \<Rightarrow> entries_ok svc items (cr_search_names r2) (cr_previews r2) (cr_analyses r2)) \<and> cr_items r2 = items"
        by (cases e) (simp_all add: empty_result_def)
      show ?thesis
        using run Pair Inr a ok job_error_ok
        by (cases e) (auto simp: load_job_def result_ok_def)
    qed
  qed
qed

lemma save_job_ok: "save_job svc items s = (r, s') \<Longrightarrow> result_ok svc r"
proof -
  assume run: "save_job svc items s = (r, s')"
  obtain saved s1 where save: "cc_save svc items s = (saved, s1)" by fastforce
  show "result_ok svc r"
  proof (cases saved)
    case (Inl e)
    then have "e \<noteq> []" using save save_says by simp
    with Inl show ?thesis using run save by (auto simp: save_job_def Let_def intro: job_error_ok)
  qed (use run save in \<open>auto simp: save_job_def Let_def result_ok_def\<close>)
qed

lemma import_job_ok:
  assumes run: "import_job svc file items s = (r, s')" and items: "list_all anonymized items"
  shows "result_ok svc r"
proof (cases "cc_import svc file items s")
  case (Pair out s1)
  show ?thesis
  proof (cases out)
    case (Inl e)
    then show ?thesis using run Pair import_says job_error_ok by (auto simp: import_job_def Let_def)
  next
    case (Inr ts)
    let ?all = "items @ map tl_item ts"
    have all: "list_all anonymized ?all"
      using items import_anonymized Pair Inr by (fastforce simp: list_all_iff)
    obtain saved s2 where save: "cc_save svc ?all s1 = (saved, s2)" by fastforce
    show ?thesis
    proof (cases saved)
      case (Inl e)
      then show ?thesis
        using run Pair Inr save save_says job_error_ok by (auto simp: import_job_def Let_def \<open>out = Inr ts\<close>)
    next
      case (Inr u)
      obtain e r2 s3 where a: "analyze_items svc ?all (empty_result\<lparr>cr_items := ?all\<rparr>) s2 = (e, r2, s3)"
        by (metis prod_cases3)
      have ok: "(case e of Some text' \<Rightarrow> text' \<noteq> []
          | None \<Rightarrow> entries_ok svc ?all (cr_search_names r2) (cr_previews r2) (cr_analyses r2)) \<and> cr_items r2 = ?all"
        using analyze_items_ok [OF a, of "[]"] all by (cases e) (simp_all add: empty_result_def)
      have job: "(r, s') = (case e of Some e \<Rightarrow> (job_error e r2, s3)
          | None \<Rightarrow> (r2\<lparr>cr_selected := Some (length items), cr_notice := import_notice (length ts) file\<rparr>, s3))"
        using run Pair \<open>out = Inr ts\<close> save Inr a
        by (auto simp: import_job_def Let_def empty_result_def split: option.splits)
      show ?thesis using job ok job_error_ok by (cases e) (auto simp: result_ok_def)
    qed
  qed
qed

lemma run_job_ok: "run_job svc job s = (r, s') \<Longrightarrow> job_ok job \<Longrightarrow> result_ok svc r"
  by (cases job) (auto simp: load_job_ok save_job_ok import_job_ok)

end

end
