(* ===== verification/Gui_Steps.thy ===== *)
theory Gui_Steps
  imports Gui_Catalog
begin

text \<open>
  The threads of the window of \<open>src/src/presentation/app.cpp\<close> as steps over a shared state: the thread
  of the window, which draws one frame after the other, the loader of the catalog, and the tokenizer of
  the editor. A step is what lies between two accesses to shared members, so every interleaving of the
  threads is a sequence of steps. The library that draws the window reports at most one input of the
  user in a frame, a modal popup takes all input, and a popup that appears takes none in its first
  frame.
\<close>

subsection \<open>The tokenizer\<close>

text \<open>
  \<open>run_editor_tokenizer\<close>: it waits for a request, runs it outside the lock, publishes the result and
  learns whether there is a newer request, and then sets the two flags one after the other.
\<close>

datatype tokenizer_pc =
    Tok_Wait | Tok_Run tokenization_request | Tok_Publish tokenization_result
  | Tok_Set_Ready bool | Tok_Set_Tokenizing bool | Tok_Ended

record tokenizer =
  tk_tokenizing :: bool
  tk_ready :: bool
  tk_request :: "tokenization_request option"
  tk_result :: "tokenization_result option"
  tk_stop :: bool
  tk_pc :: tokenizer_pc

definition initial_tokenizer :: tokenizer where
  "initial_tokenizer =
     \<lparr>tk_tokenizing = False, tk_ready = False, tk_request = None, tk_result = None, tk_stop = False,
      tk_pc = Tok_Wait\<rparr>"

inductive tokenizer_step :: "'s catalog_calls \<Rightarrow> tokenizer \<times> 's \<Rightarrow> tokenizer \<times> 's \<Rightarrow> bool" for svc where
  tok_stopped: "tk_pc t = Tok_Wait \<Longrightarrow> tk_stop t \<Longrightarrow> tokenizer_step svc (t, s) (t\<lparr>tk_pc := Tok_Ended\<rparr>, s)"
| tok_take: "tk_pc t = Tok_Wait \<Longrightarrow> \<not> tk_stop t \<Longrightarrow> tk_request t = Some q \<Longrightarrow>
    tokenizer_step svc (t, s) (t\<lparr>tk_request := None, tk_pc := Tok_Run q\<rparr>, s)"
| tok_run: "tk_pc t = Tok_Run q \<Longrightarrow> run_tokenization svc q s = (r, s') \<Longrightarrow>
    tokenizer_step svc (t, s) (t\<lparr>tk_pc := Tok_Publish r\<rparr>, s')"
| tok_publish: "tk_pc t = Tok_Publish r \<Longrightarrow>
    tokenizer_step svc (t, s) (t\<lparr>tk_result := Some r, tk_pc := Tok_Set_Ready (tk_request t \<noteq> None)\<rparr>, s)"
| tok_ready: "tk_pc t = Tok_Set_Ready newer \<Longrightarrow>
    tokenizer_step svc (t, s) (t\<lparr>tk_ready := True, tk_pc := Tok_Set_Tokenizing newer\<rparr>, s)"
| tok_flag: "tk_pc t = Tok_Set_Tokenizing newer \<Longrightarrow>
    tokenizer_step svc (t, s) (t\<lparr>tk_tokenizing := newer, tk_pc := Tok_Wait\<rparr>, s)"

subsection \<open>The loader\<close>

inductive loader_step :: "'s catalog_calls \<Rightarrow> loader \<times> 's \<Rightarrow> loader \<times> 's \<Rightarrow> bool" for svc where
  load_run: "ld_pc l = Run_Job job \<Longrightarrow> run_job svc job s = (r, s') \<Longrightarrow>
    loader_step svc (l, s) (l\<lparr>ld_pc := Publish_Result r\<rparr>, s')"
| load_publish: "ld_pc l = Publish_Result r \<Longrightarrow>
    loader_step svc (l, s) (l\<lparr>ld_slot := Some r, ld_pc := Set_Ready\<rparr>, s)"
| load_ready: "ld_pc l = Set_Ready \<Longrightarrow> loader_step svc (l, s) (l\<lparr>ld_ready := True, ld_pc := Clear_Loading\<rparr>, s)"
| load_over: "ld_pc l = Clear_Loading \<Longrightarrow>
    loader_step svc (l, s) (l\<lparr>ld_loading := False, ld_pc := Loader_Ended\<rparr>, s)"

subsection \<open>Inputs of the panels\<close>

text \<open>
  What a user can do in the panels and under them. \<open>Press_Import\<close> carries what the file dialog of
  Windows returns: an exception, no file, or a file.
\<close>

datatype panel_action =
    Edit_Setting setting_edit | Press_Reload | Press_Add | Press_Import "string + string option"
  | Press_Edit | Press_Delete | Type_Search string | Toggle_Rotate bool | Pick_Log nat
  | Press_Start | Press_Stop

text \<open>\<open>open_sample_log_import\<close>; \<open>native\<close> is the branch for Windows.\<close>

definition open_sample_log_import ::
    "bool \<Rightarrow> string + string option \<Rightarrow> window \<times> loader \<Rightarrow> window \<times> loader" where
  "open_sample_log_import native dialog wl =
     (case wl of (w, l) \<Rightarrow>
        if native then
          (case dialog of
             Inl e \<Rightarrow> (w\<lparr>wi_error := e, wi_notice := []\<rparr>, l)
           | Inr None \<Rightarrow> (w, l)
           | Inr (Some file) \<Rightarrow> request_sample_log_import file (w, l))
        else (w\<lparr>wi_import_path := [], wi_import_requested := True\<rparr>, l))"

text \<open>
  Which inputs \<open>render_configuration\<close>, \<open>render_catalog_selector\<close> and the panels show and leave
  enabled, for the last known state of the transmission.
\<close>

fun panel_enabled :: "generator_state \<Rightarrow> window \<Rightarrow> loader \<Rightarrow> panel_action \<Rightarrow> bool" where
  "panel_enabled state w l (Edit_Setting e) = (\<not> is_active state \<and> edit_offered (wi_settings w) e)"
| "panel_enabled state w l Press_Reload = (\<not> is_active state \<and> \<not> ld_loading l)"
| "panel_enabled state w l Press_Add = (\<not> is_active state \<and> \<not> ld_loading l)"
| "panel_enabled state w l (Press_Import dialog) = (\<not> is_active state \<and> \<not> ld_loading l)"
| "panel_enabled state w l Press_Edit = (\<not> is_active state \<and> \<not> ld_loading l \<and> wi_items w \<noteq> [])"
| "panel_enabled state w l Press_Delete = (\<not> is_active state \<and> \<not> ld_loading l \<and> wi_items w \<noteq> [])"
| "panel_enabled state w l (Type_Search text') = (\<not> is_active state \<and> fits_buffer 256 text')"
| "panel_enabled state w l (Toggle_Rotate b) = (\<not> is_active state)"
| "panel_enabled state w l (Pick_Log i) =
     (\<not> is_active state \<and> \<not> wi_rotate w \<and> wi_items w \<noteq> [] \<and> i \<in> set (wi_filtered w))"
| "panel_enabled state w l Press_Start = (\<not> is_active state)"
| "panel_enabled state w l Press_Stop = is_active state"

text \<open>
  What they do; the last component is the configuration a press of the start button started.
  \<open>request_stop\<close> is the service's, see \<open>Lifecycle\<close>.
\<close>

fun panel_do ::
    "bool \<Rightarrow> (generator_config \<Rightarrow> string option) \<Rightarrow> int \<Rightarrow> panel_action \<Rightarrow> window \<times> loader
       \<Rightarrow> (window \<times> loader) \<times> generator_config option" where
  "panel_do native start now (Edit_Setting e) (w, l) =
     ((w\<lparr>wi_settings := edit_setting e (wi_settings w)\<rparr>, l), None)"
| "panel_do native start now Press_Reload (w, l) = (request_catalog_load (w, l), None)"
| "panel_do native start now Press_Add (w, l) = ((open_new_catalog_editor now w, l), None)"
| "panel_do native start now (Press_Import dialog) (w, l) = (open_sample_log_import native dialog (w, l), None)"
| "panel_do native start now Press_Edit (w, l) = ((open_selected_catalog_editor now w, l), None)"
| "panel_do native start now Press_Delete (w, l) =
     ((w\<lparr>wi_delete_index := visible_catalog_index w, wi_delete_requested := True\<rparr>, l), None)"
| "panel_do native start now (Type_Search text') (w, l) =
     ((rebuild_filter (w\<lparr>wi_search := text'\<rparr>), l), None)"
| "panel_do native start now (Toggle_Rotate b) (w, l) = ((w\<lparr>wi_rotate := b\<rparr>, l), None)"
| "panel_do native start now (Pick_Log i) (w, l) = ((w\<lparr>wi_selected := i\<rparr>, l), None)"
| "panel_do native start now Press_Start (w, l) =
     (let (w', started) = start_test start w in ((w', l), started))"
| "panel_do native start now Press_Stop (w, l) = ((w, l), None)"

subsection \<open>Inputs of the popups\<close>

datatype popup_action =
    Type_Name string | Type_Sample string | Press_Save | Press_Cancel | Confirm_Delete
  | Type_Path string | Press_Import_File

text \<open>What \<open>render_catalog_editor\<close> shows in the popup that is open and leaves enabled.\<close>

definition tokenization_pending :: "window \<Rightarrow> tokenizer \<Rightarrow> bool" where
  "tokenization_pending w t \<longleftrightarrow> wi_editor_pending w \<or> tk_tokenizing t \<or> wi_editor_item w = None"

fun popup_enabled :: "window \<Rightarrow> loader \<Rightarrow> tokenizer \<Rightarrow> popup_action \<Rightarrow> bool" where
  "popup_enabled w l t (Type_Name text') = (wi_popup w = Some Editor_Popup)"
| "popup_enabled w l t (Type_Sample text') = (wi_popup w = Some Editor_Popup)"
| "popup_enabled w l t Press_Save =
     (wi_popup w = Some Editor_Popup
      \<and> \<not> (wi_editor_name w = [] \<or> wi_editor_sample w = [] \<or> tokenization_pending w t \<or> ld_loading l))"
| "popup_enabled w l t Press_Cancel = (wi_popup w \<noteq> None)"
| "popup_enabled w l t Confirm_Delete = (wi_popup w = Some Delete_Popup)"
| "popup_enabled w l t (Type_Path text') = (wi_popup w = Some Import_Popup)"
| "popup_enabled w l t Press_Import_File =
     (wi_popup w = Some Import_Popup \<and> \<not> (wi_import_path w = [] \<or> ld_loading l))"

definition close_popup :: "window \<times> loader \<Rightarrow> window \<times> loader" where
  "close_popup wl = (case wl of (w, l) \<Rightarrow> (w\<lparr>wi_popup := None\<rparr>, l))"

text \<open>\<open>Inl\<close> is an exception that leaves the loop of the window.\<close>

fun popup_do ::
    "'s catalog_calls \<Rightarrow> int \<Rightarrow> popup_action \<Rightarrow> window \<times> loader \<Rightarrow> string + window \<times> loader" where
  "popup_do svc now (Type_Name text') (w, l) = Inr (w\<lparr>wi_editor_name := text'\<rparr>, l)"
| "popup_do svc now (Type_Sample text') (w, l) =
     Inr (mark_editor_sample_changed False now (w\<lparr>wi_editor_sample := text'\<rparr>), l)"
| "popup_do svc now Press_Save (w, l) =
     bind_result (save_catalog_editor svc (w, l)) (\<lambda>wl. Inr (close_popup wl))"
| "popup_do svc now Press_Cancel (w, l) = Inr (close_popup (w, l))"
| "popup_do svc now Confirm_Delete (w, l) = Inr (close_popup (delete_selected_catalog_item (w, l)))"
| "popup_do svc now (Type_Path text') (w, l) = Inr (w\<lparr>wi_import_path := text'\<rparr>, l)"
| "popup_do svc now Press_Import_File (w, l) =
     Inr (close_popup (request_sample_log_import (wi_import_path w) (w, l)))"

subsection \<open>Frames\<close>

text \<open>
  Where the thread of the window is: \<open>render\<close> from \<open>apply_catalog_result\<close> to the popups, the exception
  that ends the program, and after the loop the destructor, which joins the tokenizer and the loader.
\<close>

datatype phase =
    Frame_Start | Take_Catalog | Refresh | Panels | Editor_Start | Take_Tokenization | Queue_Check
  | Queue_Flag | Open_Popups | Popups | Crashed string | Join_Tokenizer | Join_Loader | Closed

text \<open>\<open>gu_started\<close> and \<open>gu_answered\<close> are histories: the configurations that were started, and the last
  revision of the editor whose result was applied.\<close>

record 's gui =
  gu_phase :: phase
  gu_window :: window
  gu_loader :: loader
  gu_tokenizer :: tokenizer
  gu_service :: 's
  gu_state :: generator_state
  gu_started :: "generator_config list"
  gu_answered :: "u64 option"

text \<open>The window when its loop begins: \<open>run\<close> has asked for the catalog.\<close>

definition initial_gui :: "'s \<Rightarrow> 's gui" where
  "initial_gui s =
     (case request_catalog_load (initial_window, initial_loader) of (w, l) \<Rightarrow>
        \<lparr>gu_phase = Frame_Start, gu_window = w, gu_loader = l, gu_tokenizer = initial_tokenizer,
         gu_service = s, gu_state = Stopped, gu_started = [], gu_answered = None\<rparr>)"

definition open_requested :: "window \<Rightarrow> window" where
  "open_requested w =
     w\<lparr>wi_popup := (if wi_import_requested w then Some Import_Popup
                    else if wi_delete_requested w then Some Delete_Popup
                    else if wi_editor_requested w then Some Editor_Popup else wi_popup w),
       wi_editor_requested := False, wi_delete_requested := False, wi_import_requested := False\<rparr>"

definition any_requested :: "window \<Rightarrow> bool" where
  "any_requested w \<longleftrightarrow> wi_editor_requested w \<or> wi_delete_requested w \<or> wi_import_requested w"

definition answered_by :: "tokenization_result option \<Rightarrow> window \<Rightarrow> u64 option \<Rightarrow> u64 option" where
  "answered_by r w old =
     (case r of
        None \<Rightarrow> old
      | Some result \<Rightarrow>
          if tr_revision result \<noteq> wi_editor_revision w \<or> tr_source_sample result \<noteq> wi_editor_sample w then old
          else Some (tr_revision result))"

inductive window_step ::
    "bool \<Rightarrow> 's catalog_calls \<Rightarrow> (generator_config \<Rightarrow> string option) \<Rightarrow> 's gui \<Rightarrow> 's gui \<Rightarrow> bool"
  for native svc start where
  catalog_not_ready: "gu_phase g = Frame_Start \<Longrightarrow> \<not> ld_ready (gu_loader g) \<Longrightarrow>
    window_step native svc start g (g\<lparr>gu_phase := Refresh\<rparr>)"
| catalog_ready: "gu_phase g = Frame_Start \<Longrightarrow> ld_ready (gu_loader g) \<Longrightarrow>
    window_step native svc start g
      (g\<lparr>gu_phase := Take_Catalog, gu_loader := (gu_loader g)\<lparr>ld_ready := False\<rparr>\<rparr>)"
| take_catalog: "gu_phase g = Take_Catalog \<Longrightarrow>
    window_step native svc start g
      (g\<lparr>gu_phase := Refresh, gu_window := apply_result (ld_slot (gu_loader g)) (gu_window g),
         gu_loader := (gu_loader g)\<lparr>ld_slot := None\<rparr>\<rparr>)"
| refresh: "gu_phase g = Refresh \<Longrightarrow> window_step native svc start g (g\<lparr>gu_phase := Panels, gu_state := state\<rparr>)"
| panel_idle: "gu_phase g = Panels \<Longrightarrow> window_step native svc start g (g\<lparr>gu_phase := Editor_Start\<rparr>)"
| panel_input: "gu_phase g = Panels \<Longrightarrow> wi_popup (gu_window g) = None \<Longrightarrow>
    panel_enabled (gu_state g) (gu_window g) (gu_loader g) action \<Longrightarrow>
    panel_do native start now action (gu_window g, gu_loader g) = ((w, l), started) \<Longrightarrow>
    window_step native svc start g
      (g\<lparr>gu_phase := Editor_Start, gu_window := w, gu_loader := l,
         gu_started := gu_started g @ (case started of None \<Rightarrow> [] | Some config \<Rightarrow> [config])\<rparr>)"
| tokenization_not_ready: "gu_phase g = Editor_Start \<Longrightarrow> \<not> tk_ready (gu_tokenizer g) \<Longrightarrow>
    window_step native svc start g (g\<lparr>gu_phase := Queue_Check\<rparr>)"
| tokenization_ready: "gu_phase g = Editor_Start \<Longrightarrow> tk_ready (gu_tokenizer g) \<Longrightarrow>
    window_step native svc start g
      (g\<lparr>gu_phase := Take_Tokenization, gu_tokenizer := (gu_tokenizer g)\<lparr>tk_ready := False\<rparr>\<rparr>)"
| take_tokenization: "gu_phase g = Take_Tokenization \<Longrightarrow>
    window_step native svc start g
      (g\<lparr>gu_phase := Queue_Check,
         gu_window := apply_tokenization (tk_result (gu_tokenizer g)) (gu_window g),
         gu_answered := answered_by (tk_result (gu_tokenizer g)) (gu_window g) (gu_answered g),
         gu_tokenizer := (gu_tokenizer g)\<lparr>tk_result := None\<rparr>\<rparr>)"
| not_due: "gu_phase g = Queue_Check \<Longrightarrow> \<not> wi_editor_pending (gu_window g) \<or> now < wi_editor_due (gu_window g) \<Longrightarrow>
    window_step native svc start g (g\<lparr>gu_phase := Open_Popups\<rparr>)"
| nothing_to_queue: "gu_phase g = Queue_Check \<Longrightarrow> wi_editor_pending (gu_window g) \<Longrightarrow>
    wi_editor_due (gu_window g) \<le> now \<Longrightarrow> wi_editor_sample (gu_window g) = [] \<Longrightarrow>
    window_step native svc start g (g\<lparr>gu_phase := Open_Popups\<rparr>)"
| queue_request: "gu_phase g = Queue_Check \<Longrightarrow> wi_editor_pending (gu_window g) \<Longrightarrow>
    wi_editor_due (gu_window g) \<le> now \<Longrightarrow> wi_editor_sample (gu_window g) \<noteq> [] \<Longrightarrow>
    window_step native svc start g
      (g\<lparr>gu_phase := Queue_Flag,
         gu_tokenizer := (gu_tokenizer g)\<lparr>tk_request := Some (tokenization_request_of (gu_window g))\<rparr>\<rparr>)"
| queue_flag: "gu_phase g = Queue_Flag \<Longrightarrow>
    window_step native svc start g
      (g\<lparr>gu_phase := Open_Popups, gu_window := (gu_window g)\<lparr>wi_editor_pending := False\<rparr>,
         gu_tokenizer := (gu_tokenizer g)\<lparr>tk_tokenizing := True\<rparr>\<rparr>)"
| open_popup: "gu_phase g = Open_Popups \<Longrightarrow> any_requested (gu_window g) \<Longrightarrow>
    window_step native svc start g (g\<lparr>gu_phase := Frame_Start, gu_window := open_requested (gu_window g)\<rparr>)"
| no_new_popup: "gu_phase g = Open_Popups \<Longrightarrow> \<not> any_requested (gu_window g) \<Longrightarrow>
    window_step native svc start g (g\<lparr>gu_phase := Popups\<rparr>)"
| popup_idle: "gu_phase g = Popups \<Longrightarrow> window_step native svc start g (g\<lparr>gu_phase := Frame_Start\<rparr>)"
| popup_input: "gu_phase g = Popups \<Longrightarrow>
    popup_enabled (gu_window g) (gu_loader g) (gu_tokenizer g) action \<Longrightarrow>
    popup_do svc now action (gu_window g, gu_loader g) = Inr (w, l) \<Longrightarrow>
    window_step native svc start g (g\<lparr>gu_phase := Frame_Start, gu_window := w, gu_loader := l\<rparr>)"
| popup_throws: "gu_phase g = Popups \<Longrightarrow>
    popup_enabled (gu_window g) (gu_loader g) (gu_tokenizer g) action \<Longrightarrow>
    popup_do svc now action (gu_window g, gu_loader g) = Inl e \<Longrightarrow>
    window_step native svc start g (g\<lparr>gu_phase := Crashed e\<rparr>)"
| close_window: "gu_phase g = Frame_Start \<or> (\<exists>e. gu_phase g = Crashed e) \<Longrightarrow>
    window_step native svc start g
      (g\<lparr>gu_phase := Join_Tokenizer, gu_tokenizer := (gu_tokenizer g)\<lparr>tk_stop := True\<rparr>\<rparr>)"
| tokenizer_joined: "gu_phase g = Join_Tokenizer \<Longrightarrow> tk_pc (gu_tokenizer g) = Tok_Ended \<Longrightarrow>
    window_step native svc start g (g\<lparr>gu_phase := Join_Loader\<rparr>)"
| loader_joined: "gu_phase g = Join_Loader \<Longrightarrow> ld_pc (gu_loader g) = Loader_Ended \<Longrightarrow>
    window_step native svc start g (g\<lparr>gu_phase := Closed\<rparr>)"

text \<open>All threads.\<close>

inductive gui_step ::
    "bool \<Rightarrow> 's catalog_calls \<Rightarrow> (generator_config \<Rightarrow> string option) \<Rightarrow> 's gui \<Rightarrow> 's gui \<Rightarrow> bool"
  for native svc start where
  window_moves: "window_step native svc start g g' \<Longrightarrow> gui_step native svc start g g'"
| loader_moves: "loader_step svc (gu_loader g, gu_service g) (l, s) \<Longrightarrow>
    gui_step native svc start g (g\<lparr>gu_loader := l, gu_service := s\<rparr>)"
| tokenizer_moves: "tokenizer_step svc (gu_tokenizer g, gu_service g) (t, s) \<Longrightarrow>
    gui_step native svc start g (g\<lparr>gu_tokenizer := t, gu_service := s\<rparr>)"

inductive gui_reachable ::
    "bool \<Rightarrow> 's catalog_calls \<Rightarrow> (generator_config \<Rightarrow> string option) \<Rightarrow> 's gui \<Rightarrow> bool"
  for native svc start where
  at_start: "gui_reachable native svc start (initial_gui s)"
| after_step: "gui_reachable native svc start g \<Longrightarrow> gui_step native svc start g g' \<Longrightarrow>
    gui_reachable native svc start g'"

end
