(* ===== verification/Gui_Safety.thy ===== *)
theory Gui_Safety
  imports Gui_Steps
begin

text \<open>
  Invariants of the window and its threads (\<open>Gui_Steps\<close>): the lists of the window and its filter are
  consistent whatever the threads do, a popup starts its work from the list that is shown, the editor
  saves the anonymized form of the text it shows and forgets none, and closing the window ends.
\<close>

inductive_cases loader_stepE: "loader_step svc (l, s) (l', s')"
inductive_cases tokenizer_stepE: "tokenizer_step svc (t, s) (t', s')"
inductive_cases window_stepE: "window_step native svc start g g'"
inductive_cases gui_stepE: "gui_step native svc start g g'"

subsection \<open>What an input can change\<close>

text \<open>What the threads see of the editor.\<close>

definition editor_view :: "window \<Rightarrow> string \<times> log_template option \<times> u64 \<times> bool" where
  "editor_view w = (wi_editor_sample w, wi_editor_item w, wi_editor_revision w, wi_editor_pending w)"

definition editor_reset :: "window \<Rightarrow> bool" where
  "editor_reset w \<longleftrightarrow> wi_editor_item w = None \<and> (wi_editor_sample w = [] \<or> wi_editor_pending w)"

lemma mark_reset: "editor_reset (mark_editor_sample_changed immediate now w)"
  by (simp add: mark_editor_sample_changed_def editor_reset_def Let_def)

lemma mark_keeps [simp]:
  "wi_items (mark_editor_sample_changed immediate now w) = wi_items w"
  "wi_popup (mark_editor_sample_changed immediate now w) = wi_popup w"
  "any_requested (mark_editor_sample_changed immediate now w) = any_requested w"
  "wi_editor_sample (mark_editor_sample_changed immediate now w) = wi_editor_sample w"
  by (simp_all add: mark_editor_sample_changed_def any_requested_def Let_def)

lemma mark_window_ok [simp]: "window_ok svc (mark_editor_sample_changed immediate now w) = window_ok svc w"
  by (simp add: mark_editor_sample_changed_def window_ok_def Let_def)

lemma window_ok_other_fields [simp]:
  "window_ok svc (w\<lparr>wi_error := e\<rparr>) = window_ok svc w"
  "window_ok svc (w\<lparr>wi_notice := n\<rparr>) = window_ok svc w"
  "window_ok svc (w\<lparr>wi_popup := p\<rparr>) = window_ok svc w"
  "window_ok svc (w\<lparr>wi_rotate := b\<rparr>) = window_ok svc w"
  "window_ok svc (w\<lparr>wi_editor_requested := b\<rparr>) = window_ok svc w"
  "window_ok svc (w\<lparr>wi_delete_requested := b\<rparr>) = window_ok svc w"
  "window_ok svc (w\<lparr>wi_import_requested := b\<rparr>) = window_ok svc w"
  "window_ok svc (w\<lparr>wi_delete_index := i\<rparr>) = window_ok svc w"
  "window_ok svc (w\<lparr>wi_import_path := p'\<rparr>) = window_ok svc w"
  "window_ok svc (w\<lparr>wi_editor_is_new := b\<rparr>) = window_ok svc w"
  "window_ok svc (w\<lparr>wi_editor_index := i\<rparr>) = window_ok svc w"
  "window_ok svc (w\<lparr>wi_editor_name := p'\<rparr>) = window_ok svc w"
  "window_ok svc (w\<lparr>wi_editor_sample := p'\<rparr>) = window_ok svc w"
  "window_ok svc (w\<lparr>wi_editor_pending := b\<rparr>) = window_ok svc w"
  by (simp_all add: window_ok_def)

text \<open>An input leaves the loader alone, or starts a job on the templates the window shows.\<close>

definition starts_job :: "window \<Rightarrow> loader \<Rightarrow> loader \<Rightarrow> bool" where
  "starts_job w l l' \<longleftrightarrow>
     (\<not> ld_loading l \<and> (\<exists>job. l' = start_job job l \<and> (list_all anonymized (wi_items w) \<longrightarrow> job_ok job)))"

lemmas request_defs = request_catalog_load_def request_catalog_save_def request_sample_log_import_def

lemma request_load:
  assumes "request_catalog_load (w, l) = (w', l')"
  shows "l' = l \<or> starts_job w l l'" "wi_items w' = wi_items w" "editor_view w' = editor_view w"
    "wi_popup w' = wi_popup w" "any_requested w' = any_requested w"
  using assms by (auto simp: request_catalog_load_def starts_job_def editor_view_def any_requested_def
      intro: exI [of _ Load_Job] split: if_splits)

lemma request_save:
  assumes "request_catalog_save (w, l) = (w', l')"
  shows "l' = l \<or> starts_job w l l'" "wi_items w' = wi_items w" "editor_view w' = editor_view w"
    "wi_popup w' = wi_popup w" "any_requested w' = any_requested w"
  using assms by (auto simp: request_catalog_save_def starts_job_def editor_view_def any_requested_def
      intro: exI [of _ "Save_Job (wi_items w)"] split: if_splits)

lemma request_import:
  assumes "request_sample_log_import file (w, l) = (w', l')"
  shows "l' = l \<or> starts_job w l l'" "wi_items w' = wi_items w" "editor_view w' = editor_view w"
    "wi_popup w' = wi_popup w" "any_requested w' = any_requested w"
  using assms by (auto simp: request_sample_log_import_def starts_job_def editor_view_def any_requested_def
      intro: exI [of _ "Import_Job file (wi_items w)"] split: if_splits)

lemma open_import:
  assumes "open_sample_log_import native dialog (w, l) = (w', l')"
  shows "l' = l \<or> starts_job w l l'" "editor_view w' = editor_view w" "wi_popup w' = wi_popup w"
    "any_requested w' \<Longrightarrow> any_requested w \<or> l' = l"
  using assms request_import [of _ w l w' l']
  by (auto simp: open_sample_log_import_def editor_view_def any_requested_def
      split: if_splits sum.splits option.splits)

lemma start_test_keeps:
  assumes "start_test start w = (w', started)"
  shows "editor_view w' = editor_view w" "wi_popup w' = wi_popup w" "any_requested w' = any_requested w"
  using assms by (auto simp: start_test_def editor_view_def any_requested_def split: sum.splits option.splits)

lemma requests_window_ok:
  "request_catalog_load (w, l) = (w', l') \<Longrightarrow> window_ok svc w' = window_ok svc w"
  "request_catalog_save (w, l) = (w', l') \<Longrightarrow> window_ok svc w' = window_ok svc w"
  "request_sample_log_import file (w, l) = (w', l') \<Longrightarrow> window_ok svc w' = window_ok svc w"
  by (auto simp: request_defs split: if_splits)

lemma open_import_window_ok:
  "open_sample_log_import native dialog (w, l) = (w', l') \<Longrightarrow> window_ok svc w' = window_ok svc w"
  by (auto simp: open_sample_log_import_def requests_window_ok split: if_splits sum.splits option.splits)

lemma start_test_window_ok: "start_test start w = (w', started) \<Longrightarrow> window_ok svc w' = window_ok svc w"
  by (auto simp: start_test_def split: sum.splits option.splits)

lemma open_editors:
  "window_ok svc (open_new_catalog_editor now w) = window_ok svc w"
  "window_ok svc (open_selected_catalog_editor now w) = window_ok svc w"
  "wi_popup (open_new_catalog_editor now w) = wi_popup w"
  "wi_popup (open_selected_catalog_editor now w) = wi_popup w"
  "editor_reset (open_new_catalog_editor now w)"
  "wi_items w \<noteq> [] \<Longrightarrow> editor_reset (open_selected_catalog_editor now w)"
  using mark_reset [of True now "w\<lparr>wi_editor_is_new := True, wi_editor_index := length (wi_items w),
      wi_editor_name := [], wi_editor_sample := []\<rparr>"]
    mark_reset [of True now "w\<lparr>wi_editor_is_new := False, wi_editor_index := visible_catalog_index w,
      wi_editor_name := lt_name (wi_items w ! visible_catalog_index w),
      wi_editor_sample := lt_sample (wi_items w ! visible_catalog_index w)\<rparr>"]
  by (simp_all add: open_new_catalog_editor_def open_selected_catalog_editor_def editor_reset_def Let_def)

lemma search_ok: "window_ok svc w \<Longrightarrow> window_ok svc (rebuild_filter (w\<lparr>wi_search := text'\<rparr>))"
  by (rule rebuild_filter_ok) (simp_all add: window_ok_def)

lemma rebuild_filter_view [simp]:
  "editor_view (rebuild_filter w) = editor_view w" "any_requested (rebuild_filter w) = any_requested w"
  by (simp_all add: editor_view_def any_requested_def rebuild_filter_def Let_def)

lemma panel_do_window_ok:
  assumes "panel_do native start now action (w, l) = ((w', l'), started)" "panel_enabled state w l action"
    and ok: "window_ok svc w"
  shows "window_ok svc w'"
proof -
  have pick: "i \<in> set (wi_filtered w) \<Longrightarrow> window_ok svc (w\<lparr>wi_selected := i\<rparr>)" for i
    using window_ok_lists(1) [OF ok] ok by (auto simp: window_ok_def)
  have edit: "edit_offered (wi_settings w) e \<Longrightarrow> window_ok svc (w\<lparr>wi_settings := edit_setting e (wi_settings w)\<rparr>)" for e
    using ok by (simp add: window_ok_def edit_setting_ok)
  show ?thesis
    using assms
    by (cases action) (auto simp: pick edit open_editors search_ok requests_window_ok open_import_window_ok
        start_test_window_ok split: prod.splits)
qed

lemma panel_do_facts:
  assumes "panel_do native start now action (w, l) = ((w', l'), started)" "panel_enabled state w l action"
  shows "l' = l \<or> starts_job w l l'"
    and "editor_view w' = editor_view w \<or> editor_reset w'"
    and "wi_popup w' = wi_popup w"
    and "any_requested w' \<Longrightarrow> any_requested w \<or> l' = l \<and> \<not> ld_loading l"
proof -
  have "(l' = l \<or> starts_job w l l')
    \<and> (editor_view w' = editor_view w \<or> editor_reset w') \<and> wi_popup w' = wi_popup w
    \<and> (any_requested w' \<longrightarrow> any_requested w \<or> l' = l \<and> \<not> ld_loading l)"
  proof (cases action)
    case (Edit_Setting e)
    then show ?thesis
      using assms by (auto simp: editor_view_def any_requested_def)
  next
    case Press_Reload
    then show ?thesis using assms request_load [of w l w' l'] by auto
  next
    case Press_Add
    then show ?thesis using assms by (auto simp: open_editors)
  next
    case (Press_Import dialog)
    then show ?thesis using assms open_import [of native dialog w l w' l'] by auto
  next
    case Press_Edit
    then show ?thesis using assms by (auto simp: open_editors)
  next
    case Press_Delete
    then show ?thesis using assms by (auto simp: editor_view_def)
  next
    case (Type_Search text')
    then show ?thesis using assms by (auto simp: editor_view_def any_requested_def)
  next
    case (Toggle_Rotate b)
    then show ?thesis using assms by (auto simp: editor_view_def any_requested_def)
  next
    case (Pick_Log i)
    then show ?thesis using assms by (auto simp: editor_view_def any_requested_def)
  next
    case Press_Start
    then show ?thesis using assms start_test_keeps [of start w w' started] by (auto split: prod.splits)
  next
    case Press_Stop
    then show ?thesis using assms by auto
  qed
  then show "l' = l \<or> starts_job w l l'"
    and "editor_view w' = editor_view w \<or> editor_reset w'"
    and "wi_popup w' = wi_popup w"
    and "any_requested w' \<Longrightarrow> any_requested w \<or> l' = l \<and> \<not> ld_loading l" by blast+
qed

lemma put_item_keeps:
  assumes "put_item svc item w = Inr w'"
  shows "editor_view w' = editor_view w" "wi_popup w' = wi_popup w" "any_requested w' = any_requested w"
  using assms by (auto simp: put_item_def Let_def result_simps editor_view_def any_requested_def split: if_splits)

lemma request_save_items:
  assumes "request_catalog_save (w, l) = (w', l')" "list_all anonymized (wi_items w)"
  shows "l' = l \<or> \<not> ld_loading l \<and> (\<exists>job. l' = start_job job l \<and> job_ok job)"
  using request_save [OF assms(1)] assms(2) by (auto simp: starts_job_def)

lemma save_editor_facts:
  assumes "save_catalog_editor svc (w, l) = Inr (w', l')" "window_ok svc w"
    "\<And>item. wi_editor_item w = Some item \<Longrightarrow> anonymized item"
  shows "l' = l \<or> \<not> ld_loading l \<and> (\<exists>job. l' = start_job job l \<and> job_ok job)"
    "editor_view w' = editor_view w" "any_requested w' = any_requested w"
proof -
  have "(l' = l \<or> \<not> ld_loading l \<and> (\<exists>job. l' = start_job job l \<and> job_ok job))
    \<and> editor_view w' = editor_view w \<and> any_requested w' = any_requested w"
  proof (cases "wi_editor_name w = [] \<or> wi_editor_sample w = [] \<or> wi_editor_item w = None")
    case False
    then obtain item w1 where item: "wi_editor_item w = Some item"
      and put: "put_item svc (item\<lparr>lt_name := wi_editor_name w\<rparr>) w = Inr w1"
      and req: "request_catalog_save (rebuild_filter w1, l) = (w', l')"
      using assms(1) by (auto simp: save_catalog_editor_def result_simps)
    have "anonymized (item\<lparr>lt_name := wi_editor_name w\<rparr>)" using assms(3) [OF item] by (simp add: anonymized_def)
    then have "window_ok svc (rebuild_filter w1)" using put_item_ok [OF assms(2)] put by blast
    then have "list_all anonymized (wi_items (rebuild_filter w1))" unfolding window_ok_def entries_ok_def by blast
    from request_save_items [OF req this] request_save(3,5) [OF req] put_item_keeps [OF put] show ?thesis by simp
  qed (use assms(1) in \<open>auto simp: save_catalog_editor_def split: if_splits option.splits\<close>)
  then show "l' = l \<or> \<not> ld_loading l \<and> (\<exists>job. l' = start_job job l \<and> job_ok job)"
    "editor_view w' = editor_view w" "any_requested w' = any_requested w" by blast+
qed

lemma delete_facts:
  assumes "delete_selected_catalog_item (w, l) = (w', l')" "window_ok svc w"
  shows "l' = l \<or> \<not> ld_loading l \<and> (\<exists>job. l' = start_job job l \<and> job_ok job)"
    "editor_view w' = editor_view w" "any_requested w' = any_requested w"
proof -
  let ?i = "wi_delete_index w"
  have "(l' = l \<or> \<not> ld_loading l \<and> (\<exists>job. l' = start_job job l \<and> job_ok job))
    \<and> editor_view w' = editor_view w \<and> any_requested w' = any_requested w"
  proof (cases "?i < length (wi_items w)")
    case True
    define w1 where "w1 = w\<lparr>wi_items := erase_at ?i (wi_items w), wi_search_names := erase_at ?i (wi_search_names w),
      wi_previews := erase_at ?i (wi_previews w), wi_analyses := erase_at ?i (wi_analyses w),
      wi_selected := (if erase_at ?i (wi_items w) = [] then 0 else min ?i (length (erase_at ?i (wi_items w)) - 1))\<rparr>"
    have req: "request_catalog_save (rebuild_filter w1, l) = (w', l')"
      using assms(1) True by (simp add: delete_selected_catalog_item_def w1_def Let_def)
    have "entries_ok svc (wi_items w) (wi_search_names w) (wi_previews w) (wi_analyses w)"
      using assms(2) by (simp add: window_ok_def)
    from entries_ok_erase [OF this True] have "list_all anonymized (wi_items (rebuild_filter w1))"
      by (simp add: w1_def entries_ok_def)
    from request_save_items [OF req this] request_save(3,5) [OF req] show ?thesis
      by (simp add: w1_def editor_view_def any_requested_def rebuild_filter_def Let_def)
  qed (use assms(1) in \<open>simp add: delete_selected_catalog_item_def Let_def\<close>)
  then show "l' = l \<or> \<not> ld_loading l \<and> (\<exists>job. l' = start_job job l \<and> job_ok job)"
    "editor_view w' = editor_view w" "any_requested w' = any_requested w" by blast+
qed

lemma close_popup_facts:
  assumes "close_popup wl = (w', l')"
  shows "wi_popup w' = None" "l' = snd wl" "editor_view w' = editor_view (fst wl)"
    "any_requested w' = any_requested (fst wl)" "wi_items w' = wi_items (fst wl)"
    "window_ok svc w' = window_ok svc (fst wl)"
  using assms by (cases wl, auto simp: close_popup_def editor_view_def any_requested_def)+

lemma any_requested_sample [simp]: "any_requested (w\<lparr>wi_editor_sample := text'\<rparr>) = any_requested w"
  by (simp add: any_requested_def)

text \<open>An input of a popup ends it, or leaves the loader alone.\<close>

lemma popup_do_facts:
  assumes "popup_do svc now action (w, l) = Inr (w', l')" "window_ok svc w"
    "\<And>item. wi_editor_item w = Some item \<Longrightarrow> anonymized item"
  shows "window_ok svc w'" "any_requested w' = any_requested w"
    "editor_view w' = editor_view w \<or> editor_reset w'"
    "l' = l \<and> wi_popup w' = wi_popup w
     \<or> wi_popup w' = None \<and> (l' = l \<or> \<not> ld_loading l \<and> (\<exists>job. l' = start_job job l \<and> job_ok job))"
proof -
  have "window_ok svc w' \<and> any_requested w' = any_requested w
    \<and> (editor_view w' = editor_view w \<or> editor_reset w')
    \<and> (l' = l \<and> wi_popup w' = wi_popup w
       \<or> wi_popup w' = None \<and> (l' = l \<or> \<not> ld_loading l \<and> (\<exists>job. l' = start_job job l \<and> job_ok job)))"
  proof (cases action)
    case (Type_Name text')
    then show ?thesis using assms(1,2) by (auto simp: editor_view_def any_requested_def)
  next
    case (Type_Sample text')
    then show ?thesis
      using assms(1,2) mark_reset [of False now "w\<lparr>wi_editor_sample := text'\<rparr>"] by auto
  next
    case Press_Save
    then obtain w1 l1 where save: "save_catalog_editor svc (w, l) = Inr (w1, l1)" and close: "close_popup (w1, l1) = (w', l')"
      using assms(1) by (auto simp: result_simps)
    show ?thesis
      using save_editor_facts [OF save assms(2,3)] save_editor_ok [OF assms(2,3) save] close_popup_facts [OF close]
      by auto
  next
    case Press_Cancel
    then have "close_popup (w, l) = (w', l')" using assms(1) by simp
    from close_popup_facts [OF this] show ?thesis using assms(2) by auto
  next
    case Confirm_Delete
    obtain w1 l1 where d: "delete_selected_catalog_item (w, l) = (w1, l1)" by fastforce
    then have close: "close_popup (w1, l1) = (w', l')" using assms(1) Confirm_Delete by simp
    show ?thesis
      using delete_facts [OF d assms(2)] delete_ok [OF assms(2) d] close_popup_facts [OF close] by auto
  next
    case (Type_Path text')
    then show ?thesis using assms(1,2) by (auto simp: editor_view_def any_requested_def)
  next
    case Press_Import_File
    obtain w1 l1 where r: "request_sample_log_import (wi_import_path w) (w, l) = (w1, l1)" by fastforce
    then have close: "close_popup (w1, l1) = (w', l')" using assms(1) Press_Import_File by simp
    have "list_all anonymized (wi_items w)" using assms(2) unfolding window_ok_def entries_ok_def by blast
    then show ?thesis
      using request_import [OF r] requests_window_ok(3) [OF r, of svc] assms(2) close_popup_facts [OF close]
      by (auto simp: starts_job_def)
  qed
  then show "window_ok svc w'" "any_requested w' = any_requested w"
    "editor_view w' = editor_view w \<or> editor_reset w'"
    "l' = l \<and> wi_popup w' = wi_popup w
     \<or> wi_popup w' = None \<and> (l' = l \<or> \<not> ld_loading l \<and> (\<exists>job. l' = start_job job l \<and> job_ok job))" by blast+
qed

subsection \<open>The invariant\<close>

definition drawing :: "phase \<Rightarrow> bool" where
  "drawing p \<longleftrightarrow> p \<in> {Frame_Start, Take_Catalog, Refresh, Panels, Editor_Start, Take_Tokenization, Queue_Check,
                     Queue_Flag, Open_Popups, Popups}"

definition loader_inv :: "'s catalog_calls \<Rightarrow> phase \<Rightarrow> loader \<Rightarrow> bool" where
  "loader_inv svc p l \<longleftrightarrow>
     (ld_loading l \<longleftrightarrow> ld_pc l \<noteq> Loader_Ended)
     \<and> (ld_slot l \<noteq> None \<longrightarrow> ld_ready l \<or> ld_pc l = Set_Ready \<or> p = Take_Catalog)
     \<and> (\<forall>r. ld_slot l = Some r \<longrightarrow> result_ok svc r)
     \<and> (\<forall>job. ld_pc l = Run_Job job \<longrightarrow> job_ok job)
     \<and> (\<forall>r. ld_pc l = Publish_Result r \<longrightarrow> result_ok svc r)"

text \<open>No popup is asked for or open while the loader works, and none sees a result that is not applied.\<close>

definition popup_inv :: "phase \<Rightarrow> window \<Rightarrow> loader \<Rightarrow> bool" where
  "popup_inv p w l \<longleftrightarrow>
     (any_requested w \<longrightarrow>
        \<not> ld_loading l
        \<and> p \<in> {Editor_Start, Take_Tokenization, Queue_Check, Queue_Flag, Open_Popups})
     \<and> (wi_popup w \<noteq> None \<longrightarrow>
          \<not> ld_loading l \<and> (drawing p \<and> p \<noteq> Frame_Start \<longrightarrow> \<not> ld_ready l))"

definition request_ok :: "tokenization_request \<Rightarrow> bool" where
  "request_ok q \<longleftrightarrow> lt_sample (tq_item q) = tq_source_sample q"

definition tokenization_ok :: "tokenization_result \<Rightarrow> bool" where
  "tokenization_ok r \<longleftrightarrow>
     (case tr_outcome r of
        Inl e \<Rightarrow> e \<noteq> []
      | Inr t \<Rightarrow> lt_sample (tl_item t) = tokenize (tr_source_sample r))"

definition tokenizer_inv :: "phase \<Rightarrow> tokenizer \<Rightarrow> bool" where
  "tokenizer_inv p t \<longleftrightarrow>
     (\<forall>q. tk_request t = Some q \<longrightarrow> request_ok q)
     \<and> (\<forall>q. tk_pc t = Tok_Run q \<longrightarrow> request_ok q)
     \<and> (\<forall>r. tk_pc t = Tok_Publish r \<longrightarrow> tokenization_ok r)
     \<and> (\<forall>r. tk_result t = Some r \<longrightarrow> tokenization_ok r)
     \<and> (tk_result t \<noteq> None \<longrightarrow> tk_ready t \<or> (\<exists>newer. tk_pc t = Tok_Set_Ready newer) \<or> p = Take_Tokenization)"

text \<open>The item of the editor is the anonymized form of the text it shows.\<close>

definition editor_inv :: "window \<Rightarrow> bool" where
  "editor_inv w \<longleftrightarrow> (\<forall>item. wi_editor_item w = Some item \<longrightarrow> lt_sample item = tokenize (wi_editor_sample w))"

definition matches_request :: "window \<Rightarrow> tokenization_request \<Rightarrow> bool" where
  "matches_request w q \<longleftrightarrow> tq_revision q = wi_editor_revision w \<and> tq_source_sample q = wi_editor_sample w"

definition matches_result :: "window \<Rightarrow> tokenization_result \<Rightarrow> bool" where
  "matches_result w r \<longleftrightarrow> tr_revision r = wi_editor_revision w \<and> tr_source_sample r = wi_editor_sample w"

text \<open>The newest thing on its way through the tokenizer is about the text of the editor, or it arrived.\<close>

definition on_its_way :: "window \<Rightarrow> tokenizer \<Rightarrow> u64 option \<Rightarrow> bool" where
  "on_its_way w t answered \<longleftrightarrow>
     (case tk_request t of
        Some q \<Rightarrow> matches_request w q
      | None \<Rightarrow>
          (case tk_pc t of
             Tok_Run q \<Rightarrow> matches_request w q
           | Tok_Publish r \<Rightarrow> matches_result w r
           | _ \<Rightarrow> (case tk_result t of
                     Some r \<Rightarrow> matches_result w r
                   | None \<Rightarrow> answered = Some (wi_editor_revision w))))"

definition forgets_none :: "phase \<Rightarrow> window \<Rightarrow> tokenizer \<Rightarrow> u64 option \<Rightarrow> bool" where
  "forgets_none p w t answered \<longleftrightarrow>
     (drawing p \<and> wi_editor_sample w \<noteq> [] \<and> (wi_editor_pending w \<longrightarrow> p = Queue_Flag) \<longrightarrow> on_its_way w t answered)"

definition closing_inv :: "phase \<Rightarrow> tokenizer \<Rightarrow> loader \<Rightarrow> bool" where
  "closing_inv p t l \<longleftrightarrow>
     (p \<in> {Join_Tokenizer, Join_Loader, Closed} \<longrightarrow> tk_stop t)
     \<and> (p \<in> {Join_Loader, Closed} \<longrightarrow> tk_pc t = Tok_Ended)
     \<and> (p = Closed \<longrightarrow> ld_pc l = Loader_Ended)
     \<and> (tk_pc t = Tok_Ended \<longrightarrow> tk_stop t)
     \<and> (tk_stop t \<longrightarrow> p \<in> {Join_Tokenizer, Join_Loader, Closed})"

definition gui_inv :: "'s catalog_calls \<Rightarrow> 's gui \<Rightarrow> bool" where
  "gui_inv svc g \<longleftrightarrow>
     window_ok svc (gu_window g)
     \<and> loader_inv svc (gu_phase g) (gu_loader g)
     \<and> popup_inv (gu_phase g) (gu_window g) (gu_loader g)
     \<and> tokenizer_inv (gu_phase g) (gu_tokenizer g)
     \<and> editor_inv (gu_window g)
     \<and> forgets_none (gu_phase g) (gu_window g) (gu_tokenizer g) (gu_answered g)
     \<and> closing_inv (gu_phase g) (gu_tokenizer g) (gu_loader g)"

lemma gui_invD:
  assumes "gui_inv svc g"
  shows "window_ok svc (gu_window g)" "loader_inv svc (gu_phase g) (gu_loader g)"
    "popup_inv (gu_phase g) (gu_window g) (gu_loader g)" "tokenizer_inv (gu_phase g) (gu_tokenizer g)"
    "editor_inv (gu_window g)" "forgets_none (gu_phase g) (gu_window g) (gu_tokenizer g) (gu_answered g)"
    "closing_inv (gu_phase g) (gu_tokenizer g) (gu_loader g)"
  using assms by (simp_all add: gui_inv_def)

lemma editor_item_anonymized: "editor_inv w \<Longrightarrow> wi_editor_item w = Some item \<Longrightarrow> anonymized item"
  by (auto simp: editor_inv_def anonymized_def)

text \<open>The parts that only look at the editor.\<close>

lemma editor_inv_view: "editor_view w' = editor_view w \<Longrightarrow> editor_inv w' = editor_inv w"
  by (simp add: editor_inv_def editor_view_def)

lemma editor_inv_reset: "editor_reset w \<Longrightarrow> editor_inv w"
  by (simp add: editor_inv_def editor_reset_def)

lemma on_its_way_view: "editor_view w' = editor_view w \<Longrightarrow> on_its_way w' t a = on_its_way w t a"
  by (auto simp: on_its_way_def matches_request_def matches_result_def editor_view_def
      split: option.splits tokenizer_pc.splits)

lemma forgets_none_view: "editor_view w' = editor_view w \<Longrightarrow> forgets_none p w' t a = forgets_none p w t a"
  using on_its_way_view [of w' w t a] by (simp add: forgets_none_def editor_view_def)

lemma forgets_none_reset: "editor_reset w \<Longrightarrow> p \<noteq> Queue_Flag \<Longrightarrow> forgets_none p w t a"
  by (auto simp: forgets_none_def editor_reset_def)

lemma forgets_none_phase:
  "forgets_none p w t a \<Longrightarrow> drawing p \<Longrightarrow> p \<noteq> Queue_Flag \<Longrightarrow> p' \<noteq> Queue_Flag \<Longrightarrow> forgets_none p' w t a"
  by (simp add: forgets_none_def)

lemma editor_inv_changes: "editor_view w' = editor_view w \<or> editor_reset w' \<Longrightarrow> editor_inv w \<Longrightarrow> editor_inv w'"
  using editor_inv_view [of w' w] editor_inv_reset [of w'] by blast

lemma forgets_none_changes:
  assumes "editor_view w' = editor_view w \<or> editor_reset w'" "forgets_none p w t a"
    "drawing p" "p \<noteq> Queue_Flag" "p' \<noteq> Queue_Flag"
  shows "forgets_none p' w' t a"
  using assms(1) forgets_none_view [of w' w p' t a] forgets_none_reset [of w' p' t a]
    forgets_none_phase [OF assms(2,3,4,5)] assms(5) by blast

lemma forgets_none_over: "\<not> drawing p \<Longrightarrow> forgets_none p w t a"
  by (simp add: forgets_none_def)

subsection \<open>The loader and the tokenizer keep it\<close>

context catalog_use_case
begin

lemma loader_step_inv:
  assumes "loader_step svc (l, s) (l', s')" "loader_inv svc p l"
  shows "loader_inv svc p l'" "ld_loading l" "ld_loading l' \<or> ld_pc l' = Loader_Ended"
  using assms by (auto elim!: loader_stepE simp: loader_inv_def dest: run_job_ok)

lemma run_tokenization_ok: "run_tokenization svc q s = (r, s') \<Longrightarrow> request_ok q \<Longrightarrow> tokenization_ok r"
  by (auto simp: run_tokenization_def request_ok_def tokenization_ok_def tokenize_sample
      dest: tokenize_says split: prod.splits sum.splits)

lemma run_tokenization_matches:
  "run_tokenization svc q s = (r, s') \<Longrightarrow> matches_result w r = matches_request w q"
  by (auto simp: run_tokenization_def matches_result_def matches_request_def split: prod.splits)

lemma tokenizer_step_inv:
  assumes "tokenizer_step svc (t, s) (t', s')" "tokenizer_inv p t"
  shows "tokenizer_inv p t'"
  using assms by (auto elim!: tokenizer_stepE simp: tokenizer_inv_def dest: run_tokenization_ok)

lemma tokenizer_step_on_its_way:
  assumes "tokenizer_step svc (t, s) (t', s')" "on_its_way w t a" "\<not> tk_stop t"
  shows "on_its_way w t' a"
  using assms
  by (auto elim!: tokenizer_stepE simp: on_its_way_def run_tokenization_matches split: option.splits)

end

subsection \<open>The window keeps it\<close>

lemmas gui_inv_parts = gui_inv_def loader_inv_def popup_inv_def tokenizer_inv_def forgets_none_def
  closing_inv_def drawing_def

lemma starts_job_inv:
  assumes "loader_inv svc p l" "p \<noteq> Take_Catalog" "p' \<noteq> Take_Catalog"
    "l' = l \<or> \<not> ld_loading l \<and> (\<exists>job. l' = start_job job l \<and> job_ok job)"
  shows "loader_inv svc p' l'"
  using assms by (auto simp: loader_inv_def start_job_def)

lemma loader_inv_phase: "loader_inv svc p l \<Longrightarrow> p \<noteq> Take_Catalog \<Longrightarrow> loader_inv svc p' l"
  by (auto simp: loader_inv_def)

lemma tokenizer_inv_phase: "tokenizer_inv p t \<Longrightarrow> p \<noteq> Take_Tokenization \<Longrightarrow> tokenizer_inv p' t"
  by (auto simp: tokenizer_inv_def)

lemma closing_inv_drawing: "closing_inv p t l \<Longrightarrow> drawing p \<Longrightarrow> drawing p' \<or> (\<exists>e. p' = Crashed e) \<Longrightarrow> closing_inv p' t l'"
  by (auto simp: closing_inv_def drawing_def)

lemma apply_result_view [simp]:
  "editor_view (apply_result r w) = editor_view w" "wi_popup (apply_result r w) = wi_popup w"
  "any_requested (apply_result r w) = any_requested w"
  by (auto simp: apply_result_def editor_view_def any_requested_def Let_def split: option.splits)

lemma panel_input_inv:
  assumes inv: "gui_inv svc g" and phase: "gu_phase g = Panels" and no_popup: "wi_popup (gu_window g) = None"
    and enabled: "panel_enabled (gu_state g) (gu_window g) (gu_loader g) action"
    and run: "panel_do native start now action (gu_window g, gu_loader g) = ((w, l), started)"
  shows "gui_inv svc (g\<lparr>gu_phase := Editor_Start, gu_window := w, gu_loader := l, gu_started := h\<rparr>)"
proof -
  note I = gui_invD [OF inv, unfolded phase]
  note F = panel_do_facts [OF run enabled]
  have items: "list_all anonymized (wi_items (gu_window g))"
    using I(1) unfolding window_ok_def entries_ok_def by blast
  have "loader_inv svc Editor_Start l"
    using F(1) items by (intro starts_job_inv [OF I(2)]) (auto simp: starts_job_def)
  moreover have "popup_inv Editor_Start w l"
    using F(3,4) I(3) no_popup by (auto simp: popup_inv_def)
  moreover have "editor_inv w" "forgets_none Editor_Start w (gu_tokenizer g) (gu_answered g)"
    using editor_inv_changes [OF F(2) I(5)] forgets_none_changes [OF F(2) I(6)] by (simp_all add: drawing_def)
  ultimately show ?thesis
    using panel_do_window_ok [OF run enabled I(1)] tokenizer_inv_phase [OF I(4)] closing_inv_drawing [OF I(7)]
    by (simp add: gui_inv_def drawing_def)
qed

lemma popup_input_inv:
  assumes inv: "gui_inv svc g" and phase: "gu_phase g = Popups"
    and run: "popup_do svc now action (gu_window g, gu_loader g) = Inr (w, l)"
  shows "gui_inv svc (g\<lparr>gu_phase := Frame_Start, gu_window := w, gu_loader := l\<rparr>)"
proof -
  note I = gui_invD [OF inv, unfolded phase]
  note F = popup_do_facts [OF run I(1) editor_item_anonymized [OF I(5)], simplified]
  have "loader_inv svc Frame_Start l"
    using F(4) by (intro starts_job_inv [OF I(2)]) auto
  moreover have "popup_inv Frame_Start w l"
    using F(2,4) I(3) by (auto simp: popup_inv_def)
  moreover have "editor_inv w" "forgets_none Frame_Start w (gu_tokenizer g) (gu_answered g)"
    using editor_inv_changes [OF F(3) I(5)] forgets_none_changes [OF F(3) I(6)] by (simp_all add: drawing_def)
  ultimately show ?thesis
    using F(1) tokenizer_inv_phase [OF I(4)] closing_inv_drawing [OF I(7)]
    by (simp add: gui_inv_def drawing_def)
qed

lemma take_catalog_inv:
  assumes inv: "gui_inv svc g" and phase: "gu_phase g = Take_Catalog"
  shows "gui_inv svc (g\<lparr>gu_phase := Refresh, gu_window := apply_result (ld_slot (gu_loader g)) (gu_window g),
    gu_loader := (gu_loader g)\<lparr>ld_slot := None\<rparr>\<rparr>)"
proof -
  note I = gui_invD [OF inv, unfolded phase]
  have "window_ok svc (apply_result (ld_slot (gu_loader g)) (gu_window g))"
    using I(2) by (intro apply_result_ok [OF I(1)]) (simp add: loader_inv_def)
  moreover have "popup_inv Refresh (apply_result (ld_slot (gu_loader g)) (gu_window g)) ((gu_loader g)\<lparr>ld_slot := None\<rparr>)"
    using I(3) by (simp add: popup_inv_def drawing_def)
  moreover have "loader_inv svc Refresh ((gu_loader g)\<lparr>ld_slot := None\<rparr>)"
    using I(2) by (simp add: loader_inv_def)
  moreover have "editor_inv (apply_result (ld_slot (gu_loader g)) (gu_window g))"
    "forgets_none Refresh (apply_result (ld_slot (gu_loader g)) (gu_window g)) (gu_tokenizer g) (gu_answered g)"
    using editor_inv_changes [OF _ I(5), of "apply_result (ld_slot (gu_loader g)) (gu_window g)"]
      forgets_none_changes [OF _ I(6), of "apply_result (ld_slot (gu_loader g)) (gu_window g)"]
    by (simp_all add: drawing_def)
  ultimately show ?thesis
    using tokenizer_inv_phase [OF I(4)] closing_inv_drawing [OF I(7)]
    by (simp add: gui_inv_def drawing_def)
qed

lemma apply_tokenization_view:
  "wi_editor_sample (apply_tokenization r w) = wi_editor_sample w"
  "wi_editor_revision (apply_tokenization r w) = wi_editor_revision w"
  "wi_editor_pending (apply_tokenization r w) = wi_editor_pending w"
  "wi_popup (apply_tokenization r w) = wi_popup w" "any_requested (apply_tokenization r w) = any_requested w"
  by (auto simp: apply_tokenization_def any_requested_def split: option.splits sum.splits)

lemma take_tokenization_inv:
  assumes inv: "gui_inv svc g" and phase: "gu_phase g = Take_Tokenization"
  shows "gui_inv svc (g\<lparr>gu_phase := Queue_Check,
    gu_window := apply_tokenization (tk_result (gu_tokenizer g)) (gu_window g),
    gu_answered := answered_by (tk_result (gu_tokenizer g)) (gu_window g) (gu_answered g),
    gu_tokenizer := (gu_tokenizer g)\<lparr>tk_result := None\<rparr>\<rparr>)"
proof -
  note I = gui_invD [OF inv, unfolded phase]
  let ?r = "tk_result (gu_tokenizer g)"
  let ?w = "apply_tokenization ?r (gu_window g)"
  have item: "editor_inv ?w"
  proof (cases ?r)
    case (Some r)
    then have "tokenization_ok r" using I(4) by (simp add: tokenizer_inv_def)
    then show ?thesis
      using I(5) Some by (auto simp: apply_tokenization_def editor_inv_def tokenization_ok_def split: sum.splits)
  qed (use I(5) in \<open>simp add: apply_tokenization_def\<close>)
  have "on_its_way ?w ((gu_tokenizer g)\<lparr>tk_result := None\<rparr>) (answered_by ?r (gu_window g) (gu_answered g))"
    if "on_its_way (gu_window g) (gu_tokenizer g) (gu_answered g)"
    using that
    by (auto simp: on_its_way_def matches_request_def matches_result_def apply_tokenization_view answered_by_def
        split: option.splits tokenizer_pc.splits)
  then have "forgets_none Queue_Check ?w ((gu_tokenizer g)\<lparr>tk_result := None\<rparr>)
      (answered_by ?r (gu_window g) (gu_answered g))"
    using I(6) by (auto simp: forgets_none_def drawing_def apply_tokenization_view)
  moreover have "popup_inv Queue_Check ?w (gu_loader g)"
    using I(3) by (simp add: popup_inv_def apply_tokenization_view drawing_def)
  moreover have "tokenizer_inv Queue_Check ((gu_tokenizer g)\<lparr>tk_result := None\<rparr>)"
    using I(4) by (simp add: tokenizer_inv_def)
  moreover have "closing_inv Queue_Check ((gu_tokenizer g)\<lparr>tk_result := None\<rparr>) (gu_loader g)"
    using I(7) by (auto simp: closing_inv_def)
  ultimately show ?thesis
    using I(1) item loader_inv_phase [OF I(2)] by (simp add: gui_inv_def apply_tokenization_keeps)
qed

lemma request_of_window: "request_ok (tokenization_request_of w)" "matches_request w (tokenization_request_of w)"
  by (simp_all add: tokenization_request_of_def request_ok_def matches_request_def Let_def)

lemma queue_request_inv:
  assumes inv: "gui_inv svc g" and phase: "gu_phase g = Queue_Check"
  shows "gui_inv svc (g\<lparr>gu_phase := Queue_Flag,
    gu_tokenizer := (gu_tokenizer g)\<lparr>tk_request := Some (tokenization_request_of (gu_window g))\<rparr>\<rparr>)"
proof -
  note I = gui_invD [OF inv, unfolded phase]
  show ?thesis
    using I request_of_window [of "gu_window g"]
    by (auto simp: gui_inv_def loader_inv_def popup_inv_def tokenizer_inv_def closing_inv_def forgets_none_def
        drawing_def on_its_way_def)
qed

lemma queue_flag_inv:
  assumes inv: "gui_inv svc g" and phase: "gu_phase g = Queue_Flag"
  shows "gui_inv svc (g\<lparr>gu_phase := Open_Popups, gu_window := (gu_window g)\<lparr>wi_editor_pending := False\<rparr>,
    gu_tokenizer := (gu_tokenizer g)\<lparr>tk_tokenizing := True\<rparr>\<rparr>)"
proof -
  note I = gui_invD [OF inv, unfolded phase]
  have "on_its_way ((gu_window g)\<lparr>wi_editor_pending := False\<rparr>) ((gu_tokenizer g)\<lparr>tk_tokenizing := True\<rparr>) (gu_answered g)
      = on_its_way (gu_window g) (gu_tokenizer g) (gu_answered g)"
    by (auto simp: on_its_way_def matches_request_def matches_result_def split: option.splits tokenizer_pc.splits)
  then show ?thesis
    using I
    by (auto simp: gui_inv_def loader_inv_def popup_inv_def tokenizer_inv_def closing_inv_def forgets_none_def
        drawing_def any_requested_def editor_inv_def)
qed

lemma open_popup_inv:
  assumes inv: "gui_inv svc g" and phase: "gu_phase g = Open_Popups" and asked: "any_requested (gu_window g)"
  shows "gui_inv svc (g\<lparr>gu_phase := Frame_Start, gu_window := open_requested (gu_window g)\<rparr>)"
proof -
  note I = gui_invD [OF inv, unfolded phase]
  have "editor_view (open_requested (gu_window g)) = editor_view (gu_window g)"
    "window_ok svc (open_requested (gu_window g))" "\<not> any_requested (open_requested (gu_window g))"
    using I(1) by (simp_all add: open_requested_def editor_view_def any_requested_def window_ok_def)
  moreover from this have "editor_inv (open_requested (gu_window g))"
    "forgets_none Frame_Start (open_requested (gu_window g)) (gu_tokenizer g) (gu_answered g)"
    using editor_inv_changes [OF _ I(5), of "open_requested (gu_window g)"]
      forgets_none_changes [OF _ I(6), of "open_requested (gu_window g)"] by (simp_all add: drawing_def)
  moreover have "popup_inv Frame_Start (open_requested (gu_window g)) (gu_loader g)"
    using I(3) asked calculation(3) by (simp add: popup_inv_def)
  ultimately show ?thesis
    using loader_inv_phase [OF I(2)] tokenizer_inv_phase [OF I(4)] closing_inv_drawing [OF I(7)]
    by (simp add: gui_inv_def drawing_def)
qed

text \<open>The steps that only move on.\<close>

lemma phase_inv:
  assumes inv: "gui_inv svc g" and phase: "gu_phase g = p"
    and from_p: "p \<in> {Refresh, Panels, Editor_Start, Queue_Check, Popups, Open_Popups}"
    and to_p: "p' \<in> {Panels, Editor_Start, Queue_Check, Open_Popups, Popups, Frame_Start}"
    and asked: "any_requested (gu_window g) \<Longrightarrow> p' \<in> {Editor_Start, Queue_Check, Open_Popups}"
    and quiet: "p = Popups \<or> p' \<noteq> Frame_Start"
  shows "gui_inv svc (g\<lparr>gu_phase := p', gu_state := state\<rparr>)"
proof -
  note I = gui_invD [OF inv, unfolded phase]
  have p: "drawing p" "p \<noteq> Queue_Flag" "p \<noteq> Take_Catalog" "p \<noteq> Take_Tokenization" "p \<noteq> Frame_Start"
    and p': "drawing p'" "p' \<noteq> Queue_Flag"
    using from_p to_p by (auto simp: drawing_def)
  have "popup_inv p' (gu_window g) (gu_loader g)"
    using I(3) asked p by (auto simp: popup_inv_def)
  then show ?thesis
    using I(1,5) loader_inv_phase [OF I(2) p(3)] tokenizer_inv_phase [OF I(4) p(4)]
      closing_inv_drawing [OF I(7) p(1)] forgets_none_phase [OF I(6) p(1,2) p'(2)] p'(1)
    by (simp add: gui_inv_def)
qed

lemma frame_start_inv:
  assumes inv: "gui_inv svc g" and phase: "gu_phase g = Frame_Start"
  shows "\<not> ld_ready (gu_loader g) \<Longrightarrow> gui_inv svc (g\<lparr>gu_phase := Refresh\<rparr>)"
    "gui_inv svc (g\<lparr>gu_phase := Take_Catalog, gu_loader := (gu_loader g)\<lparr>ld_ready := False\<rparr>\<rparr>)"
    "gui_inv svc (g\<lparr>gu_phase := Join_Tokenizer, gu_tokenizer := (gu_tokenizer g)\<lparr>tk_stop := True\<rparr>\<rparr>)"
proof -
  note I = gui_invD [OF inv, unfolded phase]
  show "gui_inv svc (g\<lparr>gu_phase := Refresh\<rparr>)" if "\<not> ld_ready (gu_loader g)"
    using I that by (auto simp: gui_inv_def loader_inv_def popup_inv_def tokenizer_inv_def closing_inv_def
        forgets_none_def drawing_def)
  show "gui_inv svc (g\<lparr>gu_phase := Take_Catalog, gu_loader := (gu_loader g)\<lparr>ld_ready := False\<rparr>\<rparr>)"
    using I by (auto simp: gui_inv_def loader_inv_def popup_inv_def tokenizer_inv_def closing_inv_def
        forgets_none_def drawing_def)
  show "gui_inv svc (g\<lparr>gu_phase := Join_Tokenizer, gu_tokenizer := (gu_tokenizer g)\<lparr>tk_stop := True\<rparr>\<rparr>)"
    using I by (auto simp: gui_inv_def loader_inv_def popup_inv_def tokenizer_inv_def closing_inv_def
        forgets_none_def drawing_def)
qed

lemma ending_inv:
  assumes inv: "gui_inv svc g"
  shows "gu_phase g = Popups \<Longrightarrow> gui_inv svc (g\<lparr>gu_phase := Crashed e\<rparr>)"
    "gu_phase g = Crashed e \<Longrightarrow>
       gui_inv svc (g\<lparr>gu_phase := Join_Tokenizer, gu_tokenizer := (gu_tokenizer g)\<lparr>tk_stop := True\<rparr>\<rparr>)"
    "gu_phase g = Join_Tokenizer \<Longrightarrow> tk_pc (gu_tokenizer g) = Tok_Ended \<Longrightarrow> gui_inv svc (g\<lparr>gu_phase := Join_Loader\<rparr>)"
    "gu_phase g = Join_Loader \<Longrightarrow> ld_pc (gu_loader g) = Loader_Ended \<Longrightarrow> gui_inv svc (g\<lparr>gu_phase := Closed\<rparr>)"
  using gui_invD [OF inv]
  by (auto simp: gui_inv_def loader_inv_def popup_inv_def tokenizer_inv_def closing_inv_def forgets_none_def
      drawing_def)

lemma popup_inv_idle: "popup_inv p w l \<Longrightarrow> p \<notin> {Editor_Start, Take_Tokenization, Queue_Check, Queue_Flag, Open_Popups}
    \<Longrightarrow> \<not> any_requested w"
  by (auto simp: popup_inv_def)

lemma window_step_inv:
  assumes "window_step native svc start g g'" "gui_inv svc g"
  shows "gui_inv svc g'"
  using assms
proof (induction rule: window_step.induct)
  case (refresh g state)
  then have "\<not> any_requested (gu_window g)" using gui_invD(3) popup_inv_idle by fastforce
  then show ?case using phase_inv [OF refresh(2,1), of Panels state] by simp
next
  case (panel_idle g)
  then have "\<not> any_requested (gu_window g)" using gui_invD(3) popup_inv_idle by fastforce
  then show ?case using phase_inv [OF panel_idle(2,1), of Editor_Start "gu_state g"] by simp
next
  case (panel_input g action now w l started)
  from panel_input_inv [OF panel_input(5,1,2,3,4)] show ?case .
next
  case (tokenization_not_ready g)
  then show ?case using phase_inv [OF tokenization_not_ready(3,1), of Queue_Check "gu_state g"] by simp
next
  case (tokenization_ready g)
  note I = gui_invD [OF tokenization_ready(3), unfolded tokenization_ready(1)]
  have "on_its_way (gu_window g) ((gu_tokenizer g)\<lparr>tk_ready := False\<rparr>) (gu_answered g)
      = on_its_way (gu_window g) (gu_tokenizer g) (gu_answered g)"
    by (auto simp: on_its_way_def split: option.splits tokenizer_pc.splits)
  then show ?case
    using I by (auto simp: gui_inv_def loader_inv_def popup_inv_def tokenizer_inv_def closing_inv_def
        forgets_none_def drawing_def)
next
  case (not_due g now)
  then show ?case using phase_inv [OF not_due(3,1), of Open_Popups "gu_state g"] by simp
next
  case (nothing_to_queue g now)
  then show ?case using phase_inv [OF nothing_to_queue(5,1), of Open_Popups "gu_state g"] by simp
next
  case (no_new_popup g)
  then show ?case using phase_inv [OF no_new_popup(3,1), of Popups "gu_state g"] by simp
next
  case (popup_idle g)
  then have "\<not> any_requested (gu_window g)" using gui_invD(3) popup_inv_idle by fastforce
  then show ?case using phase_inv [OF popup_idle(2,1), of Frame_Start "gu_state g"] by simp
next
  case (popup_input g action now w l)
  from popup_input_inv [OF popup_input(4,1,3)] show ?case .
qed (auto simp: frame_start_inv ending_inv take_catalog_inv take_tokenization_inv queue_request_inv
      queue_flag_inv open_popup_inv)

lemma initial_gui_inv: "gui_inv svc (initial_gui s)"
proof -
  have "window_ok svc initial_window"
    by (simp add: window_ok_def initial_window_def initial_settings_ok matching_indices_def)
  then show ?thesis
    by (simp add: initial_gui_def request_catalog_load_def initial_loader_def start_job_def gui_inv_def loader_inv_def
        popup_inv_def tokenizer_inv_def closing_inv_def forgets_none_def editor_inv_def drawing_def)
      (simp add: initial_window_def initial_tokenizer_def any_requested_def)
qed

context catalog_use_case
begin

lemma tokenizer_closing: "tokenizer_step svc (t, s) (t', s') \<Longrightarrow> closing_inv p t l \<Longrightarrow> closing_inv p t' l"
  by (erule tokenizer_stepE) (auto simp: closing_inv_def)

lemma gui_step_inv:
  assumes "gui_step native svc start g g'" "gui_inv svc g"
  shows "gui_inv svc g'"
  using assms
proof (induction rule: gui_step.induct)
  case (window_moves g g')
  then show ?case by (rule window_step_inv)
next
  case (loader_moves g l s)
  note I = gui_invD [OF loader_moves(2)]
  note L = loader_step_inv [OF loader_moves(1) I(2)]
  have "popup_inv (gu_phase g) (gu_window g) l" using I(3) L(2) by (auto simp: popup_inv_def)
  moreover have "closing_inv (gu_phase g) (gu_tokenizer g) l"
    using I(2,7) L(2) by (auto simp: closing_inv_def loader_inv_def)
  ultimately show ?case using I L(1) by (simp add: gui_inv_def)
next
  case (tokenizer_moves g t s)
  note I = gui_invD [OF tokenizer_moves(2)]
  have "closing_inv (gu_phase g) t (gu_loader g)"
    by (rule tokenizer_closing [OF tokenizer_moves(1) I(7)])
  moreover have "forgets_none (gu_phase g) (gu_window g) t (gu_answered g)"
  proof (cases "tk_stop (gu_tokenizer g)")
    case True
    then have "\<not> drawing (gu_phase g)" using I(7) by (auto simp: closing_inv_def drawing_def)
    then show ?thesis by (rule forgets_none_over)
  next
    case False
    then show ?thesis
      using I(6) tokenizer_step_on_its_way [OF tokenizer_moves(1)] by (auto simp: forgets_none_def)
  qed
  ultimately show ?case
    using I tokenizer_step_inv [OF tokenizer_moves(1) I(4)] by (simp add: gui_inv_def)
qed

lemma reachable_inv: "gui_reachable native svc start g \<Longrightarrow> gui_inv svc g"
proof (induction rule: gui_reachable.induct)
  case (at_start s)
  show ?case by (rule initial_gui_inv)
next
  case (after_step g g')
  then show ?case by (blast intro: gui_step_inv)
qed

end

end
