(* ===== verification/Gui_Service.thy ===== *)
theory Gui_Service
  imports Gui_Safety Csv_Source
begin

text \<open>
  The use cases behind the window, as the program wires them: the catalog service with its cache and the
  JSON catalog, and the import service with the CSV source, over one state. An exception reaches the
  window as its text, so the texts are written out here, from the places that throw them. Every law the
  window relies on (\<open>catalog_use_case\<close>) holds for them.
\<close>

subsection \<open>The texts of exceptions\<close>

text \<open>
  \<open>catalog_error\<close> of \<open>json_log_catalog.cpp\<close> in front of each message. What the JSON library throws begins
  with \<open>[json.exception\<close>, and the file system's exception with the call that failed.
\<close>

fun catalog_error_text :: "string \<Rightarrow> catalog_error \<Rightarrow> string" where
  "catalog_error_text file Cannot_Open =
     ''JSON catalog '' @ file @ '': file was not found or could not be opened''"
| "catalog_error_text file (Parse_Failed e) = ''JSON catalog '' @ file @ '': '' @ e"
| "catalog_error_text file (Type_Error e) = ''[json.exception.'' @ e"
| "catalog_error_text file Bad_Root =
     ''JSON catalog '' @ file @ '': schema_version 1 and a logs array are required''"
| "catalog_error_text file Entry_Not_Object = ''JSON catalog '' @ file @ '': every logs entry must be an object''"
| "catalog_error_text file (Missing_String key) =
     ''JSON catalog '' @ file @ '': missing string field '' @ [SQUOTE] @ key @ [SQUOTE]"
| "catalog_error_text file Test_Case_Not_Object = ''JSON catalog '' @ file @ '': test_case must be an object''"
| "catalog_error_text file Test_Case_Not_Arrays =
     ''JSON catalog '' @ file @ '': test_case values must be arrays keyed by token name''"
| "catalog_error_text file Test_Case_Not_Strings =
     ''JSON catalog '' @ file @ '': every test_case value must be a string''"
| "catalog_error_text file Bad_Id = ''JSON catalog '' @ file @ '': id must contain only digits''"
| "catalog_error_text file Empty_Text = ''JSON catalog '' @ file @ '': name and sample must not be empty''"
| "catalog_error_text file (Repeated_Id i) =
     ''JSON catalog '' @ file @ '': duplicate id '' @ [SQUOTE] @ i @ [SQUOTE]"
| "catalog_error_text file Directory_Failed = ''filesystem error: cannot create directories: '' @ file"
| "catalog_error_text file Temporary_Not_Opened =
     ''JSON catalog '' @ file @ '': temporary file could not be opened''"
| "catalog_error_text file (Dump_Failed e) = ''[json.exception.'' @ e"
| "catalog_error_text file Temporary_Write_Failed = ''JSON catalog '' @ file @ '': temporary file write failed''"
| "catalog_error_text file (Replacement_Failed n) =
     ''JSON catalog '' @ file @ '': atomic replacement failed ('' @ format_padded 1 n @ '')''"

fun id_error_text :: "id_error \<Rightarrow> string" where
  "id_error_text (Id_Not_Digits i) = ''Sample id must contain only digits: '' @ [SQUOTE] @ i @ [SQUOTE]"
| "id_error_text (Duplicate_Id i) = ''Duplicate sample id: '' @ [SQUOTE] @ i @ [SQUOTE]"
| "id_error_text (Id_Too_Large i) = ''Sample id is too large: '' @ [SQUOTE] @ i @ [SQUOTE]"
| "id_error_text Ids_Exhausted = ''No numeric sample id remains available''"

fun expand_error_text :: "expand_error \<Rightarrow> string" where
  "expand_error_text (Invalid_Token_Name i) =
     ''Log test case '' @ [SQUOTE] @ i @ [SQUOTE] @ '' contains an invalid token name''"
| "expand_error_text (Value_Count_Mismatch i token) =
     ''Log test case '' @ [SQUOTE] @ i @ [SQUOTE] @ '' value count does not match '' @ token @ '' occurrences''"
| "expand_error_text Out_Of_Range = ''basic_string::substr''"

fun service_error_text :: "string \<Rightarrow> catalog_error service_error \<Rightarrow> string" where
  "service_error_text file (Catalog_Failed e) = catalog_error_text file e"
| "service_error_text file (Id_Failed e) = id_error_text e"
| "service_error_text file (Expand_Failed e) = expand_error_text e"

text \<open>\<open>csv_error\<close> of \<open>csv_sample_log_source.cpp\<close>.\<close>

definition csv_prefix :: "string \<Rightarrow> string" where
  "csv_prefix file =
     ''CSV '' @ bytes [0xEC, 0x83, 0x98, 0xED, 0x94, 0x8C] @ '' '' @ bytes [0xEB, 0xA1, 0x9C, 0xEA, 0xB7,
     0xB8] @ '' '' @ bytes [0xED, 0x8C, 0x8C, 0xEC, 0x9D, 0xBC] @ '' '' @ [SQUOTE] @ file @ [SQUOTE] @ '': ''"

fun csv_error_text :: "string \<Rightarrow> csv_error \<Rightarrow> string" where
  "csv_error_text file Csv_Nul = csv_prefix file @
     ''NUL '' @ bytes [0xEB, 0xAC, 0xB8, 0xEC, 0x9E, 0x90, 0xEB, 0x8A, 0x94] @ '' '' @ bytes [0xEC, 0x82, 0xAC,
     0xEC, 0x9A, 0xA9, 0xED, 0x95, 0xA0] @ '' '' @ bytes [0xEC, 0x88, 0x98] @ '' '' @ bytes [0xEC, 0x97, 0x86,
     0xEC, 0x8A, 0xB5, 0xEB, 0x8B, 0x88, 0xEB, 0x8B, 0xA4] @ ''.''"
| "csv_error_text file Csv_After_Closing_Quote = csv_prefix file @
     bytes [0xEB, 0x8B, 0xAB, 0xEB, 0x8A, 0x94] @ '' '' @ bytes [0xEB, 0x94, 0xB0, 0xEC, 0x98, 0xB4, 0xED, 0x91,
     0x9C] @ '' '' @ bytes [0xEB, 0x92, 0xA4, 0xEC, 0x97, 0x90, 0xEB, 0x8A, 0x94] @ '' '' @ bytes [0xEC, 0x89,
     0xBC, 0xED, 0x91, 0x9C] @ '' '' @ bytes [0xEB, 0x98, 0x90, 0xEB, 0x8A, 0x94] @ '' '' @ bytes [0xEC, 0xA4,
     0x84, 0xEB, 0xB0, 0x94, 0xEA, 0xBF, 0x88, 0xEB, 0xA7, 0x8C] @ '' '' @ bytes [0xEC, 0x98, 0xAC] @ '' '' @
     bytes [0xEC, 0x88, 0x98] @ '' '' @ bytes [0xEC, 0x9E, 0x88, 0xEC, 0x8A, 0xB5, 0xEB, 0x8B, 0x88, 0xEB, 0x8B,
     0xA4] @ ''.''"
| "csv_error_text file Csv_Quote_Inside_Field = csv_prefix file @
     bytes [0xEB, 0x94, 0xB0, 0xEC, 0x98, 0xB4, 0xED, 0x91, 0x9C, 0xEB, 0xA1, 0x9C] @ '' '' @ bytes [0xEB, 0xAC,
     0xB6, 0xEC, 0x9D, 0x80] @ '' '' @ bytes [0xEA, 0xB0, 0x92, 0xEC, 0x9D, 0x80] @ '' '' @ bytes [0xED, 0x95,
     0x84, 0xEB, 0x93, 0x9C, 0xEC, 0x9D, 0x98] @ '' '' @ bytes [0xEC, 0xB2, 0xAB] @ '' '' @ bytes [0xEB, 0xAC,
     0xB8, 0xEC, 0x9E, 0x90, 0xEC, 0x97, 0x90, 0xEC, 0x84, 0x9C] @ '' '' @ bytes [0xEC, 0x8B, 0x9C, 0xEC, 0x9E,
     0x91, 0xED, 0x95, 0xB4, 0xEC, 0x95, 0xBC] @ '' '' @ bytes [0xED, 0x95, 0xA9, 0xEB, 0x8B, 0x88, 0xEB, 0x8B,
     0xA4] @ ''.''"
| "csv_error_text file Csv_Unclosed_Quote = csv_prefix file @
     bytes [0xEB, 0x94, 0xB0, 0xEC, 0x98, 0xB4, 0xED, 0x91, 0x9C, 0xEB, 0xA1, 0x9C] @ '' '' @ bytes [0xEB, 0xAC,
     0xB6, 0xEC, 0x9D, 0x80] @ '' '' @ bytes [0xED, 0x95, 0x84, 0xEB, 0x93, 0x9C, 0xEA, 0xB0, 0x80] @ '' '' @
     bytes [0xEB, 0x8B, 0xAB, 0xED, 0x9E, 0x88, 0xEC, 0xA7, 0x80] @ '' '' @ bytes [0xEC, 0x95, 0x8A, 0xEC, 0x95,
     0x98, 0xEC, 0x8A, 0xB5, 0xEB, 0x8B, 0x88, 0xEB, 0x8B, 0xA4] @ ''.''"
| "csv_error_text file Csv_Extension = csv_prefix file @
     bytes [0xED, 0x99, 0x95, 0xEC, 0x9E, 0xA5, 0xEC, 0x9E, 0x90, 0xEA, 0xB0, 0x80] @ '' .csv'' @ bytes [0xEC,
     0x9D, 0xB8] @ '' '' @ bytes [0xED, 0x8C, 0x8C, 0xEC, 0x9D, 0xBC, 0xEB, 0xA7, 0x8C] @ '' '' @ bytes [0xEA,
     0xB0, 0x80, 0xEC, 0xA0, 0xB8, 0xEC, 0x98, 0xAC] @ '' '' @ bytes [0xEC, 0x88, 0x98] @ '' '' @ bytes [0xEC,
     0x9E, 0x88, 0xEC, 0x8A, 0xB5, 0xEB, 0x8B, 0x88, 0xEB, 0x8B, 0xA4] @ ''.''"
| "csv_error_text file Csv_Open = csv_prefix file @
     bytes [0xED, 0x8C, 0x8C, 0xEC, 0x9D, 0xBC, 0xEC, 0x9D, 0x84] @ '' '' @ bytes [0xEC, 0x97, 0xB4] @ '' '' @
     bytes [0xEC, 0x88, 0x98] @ '' '' @ bytes [0xEC, 0x97, 0x86, 0xEC, 0x8A, 0xB5, 0xEB, 0x8B, 0x88, 0xEB, 0x8B,
     0xA4] @ ''.''"
| "csv_error_text file Csv_No_Data = csv_prefix file @
     bytes [0xEA, 0xB0, 0x80, 0xEC, 0xA0, 0xB8, 0xEC, 0x98, 0xAC] @ '' '' @ bytes [0xEB, 0x8D, 0xB0, 0xEC, 0x9D,
     0xB4, 0xED, 0x84, 0xB0, 0xEA, 0xB0, 0x80] @ '' '' @ bytes [0xEC, 0x97, 0x86, 0xEC, 0x8A, 0xB5, 0xEB, 0x8B,
     0x88, 0xEB, 0x8B, 0xA4] @ ''.''"
| "csv_error_text file (Csv_Columns row n) = csv_prefix file @ to_dec row @
     bytes [0xED, 0x96, 0x89, 0xEC, 0x9D, 0x98] @ '' '' @ bytes [0xEC, 0xBB, 0xAC, 0xEB, 0x9F, 0xBC] @ '' '' @
     bytes [0xEC, 0x88, 0x98, 0xEA, 0xB0, 0x80] @ '' '' @ to_dec n @
     bytes [0xEA, 0xB0, 0x9C, 0xEC, 0x9E, 0x85, 0xEB, 0x8B, 0x88, 0xEB, 0x8B, 0xA4] @ ''. CSV'' @ bytes [0xEB,
     0x8A, 0x94] @ '' '' @ bytes [0xEC, 0xA0, 0x95, 0xED, 0x99, 0x95, 0xED, 0x9E, 0x88] @ '' 1'' @ bytes [0xEA,
     0xB0, 0x9C] @ '' '' @ bytes [0xEC, 0xBB, 0xAC, 0xEB, 0x9F, 0xBC, 0xEC, 0x9D, 0xB4, 0xEC, 0x96, 0xB4, 0xEC,
     0x95, 0xBC] @ '' '' @ bytes [0xED, 0x95, 0xA9, 0xEB, 0x8B, 0x88, 0xEB, 0x8B, 0xA4] @ ''.''"
| "csv_error_text file (Csv_Empty_Sample row) = csv_prefix file @ to_dec row @
     bytes [0xED, 0x96, 0x89, 0xEC, 0x9D, 0x98] @ '' '' @ bytes [0xEC, 0x83, 0x98, 0xED, 0x94, 0x8C] @ '' '' @
     bytes [0xEB, 0xA1, 0x9C, 0xEA, 0xB7, 0xB8, 0xEA, 0xB0, 0x80] @ '' '' @ bytes [0xEB, 0xB9, 0x84, 0xEC, 0x96,
     0xB4] @ '' '' @ bytes [0xEC, 0x9E, 0x88, 0xEC, 0x8A, 0xB5, 0xEB, 0x8B, 0x88, 0xEB, 0x8B, 0xA4] @ ''.''"
| "csv_error_text file Csv_No_Samples = csv_prefix file @
     bytes [0xEA, 0xB0, 0x80, 0xEC, 0xA0, 0xB8, 0xEC, 0x98, 0xAC] @ '' '' @ bytes [0xEC, 0x83, 0x98, 0xED, 0x94,
     0x8C] @ '' '' @ bytes [0xEB, 0xA1, 0x9C, 0xEA, 0xB7, 0xB8, 0xEA, 0xB0, 0x80] @ '' '' @ bytes [0xEC, 0x97,
     0x86, 0xEC, 0x8A, 0xB5, 0xEB, 0x8B, 0x88, 0xEB, 0x8B, 0xA4] @ ''.''"

definition no_samples_text :: string where
  "no_samples_text =
     ''CSV '' @ bytes [0xED, 0x8C, 0x8C, 0xEC, 0x9D, 0xBC, 0xEC, 0x97, 0x90] @ '' '' @ bytes [0xEA, 0xB0, 0x80,
     0xEC, 0xA0, 0xB8, 0xEC, 0x98, 0xAC] @ '' '' @ bytes [0xEC, 0x83, 0x98, 0xED, 0x94, 0x8C] @ '' '' @
     bytes [0xEB, 0xA1, 0x9C, 0xEA, 0xB7, 0xB8, 0xEA, 0xB0, 0x80] @ '' '' @ bytes [0xEC, 0x97, 0x86, 0xEC, 0x8A,
     0xB5, 0xEB, 0x8B, 0x88, 0xEB, 0x8B, 0xA4] @ ''.''"

fun import_error_text :: "string \<Rightarrow> csv_error import_error \<Rightarrow> string" where
  "import_error_text file (Source_Failed e) = csv_error_text file e"
| "import_error_text file No_Samples = no_samples_text"
| "import_error_text file (Next_Id_Failed e) = id_error_text e"
| "import_error_text file (Tokenize_Failed e) = expand_error_text e"

lemma catalog_error_says: "catalog_error_text path e \<noteq> []"
  by (cases e) simp_all

lemma id_error_says: "id_error_text e \<noteq> []"
  by (cases e) simp_all

lemma expand_error_says: "expand_error_text e \<noteq> []"
  by (cases e) simp_all

lemmas error_texts = catalog_error_says id_error_says expand_error_says

lemma service_error_text: "service_error_text file e \<noteq> []"
  by (cases e) (simp_all add: error_texts)

lemma import_error_text: "import_error_text file e \<noteq> []"
proof (cases e)
  case (Source_Failed c)
  then show ?thesis by (cases c) (simp_all add: csv_prefix_def)
qed (simp_all add: error_texts no_samples_text_def)

subsection \<open>The services as the window calls them\<close>

text \<open>
  The catalog's files, the cache of the service, and the number of calls so far. What other programs did
  to the files before a call, and how the file system answers it, are parameters of that number.
\<close>

record service_state =
  sv_world :: catalog_world
  sv_cache :: preparation_cache
  sv_calls :: nat

definition described :: "('e \<Rightarrow> string) \<Rightarrow> 'e + 'a \<Rightarrow> string + 'a" where
  "described text' r = (case r of Inl e \<Rightarrow> Inl (text' e) | Inr x \<Rightarrow> Inr x)"

record service_env =
  se_first :: "entries \<Rightarrow> string"
  se_library :: json_library
  se_outside :: "nat \<Rightarrow> catalog_world \<Rightarrow> catalog_world"
  se_catalog :: "nat \<Rightarrow> catalog_env"
  se_read_csv :: "nat \<Rightarrow> string \<Rightarrow> string option"
  se_catalog_file :: string

definition window_service :: "service_env \<Rightarrow> service_state catalog_calls" where
  "window_service env =
     \<lparr>cc_load = (\<lambda>s.
        let w = se_outside env (sv_calls s) (sv_world s);
            (r, cache) = service_load (se_first env)
              (\<lambda>w. catalog_load (se_library env) (cw_files w) (se_catalog_file env)) w (sv_cache s)
        in (described (service_error_text (se_catalog_file env)) r,
            s\<lparr>sv_world := w, sv_cache := cache, sv_calls := sv_calls s + 1\<rparr>)),
      cc_save = (\<lambda>items s.
        let w = se_outside env (sv_calls s) (sv_world s);
            (r, w', cache) = service_save (se_first env)
              (\<lambda>items w. catalog_save (se_library env) (se_catalog env (sv_calls s)) (se_catalog_file env) items w)
              items w (sv_cache s)
        in (described (service_error_text (se_catalog_file env)) r,
            s\<lparr>sv_world := w', sv_cache := cache, sv_calls := sv_calls s + 1\<rparr>)),
      cc_analyze = (\<lambda>item s.
        let (r, cache) = service_analyze_item (se_first env) item (sv_cache s)
        in (described expand_error_text r, s\<lparr>sv_cache := cache, sv_calls := sv_calls s + 1\<rparr>)),
      cc_tokenize = (\<lambda>item s.
        let (r, cache) = service_tokenize (se_first env) item (sv_cache s)
        in (described expand_error_text r, s\<lparr>sv_cache := cache, sv_calls := sv_calls s + 1\<rparr>)),
      cc_import = (\<lambda>file items s.
        let (r, cache) = import_file (se_first env) (csv_load (se_read_csv env (sv_calls s)) file) file items
                           (sv_cache s)
        in (described (import_error_text file) r, s\<lparr>sv_cache := cache, sv_calls := sv_calls s + 1\<rparr>)),
      cc_terms = privacy_search_terms,
      cc_next_id = (\<lambda>items. described id_error_text (next_id items))\<rparr>"

lemma described_iff:
  "described text' r = Inl t \<longleftrightarrow> (\<exists>e. r = Inl e \<and> t = text' e)"
  "described text' r = Inr x \<longleftrightarrow> r = Inr x"
  by (auto simp: described_def split: sum.splits)

lemma service_load_anonymized:
  "service_load first load s cache = (Inr items, cache') \<Longrightarrow> list_all anonymized items"
  by (fastforce simp: service_load_def list_all_iff anonymized_def tokenize_item_def dest!: tokenize_items_map
      split: sum.splits prod.splits)

lemma import_file_anonymized:
  assumes "import_file first (loaded :: 'e + string list) path existing cache = (Inr ts, cache')"
  shows "list_all (anonymized \<circ> tl_item) ts"
proof -
  from assms obtain samples where s: "loaded = Inr samples" "samples \<noteq> []"
    by (auto simp: import_file_def split: sum.splits if_splits)
  let ?base = "if path_stem path = [] then default_base_name else path_stem path"
  have r: "import_samples first ?base (import_source_prefix @ path_filename path) 0 samples existing cache
      = (Inr ts :: 'e import_error + tokenized_log_template list, cache')"
    using assms s by (simp add: import_file_def Let_def split del: if_split)
  have m: "map (lt_sample \<circ> tl_item) ts = map tokenize samples" using import_samples_ok [OF r] by simp
  have "\<exists>x. lt_sample (tl_item t) = tokenize x" if t: "t \<in> set ts" for t
  proof -
    have "lt_sample (tl_item t) \<in> set (map (lt_sample \<circ> tl_item) ts)" using t by simp
    then show ?thesis unfolding m by auto
  qed
  then show ?thesis by (simp add: list_all_iff anonymized_def)
qed

interpretation files: catalog_use_case "window_service env" for env
proof (unfold_locales, goal_cases)
  case (1 s e s')
  then show ?case
    by (auto simp: window_service_def Let_def described_iff service_error_text split: prod.splits)
next
  case (2 items s e s')
  then show ?case
    by (auto simp: window_service_def Let_def described_iff service_error_text split: prod.splits)
next
  case (3 item s e s')
  then show ?case by (auto simp: window_service_def Let_def described_iff error_texts split: prod.splits)
next
  case (4 item s e s')
  then show ?case by (auto simp: window_service_def Let_def described_iff error_texts split: prod.splits)
next
  case (5 path items s e s')
  then show ?case by (auto simp: window_service_def Let_def described_iff import_error_text split: prod.splits)
next
  case (6 s items s')
  then show ?case
    by (auto simp: window_service_def Let_def described_iff dest: service_load_anonymized split: prod.splits)
next
  case (7 path items s ts s')
  then show ?case
    by (auto simp: window_service_def Let_def described_iff dest: import_file_anonymized split: prod.splits)
next
  case (8 item s t s')
  then show ?case
    by (auto simp: window_service_def Let_def described_iff service_tokenize_def tokenize_item_def
        dest!: tokenize_and_cache_item split: prod.splits)
qed

end
