(* ===== verification/Gui_Properties.thy ===== *)
theory Gui_Properties
  imports Gui_Service
begin

text \<open>
  The properties of the window (\<open>Gui_Window\<close> to \<open>Gui_Safety\<close>) over the services of the program
  (\<open>window_service\<close>), and two schedules of its threads that the source does not rule out.
\<close>

subsection \<open>What is started\<close>

text \<open>What \<open>start\<close> of the stress test service throws.\<close>

definition start_refusal :: "(transport_protocol \<Rightarrow> u32) \<Rightarrow> generator_config \<Rightarrow> string option" where
  "start_refusal optimal config =
     (case start_plan optimal config of Inl e \<Rightarrow> Some (start_error_text e) | Inr plan \<Rightarrow> None)"

definition startable :: "generator_config \<Rightarrow> bool" where
  "startable config \<longleftrightarrow>
     check_config config = Inr ()
     \<and> list_all anonymized (gc_templates config)
     \<and> valid_ipv4 (gc_source_ip config) \<and> valid_ipv4 (gc_destination_ip config)
     \<and> (ep_udp_packetization (gc_endpoint config) = NewlinePacked \<longrightarrow> ep_protocol (gc_endpoint config) = Udp)
     \<and> (ep_protocol (gc_endpoint config) = File \<longrightarrow> gc_transmission_mode config = Sequential)"

lemma protocol_at_File: "settings_ok s \<Longrightarrow> protocol_at (st_protocol_index s) = File \<longleftrightarrow> st_protocol_index s = 3"
proof -
  assume "settings_ok s"
  then have "st_protocol_index s \<in> {0, 1, 2, 3}" by (auto simp: settings_ok_def)
  then show ?thesis by (auto simp: protocol_at_def eval_nat_numeral)
qed

lemma protocol_at_0: "protocol_at 0 = Udp"
  by (simp add: protocol_at_def)

lemma port_not_zero: "1 \<le> p \<Longrightarrow> p \<le> 65535 \<Longrightarrow> (of_int p :: u16) \<noteq> 0"
proof -
  assume p: "1 \<le> p" "p \<le> 65535"
  then have "uint (word_of_int p :: u16) = p" by (simp add: uint_word_of_int)
  with p(1) have "word_of_int p \<noteq> (0 :: u16)" by (metis not_one_le_zero uint_0_eq)
  then show ?thesis by simp
qed

lemma start_config_startable:
  assumes w: "window_ok svc w" and config: "start_config w = Inr config"
  shows "startable config"
proof -
  let ?s = "wi_settings w"
  have s: "settings_ok ?s" using w by (simp add: window_ok_def)
  from config obtain endpoint generation where
    e: "endpoint_of_settings ?s = Inr endpoint" and g: "generation_of_settings ?s = Inr generation"
    and items: "wi_items w \<noteq> []"
    and dest: "\<not> (protocol_at (st_protocol_index ?s) \<noteq> File \<and> (st_host ?s = [] \<or> st_port ?s < 1 \<or> 65535 < st_port ?s))"
    and ips: "gui_valid_ipv4 (st_source_ip ?s)" "gui_valid_ipv4 (st_destination_ip ?s)"
    and c: "config = default_config\<lparr>gc_endpoint := endpoint, gc_source_ip := st_source_ip ?s,
              gc_destination_ip := st_destination_ip ?s, gc_timestamp_generation := generation,
              gc_transmission_mode := mode_at (st_transmission_mode_index ?s), gc_target_eps := st_target_eps ?s,
              gc_templates := (if wi_rotate w then map (\<lambda>i. wi_items w ! i) (wi_filtered w)
                               else [wi_items w ! wi_selected w])\<rparr>"
    and templates: "gc_templates config \<noteq> []"
    by (auto simp: start_config_def Let_def result_simps split: if_splits)
  have ep: "ep_protocol endpoint = protocol_at (st_protocol_index ?s)" "ep_host endpoint = st_host ?s"
    "ep_port endpoint = of_int (st_port ?s)"
    "ep_udp_packetization endpoint = NewlinePacked \<longleftrightarrow> st_udp_integration_index ?s = 1"
    using e by (auto simp: endpoint_of_settings_def Let_def split: if_splits)
  have range: "tg_mode generation = Range \<Longrightarrow> time_range_valid (tg_range generation)"
    using g by (auto simp: generation_of_settings_def Let_def time_range_valid_def default_timestamp_generation_def
        split: if_splits option.splits)
  have all: "list_all anonymized (wi_items w)" using w unfolding window_ok_def entries_ok_def by blast
  have "i < length (wi_items w)" if "i \<in> set (wi_filtered w)" for i using window_ok_lists(1) [OF w] that by blast
  moreover have "wi_selected w < length (wi_items w)" using w items by (simp add: window_ok_def)
  ultimately have "list_all anonymized (gc_templates config)"
    using all by (auto simp: c list_all_length list_all_iff)
  moreover have "check_config config = Inr ()"
    using templates dest range port_not_zero [of "st_port ?s"] by (auto simp: check_config_def c ep)
  ultimately show ?thesis
    using ips s by (auto simp: startable_def c ep gui_valid_ipv4_eq protocol_at_File mode_at_def settings_ok_def
        protocol_at_0)
qed

lemma startable_accepted: "startable config \<Longrightarrow> start_refusal optimal config = None"
  by (simp add: startable_def start_refusal_def start_plan_def Let_def)

lemma start_test_started:
  "window_ok svc w \<Longrightarrow> start_test start w = (w', Some config) \<Longrightarrow> startable config"
  by (auto simp: start_test_def start_config_startable split: sum.splits option.splits)

lemma panel_do_started:
  "panel_do native start now action (w, l) = ((w', l'), Some config) \<Longrightarrow> window_ok svc w \<Longrightarrow> startable config"
  by (cases action) (auto simp: start_test_started split: prod.splits)

lemma started_startable:
  "gui_reachable native (window_service env) start g \<Longrightarrow> list_all startable (gu_started g)"
proof (induction rule: gui_reachable.induct)
  case (at_start s)
  show ?case by (simp add: initial_gui_def request_catalog_load_def initial_loader_def)
next
  case (after_step g g')
  have ok: "window_ok (window_service env) (gu_window g)"
    using files.reachable_inv [OF after_step(1)] by (simp add: gui_inv_def)
  from after_step(2) show ?case
  proof (cases rule: gui_step.cases)
    case window_moves
    then show ?thesis
    proof (cases rule: window_step.cases)
      case (panel_input action now w l started)
      then show ?thesis
        using after_step(3) panel_do_started [of native start now action "gu_window g" "gu_loader g" w l] ok
        by (auto split: option.splits)
    qed (use after_step(3) in auto)
  qed (use after_step(3) in auto)
qed

subsection \<open>Schedules\<close>

text \<open>
  A schedule says which thread moves next, and with which input of the user; playing it gives a state
  that is reachable.
\<close>

datatype move =
    Window_Moves generator_state int
  | Panel_Input int panel_action
  | Popup_Input int popup_action
  | Loader_Moves
  | Tokenizer_Moves

fun window_move :: "generator_state \<Rightarrow> int \<Rightarrow> 's gui \<Rightarrow> 's gui option" where
  "window_move state now g =
     (case gu_phase g of
        Frame_Start \<Rightarrow>
          Some (if ld_ready (gu_loader g)
                then g\<lparr>gu_phase := Take_Catalog, gu_loader := (gu_loader g)\<lparr>ld_ready := False\<rparr>\<rparr>
                else g\<lparr>gu_phase := Refresh\<rparr>)
      | Take_Catalog \<Rightarrow>
          Some (g\<lparr>gu_phase := Refresh, gu_window := apply_result (ld_slot (gu_loader g)) (gu_window g),
                  gu_loader := (gu_loader g)\<lparr>ld_slot := None\<rparr>\<rparr>)
      | Refresh \<Rightarrow> Some (g\<lparr>gu_phase := Panels, gu_state := state\<rparr>)
      | Panels \<Rightarrow> Some (g\<lparr>gu_phase := Editor_Start\<rparr>)
      | Editor_Start \<Rightarrow>
          Some (if tk_ready (gu_tokenizer g)
                then g\<lparr>gu_phase := Take_Tokenization, gu_tokenizer := (gu_tokenizer g)\<lparr>tk_ready := False\<rparr>\<rparr>
                else g\<lparr>gu_phase := Queue_Check\<rparr>)
      | Take_Tokenization \<Rightarrow>
          Some (g\<lparr>gu_phase := Queue_Check,
                  gu_window := apply_tokenization (tk_result (gu_tokenizer g)) (gu_window g),
                  gu_answered := answered_by (tk_result (gu_tokenizer g)) (gu_window g) (gu_answered g),
                  gu_tokenizer := (gu_tokenizer g)\<lparr>tk_result := None\<rparr>\<rparr>)
      | Queue_Check \<Rightarrow>
          Some (if \<not> wi_editor_pending (gu_window g) \<or> now < wi_editor_due (gu_window g)
                   \<or> wi_editor_sample (gu_window g) = []
                then g\<lparr>gu_phase := Open_Popups\<rparr>
                else g\<lparr>gu_phase := Queue_Flag,
                       gu_tokenizer := (gu_tokenizer g)\<lparr>tk_request := Some (tokenization_request_of (gu_window g))\<rparr>\<rparr>)
      | Queue_Flag \<Rightarrow>
          Some (g\<lparr>gu_phase := Open_Popups, gu_window := (gu_window g)\<lparr>wi_editor_pending := False\<rparr>,
                  gu_tokenizer := (gu_tokenizer g)\<lparr>tk_tokenizing := True\<rparr>\<rparr>)
      | Open_Popups \<Rightarrow>
          Some (if any_requested (gu_window g)
                then g\<lparr>gu_phase := Frame_Start, gu_window := open_requested (gu_window g)\<rparr>
                else g\<lparr>gu_phase := Popups\<rparr>)
      | Popups \<Rightarrow> Some (g\<lparr>gu_phase := Frame_Start\<rparr>)
      | _ \<Rightarrow> None)"

fun loader_move :: "'s catalog_calls \<Rightarrow> loader \<times> 's \<Rightarrow> (loader \<times> 's) option" where
  "loader_move svc (l, s) =
     (case ld_pc l of
        Run_Job job \<Rightarrow> Some (let (r, s') = run_job svc job s in (l\<lparr>ld_pc := Publish_Result r\<rparr>, s'))
      | Publish_Result r \<Rightarrow> Some (l\<lparr>ld_slot := Some r, ld_pc := Set_Ready\<rparr>, s)
      | Set_Ready \<Rightarrow> Some (l\<lparr>ld_ready := True, ld_pc := Clear_Loading\<rparr>, s)
      | Clear_Loading \<Rightarrow> Some (l\<lparr>ld_loading := False, ld_pc := Loader_Ended\<rparr>, s)
      | Loader_Ended \<Rightarrow> None)"

fun tokenizer_move :: "'s catalog_calls \<Rightarrow> tokenizer \<times> 's \<Rightarrow> (tokenizer \<times> 's) option" where
  "tokenizer_move svc (t, s) =
     (case tk_pc t of
        Tok_Wait \<Rightarrow>
          (if tk_stop t then Some (t\<lparr>tk_pc := Tok_Ended\<rparr>, s)
           else map_option (\<lambda>q. (t\<lparr>tk_request := None, tk_pc := Tok_Run q\<rparr>, s)) (tk_request t))
      | Tok_Run q \<Rightarrow> Some (let (r, s') = run_tokenization svc q s in (t\<lparr>tk_pc := Tok_Publish r\<rparr>, s'))
      | Tok_Publish r \<Rightarrow> Some (t\<lparr>tk_result := Some r, tk_pc := Tok_Set_Ready (tk_request t \<noteq> None)\<rparr>, s)
      | Tok_Set_Ready newer \<Rightarrow> Some (t\<lparr>tk_ready := True, tk_pc := Tok_Set_Tokenizing newer\<rparr>, s)
      | Tok_Set_Tokenizing newer \<Rightarrow> Some (t\<lparr>tk_tokenizing := newer, tk_pc := Tok_Wait\<rparr>, s)
      | Tok_Ended \<Rightarrow> None)"

fun gui_move ::
    "bool \<Rightarrow> 's catalog_calls \<Rightarrow> (generator_config \<Rightarrow> string option) \<Rightarrow> move \<Rightarrow> 's gui \<Rightarrow> 's gui option"
where
  "gui_move native svc start (Window_Moves state now) g = window_move state now g"
| "gui_move native svc start (Panel_Input now action) g =
     (if gu_phase g = Panels \<and> wi_popup (gu_window g) = None
         \<and> panel_enabled (gu_state g) (gu_window g) (gu_loader g) action
      then (let ((w, l), started) = panel_do native start now action (gu_window g, gu_loader g)
            in Some (g\<lparr>gu_phase := Editor_Start, gu_window := w, gu_loader := l,
                       gu_started := gu_started g @ (case started of None \<Rightarrow> [] | Some config \<Rightarrow> [config])\<rparr>))
      else None)"
| "gui_move native svc start (Popup_Input now action) g =
     (if gu_phase g = Popups \<and> popup_enabled (gu_window g) (gu_loader g) (gu_tokenizer g) action
      then (case popup_do svc now action (gu_window g, gu_loader g) of
              Inl e \<Rightarrow> Some (g\<lparr>gu_phase := Crashed e\<rparr>)
            | Inr (w, l) \<Rightarrow> Some (g\<lparr>gu_phase := Frame_Start, gu_window := w, gu_loader := l\<rparr>))
      else None)"
| "gui_move native svc start Loader_Moves g =
     map_option (\<lambda>(l, s). g\<lparr>gu_loader := l, gu_service := s\<rparr>) (loader_move svc (gu_loader g, gu_service g))"
| "gui_move native svc start Tokenizer_Moves g =
     map_option (\<lambda>(t, s). g\<lparr>gu_tokenizer := t, gu_service := s\<rparr>) (tokenizer_move svc (gu_tokenizer g, gu_service g))"

fun play ::
    "bool \<Rightarrow> 's catalog_calls \<Rightarrow> (generator_config \<Rightarrow> string option) \<Rightarrow> move list \<Rightarrow> 's gui \<Rightarrow> 's gui option"
where
  "play native svc start [] g = Some g"
| "play native svc start (m # ms) g =
     (case gui_move native svc start m g of None \<Rightarrow> None | Some g' \<Rightarrow> play native svc start ms g')"

lemma loader_move_step: "loader_move svc (l, s) = Some (l', s') \<Longrightarrow> loader_step svc (l, s) (l', s')"
  by (auto simp: Let_def intro: loader_step.intros split: loader_pc.splits prod.splits)

lemma tokenizer_move_step: "tokenizer_move svc (t, s) = Some (t', s') \<Longrightarrow> tokenizer_step svc (t, s) (t', s')"
  by (auto simp: Let_def intro: tokenizer_step.intros tok_publish [simplified] split: tokenizer_pc.splits prod.splits if_splits)

lemma window_move_step: "window_move state now g = Some g' \<Longrightarrow> window_step native svc start g g'"
proof (cases "gu_phase g")
  case Queue_Check
  assume "window_move state now g = Some g'"
  with Queue_Check show ?thesis
    using not_due [OF Queue_Check, of now] nothing_to_queue [OF Queue_Check, of now]
      queue_request [OF Queue_Check, of now]
    by (cases "wi_editor_pending (gu_window g)"; cases "now < wi_editor_due (gu_window g)") (auto split: if_splits)
qed (auto intro: window_step.intros split: if_splits)

lemma gui_move_step: "gui_move native svc start m g = Some g' \<Longrightarrow> gui_step native svc start g g'"
proof (cases m)
  case (Window_Moves state now)
  assume "gui_move native svc start m g = Some g'"
  then show ?thesis using Window_Moves window_move_step window_moves by (metis gui_move.simps(1))
next
  case (Panel_Input now action)
  assume "gui_move native svc start m g = Some g'"
  then show ?thesis using Panel_Input by (auto intro!: window_moves intro: panel_input split: if_splits prod.splits)
next
  case (Popup_Input now action)
  assume "gui_move native svc start m g = Some g'"
  then show ?thesis
    using Popup_Input
    by (auto intro!: window_moves intro: popup_input popup_throws split: if_splits prod.splits sum.splits)
next
  case Loader_Moves
  assume "gui_move native svc start m g = Some g'"
  then show ?thesis using Loader_Moves by (auto intro: loader_moves loader_move_step simp del: loader_move.simps)
next
  case Tokenizer_Moves
  assume "gui_move native svc start m g = Some g'"
  then show ?thesis using Tokenizer_Moves by (auto intro: tokenizer_moves tokenizer_move_step simp del: tokenizer_move.simps)
qed

lemma play_reachable:
  "play native svc start ms g = Some g' \<Longrightarrow> gui_reachable native svc start g \<Longrightarrow> gui_reachable native svc start g'"
proof (induction ms arbitrary: g)
  case (Cons m ms)
  then obtain g1 where g1: "gui_move native svc start m g = Some g1" "play native svc start ms g1 = Some g'"
    by (auto split: option.splits)
  from Cons.IH [OF g1(2) after_step [OF Cons.prems(2) gui_move_step [OF g1(1)]]] show ?case .
qed simp

subsection \<open>A schedule that opens the editor\<close>

text \<open>There is no catalog file; the user asks for a new sample and types a name and a text.\<close>

definition no_files_env :: service_env where
  "no_files_env =
     \<lparr>se_first = (\<lambda>es. fst (hd es)), se_library = plain_library, se_outside = (\<lambda>n w. w),
      se_catalog = (\<lambda>n. sample_catalog_env), se_read_csv = (\<lambda>n path. None), se_catalog_file = ''c''\<rparr>"

definition no_files :: service_state where
  "no_files = \<lparr>sv_world = \<lparr>cw_files = Map.empty, cw_sequence = 0\<rparr>, sv_cache = empty_cache, sv_calls = 0\<rparr>"

abbreviation window_on :: "nat \<Rightarrow> move list" where
  "window_on n \<equiv> replicate n (Window_Moves Stopped 200)"

definition open_editor :: "move list" where
  "open_editor = replicate 4 Loader_Moves @ window_on 3 @ [Panel_Input 0 Press_Add] @ window_on 3"

definition type_text :: "move list" where
  "type_text = window_on 6 @ [Popup_Input 0 (Type_Name ''n'')] @ window_on 6
     @ [Popup_Input 0 (Type_Sample ''x'')] @ window_on 5"

lemma no_files_load: "load_job (window_service no_files_env) no_files
  = (job_error (catalog_error_text ''c'' Cannot_Open) empty_result, no_files\<lparr>sv_calls := 1\<rparr>)"
  by (simp add: load_job_def window_service_def no_files_env_def no_files_def service_load_def catalog_load_def
      described_def Let_def)

definition editor_window :: window where
  "editor_window = initial_window\<lparr>
     wi_error := catalog_error_text ''c'' Cannot_Open, wi_popup := Some Editor_Popup,
     wi_editor_is_new := True, wi_editor_revision := 1\<rparr>"

definition editor_gui :: "service_state gui" where
  "editor_gui =
     \<lparr>gu_phase = Frame_Start, gu_window = editor_window, gu_loader = initial_loader,
      gu_tokenizer = initial_tokenizer, gu_service = no_files\<lparr>sv_calls := 1\<rparr>, gu_state = Stopped,
      gu_started = [], gu_answered = None\<rparr>"

lemmas play_simps = numeral_eq_Suc any_requested_def open_requested_def is_active_def Let_def
  mark_editor_sample_changed_def

lemma play_open_editor:
  "play False (window_service no_files_env) start open_editor (initial_gui no_files) = Some editor_gui"
  by (simp add: open_editor_def editor_gui_def editor_window_def play_simps initial_gui_def
      request_catalog_load_def initial_loader_def start_job_def no_files_load initial_window_def
      apply_result_def job_error_def open_new_catalog_editor_def initial_tokenizer_def catalog_error_says
      del: catalog_error_text.simps)

definition typed_gui :: "service_state gui" where
  "typed_gui = editor_gui\<lparr>
     gu_phase := Queue_Flag,
     gu_window := editor_window\<lparr>wi_editor_name := ''n'', wi_editor_sample := ''x'', wi_editor_revision := 2,
       wi_editor_pending := True, wi_editor_due := 120\<rparr>,
     gu_tokenizer := initial_tokenizer\<lparr>tk_request := Some \<lparr>tq_revision = 2, tq_source_sample = ''x'',
       tq_item = \<lparr>lt_id = ''0000'', lt_name = ''n'', lt_sample = ''x'', lt_source = custom_source, lt_test_case = []\<rparr>\<rparr>\<rparr>\<rparr>"

lemma play_type_text:
  "play False (window_service no_files_env) start type_text editor_gui = Some typed_gui"
  by (simp add: type_text_def typed_gui_def editor_gui_def editor_window_def play_simps initial_loader_def
      initial_window_def initial_tokenizer_def tokenization_request_of_def del: catalog_error_text.simps)

text \<open>The tokenizer does its work, before or after the window sets \<open>editor_tokenizing_\<close>.\<close>

definition tokenized_gui :: "bool \<Rightarrow> service_state gui" where
  "tokenized_gui flag =
     (let request = the (tk_request (gu_tokenizer typed_gui));
          (result, s) = run_tokenization (window_service no_files_env) request (gu_service typed_gui)
      in typed_gui\<lparr>gu_phase := (if flag then Queue_Flag else Open_Popups),
           gu_window := (gu_window typed_gui)\<lparr>wi_editor_pending := flag\<rparr>,
           gu_tokenizer := initial_tokenizer\<lparr>tk_ready := True, tk_result := Some result\<rparr>, gu_service := s\<rparr>)"

lemma play_tokenize_late:
  "play False (window_service no_files_env) start (window_on 1 @ replicate 5 Tokenizer_Moves) typed_gui
     = Some (tokenized_gui False)"
  by (simp add: tokenized_gui_def typed_gui_def editor_gui_def numeral_eq_Suc Let_def initial_tokenizer_def
      run_tokenization_def split: prod.split)

lemma play_tokenize_early:
  "play False (window_service no_files_env) start (replicate 5 Tokenizer_Moves) typed_gui = Some (tokenized_gui True)"
  by (simp add: tokenized_gui_def typed_gui_def editor_gui_def numeral_eq_Suc Let_def initial_tokenizer_def
      run_tokenization_def editor_window_def split: prod.split)

definition finished_window :: "tokenized_log_template \<Rightarrow> window" where
  "finished_window t = (gu_window typed_gui)\<lparr>wi_editor_pending := False, wi_editor_analysis := tl_analysis t,
     wi_editor_preview := lt_sample (tl_item t), wi_editor_item := Some (tl_item t)\<rparr>"

definition finished_gui :: "bool \<Rightarrow> tokenized_log_template \<Rightarrow> service_state \<Rightarrow> service_state gui" where
  "finished_gui stuck t s = typed_gui\<lparr>gu_phase := Popups, gu_window := finished_window t, gu_service := s,
     gu_tokenizer := initial_tokenizer\<lparr>tk_tokenizing := stuck\<rparr>, gu_answered := Some 2\<rparr>"

lemma finished:
  obtains t s where
    "cc_tokenize (window_service no_files_env) (tq_item (the (tk_request (gu_tokenizer typed_gui)))) (gu_service typed_gui)
       = (Inr t, s)"
    "\<And>start. play False (window_service no_files_env) start (window_on 9) (tokenized_gui False) = Some (finished_gui False t s)"
    "\<And>start. play False (window_service no_files_env) start (window_on 10) (tokenized_gui True) = Some (finished_gui True t s)"
proof -
  let ?item = "tq_item (the (tk_request (gu_tokenizer typed_gui)))"
  have "lt_test_case ?item = []" by (simp add: typed_gui_def)
  then obtain t c where "tokenize_and_cache (se_first no_files_env) ?item (sv_cache (gu_service typed_gui)) = (Inr t, c)"
    using tokenize_and_cache_plain by metis
  then obtain s where run: "cc_tokenize (window_service no_files_env) ?item (gu_service typed_gui) = (Inr t, s)"
    by (simp add: window_service_def described_def service_tokenize_def)
  have late: "play False (window_service no_files_env) start (window_on 9) (tokenized_gui False) = Some (finished_gui False t s)" for start
    using run
    by (simp add: tokenized_gui_def finished_gui_def finished_window_def run_tokenization_def typed_gui_def editor_gui_def
        play_simps initial_tokenizer_def initial_loader_def apply_tokenization_def answered_by_def editor_window_def
        initial_window_def)
  have early: "play False (window_service no_files_env) start (window_on 10) (tokenized_gui True) = Some (finished_gui True t s)" for start
    using run
    by (simp add: tokenized_gui_def finished_gui_def finished_window_def run_tokenization_def typed_gui_def editor_gui_def
        play_simps initial_tokenizer_def initial_loader_def apply_tokenization_def answered_by_def editor_window_def
        initial_window_def)
  from that [OF run late early] show thesis .
qed

lemma play_append:
  "play native svc start (ms @ ms') g
     = (case play native svc start ms g of None \<Rightarrow> None | Some g' \<Rightarrow> play native svc start ms' g')"
  by (induction ms arbitrary: g) (auto split: option.splits)

lemma editor_reachable: "gui_reachable False (window_service no_files_env) start typed_gui"
proof -
  have "play False (window_service no_files_env) start (open_editor @ type_text) (initial_gui no_files) = Some typed_gui"
    by (simp add: play_append play_open_editor play_type_text)
  then show ?thesis by (rule play_reachable) (rule at_start)
qed

subsection \<open>Properties\<close>

lemma finished_reachable:
  obtains t s where "gui_reachable False (window_service no_files_env) start (finished_gui stuck t s)"
proof (rule finished)
  fix t s
  assume late: "\<And>start. play False (window_service no_files_env) start (window_on 9) (tokenized_gui False) = Some (finished_gui False t s)"
    and early: "\<And>start. play False (window_service no_files_env) start (window_on 10) (tokenized_gui True) = Some (finished_gui True t s)"
  have a: "play False (window_service no_files_env) start ((window_on 1 @ replicate 5 Tokenizer_Moves) @ window_on 9) typed_gui
      = Some (finished_gui False t s)"
    by (subst play_append) (simp only: play_tokenize_late option.case late)
  have b: "play False (window_service no_files_env) start (replicate 5 Tokenizer_Moves @ window_on 10) typed_gui
      = Some (finished_gui True t s)"
    by (subst play_append) (simp only: play_tokenize_early option.case early)
  have "gui_reachable False (window_service no_files_env) start (finished_gui stuck t s)"
    using play_reachable [OF a editor_reachable] play_reachable [OF b editor_reachable] by (cases stuck) simp_all
  with that show thesis by blast
qed

lemma nth_map2: "i < length xs \<Longrightarrow> length ys = length xs \<Longrightarrow> map2 f xs ys ! i = f (xs ! i) (ys ! i)"
  by simp

text \<open>
  C31. Whatever the threads and the user do, the lists of the window belong together: every template has
  its search text, its preview and its analysis at its own index, the filter lists exactly the entries
  whose search text contains the lowered search, and the selected and the shown template exist.\<close>

theorem window_lists_consistent:
  assumes "gui_reachable native (window_service env) start g" "w = gu_window g"
  shows "length (wi_analyses w) = length (wi_items w)
    \<and> wi_search_names w
        = map2 (\<lambda>item a. catalog_search_text item (privacy_search_terms a)) (wi_items w) (wi_analyses w)
    \<and> wi_previews w = map (\<lambda>item. sample_preview (lt_sample item)) (wi_items w)
    \<and> wi_filtered w = [i \<leftarrow> [0 ..< length (wi_items w)].
        \<exists>a b. wi_search_names w ! i = a @ lowercase (wi_search w) @ b]
    \<and> (wi_items w \<noteq> [] \<longrightarrow> wi_selected w < length (wi_items w) \<and> visible_catalog_index w < length (wi_items w))"
proof -
  have ok: "window_ok (window_service env) w"
    using files.reachable_inv [OF assms(1)] assms(2) by (simp add: gui_inv_def)
  have terms: "cc_terms (window_service env) = privacy_search_terms" by (simp add: window_service_def)
  have "q = [] \<or> find_from q s 0 \<noteq> None \<longleftrightarrow> (\<exists>a b. s = a @ q @ b)" for q s
    using find_sub_iff [of q s] by (cases "q = []") (auto simp: find_from_0 intro: exI [of _ s])
  then show ?thesis
    using ok window_ok_lists(2) [OF ok] by (simp add: window_ok_def entries_ok_def terms matching_indices_def)
qed

theorem window_lists_consistent_witness:
  "wi_previews (gu_window typed_gui) = map (\<lambda>item. sample_preview (lt_sample item)) (wi_items (gu_window typed_gui))"
  using window_lists_consistent [OF editor_reachable [where start = "start_refusal (\<lambda>_. 4)"] refl] by blast



text \<open>
  When a popup takes an input, no work on the catalog is under way and no result waits to be shown:
  what the popup saves, deletes or imports starts from the list the window shows, is never refused, and
  joins no thread that still works.\<close>

theorem popups_work_on_shown_list:
  assumes "gui_reachable native (window_service env) start g"
    and "gu_phase g = Popups" "popup_enabled (gu_window g) (gu_loader g) (gu_tokenizer g) action"
  shows "\<not> ld_loading (gu_loader g) \<and> \<not> ld_ready (gu_loader g) \<and> ld_slot (gu_loader g) = None
    \<and> ld_pc (gu_loader g) = Loader_Ended"
proof -
  have "gui_inv (window_service env) g" by (rule files.reachable_inv [OF assms(1)])
  note I = gui_invD [OF this]
  have "wi_popup (gu_window g) \<noteq> None" using assms(3) by (cases action) auto
  then show ?thesis using I(2,3) assms(2) by (auto simp: popup_inv_def loader_inv_def drawing_def)
qed

theorem popups_work_on_shown_list_witness:
  "\<exists>t s. popup_enabled (finished_window t) initial_loader initial_tokenizer Press_Save
     \<and> ld_pc (gu_loader (finished_gui False t s)) = Loader_Ended"
proof (rule finished_reachable [of "start_refusal (\<lambda>_. 4)" False])
  fix t s
  assume r: "gui_reachable False (window_service no_files_env) (start_refusal (\<lambda>_. 4)) (finished_gui False t s)"
  have e: "popup_enabled (finished_window t) initial_loader initial_tokenizer Press_Save"
    by (simp add: finished_window_def typed_gui_def editor_gui_def editor_window_def tokenization_pending_def
        initial_tokenizer_def initial_loader_def)
  then have "popup_enabled (gu_window (finished_gui False t s)) (gu_loader (finished_gui False t s))
      (gu_tokenizer (finished_gui False t s)) Press_Save"
    by (simp add: finished_gui_def typed_gui_def editor_gui_def initial_tokenizer_def)
  from popups_work_on_shown_list [OF r _ this] have "ld_pc (gu_loader (finished_gui False t s)) = Loader_Ended"
    by (simp add: finished_gui_def)
  with e show ?thesis by blast
qed

lemma finished_parts:
  "gu_window (finished_gui False t s) = finished_window t" "gu_loader (finished_gui False t s) = initial_loader"
  "gu_tokenizer (finished_gui False t s) = initial_tokenizer" "gu_phase (finished_gui False t s) = Popups"
  by (simp_all add: finished_gui_def typed_gui_def editor_gui_def initial_tokenizer_def)

lemma finished_items:
  "wi_items (finished_window t) = []" "wi_editor_is_new (finished_window t)"
  "wi_editor_sample (finished_window t) = ''x''" "wi_editor_name (finished_window t) = ''n''"
  "wi_editor_item (finished_window t) = Some (tl_item t)"
  by (simp_all add: finished_window_def typed_gui_def editor_window_def initial_window_def)

lemma finished_saves:
  obtains t s w l where "gui_reachable False (window_service no_files_env) start (finished_gui False t s)"
    "popup_enabled (finished_window t) initial_loader initial_tokenizer Press_Save"
    "popup_do (window_service no_files_env) 0 Press_Save (finished_window t, initial_loader) = Inr (w, l)"
    "map lt_name (wi_items w) = [''n'']" "wi_popup w = None" "\<not> ld_ready l"
proof (rule finished_reachable [of start False])
  fix t s
  assume r: "gui_reachable False (window_service no_files_env) start (finished_gui False t s)"
  have e: "popup_enabled (finished_window t) initial_loader initial_tokenizer Press_Save"
    by (simp add: finished_window_def typed_gui_def editor_gui_def editor_window_def tokenization_pending_def
        initial_tokenizer_def initial_loader_def)
  have "next_id [] = Inr ''0001''"
    by (simp add: next_id_def validate_ids_def to_dec.simps digit_char_numerals replicate_small minus_one_u64 Let_def)
  then have "cc_next_id (window_service no_files_env) [] = Inr ''0001''" by (simp add: window_service_def described_def)
  then have "\<exists>w1. put_item (window_service no_files_env) ((tl_item t)\<lparr>lt_name := ''n''\<rparr>) (finished_window t) = Inr w1
      \<and> map lt_name (wi_items w1) = [''n'']"
    by (simp add: put_item_def finished_items Let_def)
  then obtain w1 where w1: "put_item (window_service no_files_env) ((tl_item t)\<lparr>lt_name := ''n''\<rparr>) (finished_window t) = Inr w1"
    "map lt_name (wi_items w1) = [''n'']" by (elim exE conjE) (rule that)
  define wl where "wl = close_popup (request_catalog_save (rebuild_filter w1, initial_loader))"
  have "popup_do (window_service no_files_env) 0 Press_Save (finished_window t, initial_loader) = Inr (fst wl, snd wl)"
    using w1(1) by (simp add: save_catalog_editor_def finished_items wl_def)
  moreover have "wi_items (fst wl) = wi_items w1" "wi_popup (fst wl) = None" "\<not> ld_ready (snd wl)"
    by (simp_all add: wl_def request_catalog_save_def close_popup_def initial_loader_def start_job_def)
  ultimately show thesis using that [OF r e, of "fst wl" "snd wl"] w1(2) by metis
qed

text \<open>
  C33. The save button of the editor puts the anonymized form of the text the editor shows, under the name
  it shows, at the end of the list or in the place of the edited entry, and has exactly the new list
  saved.\<close>

theorem editor_saves_shown_text:
  assumes "gui_reachable native (window_service env) start g" "gu_phase g = Popups"
    and "popup_enabled (gu_window g) (gu_loader g) (gu_tokenizer g) Press_Save"
    and "popup_do (window_service env) now Press_Save (gu_window g, gu_loader g) = Inr (w, l)"
  shows "\<exists>item. lt_name item = wi_editor_name (gu_window g)
    \<and> lt_sample item = tokenize (wi_editor_sample (gu_window g))
    \<and> wi_items w = (if wi_editor_is_new (gu_window g) then wi_items (gu_window g) @ [item]
                    else (wi_items (gu_window g))[wi_editor_index (gu_window g) := item])
    \<and> ld_pc l = Run_Job (Save_Job (wi_items w)) \<and> wi_popup w = None"
proof -
  let ?w = "gu_window g" and ?l = "gu_loader g"
  have "gui_inv (window_service env) g" by (rule files.reachable_inv [OF assms(1)])
  then have ed: "editor_inv ?w" by (simp add: gui_inv_def)
  have idle: "\<not> ld_loading ?l" using assms(3) by simp
  obtain item0 where item0: "wi_editor_item ?w = Some item0"
    using assms(3) by (auto simp: tokenization_pending_def)
  let ?item = "item0\<lparr>lt_name := wi_editor_name ?w\<rparr>"
  from assms(3,4) item0 obtain w1 where put: "put_item (window_service env) ?item ?w = Inr w1"
    and out: "(w, l) = close_popup (request_catalog_save (rebuild_filter w1, ?l))"
    by (auto simp: save_catalog_editor_def result_simps)
  have saved: "wi_items w = wi_items w1" "ld_pc l = Run_Job (Save_Job (wi_items w1))" "wi_popup w = None"
    using out idle by (simp_all add: request_catalog_save_def close_popup_def start_job_def)
  have shown: "lt_sample ?item = tokenize (wi_editor_sample ?w)" using ed item0 by (simp add: editor_inv_def)
  show ?thesis
  proof (cases "wi_editor_is_new ?w")
    case True
    then obtain i where "wi_items w1 = wi_items ?w @ [?item\<lparr>lt_id := i, lt_source := custom_source\<rparr>]"
      using put by (auto simp: put_item_def Let_def result_simps)
    then show ?thesis
      using True saved shown by (intro exI [of _ "?item\<lparr>lt_id := i, lt_source := custom_source\<rparr>"]) simp
  next
    case False
    then have "wi_items w1 = (wi_items ?w)[wi_editor_index ?w := ?item]"
      using put by (auto simp: put_item_def Let_def list_update_beyond split: if_splits)
    then show ?thesis using False saved shown by (intro exI [of _ ?item]) simp
  qed
qed

theorem editor_saves_shown_text_witness:
  "\<exists>t s w l item. popup_do (window_service no_files_env) 0 Press_Save (finished_window t, initial_loader) = Inr (w, l)
     \<and> lt_sample item = tokenize ''x'' \<and> wi_items w = [item]
     \<and> gui_reachable False (window_service no_files_env) (start_refusal (\<lambda>_. 4)) (finished_gui False t s)"
proof (rule finished_saves)
  fix t s w l
  let ?g = "finished_gui False t s"
  assume r: "gui_reachable False (window_service no_files_env) (start_refusal (\<lambda>_. 4)) ?g"
    and e: "popup_enabled (finished_window t) initial_loader initial_tokenizer Press_Save"
    and run: "popup_do (window_service no_files_env) 0 Press_Save (finished_window t, initial_loader) = Inr (w, l)"
  from editor_saves_shown_text [OF r, unfolded finished_parts, OF refl e run] obtain item where
    "lt_sample item = tokenize ''x''" "wi_items w = [item]" by (auto simp: finished_items)
  with run r show ?thesis by blast
qed

text \<open>
  What a user searches for is found: when the lowered search is part of the lowered name, source,
  sample, token or value of a template, or of its privacy terms, the filter lists the template.\<close>

theorem search_finds_parts:
  assumes "gui_reachable native (window_service env) start g" "w = gu_window g" "i < length (wi_items w)"
    and "x \<in> set ([lt_name (wi_items w ! i), lt_source (wi_items w ! i), lt_sample (wi_items w ! i)]
           @ test_case_words (lt_test_case (wi_items w ! i)) @ [privacy_search_terms (wi_analyses w ! i)])"
    and "lowercase x = a @ lowercase (wi_search w) @ b"
  shows "i \<in> set (wi_filtered w)"
proof -
  have ok: "window_ok (window_service env) w"
    using files.reachable_inv [OF assms(1)] assms(2) by (simp add: gui_inv_def)
  let ?terms = "privacy_search_terms (wi_analyses w ! i)"
  have terms: "cc_terms (window_service env) = privacy_search_terms" by (simp add: window_service_def)
  have name: "wi_search_names w ! i = catalog_search_text (wi_items w ! i) ?terms"
    using ok assms(3) by (simp add: window_ok_def entries_ok_def terms)
  have found: "q = [] \<or> find_from q s 0 \<noteq> None" if "\<exists>c d. s = c @ q @ d" for q s
    using that find_sub_iff [of q s] by (simp add: find_from_0)
  have "\<exists>c d. catalog_search_text (wi_items w ! i) ?terms = c @ lowercase (wi_search w) @ d"
  proof (cases "x = ?terms \<and> ?terms = []")
    case True
    then have "wi_search w = []" using assms(5) by (simp add: lowercase_def)
    then have "catalog_search_text (wi_items w ! i) ?terms
        = [] @ lowercase (wi_search w) @ catalog_search_text (wi_items w ! i) ?terms" by (simp add: lowercase_def)
    then show ?thesis by blast
  next
    case False
    then have "x \<in> set (lt_name (wi_items w ! i) # [lt_source (wi_items w ! i), lt_sample (wi_items w ! i)]
        @ test_case_words (lt_test_case (wi_items w ! i)) @ (if ?terms = [] then [] else [?terms]))"
      using assms(4) by auto
    from search_text_contains [OF this] obtain c d
      where "catalog_search_text (wi_items w ! i) ?terms = c @ lowercase x @ d" by blast
    then have "catalog_search_text (wi_items w ! i) ?terms = (c @ a) @ lowercase (wi_search w) @ (b @ d)"
      by (simp add: assms(5))
    then show ?thesis by blast
  qed
  then show ?thesis
    using ok assms(3) found [of _ "lowercase (wi_search w)"] by (auto simp: window_ok_def matching_indices_def name)
qed

theorem search_finds_parts_witness:
  "\<exists>g. gui_reachable False (window_service no_files_env) (start_refusal (\<lambda>_. 4)) g
     \<and> wi_search (gu_window g) = ''N'' \<and> map lt_name (wi_items (gu_window g)) = [''n'']
     \<and> 0 \<in> set (wi_filtered (gu_window g))"
proof (rule finished_saves)
  fix t s w l
  let ?svc = "window_service no_files_env" and ?start = "start_refusal (\<lambda>_. 4)"
  let ?g0 = "finished_gui False t s"
  assume r: "gui_reachable False ?svc ?start ?g0"
    and e: "popup_enabled (finished_window t) initial_loader initial_tokenizer Press_Save"
    and run: "popup_do ?svc 0 Press_Save (finished_window t, initial_loader) = Inr (w, l)"
    and w: "map lt_name (wi_items w) = [''n'']" "wi_popup w = None" "\<not> ld_ready l"
  define g1 where "g1 = ?g0\<lparr>gu_phase := Frame_Start, gu_window := w, gu_loader := l\<rparr>"
  define g2 where "g2 = g1\<lparr>gu_phase := Refresh\<rparr>"
  define g3 where "g3 = g2\<lparr>gu_phase := Panels, gu_state := Stopped\<rparr>"
  define g4 where "g4 = g3\<lparr>gu_phase := Editor_Start, gu_window := rebuild_filter (w\<lparr>wi_search := ''N''\<rparr>), gu_loader := l,
      gu_started := gu_started g3 @ (case None of None \<Rightarrow> [] | Some config \<Rightarrow> [config])\<rparr>"
  have s1: "window_step False ?svc ?start ?g0 g1"
    unfolding g1_def by (rule popup_input [where action = Press_Save and now = 0]) (simp_all only: finished_parts e run)
  have s2: "window_step False ?svc ?start g1 g2"
    unfolding g2_def by (rule catalog_not_ready) (simp_all add: g1_def w(3))
  have s3: "window_step False ?svc ?start g2 g3"
    unfolding g3_def by (rule refresh) (simp add: g2_def)
  have s4: "window_step False ?svc ?start g3 g4"
    unfolding g4_def
    by (rule panel_input [where action = "Type_Search ''N''" and now = 0])
      (simp_all add: g3_def g2_def g1_def w(2) is_active_def fits_buffer_def)
  have r4: "gui_reachable False ?svc ?start g4"
    by (intro after_step [OF _ window_moves [OF s4]] after_step [OF _ window_moves [OF s3]]
        after_step [OF _ window_moves [OF s2]] after_step [OF r window_moves [OF s1]])
  have g4: "wi_search (gu_window g4) = ''N''" "wi_items (gu_window g4) = wi_items w"
    by (simp_all add: g4_def rebuild_filter_def Let_def)
  have name: "0 < length (wi_items (gu_window g4))" "lt_name (wi_items (gu_window g4) ! 0) = ''n''"
    using w(1) g4(2) by auto
  have "0 \<in> set (wi_filtered (gu_window g4))"
    by (rule search_finds_parts [OF r4 refl name(1), of "''n''" "[]" "[]"])
      (simp_all add: name g4(1) lowercase_def to_lower_def is_upper_def char_of_def bit_simps)
  with r4 g4 w(1) show ?thesis by auto
qed

definition closing_left :: "'s gui \<Rightarrow> nat" where
  "closing_left g =
     (case gu_phase g of Join_Tokenizer \<Rightarrow> 2 | Join_Loader \<Rightarrow> 1 | _ \<Rightarrow> 0)
     + (case tk_pc (gu_tokenizer g) of
          Tok_Run q \<Rightarrow> 5 | Tok_Publish r \<Rightarrow> 4 | Tok_Set_Ready b \<Rightarrow> 3 | Tok_Set_Tokenizing b \<Rightarrow> 2 | Tok_Wait \<Rightarrow> 1
        | Tok_Ended \<Rightarrow> 0)
     + (case ld_pc (gu_loader g) of
          Run_Job job \<Rightarrow> 4 | Publish_Result r \<Rightarrow> 3 | Set_Ready \<Rightarrow> 2 | Clear_Loading \<Rightarrow> 1 | Loader_Ended \<Rightarrow> 0)"

lemma loader_step_left:
  "loader_step svc (l, s) (l', s') \<Longrightarrow>
     (case ld_pc l' of Run_Job job \<Rightarrow> 4 | Publish_Result r \<Rightarrow> 3 | Set_Ready \<Rightarrow> 2 | Clear_Loading \<Rightarrow> 1 | Loader_Ended \<Rightarrow> (0 :: nat))
     < (case ld_pc l of Run_Job job \<Rightarrow> 4 | Publish_Result r \<Rightarrow> 3 | Set_Ready \<Rightarrow> 2 | Clear_Loading \<Rightarrow> 1 | Loader_Ended \<Rightarrow> 0)"
  by (erule loader_stepE) simp_all

lemma tokenizer_step_left:
  "tokenizer_step svc (t, s) (t', s') \<Longrightarrow> tk_stop t \<Longrightarrow>
     (case tk_pc t' of Tok_Run q \<Rightarrow> 5 | Tok_Publish r \<Rightarrow> 4 | Tok_Set_Ready b \<Rightarrow> 3 | Tok_Set_Tokenizing b \<Rightarrow> 2
        | Tok_Wait \<Rightarrow> 1 | Tok_Ended \<Rightarrow> (0 :: nat))
     < (case tk_pc t of Tok_Run q \<Rightarrow> 5 | Tok_Publish r \<Rightarrow> 4 | Tok_Set_Ready b \<Rightarrow> 3 | Tok_Set_Tokenizing b \<Rightarrow> 2
        | Tok_Wait \<Rightarrow> 1 | Tok_Ended \<Rightarrow> 0)"
  by (erule tokenizer_stepE) simp_all

lemma loader_can_step: "ld_pc l \<noteq> Loader_Ended \<Longrightarrow> \<exists>l' s'. loader_step svc (l, s) (l', s')"
proof (cases "ld_pc l")
  case (Run_Job job)
  obtain r s' where "run_job svc job s = (r, s')" by fastforce
  with Run_Job show ?thesis by (blast intro: load_run)
qed (blast intro: loader_step.intros)+

lemma tokenizer_can_step: "tk_stop t \<Longrightarrow> tk_pc t \<noteq> Tok_Ended \<Longrightarrow> \<exists>t' s'. tokenizer_step svc (t, s) (t', s')"
proof (cases "tk_pc t")
  case (Tok_Run q)
  obtain r s' where "run_tokenization svc q s = (r, s')" by fastforce
  with Tok_Run show ?thesis by (blast intro: tok_run)
qed (blast intro: tokenizer_step.intros)+

text \<open>
  Once the window closes, every step brings the end nearer, whatever the threads were doing, and some
  step is possible until both threads are joined: closing always ends.\<close>

theorem closing_window_ends:
  assumes "gui_reachable native (window_service env) start g" "gu_phase g \<in> {Join_Tokenizer, Join_Loader, Closed}"
  shows "(\<forall>g'. gui_step native (window_service env) start g g' \<longrightarrow>
            closing_left g' < closing_left g \<and> gu_phase g' \<in> {Join_Tokenizer, Join_Loader, Closed})
    \<and> (gu_phase g = Closed \<or> (\<exists>g'. gui_step native (window_service env) start g g'))"
proof -
  have inv: "gui_inv (window_service env) g" by (rule files.reachable_inv [OF assms(1)])
  have stop: "tk_stop (gu_tokenizer g)" "gu_phase g = Join_Loader \<Longrightarrow> tk_pc (gu_tokenizer g) = Tok_Ended"
    using inv assms(2) by (auto simp: gui_inv_def closing_inv_def)
  have "closing_left g' < closing_left g \<and> gu_phase g' \<in> {Join_Tokenizer, Join_Loader, Closed}"
    if "gui_step native (window_service env) start g g'" for g'
    using that
  proof (cases rule: gui_step.cases)
    case window_moves
    then show ?thesis using assms(2) by (cases rule: window_step.cases) (auto simp: closing_left_def)
  next
    case (loader_moves l s)
    then show ?thesis using assms(2) loader_step_left [OF loader_moves(2)] by (simp add: closing_left_def)
  next
    case (tokenizer_moves t s)
    then show ?thesis
      using assms(2) tokenizer_step_left [OF tokenizer_moves(2) stop(1)] by (simp add: closing_left_def)
  qed
  moreover have "\<exists>g'. gui_step native (window_service env) start g g'" if "gu_phase g \<noteq> Closed"
  proof (cases "tk_pc (gu_tokenizer g) = Tok_Ended")
    case False
    obtain t s where "tokenizer_step (window_service env) (gu_tokenizer g, gu_service g) (t, s)"
      using tokenizer_can_step [OF stop(1) False, of "window_service env" "gu_service g"] by blast
    from tokenizer_moves [OF this] show ?thesis by (rule exI)
  next
    case ended: True
    show ?thesis
    proof (cases "gu_phase g = Join_Tokenizer")
      case True
      from window_moves [OF tokenizer_joined [OF True ended]] show ?thesis by (rule exI)
    next
      case False
      then have phase: "gu_phase g = Join_Loader" using assms(2) that by simp
      show ?thesis
      proof (cases "ld_pc (gu_loader g) = Loader_Ended")
        case True
        from window_moves [OF loader_joined [OF phase True]] show ?thesis by (rule exI)
      next
        case False
        obtain l s where "loader_step (window_service env) (gu_loader g, gu_service g) (l, s)"
          using loader_can_step [OF False, of "window_service env" "gu_service g"] by blast
        from loader_moves [OF this] show ?thesis by (rule exI)
      qed
    qed
  qed
  ultimately show ?thesis by blast
qed

definition closing_gui :: "service_state gui" where
  "closing_gui =
     (case initial_gui no_files of g \<Rightarrow>
        g\<lparr>gu_phase := Join_Tokenizer, gu_tokenizer := (gu_tokenizer g)\<lparr>tk_stop := True\<rparr>\<rparr>)"

theorem closing_window_ends_witness:
  "gu_phase closing_gui = Join_Tokenizer
     \<and> (\<exists>g'. gui_step False (window_service no_files_env) (start_refusal (\<lambda>_. 4)) closing_gui g')"
proof -
  have start: "gu_phase (initial_gui no_files) = Frame_Start"
    by (simp add: initial_gui_def request_catalog_load_def initial_loader_def)
  have "gui_reachable False (window_service no_files_env) (start_refusal (\<lambda>_. 4)) closing_gui"
    unfolding closing_gui_def using start by (auto intro!: after_step [OF at_start] window_moves close_window)
  moreover have phase: "gu_phase closing_gui = Join_Tokenizer" by (simp add: closing_gui_def)
  ultimately show ?thesis using closing_window_ends [of False no_files_env "start_refusal (\<lambda>_. 4)" closing_gui] by simp
qed

definition editor_stuck :: "'s gui \<Rightarrow> bool" where
  "editor_stuck g \<longleftrightarrow>
     wi_popup (gu_window g) = Some Editor_Popup \<and> \<not> any_requested (gu_window g)
     \<and> wi_editor_item (gu_window g) \<noteq> None \<and> \<not> wi_editor_pending (gu_window g)
     \<and> tk_tokenizing (gu_tokenizer g) \<and> tk_request (gu_tokenizer g) = None \<and> tk_pc (gu_tokenizer g) = Tok_Wait
     \<and> tk_result (gu_tokenizer g) = None \<and> \<not> tk_ready (gu_tokenizer g) \<and> \<not> tk_stop (gu_tokenizer g)
     \<and> gu_phase g \<noteq> Queue_Flag"

lemma mark_revision: "wi_editor_revision (mark_editor_sample_changed b now w) = wi_editor_revision w + 1"
  by (simp add: mark_editor_sample_changed_def Let_def)

lemma stuck_window_step:
  assumes "window_step native svc start g g'" "editor_stuck g"
  shows "editor_stuck g' \<or> wi_popup (gu_window g') = None
    \<or> wi_editor_revision (gu_window g') \<noteq> wi_editor_revision (gu_window g) \<or> gu_phase g' = Join_Tokenizer"
  using assms
proof (cases rule: window_step.cases)
  case take_catalog
  have "editor_view (apply_result (ld_slot (gu_loader g)) (gu_window g)) = editor_view (gu_window g)" by simp
  then show ?thesis using assms(2) take_catalog by (simp add: editor_stuck_def editor_view_def)
next
  case take_tokenization
  then show ?thesis using assms(2) by (simp add: editor_stuck_def apply_tokenization_def)
next
  case (popup_input action now w l)
  have popup: "wi_popup (gu_window g) = Some Editor_Popup" and busy: "tk_tokenizing (gu_tokenizer g)"
    using assms(2) by (simp_all add: editor_stuck_def)
  show ?thesis
  proof (cases action)
    case (Type_Name n)
    then show ?thesis using assms(2) popup_input by (auto simp: editor_stuck_def any_requested_def)
  next
    case (Type_Sample n)
    then have "wi_editor_revision w = wi_editor_revision (gu_window g) + 1" using popup_input by (auto simp: mark_revision)
    then show ?thesis using popup_input by simp
  next
    case Press_Cancel
    then have "wi_popup w = None" using popup_input by (auto simp: close_popup_def)
    then show ?thesis using popup_input by simp
  qed (use popup_input popup busy in \<open>simp_all add: tokenization_pending_def\<close>)
next
  case (popup_throws action now e)
  then show ?thesis
    using assms(2) by (cases action) (auto simp: editor_stuck_def tokenization_pending_def)
qed (use assms(2) in \<open>auto simp: editor_stuck_def\<close>)

text \<open>
  The window can be left with a finished tokenization that its save button does not believe in: when
  the tokenizer answers between the request and the store of \<open>editor_tokenizing_\<close>, the flag stays set, and
  no step but a change of the text or the end of the popup or of the program enables the button again.\<close>

theorem save_button_sticks:
  assumes "gui_step native (window_service env) start g g'" "editor_stuck g"
  shows "\<not> popup_enabled (gu_window g) (gu_loader g) (gu_tokenizer g) Press_Save
    \<and> (editor_stuck g' \<or> wi_popup (gu_window g') = None
       \<or> wi_editor_revision (gu_window g') \<noteq> wi_editor_revision (gu_window g) \<or> gu_phase g' = Join_Tokenizer)"
proof -
  have "editor_stuck g' \<or> wi_popup (gu_window g') = None
    \<or> wi_editor_revision (gu_window g') \<noteq> wi_editor_revision (gu_window g) \<or> gu_phase g' = Join_Tokenizer"
    using assms(1)
  proof (cases rule: gui_step.cases)
    case window_moves
    then show ?thesis using stuck_window_step assms(2) by blast
  next
    case (loader_moves l s)
    then show ?thesis using assms(2) by (simp add: editor_stuck_def)
  next
    case (tokenizer_moves t s)
    have False
      using assms(2) tokenizer_moves(2) by (auto simp: editor_stuck_def elim!: tokenizer_step.cases)
    then show ?thesis ..
  qed
  moreover have "\<not> popup_enabled (gu_window g) (gu_loader g) (gu_tokenizer g) Press_Save"
    using assms(2) by (simp add: editor_stuck_def tokenization_pending_def)
  ultimately show ?thesis by blast
qed

theorem save_button_sticks_witness:
  "\<exists>g g'. gui_reachable False (window_service no_files_env) (start_refusal (\<lambda>_. 4)) g \<and> editor_stuck g
     \<and> wi_editor_name (gu_window g) \<noteq> [] \<and> wi_editor_sample (gu_window g) \<noteq> []
     \<and> \<not> popup_enabled (gu_window g) (gu_loader g) (gu_tokenizer g) Press_Save
     \<and> gui_step False (window_service no_files_env) (start_refusal (\<lambda>_. 4)) g g' \<and> editor_stuck g'"
proof (rule finished_reachable [of "start_refusal (\<lambda>_. 4)" True])
  fix t s
  let ?g = "finished_gui True t s"
  assume r: "gui_reachable False (window_service no_files_env) (start_refusal (\<lambda>_. 4)) ?g"
  have phase: "gu_phase ?g = Popups" by (simp add: finished_gui_def)
  have stuck: "editor_stuck ?g" "wi_editor_name (gu_window ?g) \<noteq> []" "wi_editor_sample (gu_window ?g) \<noteq> []"
    by (simp_all add: editor_stuck_def finished_gui_def finished_window_def typed_gui_def editor_gui_def
        editor_window_def initial_window_def initial_tokenizer_def any_requested_def)
  have step: "gui_step False (window_service no_files_env) (start_refusal (\<lambda>_. 4)) ?g (?g\<lparr>gu_phase := Frame_Start\<rparr>)"
    by (rule window_moves [OF popup_idle [OF phase]])
  have "editor_stuck (?g\<lparr>gu_phase := Frame_Start\<rparr>)" using stuck(1) by (simp add: editor_stuck_def)
  with save_button_sticks [OF step stuck(1)] r stuck step show ?thesis by blast
qed

definition flip_frame :: "string \<Rightarrow> move list" where
  "flip_frame path =
     window_on 2 @ replicate 4 Loader_Moves @ [Panel_Input 0 (Press_Import (Inr (Some path))), Loader_Moves]"

text \<open>
  With the file dialog of Windows, the import button can start from a list that is out of date: pressed
  in the frame in which the loader ends, it imports into the list of before and saves that, and what the
  loader read is lost from the file, although it still waits to be shown.\<close>

theorem import_drops_loaded_catalog:
  "\<exists>g. gui_reachable True (window_service env) start g
     \<and> ld_slot (gu_loader g) = Some (fst (load_job (window_service env) s))
     \<and> gu_service g = snd (import_job (window_service env) path [] (snd (load_job (window_service env) s)))"
proof -
  obtain r s1 where load: "load_job (window_service env) s = (r, s1)" by fastforce
  obtain r2 s2 where imp: "import_job (window_service env) path [] s1 = (r2, s2)" by fastforce
  have "\<exists>g. play True (window_service env) start (flip_frame path) (initial_gui s) = Some g
     \<and> ld_slot (gu_loader g) = Some r \<and> gu_service g = s2"
    by (simp add: flip_frame_def numeral_eq_Suc initial_gui_def request_catalog_load_def initial_loader_def
        start_job_def load imp is_active_def open_sample_log_import_def request_sample_log_import_def initial_window_def)
  then obtain g where "play True (window_service env) start (flip_frame path) (initial_gui s) = Some g"
    "ld_slot (gu_loader g) = Some r" "gu_service g = s2" by blast
  moreover from this(1) have "gui_reachable True (window_service env) start g"
    by (rule play_reachable) (rule at_start)
  ultimately show ?thesis using load imp by auto
qed

end
