(* ===== verification/Schannel.thy ===== *)
theory Schannel
  imports Tls
begin

text \<open>
  The TLS transport of Windows (\<open>src/src/infrastructure/schannel_transport.cpp\<close>). The calls of the
  security support provider and of the socket are arguments, functions on a state \<open>'w\<close> of the system;
  the flags the code gives to them are recorded in \<open>schannel_credentials\<close> and \<open>schannel_request\<close>. What
  it relies on of them is stated by \<open>resource_law\<close>, \<open>peer_law\<close> and \<open>record_law\<close>.
\<close>

subsection \<open>Calls\<close>

definition SEC_E_OK :: u32 where "SEC_E_OK = 0"
definition SEC_I_CONTINUE_NEEDED :: u32 where "SEC_I_CONTINUE_NEEDED = 0x00090312"
definition SEC_I_COMPLETE_NEEDED :: u32 where "SEC_I_COMPLETE_NEEDED = 0x00090313"
definition SEC_I_COMPLETE_AND_CONTINUE :: u32 where "SEC_I_COMPLETE_AND_CONTINUE = 0x00090314"
definition SEC_E_INCOMPLETE_MESSAGE :: u32 where "SEC_E_INCOMPLETE_MESSAGE = 0x80090318"

lemmas status_codes = SEC_E_OK_def SEC_I_CONTINUE_NEEDED_def SEC_I_COMPLETE_NEEDED_def
  SEC_I_COMPLETE_AND_CONTINUE_def SEC_E_INCOMPLETE_MESSAGE_def

datatype schannel_error =
    Security_Failed string u32
  | Receive_Failed nat
  | Closed_In_Handshake
  | Socket_Failed socket_error
  | Invalid_Utf8
  | Utf8_Failed
  | Never_Returns
  | Schannel_Not_Connected

text \<open>Who validates the certificate of the server: the provider, with revocation, or nobody.\<close>

datatype validation = Auto_Validation | Manual_Validation

record schannel_credentials =
  sc_strong_crypto :: bool
  sc_no_default_credentials :: bool
  sc_validation :: validation

record schannel_request =
  rq_credentials :: schannel_credentials
  rq_manual_validation :: bool
  rq_server_name :: "u16 list"

record stream_sizes =
  sz_header :: nat
  sz_maximum :: nat
  sz_trailer :: nat

datatype recv_result = Received string | Recv_Error nat

text \<open>
  The first and the later calls of \<open>InitializeSecurityContextW\<close> are \<open>sp_begin\<close> and \<open>sp_continue\<close>: the
  status, the output token unless it is null, and how many bytes at the end of the input were left.
  \<open>sp_encrypt\<close> gives the header, the data and the trailer of a record.
\<close>

record 'w sspi_calls =
  sp_wide_length :: "string \<Rightarrow> int"
  sp_wide :: "string \<Rightarrow> nat \<Rightarrow> u16 list option"
  sp_acquire :: "schannel_credentials \<Rightarrow> 'w \<Rightarrow> u32 \<times> 'w"
  sp_begin :: "schannel_request \<Rightarrow> 'w \<Rightarrow> (u32 \<times> string option) \<times> 'w"
  sp_continue :: "schannel_request \<Rightarrow> string \<Rightarrow> 'w \<Rightarrow> (u32 \<times> string option \<times> nat) \<times> 'w"
  sp_complete :: "'w \<Rightarrow> u32 \<times> 'w"
  sp_release_token :: "'w \<Rightarrow> 'w"
  sp_sizes :: "'w \<Rightarrow> (u32 \<times> stream_sizes) \<times> 'w"
  sp_encrypt :: "stream_sizes \<Rightarrow> string \<Rightarrow> 'w \<Rightarrow> (u32 \<times> string \<times> string \<times> string) \<times> 'w"
  sp_delete_context :: "'w \<Rightarrow> 'w"
  sp_free_credentials :: "'w \<Rightarrow> 'w"
  sp_recv :: "nat \<Rightarrow> 'w \<Rightarrow> recv_result \<times> 'w"
  sp_send :: "string \<Rightarrow> 'w \<Rightarrow> io_result \<times> 'w"

text \<open>\<open>utf8_to_wide\<close> of \<open>socket_support.cpp\<close>.\<close>

definition utf8_to_wide :: "'w sspi_calls \<Rightarrow> string \<Rightarrow> schannel_error + u16 list" where
  "utf8_to_wide sp s =
     (if s = [] then Inr []
      else if sp_wide_length sp s \<le> 0 then Inl Invalid_Utf8
      else case sp_wide sp s (nat (sp_wide_length sp s)) of None \<Rightarrow> Inl Utf8_Failed | Some u \<Rightarrow> Inr u)"

subsection \<open>The handshake\<close>

definition credentials_for :: "bool \<Rightarrow> schannel_credentials" where
  "credentials_for verify =
     \<lparr>sc_strong_crypto = True, sc_no_default_credentials = True,
      sc_validation = (if verify then Auto_Validation else Manual_Validation)\<rparr>"

definition acquire_credentials :: "'w sspi_calls \<Rightarrow> bool \<Rightarrow> 'w \<Rightarrow> (schannel_error + unit) \<times> 'w" where
  "acquire_credentials sp verify w =
     (let (status, w1) = sp_acquire sp (credentials_for verify) w in
      (if status \<noteq> SEC_E_OK then Inl (Security_Failed ''AcquireCredentialsHandle'' status) else Inr (), w1))"

text \<open>\<open>send_token\<close> with the \<open>catch\<close> around it: a token is released whether it could be sent or not.\<close>

definition release_token :: "'w sspi_calls \<Rightarrow> string option \<Rightarrow> 'w \<Rightarrow> 'w" where
  "release_token sp token w = (case token of None \<Rightarrow> w | Some t \<Rightarrow> sp_release_token sp w)"

definition send_token :: "'w sspi_calls \<Rightarrow> string option \<Rightarrow> 'w \<Rightarrow> (schannel_error + unit) \<times> 'w" where
  "send_token sp token w =
     (case token of
        None \<Rightarrow> (Inr (), w)
      | Some t \<Rightarrow>
          let (r, w1) = (if t \<noteq> [] then send_all (sp_send sp) t w else (Inr (), w)) in
          (case r of Inl e \<Rightarrow> Inl (Socket_Failed e) | Inr _ \<Rightarrow> Inr (), sp_release_token sp w1))"

definition receive_into :: "'w sspi_calls \<Rightarrow> string \<Rightarrow> 'w \<Rightarrow> (schannel_error + string) \<times> 'w" where
  "receive_into sp input w =
     (case sp_recv sp 16384 w of
        (Recv_Error e, w1) \<Rightarrow> (Inl (Receive_Failed e), w1)
      | (Received data, w1) \<Rightarrow> (if data = [] then Inl Closed_In_Handshake else Inr (input @ data), w1))"

definition complete_token :: "'w sspi_calls \<Rightarrow> u32 \<Rightarrow> string option \<Rightarrow> 'w \<Rightarrow> (schannel_error + u32) \<times> 'w" where
  "complete_token sp status token w =
     (if status = SEC_I_COMPLETE_NEEDED \<or> status = SEC_I_COMPLETE_AND_CONTINUE then
        let (complete_status, w1) = sp_complete sp w in
        if complete_status \<noteq> SEC_E_OK
        then (Inl (Security_Failed ''CompleteAuthToken'' complete_status), release_token sp token w1)
        else (Inr (if status = SEC_I_COMPLETE_NEEDED then SEC_E_OK else SEC_I_CONTINUE_NEEDED), w1)
      else (Inr status, w))"

text \<open>The body of the loop: the next status and the input that is left.\<close>

definition handshake_round ::
    "'w sspi_calls \<Rightarrow> schannel_request \<Rightarrow> u32 \<Rightarrow> string \<Rightarrow> 'w \<Rightarrow> (schannel_error + u32 \<times> string) \<times> 'w" where
  "handshake_round sp request status input w =
     (case (if input = [] \<or> status = SEC_E_INCOMPLETE_MESSAGE then receive_into sp input w else (Inr input, w)) of
        (Inl e, w1) \<Rightarrow> (Inl e, w1)
      | (Inr input1, w1) \<Rightarrow>
          (case sp_continue sp request input1 w1 of
             ((status1, token, extra), w2) \<Rightarrow>
               (case complete_token sp status1 token w2 of
                  (Inl e, w3) \<Rightarrow> (Inl e, w3)
                | (Inr status2, w3) \<Rightarrow>
                    (case send_token sp token w3 of
                       (Inl e, w4) \<Rightarrow> (Inl e, w4)
                     | (Inr _, w4) \<Rightarrow>
                         if status2 = SEC_E_INCOMPLETE_MESSAGE then (Inr (status2, input1), w4)
                         else if status2 \<noteq> SEC_E_OK \<and> status2 \<noteq> SEC_I_CONTINUE_NEEDED
                         then (Inl (Security_Failed ''TLS handshake'' status2), w4)
                         else (Inr (status2, if 0 < extra then drop (length input1 - extra) input1 else []), w4)))))"

text \<open>\<open>None\<close> is a loop that never ends.\<close>

partial_function (option) handshake_loop ::
    "'w sspi_calls \<Rightarrow> schannel_request \<Rightarrow> u32 \<Rightarrow> string \<Rightarrow> 'w \<Rightarrow> ((schannel_error + unit) \<times> 'w) option" where
  "handshake_loop sp request status input w =
     (if status = SEC_E_OK then Some (Inr (), w)
      else case handshake_round sp request status input w of
          (Inl e, w1) \<Rightarrow> Some (Inl e, w1)
        | (Inr (status1, input1), w1) \<Rightarrow> handshake_loop sp request status1 input1 w1)"

text \<open>\<open>handshake\<close>: the sizes of a record or the exception, and \<open>context_ready\<close>.\<close>

definition schannel_handshake ::
    "'w sspi_calls \<Rightarrow> schannel_request \<Rightarrow> 'w \<Rightarrow> ((schannel_error + stream_sizes) \<times> bool \<times> 'w) option" where
  "schannel_handshake sp request w =
     (let ((status, token), w1) = sp_begin sp request w;
          context_ready = (status = SEC_I_CONTINUE_NEEDED \<or> status = SEC_E_OK);
          (sent, w2) = send_token sp token w1
      in case sent of
           Inl e \<Rightarrow> Some (Inl e, context_ready, w2)
         | Inr _ \<Rightarrow>
             if \<not> context_ready then Some (Inl (Security_Failed ''InitializeSecurityContext'' status), False, w2)
             else case handshake_loop sp request status [] w2 of
                 None \<Rightarrow> None
               | Some (Inl e, w3) \<Rightarrow> Some (Inl e, True, w3)
               | Some (Inr _, w3) \<Rightarrow>
                   let ((sizes_status, sizes), w4) = sp_sizes sp w3 in
                   Some (if sizes_status \<noteq> SEC_E_OK then Inl (Security_Failed ''QueryContextAttributes'' sizes_status)
                         else Inr sizes, True, w4))"

subsection \<open>The transport\<close>

record schannel =
  si_socket :: socket_handle
  si_credentials_ready :: bool
  si_context_ready :: bool
  si_session :: "(schannel_request \<times> stream_sizes) option"

definition new_schannel :: schannel where
  "new_schannel = \<lparr>si_socket = None, si_credentials_ready = False, si_context_ready = False, si_session = None\<rparr>"

text \<open>The destructor, \<open>~Impl\<close>, and then that of the socket.\<close>

definition close_schannel :: "('a, 'w) socket_calls \<Rightarrow> 'w sspi_calls \<Rightarrow> schannel \<Rightarrow> 'w \<Rightarrow> 'w" where
  "close_schannel os sp impl w =
     (let w1 = (if si_context_ready impl then sp_delete_context sp w else w);
          w2 = (if si_credentials_ready impl then sp_free_credentials sp w1 else w1)
      in snd (reset_handle os None (si_socket impl) w2))"

definition request_for :: "bool \<Rightarrow> u16 list \<Rightarrow> schannel_request" where
  "request_for verify name =
     \<lparr>rq_credentials = credentials_for verify, rq_manual_validation = (\<not> verify), rq_server_name = name\<rparr>"

text \<open>
  \<open>connect\<close>: what it returns or throws, and the members afterwards. The credentials, the context and the
  session of an earlier \<open>connect\<close> are overwritten.
\<close>

definition schannel_connect ::
    "('a, 'w) socket_calls \<Rightarrow> 'w sspi_calls \<Rightarrow> endpoint_config \<Rightarrow> schannel \<Rightarrow> 'w
       \<Rightarrow> ((schannel_error + unit) \<times> schannel \<times> 'w) option" where
  "schannel_connect os sp endpoint impl w =
     (let verify = ep_verify_certificate endpoint;
          (connected, handle, w1) = tcp_connect os endpoint (si_socket impl) w;
          impl1 = impl\<lparr>si_socket := handle\<rparr>
      in case connected of
           Inl e \<Rightarrow> Some (Inl (Socket_Failed e), impl1, w1)
         | Inr _ \<Rightarrow>
             (case acquire_credentials sp verify w1 of
                (Inl e, w2) \<Rightarrow> Some (Inl e, impl1, w2)
              | (Inr _, w2) \<Rightarrow>
                  let impl2 = impl1\<lparr>si_credentials_ready := True\<rparr> in
                  (case utf8_to_wide sp (tls_peer_name endpoint) of
                     Inl e \<Rightarrow> Some (Inl e, impl2, w2)
                   | Inr name \<Rightarrow>
                       (case schannel_handshake sp (request_for verify name) w2 of
                          None \<Rightarrow> None
                        | Some (Inl e, ready, w3) \<Rightarrow> Some (Inl e, impl2\<lparr>si_context_ready := ready\<rparr>, w3)
                        | Some (Inr sizes, ready, w3) \<Rightarrow>
                            Some (Inr (), impl2\<lparr>si_context_ready := ready,
                                                si_session := Some (request_for verify name, sizes)\<rparr>, w3)))))"

text \<open>\<open>send_encrypted\<close> from an offset on; a maximum of 0 would make it loop for ever.\<close>

partial_function (option) send_records ::
    "'w sspi_calls \<Rightarrow> stream_sizes \<Rightarrow> nat \<Rightarrow> string \<Rightarrow> 'w \<Rightarrow> ((schannel_error + unit) \<times> 'w) option" where
  "send_records sp sizes offset payload w =
     (if offset < length payload then
        let n = min (length payload - offset) (sz_maximum sizes) in
        (case sp_encrypt sp sizes (take n (drop offset payload)) w of
           ((status, header, data, trailer), w1) \<Rightarrow>
             if status \<noteq> SEC_E_OK then Some (Inl (Security_Failed ''EncryptMessage'' status), w1)
             else case send_all (sp_send sp) (header @ data @ trailer) w1 of
                 (Inl e, w2) \<Rightarrow> Some (Inl (Socket_Failed e), w2)
               | (Inr _, w2) \<Rightarrow> send_records sp sizes (offset + n) payload w2)
      else Some (Inr (), w))"

definition schannel_send ::
    "'w sspi_calls \<Rightarrow> string \<Rightarrow> schannel \<times> 'w \<Rightarrow> schannel_error + send_result \<times> schannel \<times> 'w" where
  "schannel_send sp payload t =
     (case si_session (fst t) of
        None \<Rightarrow> Inl Schannel_Not_Connected
      | Some (request, sizes) \<Rightarrow>
          (case send_records sp sizes 0 payload (snd t) of
             None \<Rightarrow> Inl Never_Returns
           | Some (Inl e, w') \<Rightarrow> Inl e
           | Some (Inr _, w') \<Rightarrow> Inr (Sent, fst t, w')))"

subsection \<open>What the code relies on\<close>

text \<open>
  What is held of the provider: credentials, contexts and output tokens. The calls on sockets change none
  of it, and the provider's calls open and close no socket.
\<close>

definition resource_law :: "'w sspi_calls \<Rightarrow> ('w \<Rightarrow> nat \<times> nat \<times> nat) \<Rightarrow> bool" where
  "resource_law sp held \<longleftrightarrow>
     (\<forall>c w s w'. sp_acquire sp c w = (s, w') \<longrightarrow>
        held w' = (case held w of (a, b, n) \<Rightarrow> (if s = SEC_E_OK then Suc a else a, b, n))) \<and>
     (\<forall>rq w s t w'. sp_begin sp rq w = ((s, t), w') \<longrightarrow>
        held w' = (case held w of (a, b, n) \<Rightarrow>
          (a, if s = SEC_I_CONTINUE_NEEDED \<or> s = SEC_E_OK then Suc b else b, if t = None then n else Suc n))) \<and>
     (\<forall>rq i w s t x w'. sp_continue sp rq i w = ((s, t, x), w') \<longrightarrow>
        held w' = (case held w of (a, b, n) \<Rightarrow> (a, b, if t = None then n else Suc n))) \<and>
     (\<forall>w. held (sp_release_token sp w) = (case held w of (a, b, n) \<Rightarrow> (a, b, n - 1))) \<and>
     (\<forall>w. held (sp_delete_context sp w) = (case held w of (a, b, n) \<Rightarrow> (a, b - 1, n))) \<and>
     (\<forall>w. held (sp_free_credentials sp w) = (case held w of (a, b, n) \<Rightarrow> (a - 1, b, n))) \<and>
     keeps_open held (sp_complete sp) \<and> keeps_open held (sp_sizes sp) \<and>
     (\<forall>n. keeps_open held (sp_recv sp n)) \<and> (\<forall>p. keeps_open held (sp_send sp p))"

definition sockets_keep :: "('a, 'w) socket_calls \<Rightarrow> ('w \<Rightarrow> 'h) \<Rightarrow> bool" where
  "sockets_keep os held \<longleftrightarrow>
     (\<forall>a. keeps_open held (os_socket os a)) \<and>
     (\<forall>h p. keeps_open held (os_lookup os h p)) \<and>
     (\<forall>fd b. keeps_open held (os_set_blocking os fd b)) \<and>
     (\<forall>fd a. keeps_open held (os_connect os fd a)) \<and>
     (\<forall>fd t. keeps_open held (os_select os fd t)) \<and>
     (\<forall>fd. keeps_open held (os_socket_error os fd)) \<and>
     (\<forall>fd t. keeps_open held (os_set_send_timeout os fd t)) \<and>
     (\<forall>fd t. keeps_open held (os_set_send_buffer os fd t)) \<and>
     (\<forall>fd. keeps_open held (os_set_no_delay os fd)) \<and>
     (\<forall>fd. keeps_open held (os_set_keep_alive os fd)) \<and>
     (\<forall>fd w. held (os_close os fd w) = held w)"

definition provider_keeps :: "'w sspi_calls \<Rightarrow> ('w \<Rightarrow> 'h) \<Rightarrow> bool" where
  "provider_keeps sp opened \<longleftrightarrow>
     (\<forall>c. keeps_open opened (sp_acquire sp c)) \<and>
     (\<forall>rq. keeps_open opened (sp_begin sp rq)) \<and>
     (\<forall>rq i. keeps_open opened (sp_continue sp rq i)) \<and>
     keeps_open opened (sp_complete sp) \<and> keeps_open opened (sp_sizes sp) \<and>
     (\<forall>n. keeps_open opened (sp_recv sp n)) \<and> (\<forall>p. keeps_open opened (sp_send sp p)) \<and>
     (\<forall>w. opened (sp_release_token sp w) = opened w \<and> opened (sp_delete_context sp w) = opened w
        \<and> opened (sp_free_credentials sp w) = opened w)"

text \<open>
  A server that sends finitely much: \<open>left\<close> bounds what is still to come, and a step of the handshake
  that does not ask for more has used some of its input.
\<close>

definition peer_law :: "'w sspi_calls \<Rightarrow> ('w \<Rightarrow> nat) \<Rightarrow> bool" where
  "peer_law sp left \<longleftrightarrow>
     (\<forall>n w r w'. sp_recv sp n w = (r, w') \<longrightarrow>
        (case r of Received d \<Rightarrow> left w' + length d \<le> left w | Recv_Error e \<Rightarrow> left w' \<le> left w)) \<and>
     (\<forall>rq i w s t x w'. sp_continue sp rq i w = ((s, t, x), w') \<longrightarrow>
        left w' \<le> left w \<and> (s \<noteq> SEC_E_INCOMPLETE_MESSAGE \<and> i \<noteq> [] \<longrightarrow> x < length i)) \<and>
     (\<forall>w r w'. sp_complete sp w = (r, w') \<longrightarrow> left w' \<le> left w) \<and>
     (\<forall>p w r w'. sp_send sp p w = (r, w') \<longrightarrow> left w' \<le> left w) \<and>
     (\<forall>w. left (sp_release_token sp w) \<le> left w)"

text \<open>
  Records: what \<open>EncryptMessage\<close> makes of some data, sent after the records before it, reads as that
  data at the other end. \<open>wire\<close> is what the socket has taken, and \<open>opened\<close> what the server reads in it.
\<close>

definition record_law :: "'w sspi_calls \<Rightarrow> ('w \<Rightarrow> string) \<Rightarrow> (string \<Rightarrow> string) \<Rightarrow> bool" where
  "record_law sp wire opened \<longleftrightarrow>
     stream_law (sp_send sp) wire \<and>
     (\<forall>sizes p w s h d t w'. sp_encrypt sp sizes p w = ((s, h, d, t), w') \<longrightarrow>
        wire w' = wire w \<and> (s = SEC_E_OK \<longrightarrow> opened (wire w @ h @ d @ t) = opened (wire w) @ p))"

subsection \<open>The handshake\<close>

text \<open>The provider has accepted the handshake for a request.\<close>

definition accepted_by :: "'w sspi_calls \<Rightarrow> schannel_request \<Rightarrow> bool" where
  "accepted_by sp request \<longleftrightarrow>
     (\<exists>w0 t w1. sp_begin sp request w0 = ((SEC_E_OK, t), w1))
     \<or> (\<exists>i w0 t x w1. sp_continue sp request i w0 = ((SEC_E_OK, t, x), w1))
     \<or> (\<exists>i w0 t x w1 w2. sp_continue sp request i w0 = ((SEC_I_COMPLETE_NEEDED, t, x), w1)
          \<and> sp_complete sp w1 = (SEC_E_OK, w2))"

lemma complete_token_Inr:
  "complete_token sp status token w = (Inr status', w') \<Longrightarrow>
     status' = SEC_E_OK \<Longrightarrow> status = SEC_E_OK \<or> status = SEC_I_COMPLETE_NEEDED \<and> sp_complete sp w = (SEC_E_OK, w')"
  by (auto simp: complete_token_def Let_def status_codes split: if_splits prod.splits)

lemma accepted_begin: "sp_begin sp request w = ((SEC_E_OK, t), w1) \<Longrightarrow> accepted_by sp request"
  by (auto simp: accepted_by_def)

lemma handshake_round_accepted:
  assumes "handshake_round sp request status input w = (Inr (SEC_E_OK, input'), w')"
  shows "accepted_by sp request"
proof -
  obtain input1 w1 s t x w2 w3 where
    cont: "sp_continue sp request input1 w1 = ((s, t, x), w2)" and comp: "complete_token sp s t w2 = (Inr SEC_E_OK, w3)"
    using assms by (auto simp: handshake_round_def status_codes split: sum.splits prod.splits if_splits)
  from complete_token_Inr [OF comp refl] cont show ?thesis unfolding accepted_by_def by blast
qed

lemma handshake_loop_accepted:
  assumes "handshake_loop sp request status input w = Some (Inr (), w')" "status \<noteq> SEC_E_OK"
  shows "accepted_by sp request"
proof -
  have "fst r = Inr () \<longrightarrow> status \<noteq> SEC_E_OK \<longrightarrow> accepted_by sp request"
    if "handshake_loop sp request status input w = Some r" for r
  proof (rule handshake_loop.raw_induct [OF _ that, where
        P = "\<lambda>sp request status input w r. fst r = Inr () \<longrightarrow> status \<noteq> SEC_E_OK \<longrightarrow> accepted_by sp request"])
    fix loop sp request status input w r
    assume 1: "\<And>sp request status input w y. loop sp request status input w = Some y \<Longrightarrow>
        fst y = Inr () \<longrightarrow> status \<noteq> SEC_E_OK \<longrightarrow> accepted_by sp request"
      and 2: "(if status = SEC_E_OK then Some (Inr (), w)
        else case handshake_round sp request status input w of (Inl e, w1) \<Rightarrow> Some (Inl e, w1)
          | (Inr (status1, input1), w1) \<Rightarrow> loop sp request status1 input1 w1) = Some r"
    show "fst r = Inr () \<longrightarrow> status \<noteq> SEC_E_OK \<longrightarrow> accepted_by sp request"
    proof (cases "handshake_round sp request status input w")
      case (Pair out w1)
      show ?thesis
      proof (cases out)
        case (Inl e)
        then show ?thesis using 2 Pair by (auto split: if_splits)
      next
        case (Inr a)
        obtain s i where a: "a = (s, i)" by fastforce
        show ?thesis
        proof (cases "status = SEC_E_OK \<or> s = SEC_E_OK")
          case True
          then show ?thesis using handshake_round_accepted [of sp request status input w i w1] Pair Inr a by auto
        next
          case False
          then have "loop sp request s i w1 = Some r" using 2 Pair Inr a by simp
          with 1 False show ?thesis by blast
        qed
      qed
    qed
  qed
  with assms show ?thesis by fastforce
qed

lemma schannel_handshake_accepted:
  assumes "schannel_handshake sp request w = Some (Inr sizes, ready, w')"
  shows "ready \<and> accepted_by sp request"
proof -
  obtain s t w1 where b: "sp_begin sp request w = ((s, t), w1)" by (metis prod.exhaust)
  obtain r w2 where t: "send_token sp t w1 = (r, w2)" by fastforce
  from assms b t obtain w3 where r: "r = Inr ()" "s = SEC_I_CONTINUE_NEEDED \<or> s = SEC_E_OK" "ready"
    and loop: "handshake_loop sp request s [] w2 = Some (Inr (), w3)"
    by (auto simp: schannel_handshake_def Let_def split: sum.splits if_splits option.splits prod.splits)
  show ?thesis
  proof (cases "s = SEC_E_OK")
    case True
    with b r show ?thesis using accepted_begin by simp
  next
    case False
    with handshake_loop_accepted [OF loop] r show ?thesis by simp
  qed
qed

lemma schannel_connect_session:
  assumes "schannel_connect os sp endpoint impl w = Some (Inr (), impl', w')"
  shows "\<exists>name sizes. utf8_to_wide sp (tls_peer_name endpoint) = Inr name
    \<and> si_session impl' = Some (request_for (ep_verify_certificate endpoint) name, sizes)
    \<and> accepted_by sp (request_for (ep_verify_certificate endpoint) name)
    \<and> si_credentials_ready impl' \<and> si_context_ready impl'"
  using assms
  by (auto simp: schannel_connect_def Let_def dest!: schannel_handshake_accepted
      split: prod.splits sum.splits option.splits)

subsection \<open>Nothing is left behind\<close>

text \<open>What every send does to the state, the loop does.\<close>

lemma send_loop_rel:
  assumes "\<And>p w r w'. f p w = (r, w') \<Longrightarrow> R w w'" "\<And>w. R w w" "\<And>u v w. R u v \<Longrightarrow> R v w \<Longrightarrow> R u w"
  shows "send_loop limit fail stuck f offset payload w = (r, w') \<Longrightarrow> R w w'"
  using assms(1)
proof (induction limit fail stuck f offset payload w rule: send_loop.induct)
  case (1 limit fail stuck f offset payload w)
  show ?case
  proof (cases "offset < length payload")
    case True
    obtain x w1 where x: "f (take (min (length payload - offset) limit) (drop offset payload)) w = (x, w1)" by fastforce
    note step = "1.prems"(2) [OF x]
    show ?thesis
    proof (cases x)
      case (Io_Count n)
      show ?thesis
      proof (cases "n = 0")
        case False
        with "1.prems"(1) True x Io_Count have
          "send_loop limit fail stuck f (offset + n) payload w1 = (r, w')"
          by (subst (asm) send_loop.simps) simp
        show ?thesis
          by (rule assms(3) [OF step], rule "1.IH" [OF True refl x [symmetric] Io_Count False])
            (fact, erule "1.prems"(2))
      qed (use "1.prems"(1) True x Io_Count step in \<open>auto simp: send_loop.simps [of limit fail stuck f offset payload w]\<close>)
    qed (use "1.prems"(1) True x step in \<open>auto simp: send_loop.simps [of limit fail stuck f offset payload w]\<close>)
  qed (use "1.prems"(1) assms(2) in \<open>simp add: send_loop.simps [of limit fail stuck f offset payload w]\<close>)
qed

lemma send_all_keeps: "(\<And>p. keeps_open held (f p)) \<Longrightarrow> send_all f p w = (r, w') \<Longrightarrow> held w' = held w"
  unfolding send_all_def
  by (rule send_loop_rel [where R = "\<lambda>w w'. held w' = held w"]) (auto dest: keeps_openD)

lemma resource_lawD:
  assumes "resource_law sp held"
  shows "sp_acquire sp c w = (s, w') \<Longrightarrow>
      held w' = (case held w of (a, b, n) \<Rightarrow> (if s = SEC_E_OK then Suc a else a, b, n))"
    and "sp_begin sp rq w = ((s, t), w') \<Longrightarrow> held w' = (case held w of (a, b, n) \<Rightarrow>
      (a, if s = SEC_I_CONTINUE_NEEDED \<or> s = SEC_E_OK then Suc b else b, if t = None then n else Suc n))"
    and "sp_continue sp rq i w = ((s, t, x), w') \<Longrightarrow>
      held w' = (case held w of (a, b, n) \<Rightarrow> (a, b, if t = None then n else Suc n))"
    and "held (sp_release_token sp w) = (case held w of (a, b, n) \<Rightarrow> (a, b, n - 1))"
    and "held (sp_delete_context sp w) = (case held w of (a, b, n) \<Rightarrow> (a, b - 1, n))"
    and "held (sp_free_credentials sp w) = (case held w of (a, b, n) \<Rightarrow> (a - 1, b, n))"
proof -
  note law = assms [unfolded resource_law_def]
  show "sp_acquire sp c w = (s, w') \<Longrightarrow>
      held w' = (case held w of (a, b, n) \<Rightarrow> (if s = SEC_E_OK then Suc a else a, b, n))"
    by (rule law [THEN conjunct1, rule_format])
  show "sp_begin sp rq w = ((s, t), w') \<Longrightarrow> held w' = (case held w of (a, b, n) \<Rightarrow>
      (a, if s = SEC_I_CONTINUE_NEEDED \<or> s = SEC_E_OK then Suc b else b, if t = None then n else Suc n))"
    by (rule law [THEN conjunct2, THEN conjunct1, rule_format])
  show "sp_continue sp rq i w = ((s, t, x), w') \<Longrightarrow>
      held w' = (case held w of (a, b, n) \<Rightarrow> (a, b, if t = None then n else Suc n))"
    by (rule law [THEN conjunct2, THEN conjunct2, THEN conjunct1, rule_format])
qed (use assms in \<open>simp_all add: resource_law_def\<close>)

lemma resource_law_keeps:
  assumes "resource_law sp held"
  shows "keeps_open held (sp_complete sp)" "keeps_open held (sp_sizes sp)" "keeps_open held (sp_recv sp k)"
    "keeps_open held (sp_send sp p)"
  using assms unfolding resource_law_def by blast+

lemma provider_keepsD:
  assumes "provider_keeps sp opened"
  shows "keeps_open opened (sp_acquire sp c)" "keeps_open opened (sp_begin sp rq)" "keeps_open opened (sp_continue sp rq i)"
    "keeps_open opened (sp_complete sp)" "keeps_open opened (sp_sizes sp)" "keeps_open opened (sp_recv sp k)"
    "keeps_open opened (sp_send sp p)" "opened (sp_release_token sp w) = opened w"
    "opened (sp_delete_context sp w) = opened w" "opened (sp_free_credentials sp w) = opened w"
  using assms unfolding provider_keeps_def by blast+

lemma send_token_effect:
  assumes "resource_law sp held" "provider_keeps sp opened" "send_token sp token w = (r, w')"
  shows "held w' = (case held w of (a, b, n) \<Rightarrow> (a, b, if token = None then n else n - 1)) \<and> opened w' = opened w"
proof (cases token)
  case (Some t)
  obtain x w1 where x: "(if t \<noteq> [] then send_all (sp_send sp) t w else (Inr (), w)) = (x, w1)" by fastforce
  have "held w1 = held w" "opened w1 = opened w"
    using x send_all_keeps [of held "sp_send sp" t w x w1, OF resource_law_keeps(4) [OF assms(1)]]
      send_all_keeps [of opened "sp_send sp" t w x w1, OF provider_keepsD(7) [OF assms(2)]]
    by (auto split: if_splits)
  moreover have "w' = sp_release_token sp w1" using assms(3) Some x by (simp add: send_token_def Let_def)
  ultimately show ?thesis
    using Some by (simp add: resource_lawD(4) [OF assms(1)] provider_keepsD(8) [OF assms(2)] split: prod.splits)
qed (use assms(3) in \<open>auto simp: send_token_def split: prod.splits\<close>)

lemma complete_token_effect:
  assumes "resource_law sp held" "provider_keeps sp opened" "complete_token sp status token w = (r, w')"
  shows "opened w' = opened w \<and> held w' = (case held w of (a, b, n) \<Rightarrow>
    (a, b, if (\<exists>e. r = Inl e) \<and> token \<noteq> None then n - 1 else n))"
proof -
  obtain s w1 where s: "sp_complete sp w = (s, w1)" by fastforce
  have "held w1 = held w" "opened w1 = opened w"
    using keeps_openD [OF resource_law_keeps(1) [OF assms(1)] s] keeps_openD [OF provider_keepsD(4) [OF assms(2)] s] by auto
  moreover have "held (release_token sp token w1) = (case held w1 of (a, b, n) \<Rightarrow> (a, b, if token \<noteq> None then n - 1 else n))"
    "opened (release_token sp token w1) = opened w1"
    by (cases token; simp add: release_token_def resource_lawD(4) [OF assms(1)] provider_keepsD(8) [OF assms(2)] split: prod.splits)+
  ultimately show ?thesis
    using assms(3) s by (auto simp: complete_token_def Let_def split: if_splits prod.splits)
qed

lemma handshake_round_effect:
  assumes "resource_law sp held" "provider_keeps sp opened" "handshake_round sp request status input w = (r, w')"
  shows "held w' = held w \<and> opened w' = opened w"
proof -
  obtain q w1 where q: "(if input = [] \<or> status = SEC_E_INCOMPLETE_MESSAGE then receive_into sp input w else (Inr input, w)) = (q, w1)"
    by fastforce
  obtain d v where d: "sp_recv sp 16384 w = (d, v)" by fastforce
  have "held v = held w" "opened v = opened w"
    using keeps_openD [OF resource_law_keeps(3) [OF assms(1)] d] keeps_openD [OF provider_keepsD(6) [OF assms(2)] d] by auto
  moreover have "w1 = v \<or> w1 = w" using q d by (auto simp: receive_into_def split: if_splits recv_result.splits)
  ultimately have same1: "held w1 = held w" "opened w1 = opened w" by auto
  show ?thesis
  proof (cases q)
    case (Inl e)
    then show ?thesis using assms(3) q same1 by (simp add: handshake_round_def)
  next
    case (Inr input1)
    obtain s t x w2 where c: "sp_continue sp request input1 w1 = ((s, t, x), w2)" by (metis prod.exhaust)
    have two: "held w2 = (case held w1 of (a, b, n) \<Rightarrow> (a, b, if t = None then n else Suc n))" "opened w2 = opened w1"
      using resource_lawD(3) [OF assms(1) c] keeps_openD [OF provider_keepsD(3) [OF assms(2)] c] by auto
    obtain y w3 where y: "complete_token sp s t w2 = (y, w3)" by fastforce
    note three = complete_token_effect [OF assms(1,2) y]
    show ?thesis
    proof (cases y)
      case (Inl e)
      then have "w' = w3" using assms(3) q \<open>q = Inr input1\<close> c y by (simp add: handshake_round_def)
      then show ?thesis using same1 two three Inl by (cases "held w"; cases t) auto
    next
      case ok: (Inr s2)
      obtain z w4 where z: "send_token sp t w3 = (z, w4)" by fastforce
      note four = send_token_effect [OF assms(1,2) z]
      have "w' = w4"
        using assms(3) q Inr c y ok z by (auto simp: handshake_round_def split: sum.splits if_splits)
      then show ?thesis
        using same1 two three ok four by (cases "held w"; cases t) auto
    qed
  qed
qed

lemma handshake_loop_effect:
  assumes law: "resource_law sp held" "provider_keeps sp opened"
    and run: "handshake_loop sp request status input w = Some r"
  shows "held (snd r) = held w \<and> opened (snd r) = opened w"
proof -
  let ?P = "\<lambda>sp request (status :: u32) (input :: string) w r. resource_law sp held \<longrightarrow> provider_keeps sp opened
      \<longrightarrow> held (snd r) = held w \<and> opened (snd r) = opened w"
  have "?P sp request status input w r"
  proof (rule handshake_loop.raw_induct [OF _ run, where P = ?P])
    fix loop sp request status input w r
    assume 1: "\<And>sp request status input w y. loop sp request status input w = Some y \<Longrightarrow> ?P sp request status input w y"
      and 2: "(if status = SEC_E_OK then Some (Inr (), w)
        else case handshake_round sp request status input w of (Inl e, w1) \<Rightarrow> Some (Inl e, w1)
          | (Inr (status1, input1), w1) \<Rightarrow> loop sp request status1 input1 w1) = Some r"
    obtain out w1 where round: "handshake_round sp request status input w = (out, w1)" by fastforce
    show "?P sp request status input w r"
    proof (intro impI)
      assume laws: "resource_law sp held" "provider_keeps sp opened"
      note e = handshake_round_effect [OF laws round]
      show "held (snd r) = held w \<and> opened (snd r) = opened w"
      proof (cases "status = SEC_E_OK")
        case False
        show ?thesis
        proof (cases out)
          case (Inl e')
          then show ?thesis using 2 False round e by auto
        next
          case (Inr a)
          then have "loop sp request (fst a) (snd a) w1 = Some r" using 2 False round by (simp split: prod.splits)
          from 1 [OF this] laws e show ?thesis by simp
        qed
      qed (use 2 in auto)
    qed
  qed
  with law show ?thesis by blast
qed

lemma schannel_handshake_effect:
  assumes law: "resource_law sp held" "provider_keeps sp opened"
    and run: "schannel_handshake sp request w = Some (r, ready, w')"
  shows "held w' = (case held w of (a, b, n) \<Rightarrow> (a, if ready then Suc b else b, n)) \<and> opened w' = opened w"
proof -
  obtain s t w1 where b: "sp_begin sp request w = ((s, t), w1)" by (metis prod.exhaust)
  obtain a b' n where h: "held w = (a, b', n)" by (metis prod_cases3)
  let ?ready = "s = SEC_I_CONTINUE_NEEDED \<or> s = SEC_E_OK"
  have one: "held w1 = (a, if ?ready then Suc b' else b', if t = None then n else Suc n)" "opened w1 = opened w"
    using resource_lawD(2) [OF law(1) b] keeps_openD [OF provider_keepsD(2) [OF law(2)] b] h by auto
  obtain q w2 where q: "send_token sp t w1 = (q, w2)" by fastforce
  have two: "held w2 = (a, if ?ready then Suc b' else b', n)" "opened w2 = opened w"
    using send_token_effect [OF law q] one by (auto split: if_splits)
  show ?thesis
  proof (cases "(\<exists>e. q = Inl e) \<or> \<not> ?ready")
    case True
    then have "w' = w2" "ready = ?ready"
      using run b q by (auto simp: schannel_handshake_def Let_def split: sum.splits)
    with two h show ?thesis by simp
  next
    case False
    then obtain out where loop: "handshake_loop sp request s [] w2 = Some out"
      using run b q by (cases q) (auto simp: schannel_handshake_def Let_def split: option.splits)
    obtain z w4 where z: "sp_sizes sp (snd out) = (z, w4)" by fastforce
    have "ready" "w' = snd out \<or> w' = w4"
      using run b q False loop z
      by (cases q; cases out; auto simp: schannel_handshake_def Let_def split: sum.splits prod.splits)+
    then show ?thesis
      using two h False handshake_loop_effect [OF law loop] keeps_openD [OF resource_law_keeps(2) [OF law(1)] z]
        keeps_openD [OF provider_keepsD(5) [OF law(2)] z] by auto
  qed
qed

lemma keeps_openI: "(\<And>w r w'. f w = (r, w') \<Longrightarrow> opened w' = opened w) \<Longrightarrow> keeps_open opened f"
  by (simp add: keeps_open_def)

lemma sockets_keepD:
  assumes "sockets_keep os held"
  shows "keeps_open held (os_socket os a)" "keeps_open held (os_lookup os host p)"
    "keeps_open held (os_set_blocking os fd blocking)" "keeps_open held (os_connect os fd a)"
    "keeps_open held (os_select os fd t)" "keeps_open held (os_socket_error os fd)"
    "keeps_open held (os_set_send_timeout os fd t)" "keeps_open held (os_set_send_buffer os fd t)"
    "keeps_open held (os_set_no_delay os fd)" "keeps_open held (os_set_keep_alive os fd)"
    "held (os_close os fd w) = held w"
  using assms unfolding sockets_keep_def by blast+

lemma tcp_connect_other:
  assumes law: "sockets_keep os held" and run: "tcp_connect os endpoint handle w = (r, handle', w')"
  shows "held w' = held w"
proof -
  note keep = sockets_keepD [OF law]
  have wait: "keeps_open held (wait_for_connect os fd t)" for fd t
    by (rule keeps_openI)
      (auto simp: wait_for_connect_def dest!: keep(5,6) [THEN keeps_openD] split: prod.splits select_result.splits sum.splits)
  have one: "keeps_open held (try_connect os fd a t)" for fd a t
    by (rule keeps_openI)
      (auto simp: try_connect_def Let_def dest!: keep(3,4,7) [THEN keeps_openD] wait [THEN keeps_openD]
        split: prod.splits option.splits if_splits)
  have all: "connect_candidates os t e as w = (c, w1) \<Longrightarrow> held w1 = held w" for t e as w c w1
  proof (induction as arbitrary: e w)
    case (Cons a as)
    obtain s v where s: "os_socket os a w = (s, v)" by fastforce
    note v = keep(1) [THEN keeps_openD, OF s]
    show ?case
    proof (cases s)
      case (Inl e')
      then show ?thesis using Cons s v by simp
    next
      case (Inr fd)
      obtain q u where q: "try_connect os fd a t v = (q, u)" by fastforce
      show ?thesis
        using Cons.prems Cons.IH [of _ "os_close os fd u"] s v Inr q one [THEN keeps_openD, OF q] keep(11)
        by (cases q) auto
    qed
  qed simp
  have connect: "connect_socket os host port w = (c, w1) \<Longrightarrow> held w1 = held w" for host port w c w1
    by (auto simp: connect_socket_def dest!: keep(2) [THEN keeps_openD] all split: prod.splits sum.splits)
  have reset: "reset_handle os new old w = (h, w1) \<Longrightarrow> held w1 = held w" for new old w h w1
    by (auto simp: reset_handle_def keep(11) split: option.splits)
  have buffer: "configure_send_buffer os fd n w = (c, w1) \<Longrightarrow> held w1 = held w" for fd n w c w1
    by (auto simp: configure_send_buffer_def dest!: keep(8) [THEN keeps_openD] split: prod.splits option.splits)
  have stream: "configure_tcp_stream os fd w = (c, w1) \<Longrightarrow> held w1 = held w" for fd w c w1
    by (auto simp: configure_tcp_stream_def keeps_open_snd [OF keep(10)] dest!: keep(9) [THEN keeps_openD]
        split: prod.splits option.splits)
  show ?thesis
    using run by (auto simp: tcp_connect_def Let_def dest!: connect reset buffer stream split: prod.splits sum.splits)
qed

lemma acquire_credentials_effect:
  assumes law: "resource_law sp held" "provider_keeps sp opened" and run: "acquire_credentials sp verify w = (r, w')"
  shows "held w' = (case held w of (a, b, n) \<Rightarrow> (if r = Inr () then Suc a else a, b, n)) \<and> opened w' = opened w"
proof -
  obtain s v where s: "sp_acquire sp (credentials_for verify) w = (s, v)" by fastforce
  have "w' = v" "r = Inr () \<longleftrightarrow> s = SEC_E_OK" using run s by (auto simp: acquire_credentials_def Let_def split: if_splits)
  then show ?thesis
    using resource_lawD(1) [OF law(1) s] keeps_openD [OF provider_keepsD(1) [OF law(2)] s] by simp
qed

lemma schannel_connect_effect:
  assumes run: "schannel_connect os sp endpoint new_schannel w = Some (r, impl, w')"
    and law: "resource_law sp held" "provider_keeps sp opened" "sockets_keep os held"
  shows "\<exists>c w1. tcp_connect os endpoint None w = (c, si_socket impl, w1) \<and> opened w' = opened w1
    \<and> held w' = (case held w of (a, b, n) \<Rightarrow>
        (if si_credentials_ready impl then Suc a else a, if si_context_ready impl then Suc b else b, n))"
proof -
  obtain c handle w1 where t: "tcp_connect os endpoint None w = (c, handle, w1)" by (metis prod_cases3)
  have held1: "held w1 = held w" by (rule tcp_connect_other [OF law(3) t])
  show ?thesis
  proof (cases c)
    case (Inl e)
    then have "impl = new_schannel\<lparr>si_socket := handle\<rparr>" "w' = w1"
      using run t by (auto simp: schannel_connect_def new_schannel_def)
    then show ?thesis using t held1 by (auto simp: new_schannel_def)
  next
    case (Inr u)
    obtain q w2 where q: "acquire_credentials sp (ep_verify_certificate endpoint) w1 = (q, w2)" by fastforce
    note two = acquire_credentials_effect [OF law(1,2) q]
    show ?thesis
    proof (cases q)
      case (Inl e)
      then have "impl = new_schannel\<lparr>si_socket := handle\<rparr>" "w' = w2"
        using run t Inr q by (auto simp: schannel_connect_def new_schannel_def)
      then show ?thesis using t held1 two Inl by (auto simp: new_schannel_def)
    next
      case ready: (Inr u')
      show ?thesis
      proof (cases "utf8_to_wide sp (tls_peer_name endpoint)")
        case (Inl e)
        then have "impl = new_schannel\<lparr>si_socket := handle, si_credentials_ready := True\<rparr>" "w' = w2"
          using run t Inr q ready by (auto simp: schannel_connect_def new_schannel_def)
        then show ?thesis using t held1 two ready by (auto simp: new_schannel_def)
      next
        case name: (Inr name)
        then obtain z ctx where h: "schannel_handshake sp (request_for (ep_verify_certificate endpoint) name) w2 = Some (z, ctx, w')"
          and impl: "si_socket impl = handle" "si_credentials_ready impl" "si_context_ready impl = ctx"
          using run t Inr q ready
          by (auto simp: schannel_connect_def new_schannel_def Let_def split: option.splits prod.splits sum.splits)
        show ?thesis
          using t impl held1 two ready schannel_handshake_effect [OF law(1,2) h] by (cases "held w") auto
      qed
    qed
  qed
qed

subsection \<open>The handshake ends\<close>

definition round_measure :: "('w \<Rightarrow> nat) \<Rightarrow> u32 \<Rightarrow> string \<Rightarrow> 'w \<Rightarrow> nat" where
  "round_measure left status input w =
     2 * left w + length input + (if status = SEC_E_INCOMPLETE_MESSAGE then 0 else 1)"

lemma peer_lawD:
  assumes "peer_law sp left"
  shows "sp_recv sp k w = (Received d, w') \<Longrightarrow> left w' + length d \<le> left w"
    and "sp_continue sp rq i w = ((s, t, x), w') \<Longrightarrow> left w' \<le> left w"
    and "sp_continue sp rq i w = ((s, t, x), w') \<Longrightarrow> s \<noteq> SEC_E_INCOMPLETE_MESSAGE \<Longrightarrow> i \<noteq> [] \<Longrightarrow> x < length i"
    and "sp_complete sp w = (s, w') \<Longrightarrow> left w' \<le> left w"
    and "sp_send sp p w = (r, w') \<Longrightarrow> left w' \<le> left w"
    and "left (sp_release_token sp w) \<le> left w"
proof -
  note law = assms [unfolded peer_law_def]
  show "sp_recv sp k w = (Received d, w') \<Longrightarrow> left w' + length d \<le> left w"
    using law [THEN conjunct1, rule_format, of k w "Received d" w'] by simp
  show "sp_continue sp rq i w = ((s, t, x), w') \<Longrightarrow> left w' \<le> left w"
    "sp_continue sp rq i w = ((s, t, x), w') \<Longrightarrow> s \<noteq> SEC_E_INCOMPLETE_MESSAGE \<Longrightarrow> i \<noteq> [] \<Longrightarrow> x < length i"
    using law [THEN conjunct2, THEN conjunct1, rule_format, of rq i w s t x w'] by simp_all
  show "sp_complete sp w = (s, w') \<Longrightarrow> left w' \<le> left w"
    by (rule law [THEN conjunct2, THEN conjunct2, THEN conjunct1, rule_format])
  show "sp_send sp p w = (r, w') \<Longrightarrow> left w' \<le> left w"
    by (rule law [THEN conjunct2, THEN conjunct2, THEN conjunct2, THEN conjunct1, rule_format])
qed (use assms in \<open>simp add: peer_law_def\<close>)

lemma send_token_left:
  assumes law: "peer_law sp left" and run: "send_token sp token w = (r, w')"
  shows "left w' \<le> left w"
proof (cases token)
  case (Some t)
  obtain x w1 where x: "(if t \<noteq> [] then send_all (sp_send sp) t w else (Inr (), w)) = (x, w1)" by fastforce
  have "send_all (sp_send sp) t w = (y, v) \<Longrightarrow> left v \<le> left w" for y v
    unfolding send_all_def
    by (rule send_loop_rel [where R = "\<lambda>w w'. left w' \<le> left w"]) (auto intro: peer_lawD(5) [OF law])
  then have "left w1 \<le> left w" using x by (auto split: if_splits)
  moreover have "w' = sp_release_token sp w1" using run Some x by (simp add: send_token_def Let_def)
  ultimately show ?thesis using peer_lawD(6) [OF law, of w1] by simp
qed (use run in \<open>simp add: send_token_def\<close>)

lemma handshake_round_decreases:
  assumes law: "peer_law sp left"
    and run: "handshake_round sp rq status input w = (Inr (status', input'), w')"
  shows "round_measure left status' input' w' < round_measure left status input w"
proof -
  obtain input1 w1 where q: "(if input = [] \<or> status = SEC_E_INCOMPLETE_MESSAGE then receive_into sp input w
      else (Inr input, w)) = (Inr input1, w1)"
    using run by (auto simp: handshake_round_def split: sum.splits prod.splits)
  obtain s t x w2 where c: "sp_continue sp rq input1 w1 = ((s, t, x), w2)" by (metis prod.exhaust)
  obtain s2 w3 where y: "complete_token sp s t w2 = (Inr s2, w3)"
    using run q c by (auto simp: handshake_round_def split: sum.splits prod.splits)
  obtain z w4 where z: "send_token sp t w3 = (z, w4)" by fastforce
  have out: "w' = w4" "status' = s2"
    "input' = (if s2 = SEC_E_INCOMPLETE_MESSAGE then input1
       else if 0 < x then drop (length input1 - x) input1 else [])"
    using run q c y z by (auto simp: handshake_round_def split: sum.splits if_splits)
  have "left w3 \<le> left w2"
    using y peer_lawD(4) [OF law] by (auto simp: complete_token_def Let_def split: if_splits prod.splits)
  then have tail: "left w' \<le> left w1"
    using peer_lawD(2) [OF law c] send_token_left [OF law z] out by simp
  have read: "2 * left w1 + length input1 + (if input = [] \<or> status = SEC_E_INCOMPLETE_MESSAGE then 1 else 0)
      \<le> 2 * left w + length input" "input1 \<noteq> []"
  proof -
    show "2 * left w1 + length input1 + (if input = [] \<or> status = SEC_E_INCOMPLETE_MESSAGE then 1 else 0)
      \<le> 2 * left w + length input"
    proof (cases "input = [] \<or> status = SEC_E_INCOMPLETE_MESSAGE")
      case True
      then obtain d where d: "sp_recv sp 16384 w = (Received d, w1)" "d \<noteq> []" "input1 = input @ d"
        using q by (auto simp: receive_into_def split: prod.splits recv_result.splits if_splits)
      moreover have "1 \<le> length d" using d(2) by (simp add: Suc_le_eq)
      ultimately show ?thesis using peer_lawD(1) [OF law d(1)] by simp
    qed (use q in auto)
    show "input1 \<noteq> []"
      using q by (auto simp: receive_into_def split: prod.splits recv_result.splits if_splits)
  qed
  have used: "length input' \<le> length input1 \<and> (s2 \<noteq> SEC_E_INCOMPLETE_MESSAGE \<longrightarrow> length input' < length input1)"
  proof (cases "s2 = SEC_E_INCOMPLETE_MESSAGE")
    case False
    then have "s \<noteq> SEC_E_INCOMPLETE_MESSAGE"
      using y by (auto simp: complete_token_def Let_def status_codes split: if_splits prod.splits)
    from peer_lawD(3) [OF law c this read(2)] show ?thesis using False read(2) out by auto
  qed (use out in simp)
  show ?thesis using read(1) tail used out by (auto simp: round_measure_def split: if_splits)
qed

lemma handshake_loop_ends:
  assumes "peer_law sp left"
  shows "\<exists>r. handshake_loop sp rq status input w = Some r"
proof (induction "round_measure left status input w" arbitrary: status input w rule: less_induct)
  case less
  obtain out w1 where round: "handshake_round sp rq status input w = (out, w1)" by fastforce
  show ?case
  proof (cases out)
    case (Inl e)
    then show ?thesis using round by (simp add: handshake_loop.simps [of sp rq status input w])
  next
    case (Inr a)
    obtain s i where a: "a = (s, i)" by fastforce
    obtain r where "handshake_loop sp rq s i w1 = Some r"
      using less [OF handshake_round_decreases [OF assms round [unfolded Inr a]]] by blast
    then show ?thesis using round Inr a by (simp add: handshake_loop.simps [of sp rq status input w])
  qed
qed

subsection \<open>Records\<close>

lemma record_lawD:
  assumes "record_law sp wire opened"
  shows "stream_law (sp_send sp) wire"
    and "sp_encrypt sp sizes p w = ((s, h, d, t), w') \<Longrightarrow> wire w' = wire w"
    and "sp_encrypt sp sizes p w = ((SEC_E_OK, h, d, t), w') \<Longrightarrow> opened (wire w @ h @ d @ t) = opened (wire w) @ p"
proof -
  note law = assms [unfolded record_law_def]
  show "stream_law (sp_send sp) wire" by (rule law [THEN conjunct1])
  show "sp_encrypt sp sizes p w = ((s, h, d, t), w') \<Longrightarrow> wire w' = wire w"
    "sp_encrypt sp sizes p w = ((SEC_E_OK, h, d, t), w') \<Longrightarrow> opened (wire w @ h @ d @ t) = opened (wire w) @ p"
    using law [THEN conjunct2, rule_format, of sizes p w _ h d t w'] by auto
qed

lemma send_records_spec:
  assumes law: "record_law sp wire opened" and max: "0 < sz_maximum sizes"
  shows "\<exists>r. send_records sp sizes offset payload w = Some r \<and> fst r \<noteq> Inl Never_Returns
    \<and> (fst r = Inr () \<longrightarrow> opened (wire (snd r)) = opened (wire w) @ drop offset payload)"
proof (induction "length payload - offset" arbitrary: offset w rule: less_induct)
  case less
  show ?case
  proof (cases "offset < length payload")
    case True
    let ?n = "min (length payload - offset) (sz_maximum sizes)"
    let ?p = "take ?n (drop offset payload)"
    obtain s h d t w1 where e: "sp_encrypt sp sizes ?p w = ((s, h, d, t), w1)" by (metis prod.exhaust)
    obtain q w2 where q: "send_all (sp_send sp) (h @ d @ t) w1 = (q, w2)" by fastforce
    note unfold = send_records.simps [of sp sizes offset payload w]
    show ?thesis
    proof (cases "s = SEC_E_OK \<and> q = Inr ()")
      case False
      then show ?thesis using True e q by (cases q) (auto simp: unfold Let_def)
    next
      case ok: True
      have "wire w2 = wire w1 @ h @ d @ t"
        using send_loop_spec [OF record_lawD(1) [OF law] q [unfolded send_all_def]] ok by auto
      then have sent: "opened (wire w2) = opened (wire w) @ ?p"
        using record_lawD(2,3) [OF law] e ok by simp
      have "length payload - (offset + ?n) < length payload - offset" using True max by auto
      from less [OF this] obtain r where r: "send_records sp sizes (offset + ?n) payload w2 = Some r"
        "fst r \<noteq> Inl Never_Returns" "fst r = Inr () \<longrightarrow> opened (wire (snd r)) = opened (wire w2) @ drop (offset + ?n) payload" by blast
      have "?p @ drop (offset + ?n) payload = drop offset payload"
        by (metis append_take_drop_id drop_drop add.commute)
      with True e q ok r sent show ?thesis by (auto simp: unfold Let_def)
    qed
  qed (simp add: send_records.simps)
qed

lemma schannel_send_sent:
  assumes "record_law sp wire opened" "si_session impl = Some (request, sizes)" "0 < sz_maximum sizes"
  shows "schannel_send sp payload (impl, w) \<noteq> Inl Never_Returns
    \<and> (\<forall>r t. schannel_send sp payload (impl, w) = Inr (r, t) \<longrightarrow>
         r = Sent \<and> fst t = impl \<and> opened (wire (snd t)) = opened (wire w) @ payload)"
proof -
  obtain r where "send_records sp sizes 0 payload w = Some r" "fst r \<noteq> Inl Never_Returns"
    "fst r = Inr () \<longrightarrow> opened (wire (snd r)) = opened (wire w) @ payload"
    using send_records_spec [OF assms(1,3), of 0 payload w] by auto
  with assms(2) show ?thesis by (cases r; cases "fst r") (auto simp: schannel_send_def)
qed

definition schannel_ready :: "schannel \<Rightarrow> bool" where
  "schannel_ready impl \<longleftrightarrow> (\<exists>request sizes. si_session impl = Some (request, sizes) \<and> 0 < sz_maximum sizes)"

lemma schannel_send_delivers:
  assumes "schannel_send sp payload t = Inr (r, t')" "record_law sp wire opened" "schannel_ready (fst t)"
  shows "r = Sent \<and> fst t' = fst t \<and> opened (wire (snd t')) = opened (wire (snd t)) @ payload"
proof -
  obtain request sizes where s: "si_session (fst t) = Some (request, sizes)" "0 < sz_maximum sizes"
    using assms(3) by (auto simp: schannel_ready_def)
  from schannel_send_sent [OF assms(2) s, of payload "snd t"] assms(1) show ?thesis by (cases t') simp
qed

interpretation schannel: log_transport "schannel_send sp"
    "\<lambda>t. record_law sp wire opened \<and> schannel_ready (fst t)" "\<lambda>t. opened (wire (snd t))"
  for sp :: "'w sspi_calls" and wire opened
  by unfold_locales (auto dest: schannel_send_delivers)

subsection \<open>Properties\<close>




text \<open>
  A worker on a TLS connection of Windows delivers whole batches of its events, in order and framed:
  however the payloads are cut into records and the records into sends, what the server reads is the
  frames of the events, and the totals the worker publishes are their number and their bytes.\<close>

theorem schannel_worker_delivers:
  assumes "run_worker_loop n env endpoint False preferred w = (Some x, w')"
    "we_send env = schannel_send sp" "record_law sp wire opened" "schannel_ready (fst (wo_transport w))"
    "wo_counts w = no_counts"
  shows "\<exists>ks ps. ps = draw_batches (we_start_batch env) (we_next_in_batch env) ks (wo_source w)
    \<and> opened (wire (snd (wo_transport w'))) = opened (wire (snd (wo_transport w))) @ frames (ep_framing endpoint) ps
    \<and> wn_total_messages (wo_counts w') = of_nat (length ps)
    \<and> wn_total_bytes (wo_counts w') = of_nat (length (frames (ep_framing endpoint) ps))"
  by (rule schannel.run_worker_delivers [OF assms(1,2) conjI [OF assms(3,4)] assms(5)])

text \<open>
  A system with one address and a provider that asks for four bytes and takes six, of a server that sends
  three at a time. The state is the next descriptor with the open ones, what is held of the provider, what
  the server has still to say, and what the socket has taken.
\<close>

type_synonym sample_world = "(int \<times> int list) \<times> (nat \<times> nat \<times> nat) \<times> string \<times> string"

definition sample_windows_sockets :: "(nat, sample_world) socket_calls" where
  "sample_windows_sockets =
     \<lparr>os_lookup = (\<lambda>h p w. (Inr [0], w)),
      os_socket = (\<lambda>a ((n, fds), rest). (Inr n, (n + 1, n # fds), rest)),
      os_set_blocking = (\<lambda>fd b w. (None, w)), os_connect = (\<lambda>fd a w. (None, w)),
      os_select = (\<lambda>fd t w. (Timed_Out, w)), os_socket_error = (\<lambda>fd w. (Inr 0, w)),
      os_set_send_timeout = (\<lambda>fd t w. (None, w)), os_set_send_buffer = (\<lambda>fd t w. (None, w)),
      os_set_no_delay = (\<lambda>fd w. (None, w)), os_set_keep_alive = (\<lambda>fd w. (None, w)),
      os_close = (\<lambda>fd ((n, fds), rest). ((n, removeAll fd fds), rest))\<rparr>"

definition sample_provider :: "sample_world sspi_calls" where
  "sample_provider =
     \<lparr>sp_wide_length = (\<lambda>s. int (length s)), sp_wide = (\<lambda>s n. Some (map (of_nat \<circ> code) s)),
      sp_acquire = (\<lambda>c (fds, (a, b, n), rest). (SEC_E_OK, fds, (Suc a, b, n), rest)),
      sp_begin = (\<lambda>rq (fds, (a, b, n), rest). ((SEC_I_CONTINUE_NEEDED, Some ''hello''), fds, (a, Suc b, Suc n), rest)),
      sp_continue = (\<lambda>rq i (fds, (a, b, n), rest).
        if length i < 4 then ((SEC_E_INCOMPLETE_MESSAGE, None, 0), fds, (a, b, n), rest)
        else ((SEC_E_OK, Some ''finished'', 0), fds, (a, b, Suc n), rest)),
      sp_complete = Pair SEC_E_OK,
      sp_release_token = (\<lambda>(fds, (a, b, n), rest). (fds, (a, b, n - 1), rest)),
      sp_sizes = Pair (SEC_E_OK, \<lparr>sz_header = 0, sz_maximum = 3, sz_trailer = 0\<rparr>),
      sp_encrypt = (\<lambda>sizes p w. ((SEC_E_OK, [], p, []), w)),
      sp_delete_context = (\<lambda>(fds, (a, b, n), rest). (fds, (a, b - 1, n), rest)),
      sp_free_credentials = (\<lambda>(fds, (a, b, n), rest). (fds, (a - 1, b, n), rest)),
      sp_recv = (\<lambda>k (fds, h, server, wire). (Received (take 3 server), fds, h, drop 3 server, wire)),
      sp_send = (\<lambda>p (fds, h, server, wire). (Io_Count (length p), fds, h, server, wire @ p))\<rparr>"

definition sample_held :: "sample_world \<Rightarrow> nat \<times> nat \<times> nat" where
  "sample_held w = fst (snd w)"

definition sample_windows_opened :: "sample_world \<Rightarrow> int set" where
  "sample_windows_opened w = sample_opened (fst w)"

definition sample_start :: sample_world where
  "sample_start = ((3, []), (0, 0, 0), ''abcdef'', [])"

lemma sample_resource_law: "resource_law sample_provider sample_held"
  by (auto simp: resource_law_def sample_provider_def sample_held_def keeps_open_def status_codes split: prod.splits)

lemma sample_provider_keeps: "provider_keeps sample_provider sample_windows_opened"
  by (auto simp: provider_keeps_def sample_provider_def sample_windows_opened_def keeps_open_def split: if_splits)

lemma sample_sockets_keep: "sockets_keep sample_windows_sockets sample_held"
  by (auto simp: sockets_keep_def sample_windows_sockets_def sample_held_def keeps_open_def)

lemma sample_windows_socket_law: "socket_law sample_windows_sockets sample_windows_opened"
  by (auto simp: socket_law_def sample_windows_sockets_def sample_windows_opened_def sample_opened_def keeps_open_def)

lemma sample_peer_law: "peer_law sample_provider (\<lambda>w. length (fst (snd (snd w))))"
  by (auto simp: peer_law_def sample_provider_def split: if_splits)

lemma sample_record_law: "record_law sample_provider (\<lambda>w. snd (snd (snd w))) (\<lambda>s. s)"
  by (auto simp: record_law_def stream_law_def sample_provider_def)

text \<open>The handshake with that server: two answers, of which the first is too short.\<close>

definition sample_request :: schannel_request where
  "sample_request = request_for True (map (of_nat \<circ> code) ''127.0.0.1'')"

definition connected_world :: sample_world where
  "connected_world = ((4, [3]), (1, 1, 0), [], ''hello'' @ ''finished'')"

definition connected_schannel :: schannel where
  "connected_schannel =
     \<lparr>si_socket = Some 3, si_credentials_ready = True, si_context_ready = True,
      si_session = Some (sample_request, \<lparr>sz_header = 0, sz_maximum = 3, sz_trailer = 0\<rparr>)\<rparr>"

lemma sample_send_token:
  "length t < 100 \<Longrightarrow> send_token sample_provider (Some (c # t)) (fds, (a, b, Suc n), server, wire)
     = (Inr (), fds, (a, b, n), server, wire @ c # t)"
  by (simp add: send_token_def send_all_def send_loop.simps sample_provider_def)

lemma sample_handshake:
  "schannel_handshake sample_provider rq ((n, fds), (a, b, 0), ''abcdef'', wire)
     = Some (Inr \<lparr>sz_header = 0, sz_maximum = 3, sz_trailer = 0\<rparr>, True, (n, fds), (a, Suc b, 0), [],
         wire @ ''hello'' @ ''finished'')"
proof -
  let ?sp = sample_provider
  have one: "handshake_round ?sp rq SEC_I_CONTINUE_NEEDED [] ((n, fds), (a, Suc b, 0), ''abcdef'', wire')
      = (Inr (SEC_E_INCOMPLETE_MESSAGE, ''abc''), (n, fds), (a, Suc b, 0), ''def'', wire')" for wire'
    by (simp add: handshake_round_def receive_into_def complete_token_def send_token_def sample_provider_def status_codes)
  have two: "handshake_round ?sp rq SEC_E_INCOMPLETE_MESSAGE ''abc'' ((n, fds), (a, Suc b, 0), ''def'', wire')
      = (Inr (SEC_E_OK, []), (n, fds), (a, Suc b, 0), [], wire' @ ''finished'')" for wire'
    using sample_send_token [of "''inished''" "CHR ''f''" "(n, fds)" a "Suc b" 0]
    by (simp add: handshake_round_def receive_into_def complete_token_def sample_provider_def status_codes)
  have loop: "handshake_loop ?sp rq SEC_I_CONTINUE_NEEDED [] ((n, fds), (a, Suc b, 0), ''abcdef'', wire')
      = Some (Inr (), (n, fds), (a, Suc b, 0), [], wire' @ ''finished'')" for wire'
    by (subst handshake_loop.simps, subst one, simp add: status_codes, subst handshake_loop.simps, subst two [unfolded status_codes])
      (simp add: handshake_loop.simps status_codes)
  show ?thesis
    using sample_send_token [of "''ello''" "CHR ''h''" "(n, fds)" a "Suc b" 0] loop
    by (simp add: schannel_handshake_def sample_provider_def)
qed

lemma sample_connect:
  "schannel_connect sample_windows_sockets sample_provider default_endpoint new_schannel sample_start
     = Some (Inr (), connected_schannel, connected_world)"
proof -
  have tcp: "tcp_connect sample_windows_sockets default_endpoint None sample_start
      = (Inr (), Some 3, (4, [3]), (0, 0, 0), ''abcdef'', [])"
    by (simp add: tcp_connect_def connect_socket_def sample_windows_sockets_def try_connect_def reset_handle_def
        configure_send_buffer_def configure_tcp_stream_def sample_start_def)
  have wide: "utf8_to_wide sample_provider (tls_peer_name default_endpoint) = Inr (map (of_nat \<circ> code) ''127.0.0.1'')"
    by (simp add: utf8_to_wide_def sample_provider_def tls_peer_name_def default_endpoint_def)
  have creds: "acquire_credentials sample_provider True ((4, [3]), (0, 0, 0), ''abcdef'', [])
      = (Inr (), (4, [3]), (1, 0, 0), ''abcdef'', [])"
    by (simp add: acquire_credentials_def sample_provider_def)
  have verify: "ep_verify_certificate default_endpoint" by (simp add: default_endpoint_def)
  show ?thesis
    using tcp wide creds sample_handshake [of sample_request 4 "[3]" 1 0 "[]"] verify
    by (simp add: schannel_connect_def new_schannel_def sample_request_def connected_schannel_def connected_world_def
        del: list.map)
qed




definition sample_schannel_env :: "(nat, schannel \<times> sample_world, schannel_error) worker_env" where
  "sample_schannel_env =
     \<lparr>we_stop = (\<lambda>n. 1 < n), we_next = (\<lambda>n. (''abcd'', Suc n)), we_start_batch = (\<lambda>n. n),
      we_next_in_batch = (\<lambda>n. (''abcd'', Suc n)), we_send = schannel_send sample_provider,
      we_send_batch = (\<lambda>_ t. Inr (Sent, t)), we_quota = 5\<rparr>"

definition sample_schannel_worker :: "(nat, schannel \<times> sample_world) worker" where
  "sample_schannel_worker =
     \<lparr>wo_source = 0, wo_transport = (connected_schannel, connected_world), wo_pending = no_pending,
      wo_counts = no_counts, wo_polls = 0\<rparr>"

lemma sample_schannel_run:
  "\<exists>w'. run_worker_loop (Suc (Suc 0)) sample_schannel_env sample_tcp_endpoint False 1 sample_schannel_worker
      = (Some Stop_Requested, w') \<and> wn_total_messages (wo_counts w') = 1"
proof -
  have one: "stream_batch_events 5 = Suc 0" by (simp add: stream_batch_events_def clamp_def)
  have fill: "fill_stream (\<lambda>n. (''abcd'', Suc n)) Newline (Suc 0) 1048576 [] 0 0 = (''abcd'' @ [LF], 1, 1)"
    by (simp add: fill_stream.simps append_frame_eq escape_payload_def escape_char_def)
  have ready: "schannel_ready connected_schannel" by (simp add: schannel_ready_def connected_schannel_def)
  have "\<exists>t. schannel_send sample_provider (''abcd'' @ [LF]) (connected_schannel, connected_world) = Inr (Sent, t)"
    by (simp add: schannel_send_def connected_schannel_def send_records.simps send_all_def send_loop.simps
        sample_provider_def connected_world_def)
  then obtain t where send: "schannel_send sample_provider (''abcd'' @ [LF]) (connected_schannel, connected_world) = Inr (Sent, t)" ..
  show ?thesis
    using send fill one
    by (simp add: run_worker_loop_def worker_step_def stream_step_def poll_stop_def
        sample_schannel_env_def sample_schannel_worker_def sample_tcp_endpoint_def default_endpoint_def
        after_send_def count_sent_def no_counts_def flush_counts_def statistics_publish_events_def clamp_def)
qed

theorem schannel_worker_delivers_witness:
  "\<exists>w' ps. run_worker_loop (Suc (Suc 0)) sample_schannel_env sample_tcp_endpoint False 1 sample_schannel_worker
      = (Some Stop_Requested, w')
    \<and> snd (snd (snd (snd (wo_transport w')))) = ''hello'' @ ''finished'' @ frames Newline ps
    \<and> of_nat (length ps) = (1 :: u64)"
proof -
  from sample_schannel_run obtain w' where
    r: "run_worker_loop (Suc (Suc 0)) sample_schannel_env sample_tcp_endpoint False 1 sample_schannel_worker
      = (Some Stop_Requested, w')" and one: "wn_total_messages (wo_counts w') = 1" by blast
  have env: "we_send sample_schannel_env = schannel_send sample_provider" "wo_counts sample_schannel_worker = no_counts"
    "ep_framing sample_tcp_endpoint = Newline" "wo_transport sample_schannel_worker = (connected_schannel, connected_world)"
    by (simp_all add: sample_schannel_env_def sample_schannel_worker_def sample_tcp_endpoint_def default_endpoint_def)
  have ready: "schannel_ready (fst (wo_transport sample_schannel_worker))"
    by (simp add: env schannel_ready_def connected_schannel_def)
  from schannel_worker_delivers [OF r env(1) sample_record_law ready env(2)] r one env(3,4) show ?thesis
    by (auto simp: connected_world_def)
qed

end
