(* ===== verification/Socket_Platforms.thy ===== *)
theory Socket_Platforms
  imports Schannel Privacy
begin

text \<open>
  What differs between the systems in the sockets of \<open>src/src/infrastructure\<close>: the texts of errors, the
  datagrams of systems without a call for several of them, the Windows runtime, and the ownership of a
  socket by its handle, which is the same on all.
\<close>

subsection \<open>Error texts\<close>

text \<open>
  \<open>socket_error_message\<close>: \<open>explain\<close> is what the system says of an error, \<open>FormatMessageA\<close> with its line
  break on Windows, where it may say nothing, and \<open>strerror\<close> elsewhere. \<open>last_error\<close> is \<open>errno\<close>, or what
  \<open>WSAGetLastError\<close> returns, and stands for a negative \<open>error\<close>.
\<close>

fun trim_line_end :: "string \<Rightarrow> string" where
  "trim_line_end s =
     (if s \<noteq> [] \<and> (last s = CHR 0x0D \<or> last s = CHR 0x0A \<or> last s = CHR '' '') then trim_line_end (butlast s) else s)"

declare trim_line_end.simps [simp del]

definition error_number :: "int \<Rightarrow> string" where
  "error_number e = (if e < 0 then CHR ''-'' # to_dec (nat (- e)) else to_dec (nat e))"

definition socket_error_message :: "bool \<Rightarrow> (int \<Rightarrow> string) \<Rightarrow> int \<Rightarrow> string \<Rightarrow> int \<Rightarrow> string" where
  "socket_error_message windows explain last_error action error =
     (let code = (if error < 0 then last_error else error);
          result = action @ '' failed ('' @ error_number code @ '')''
      in if windows then
           if 0 < length (explain code) then trim_line_end (result @ '': '' @ explain code) else result
         else result @ '': '' @ explain code)"

text \<open>\<open>what()\<close> of the exceptions of \<open>socket_support.cpp\<close>; \<open>resolve_text\<close> is \<open>gai_strerror\<close>.\<close>

definition socket_error_text ::
    "bool \<Rightarrow> (int \<Rightarrow> string) \<Rightarrow> (nat \<Rightarrow> string) \<Rightarrow> string \<Rightarrow> u16 \<Rightarrow> socket_error \<Rightarrow> string" where
  "socket_error_text windows explain resolve_text host port e =
     (case e of
        Resolution_Failed n \<Rightarrow> ''Address resolution failed for '' @ host @ '': '' @ resolve_text n
      | Connection_Failed n \<Rightarrow>
          socket_error_message windows explain 0 (''Connection to '' @ host @ '':'' @ to_dec (unat port)) (int n)
      | Call_Failed action n \<Rightarrow> socket_error_message windows explain (int n) action (- 1)
      | Closed_By_Remote \<Rightarrow> ''Remote endpoint closed the connection''
      | Incomplete_Datagram \<Rightarrow> ''UDP send was incomplete''
      | Payload_Too_Large \<Rightarrow> ''UDP payload exceeds 65,507 bytes''
      | Bad_Datagram_Count \<Rightarrow> ''UDP sendmmsg returned an invalid datagram count'')"

text \<open>\<open>security_error\<close> of \<open>schannel_transport.cpp\<close>: the status in upper-case hexadecimal digits.\<close>

fun to_hex :: "nat \<Rightarrow> string" where
  "to_hex n = (if n < 16 then [hex_digit n] else to_hex (n div 16) @ [hex_digit (n mod 16)])"

declare to_hex.simps [simp del]

definition security_error :: "string \<Rightarrow> u32 \<Rightarrow> string" where
  "security_error action status = action @ '' failed (0x'' @ to_hex (unat status) @ '')''"

subsection \<open>Handles\<close>

text \<open>\<open>release\<close> and the assignment from another handle; \<open>same\<close> is an assignment to itself.\<close>

definition handle_valid :: "socket_handle \<Rightarrow> bool" where
  "handle_valid h \<longleftrightarrow> h \<noteq> None"

definition release_handle :: "socket_handle \<Rightarrow> socket_handle \<times> socket_handle" where
  "release_handle h = (h, None)"

definition assign_handle ::
    "('a, 'w) socket_calls \<Rightarrow> bool \<Rightarrow> socket_handle \<Rightarrow> socket_handle \<Rightarrow> 'w
       \<Rightarrow> socket_handle \<times> socket_handle \<times> 'w" where
  "assign_handle os same target source w =
     (if same then (target, source, w)
      else
        let (fd, source') = release_handle source; (target', w') = reset_handle os fd target w
        in (target', source', w'))"

subsection \<open>Datagrams\<close>

text \<open>
  \<open>send_datagram\<close> on Windows, where \<open>configure_udp_stream\<close> has turned the reports of refused datagrams
  off, so that every error is one.
\<close>

definition windows_send_datagram ::
    "(string \<Rightarrow> 'w \<Rightarrow> io_result \<times> 'w) \<Rightarrow> string \<Rightarrow> 'w \<Rightarrow> (socket_error + unit) \<times> 'w" where
  "windows_send_datagram os payload w =
     (case os payload w of
        (Io_Error e, w') \<Rightarrow> (Inl (Call_Failed ''UDP send'' e), w')
      | (Io_Count n, w') \<Rightarrow> (if n \<noteq> length payload then Inl Incomplete_Datagram else Inr (), w'))"

definition windows_udp_send ::
    "(string \<Rightarrow> 'w \<Rightarrow> io_result \<times> 'w) \<Rightarrow> string \<Rightarrow> 'w \<Rightarrow> socket_error + send_result \<times> 'w" where
  "windows_udp_send os payload w =
     (if 65507 < length payload then Inl Payload_Too_Large
      else case windows_send_datagram os payload w of (Inl e, w') \<Rightarrow> Inl e | (Inr _, w') \<Rightarrow> Inr (Sent, w'))"

text \<open>\<open>send_batch\<close> where there is no call for several datagrams.\<close>

definition single_send_batch ::
    "(string \<Rightarrow> 'w \<Rightarrow> socket_error + send_result \<times> 'w) \<Rightarrow> string list \<Rightarrow> 'w \<Rightarrow> socket_error + send_result \<times> 'w" where
  "single_send_batch send payloads w =
     (if payloads = [] then Inr (Sent, w)
      else if \<exists>payload \<in> set payloads. 65507 < length payload then Inl Payload_Too_Large
      else default_send_batch send payloads w)"

subsection \<open>The Windows runtime\<close>

definition windows_worker_count :: "u32 \<Rightarrow> transport_protocol \<Rightarrow> u32" where
  "windows_worker_count hardware protocol =
     (let detected = max 1 hardware in
      if protocol = File then 1
      else if protocol = Udp then min detected (clamp ((detected + 3) div 4) 2 8)
      else clamp (if 2 < detected then detected - 1 else detected) 1 16)"

text \<open>\<open>TimerResolutionLease\<close>: whether the period was set, and the end of a lease.\<close>

definition acquire_timer :: "('w \<Rightarrow> bool \<times> 'w) \<Rightarrow> 'w \<Rightarrow> bool \<times> 'w" where
  "acquire_timer begin_period w = begin_period w"

definition end_timer :: "('w \<Rightarrow> 'w) \<Rightarrow> bool \<Rightarrow> 'w \<Rightarrow> 'w" where
  "end_timer end_period active w = (if active then end_period w else w)"

subsection \<open>Lemmas\<close>

lemma windows_worker_count_eq: "windows_worker_count = optimal_worker_count False"
  by (intro ext) (simp add: windows_worker_count_def optimal_worker_count_def Let_def)

lemma trim_line_end_prefix: "\<exists>t. s = trim_line_end s @ t \<and> set t \<subseteq> {CHR 0x0D, CHR 0x0A, CHR '' ''}"
proof (induction s rule: trim_line_end.induct)
  case (1 s)
  show ?case
  proof (cases "s \<noteq> [] \<and> (last s = CHR 0x0D \<or> last s = CHR 0x0A \<or> last s = CHR '' '')")
    case True
    from 1 [OF this] obtain t where t: "butlast s = trim_line_end (butlast s) @ t"
      "set t \<subseteq> {CHR 0x0D, CHR 0x0A, CHR '' ''}" by blast
    have "s = butlast s @ [last s]" using True by simp
    then have "s = trim_line_end (butlast s) @ t @ [last s]" using t(1) by (metis append.assoc)
    moreover have "trim_line_end s = trim_line_end (butlast s)" using True by (subst trim_line_end.simps) simp
    ultimately show ?thesis using t(2) True by (intro exI [of _ "t @ [last s]"]) auto
  next
    case False
    then have "trim_line_end s = s" by (subst trim_line_end.simps) (simp only: if_False)
    then show ?thesis by simp
  qed
qed

lemma security_error_says: "security_error action SEC_E_INCOMPLETE_MESSAGE = action @ '' failed (0x80090318)''"
  by (simp add: security_error_def SEC_E_INCOMPLETE_MESSAGE_def to_hex.simps hex_digit_def digit_char_numerals)

text \<open>An assignment closes the socket the target had, moves the other one over, and never closes that.\<close>

lemma assign_handle_ok:
  assumes "socket_law os opened" "opened w = others \<union> set_option target \<union> set_option source"
    "others \<inter> (set_option target \<union> set_option source) = {}" "set_option target \<inter> set_option source = {}"
    "assign_handle os False target source w = (target', source', w')"
  shows "target' = source \<and> source' = None \<and> opened w' = others \<union> set_option target'"
  using assms(2-5) socket_lawD(3) [OF assms(1)]
  by (cases target) (auto simp: assign_handle_def release_handle_def reset_handle_def)

text \<open>Datagrams: each payload is one, whole.\<close>

definition one_datagram_law :: "(string \<Rightarrow> 'w \<Rightarrow> io_result \<times> 'w) \<Rightarrow> ('w \<Rightarrow> string list) \<Rightarrow> bool" where
  "one_datagram_law os datagrams \<longleftrightarrow>
     (\<forall>p w n w'. os p w = (Io_Count n, w') \<longrightarrow> datagrams w' = datagrams w @ [take n p])"

lemma windows_udp_send_whole:
  "one_datagram_law os datagrams \<Longrightarrow> windows_udp_send os p w = Inr (r, w') \<Longrightarrow>
     r = Sent \<and> datagrams w' = datagrams w @ [p]"
  by (auto simp: windows_udp_send_def windows_send_datagram_def one_datagram_law_def
      split: if_splits prod.splits sum.splits io_result.splits)

lemma windows_batch_whole:
  assumes law: "one_datagram_law os datagrams"
  shows "single_send_batch (windows_udp_send os) payloads w = Inr (r, w') \<Longrightarrow>
    r = Sent \<and> datagrams w' = datagrams w @ payloads"
proof -
  have batch: "default_send_batch (windows_udp_send os) ps w = Inr (r, w') \<Longrightarrow>
      r = Sent \<and> datagrams w' = datagrams w @ ps" for ps w
  proof (induction ps arbitrary: w)
    case (Cons p ps)
    then obtain r1 w1 where s: "windows_udp_send os p w = Inr (r1, w1)"
      and rest: "(if r1 \<noteq> Sent then Inr (r1, w1) else default_send_batch (windows_udp_send os) ps w1) = Inr (r, w')"
      by (auto simp: result_simps)
    from windows_udp_send_whole [OF law s] rest Cons.IH [of w1] show ?case by simp
  qed simp
  show "single_send_batch (windows_udp_send os) payloads w = Inr (r, w') \<Longrightarrow>
    r = Sent \<and> datagrams w' = datagrams w @ payloads"
    using batch by (auto simp: single_send_batch_def split: if_splits)
qed

end
