(* ===== verification/Cli_Output.thy ===== *)
theory Cli_Output
  imports Gui_Text Runtime_Paths
begin

text \<open>
  What the command line program prints (\<open>src/src/presentation/cli_app.cpp\<close>), and its \<open>main\<close>
  (\<open>src/src/cli_main.cpp\<close>): the order in which the parts are set up, what ends it, and the code pages of
  the console of Windows, which are put back at the end.
\<close>

subsection \<open>Statistics\<close>

definition quoted_field :: "string \<Rightarrow> string \<Rightarrow> string" where
  "quoted_field name text' = (if text' \<noteq> [] then '' '' @ name @ ''='' @ [DQUOTE] @ text' @ [DQUOTE] else [])"

definition print_stats :: "transmission_stats \<Rightarrow> bool \<Rightarrow> string" where
  "print_stats stats final =
     (if final then ''result'' else ''status'')
     @ '' state='' @ state_name (ts_state stats)
     @ '' mode='' @ transmission_mode_name (ts_mode stats)
     @ '' workers='' @ to_dec (unat (ts_active_workers stats))
     @ '' udp_packetization='' @ udp_packetization_name (ts_packetization stats)
     @ '' messages='' @ to_dec (unat (ts_messages stats))
     @ '' datagrams='' @ to_dec (unat (ts_datagrams stats))
     @ '' bytes='' @ to_dec (unat (ts_bytes stats))
     @ '' errors='' @ to_dec (unat (ts_errors stats))
     @ '' elapsed='' @ print_fixed 2 (ts_elapsed stats) @ ''s''
     @ '' current_eps='' @ print_fixed 2 (ts_current_eps stats)
     @ '' average_eps='' @ print_fixed 2 (ts_average_eps stats)
     @ '' average_dps='' @ print_fixed 2 (ts_average_datagrams stats)
     @ quoted_field ''message'' (ts_status stats)
     @ quoted_field ''error'' (ts_last_error stats)
     @ [LF]"

subsection \<open>Help\<close>

definition print_help :: "string \<Rightarrow> string" where
  "print_help executable_name =
     concat (map (\<lambda>line. line @ [LF])
       [executable_name @ '' CLI'',
        [],
        bytes [0xEC, 0x82, 0xAC, 0xEC, 0x9A, 0xA9, 0xEB, 0xB2, 0x95] @ '':'',
        ''  '' @ executable_name @ '' list [--catalog PATH]'',
        ''  '' @ executable_name @ '' run (--all | --sample-id ID...) [OPTIONS]'',
        [],
        bytes [0xEC, 0xA3, 0xBC, 0xEC, 0x9A, 0x94] @ '' '' @ bytes [0xEC, 0x98, 0xB5, 0xEC, 0x85, 0x98] @ '':'',
        ''  --protocol file|udp|tcp|tls   '' @ bytes [0xEA, 0xB8, 0xB0, 0xEB, 0xB3, 0xB8, 0xEA, 0xB0, 0x92] @
     '': file'',
        ''  --all                         '' @ bytes [0xEC, 0xA0, 0x84, 0xEC, 0xB2, 0xB4] @ '' '' @ bytes [0xEC,
     0x83, 0x98, 0xED, 0x94, 0x8C, 0xEC, 0x9D, 0x84] @ '' '' @ bytes [0xEC, 0xA0, 0x84, 0xEC, 0x97, 0xAD] @
     '' Round-Robin'' @ bytes [0xEC, 0x9C, 0xBC, 0xEB, 0xA1, 0x9C] @ '' '' @ bytes [0xEC, 0x88, 0x9C, 0xED,
     0x99, 0x98],
        ''  --sample-id ID                '' @ bytes [0xEB, 0xB0, 0x98, 0xEB, 0xB3, 0xB5] @ '' '' @ bytes [0xEC,
     0xA7, 0x80, 0xEC, 0xA0, 0x95] @ '' '' @ bytes [0xEA, 0xB0, 0x80, 0xEB, 0x8A, 0xA5] @ '', --all'' @
     bytes [0xEA, 0xB3, 0xBC] @ '' '' @ bytes [0xEB, 0x8F, 0x99, 0xEC, 0x8B, 0x9C] @ '' '' @ bytes [0xEC, 0x82,
     0xAC, 0xEC, 0x9A, 0xA9] @ '' '' @ bytes [0xEB, 0xB6, 0x88, 0xEA, 0xB0, 0x80],
        ''  --host HOST --port PORT       '' @ bytes [0xEB, 0x84, 0xA4, 0xED, 0x8A, 0xB8, 0xEC, 0x9B, 0x8C, 0xED,
     0x81, 0xAC] @ '' '' @ bytes [0xEB, 0xAA, 0xA9, 0xEC, 0xA0, 0x81, 0xEC, 0xA7, 0x80],
        ''  --udp-integration deny|allow  UDP '' @ bytes [0xEA, 0xB0, 0x9C, 0xED, 0x96, 0x89] @ '' '' @
     bytes [0xED, 0x86, 0xB5, 0xED, 0x95, 0xA9] @ '' '' @ bytes [0xEC, 0xA0, 0x84, 0xEC, 0x86, 0xA1] @ '' '' @
     bytes [0xED, 0x97, 0x88, 0xEC, 0x9A, 0xA9] @ '' '' @ bytes [0xEC, 0x97, 0xAC, 0xEB, 0xB6, 0x80] @ '', '' @
     bytes [0xEA, 0xB8, 0xB0, 0xEB, 0xB3, 0xB8, 0xEA, 0xB0, 0x92] @ '': deny'',
        ''                                 allow'' @ bytes [0xEB, 0x8A, 0x94] @ '' '' @ bytes [0xEC, 0xB5, 0x9C,
     0xEB, 0x8C, 0x80] @ '' 60 KiB '' @ bytes [0xEB, 0x8D, 0xB0, 0xEC, 0x9D, 0xB4, 0xED, 0x84, 0xB0, 0xEA, 0xB7,
     0xB8, 0xEB, 0x9E, 0xA8, 0xEC, 0x9D, 0x84] @ '' 600 KiB '' @ bytes [0xEB, 0x8B, 0xA8, 0xEC, 0x9C, 0x84,
     0xEB, 0xA1, 0x9C] @ '' '' @ bytes [0xEC, 0xA0, 0x84, 0xEC, 0x86, 0xA1],
        ''  --mode sequential|parallel    '' @ bytes [0xEC, 0x88, 0x9C, 0xEC, 0xB0, 0xA8] @ '' '' @ bytes [0xEB,
     0x98, 0x90, 0xEB, 0x8A, 0x94] @ '' '' @ bytes [0xEC, 0x9E, 0x90, 0xEB, 0x8F, 0x99] @ '' '' @ bytes [0xEC,
     0xB5, 0x9C, 0xEC, 0xA0, 0x81, 0xED, 0x99, 0x94] @ '' '' @ bytes [0xEB, 0xB3, 0x91, 0xEB, 0xA0, 0xAC] @
     '' '' @ bytes [0xEC, 0xA0, 0x84, 0xEC, 0x86, 0xA1] @ '', '' @ bytes [0xEA, 0xB8, 0xB0, 0xEB, 0xB3, 0xB8,
     0xEA, 0xB0, 0x92] @ '': parallel'',
        ''  --eps N                       '' @ bytes [0xEB, 0xAA, 0xA9, 0xED, 0x91, 0x9C] @ '' EPS, 0'' @
     bytes [0xEC, 0x9D, 0x80] @ '' '' @ bytes [0xEB, 0xAC, 0xB4, 0xEC, 0xA0, 0x9C, 0xED, 0x95, 0x9C],
        ''  --duration SECONDS            '' @ bytes [0xEC, 0x8B, 0xA4, 0xED, 0x96, 0x89] @ '' '' @ bytes [0xEC,
     0x8B, 0x9C, 0xEA, 0xB0, 0x84] @ '', 0'' @ bytes [0xEC, 0x9D, 0x80] @ '' Ctrl+C'' @ bytes [0xEA, 0xB9, 0x8C,
     0xEC, 0xA7, 0x80] @ '' '' @ bytes [0xEC, 0x8B, 0xA4, 0xED, 0x96, 0x89],
        ''  --output-dir PATH             FILE '' @ bytes [0xEC, 0xB6, 0x9C, 0xEB, 0xA0, 0xA5] @ '' '' @
     bytes [0xEB, 0x94, 0x94, 0xEB, 0xA0, 0x89, 0xED, 0x84, 0xB0, 0xEB, 0xA6, 0xAC],
        ''  --file-max-count N            FILE '' @ bytes [0xEC, 0x83, 0x9D, 0xEC, 0x84, 0xB1] @ '' '' @
     bytes [0xEA, 0xB0, 0x9C, 0xEC, 0x88, 0x98] @ '' '' @ bytes [0xEC, 0xA0, 0x9C, 0xED, 0x95, 0x9C],
        ''  --file-max-mib N              FILE '' @ bytes [0xEC, 0xB4, 0x9D] @ '' '' @ bytes [0xEC, 0x83, 0x9D,
     0xEC, 0x84, 0xB1, 0xEB, 0x9F, 0x89] @ '' '' @ bytes [0xEC, 0xA0, 0x9C, 0xED, 0x95, 0x9C],
        ''  --file-max-duration SECONDS   FILE '' @ bytes [0xEC, 0x83, 0x9D, 0xEC, 0x84, 0xB1] @ '' '' @
     bytes [0xEC, 0x8B, 0x9C, 0xEA, 0xB0, 0x84] @ '' '' @ bytes [0xEC, 0xA0, 0x9C, 0xED, 0x95, 0x9C],
        ''  --framing newline|octet       TCP/TLS '' @ bytes [0xED, 0x94, 0x84, 0xEB, 0xA0, 0x88, 0xEC, 0x9D, 0xB4,
     0xEB, 0xB0, 0x8D],
        ''  --tls-server-name NAME        TLS '' @ bytes [0xEC, 0x9D, 0xB8, 0xEC, 0xA6, 0x9D, 0xEC, 0x84, 0x9C] @
     '' '' @ bytes [0xEC, 0x84, 0x9C, 0xEB, 0xB2, 0x84] @ '' '' @ bytes [0xEC, 0x9D, 0xB4, 0xEB, 0xA6, 0x84],
        ''  --insecure                    TLS '' @ bytes [0xEC, 0x9D, 0xB8, 0xEC, 0xA6, 0x9D, 0xEC, 0x84, 0x9C] @
     '' '' @ bytes [0xEA, 0xB2, 0x80, 0xEC, 0xA6, 0x9D] @ '' '' @ bytes [0xEB, 0xB9, 0x84, 0xED, 0x99, 0x9C,
     0xEC, 0x84, 0xB1, 0xED, 0x99, 0x94],
        ''  --source-ip IP --destination-ip IP'',
        ''  --offset-minutes N            '' @ bytes [0xED, 0x98, 0x84, 0xEC, 0x9E, 0xAC] @ '' '' @ bytes [0xEC,
     0x8B, 0x9C, 0xEA, 0xB0, 0x81] @ '' '' @ bytes [0xEC, 0x98, 0xA4, 0xED, 0x94, 0x84, 0xEC, 0x85, 0x8B],
        ''  --from yyyy-MM-dd --to yyyy-MM-dd'',
        ''  --catalog PATH --status-interval SECONDS --quiet'',
        [],
        bytes [0xEC, 0x98, 0x88, 0xEC, 0x8B, 0x9C] @ '':'',
        ''  '' @ executable_name @ '' list'',
        ''  '' @ executable_name
          @ '' run --protocol file --sample-id 0001 --file-max-count 100 --output-dir ./generated'',
        ''  '' @ executable_name
          @ '' run --all --protocol udp --host 192.0.2.10 --port 514 --udp-integration allow''
          @ '' --mode parallel --eps 1000 --duration 60''])"

subsection \<open>The main function\<close>

text \<open>The name of the program in the help, and the arguments; a missing \<open>argv[0]\<close> is \<open>None\<close>.\<close>

definition executable_name :: "string option list \<Rightarrow> string" where
  "executable_name argv =
     (case argv of
        Some path # _ \<Rightarrow> if path_filename path \<noteq> [] then path_filename path else ''LogGeneratorCli''
      | _ \<Rightarrow> ''LogGeneratorCli'')"

definition cli_arguments :: "string list \<Rightarrow> string list" where
  "cli_arguments argv = drop 1 argv"

text \<open>
  \<open>main\<close> from the paths on: each step may end in an exception, which is its text; \<open>run\<close> is the exit code
  of \<open>CliApp::run\<close>, which lets no exception out. The result is the exit code and what goes to the error
  stream besides.
\<close>

definition cli_main ::
    "string + runtime_paths \<Rightarrow> (runtime_paths \<Rightarrow> string + unit) \<Rightarrow> (runtime_paths \<Rightarrow> string + unit)
       \<Rightarrow> (runtime_paths \<Rightarrow> int) \<Rightarrow> int \<times> string" where
  "cli_main paths open_logger initialize_catalog run =
     (case bind_result paths (\<lambda>p. bind_result (open_logger p) (\<lambda>_. bind_result (initialize_catalog p) (\<lambda>_. Inr (run p)))) of
        Inl e \<Rightarrow> (1, ''LogGeneratorCli: '' @ e @ [LF])
      | Inr code' \<Rightarrow> (code', []))"

text \<open>
  \<open>main\<close> of the window (\<open>src/src/main.cpp\<close>): an exception after the logger has been opened is logged and
  shown as it is, one before is shown as a failure to initialize. The result has what was logged last.
\<close>

definition gui_main ::
    "string + runtime_paths \<Rightarrow> (runtime_paths \<Rightarrow> string + unit) \<Rightarrow> (runtime_paths \<Rightarrow> string + unit)
       \<Rightarrow> (runtime_paths \<Rightarrow> string + int) \<Rightarrow> int \<times> string option \<times> string option" where
  "gui_main paths open_logger initialize_catalog run =
     (case bind_result paths (\<lambda>p. bind_result (open_logger p) (\<lambda>_. Inr p)) of
        Inl e \<Rightarrow> (1, None, Some (''Application data initialization failed: '' @ e))
      | Inr p \<Rightarrow>
          (case bind_result (initialize_catalog p) (\<lambda>_. run p) of
             Inl e \<Rightarrow> (1, Some e, Some e)
           | Inr code' \<Rightarrow> (code', Some ''LogGenerator shutdown completed'', None)))"

subsection \<open>The console of Windows\<close>

text \<open>
  The code pages of the console, which streams are a console, and whether the system lets them be set;
  0 is a page that could not be read.
\<close>

record console =
  cn_input :: nat
  cn_output :: nat

record console_calls =
  cc_stdin_console :: bool
  cc_stdout_console :: bool
  cc_stderr_console :: bool
  cc_set_input :: bool
  cc_set_output :: bool

record console_guard =
  cg_input_page :: nat
  cg_output_page :: nat
  cg_input_changed :: bool
  cg_output_changed :: bool

definition CP_UTF8 :: nat where "CP_UTF8 = 65001"

definition enter_console :: "console_calls \<Rightarrow> console \<Rightarrow> console_guard \<times> console" where
  "enter_console os c =
     (let g = \<lparr>cg_input_page = 0, cg_output_page = 0, cg_input_changed = False, cg_output_changed = False\<rparr>;
          (g1, c1) =
            (if cc_stdin_console os then
               let changed = cn_input c \<noteq> 0 \<and> cn_input c \<noteq> CP_UTF8 \<and> cc_set_input os in
               (g\<lparr>cg_input_page := cn_input c, cg_input_changed := changed\<rparr>,
                if changed then c\<lparr>cn_input := CP_UTF8\<rparr> else c)
             else (g, c))
      in if cc_stdout_console os \<or> cc_stderr_console os then
           let changed = cn_output c1 \<noteq> 0 \<and> cn_output c1 \<noteq> CP_UTF8 \<and> cc_set_output os in
           (g1\<lparr>cg_output_page := cn_output c1, cg_output_changed := changed\<rparr>,
            if changed then c1\<lparr>cn_output := CP_UTF8\<rparr> else c1)
         else (g1, c1))"

definition leave_console :: "console_guard \<Rightarrow> console \<Rightarrow> console" where
  "leave_console g c =
     (let c1 = (if cg_output_changed g then c\<lparr>cn_output := cg_output_page g\<rparr> else c)
      in if cg_input_changed g then c1\<lparr>cn_input := cg_input_page g\<rparr> else c1)"

subsection \<open>Lemmas\<close>

text \<open>Whatever could be set, the console ends as it was.\<close>

lemma console_restored:
  "enter_console os c = (g, c') \<Longrightarrow> leave_console g c' = c"
  by (auto simp: enter_console_def leave_console_def Let_def split: if_splits)

lemma executable_name_shown: "executable_name argv \<noteq> []"
  by (auto simp: executable_name_def split: list.splits option.splits)

text \<open>The exit code of a failure in the window is 1, and the logger is told of it once there is one.\<close>

lemma gui_main_fails:
  assumes "gui_main paths open_logger initialize_catalog run = (code', logged, Some shown)"
  shows "code' = 1 \<and> (\<forall>p. paths = Inr p \<and> open_logger p = Inr () \<longrightarrow> logged = Some shown)"
  using assms by (auto simp: gui_main_def split: sum.splits)

lemma print_fixed_one_line: "LF \<notin> set (print_fixed n x)"
proof -
  have d: "LF \<notin> set s" if "list_all is_digit s" for s
    using that by (auto simp: list_all_iff is_digit_def)
  have "LF \<notin> set (zero_pad n (to_dec k))" for k
    using d zero_pad_digits to_dec_digits by blast
  then show ?thesis using d [OF to_dec_digits] by (auto simp: print_fixed_def Let_def)
qed

end
