(* ===== verification/Gui_Display.thy ===== *)
theory Gui_Display
  imports Gui_Steps
begin

text \<open>
  What the window shows, and how large (\<open>app.cpp\<close> and \<open>responsive_layout.hpp\<close> in
  \<open>src/src/presentation\<close>): the layout for a size, the scale of the user interface, the cached statistics
  and their texts, and the lines of text that depend on the state. Floats are reals, their constants as
  they are written.
\<close>

subsection \<open>Layout\<close>

datatype responsive_size = Compact_Size | Medium_Size | Wide_Size

record responsive_layout =
  rl_size :: responsive_size
  rl_metric_columns :: int
  rl_configuration_columns :: int
  rl_offset_columns :: int
  rl_inline_header_status :: bool
  rl_inline_header_subtitle :: bool
  rl_fill_configuration_height :: bool
  rl_strong_metric_weight :: bool
  rl_title_scale :: real
  rl_metric_value_scale :: real

definition responsive_visual_scale :: "real \<Rightarrow> real \<Rightarrow> real \<Rightarrow> real" where
  "responsive_visual_scale viewport_width viewport_height dpi_scale =
     (let safe_dpi = (if 0.5 < dpi_scale then dpi_scale else 1);
          logical_width = viewport_width / safe_dpi; logical_height = viewport_height / safe_dpi
      in if 2200 \<le> logical_width \<and> 1250 \<le> logical_height then 1.10
         else if 1600 \<le> logical_width \<and> 950 \<le> logical_height then 1.04
         else if logical_width \<le> 1300 \<or> logical_height \<le> 760 then 0.94
         else 1)"

definition layout_for :: "real \<Rightarrow> real \<Rightarrow> real \<Rightarrow> responsive_layout" where
  "layout_for available_width available_height scale =
     (let safe_scale = (if 0.5 < scale then scale else 1);
          logical_width = available_width / safe_scale; logical_height = available_height / safe_scale
      in if 980 \<le> logical_width then
           \<lparr>rl_size = Wide_Size, rl_metric_columns = 4, rl_configuration_columns = 2, rl_offset_columns = 4,
            rl_inline_header_status = True, rl_inline_header_subtitle = True,
            rl_fill_configuration_height = True, rl_strong_metric_weight = (760 \<le> logical_height),
            rl_title_scale = (if 900 \<le> logical_height then 1.5 else 1.4),
            rl_metric_value_scale = (if 900 \<le> logical_height then 1.4 else 1.28)\<rparr>
         else if 560 \<le> logical_width then
           \<lparr>rl_size = Medium_Size, rl_metric_columns = 2, rl_configuration_columns = 1, rl_offset_columns = 4,
            rl_inline_header_status = False, rl_inline_header_subtitle = True,
            rl_fill_configuration_height = False, rl_strong_metric_weight = (800 \<le> logical_height),
            rl_title_scale = 1.32, rl_metric_value_scale = 1.24\<rparr>
         else
           \<lparr>rl_size = Compact_Size, rl_metric_columns = 1, rl_configuration_columns = 1, rl_offset_columns = 2,
            rl_inline_header_status = False, rl_inline_header_subtitle = False,
            rl_fill_configuration_height = False, rl_strong_metric_weight = False,
            rl_title_scale = 1.18, rl_metric_value_scale = 1.12\<rparr>)"

subsection \<open>The scale\<close>

definition clamp_real :: "real \<Rightarrow> real \<Rightarrow> real \<Rightarrow> real" where
  "clamp_real x low high = (if x < low then low else if high < x then high else x)"

definition windows_dpi_scale :: "u32 \<Rightarrow> real" where
  "windows_dpi_scale detected = clamp_real (real (unat (if detected = 0 then 96 else detected)) / 96) 1 4"

definition content_dpi_scale :: "real \<Rightarrow> real \<Rightarrow> real" where
  "content_dpi_scale horizontal vertical = clamp_real (max horizontal vertical) 1 4"

record ui_scales =
  us_ui :: real
  us_dpi :: real
  us_visual :: real

definition initial_scales :: ui_scales where
  "initial_scales = \<lparr>us_ui = 1, us_dpi = 1, us_visual = 1\<rparr>"

text \<open>\<open>update_ui_scale\<close> for a viewport and the scale of the display; \<open>apple\<close> is the branch for macOS. The
  second component says whether the scale changed, and with it the theme.\<close>

definition next_scale :: "bool \<Rightarrow> real \<Rightarrow> real \<Rightarrow> real \<Rightarrow> real" where
  "next_scale apple width height dpi =
     (let visual = responsive_visual_scale width height dpi in if apple then visual else dpi * visual)"

definition update_ui_scale :: "bool \<Rightarrow> real \<Rightarrow> real \<Rightarrow> real \<Rightarrow> ui_scales \<Rightarrow> ui_scales \<times> bool" where
  "update_ui_scale apple width height dpi s =
     (if \<bar>next_scale apple width height dpi - us_ui s\<bar> < 0.01 then (s, False)
      else (\<lparr>us_ui = next_scale apple width height dpi, us_dpi = dpi,
             us_visual = responsive_visual_scale width height dpi\<rparr>, True))"

subsection \<open>Statistics\<close>

record display =
  di_stats :: transmission_stats
  di_current_eps :: string
  di_average_eps :: string
  di_total_messages :: string
  di_total_bytes :: string
  di_next_refresh :: int

text \<open>\<open>refresh_stats\<close>, with the snapshot the service would give; times are milliseconds.\<close>

definition refresh_stats :: "int \<Rightarrow> transmission_stats \<Rightarrow> display \<Rightarrow> display" where
  "refresh_stats now stats d =
     (if now < di_next_refresh d then d
      else \<lparr>di_stats = stats,
            di_current_eps = format_number (ts_current_eps stats),
            di_average_eps = format_number (ts_average_eps stats),
            di_total_messages = format_number (real (unat (ts_messages stats))),
            di_total_bytes = format_bytes (ts_bytes stats),
            di_next_refresh = now + (if is_active (ts_state stats) then 100 else 250)\<rparr>)"

text \<open>The start and the stop button make the next refresh due.\<close>

definition refresh_due :: "display \<Rightarrow> display" where
  "refresh_due d = d\<lparr>di_next_refresh := 0\<rparr>"

definition swap_interval :: "display \<Rightarrow> nat" where
  "swap_interval d = (if is_active (ts_state (di_stats d)) then 2 else 1)"

text \<open>The line under the metrics.\<close>

definition datagram_line :: "settings \<Rightarrow> transmission_stats \<Rightarrow> string option" where
  "datagram_line s stats =
     (if protocol_at (st_protocol_index s) = Udp \<and> 0 < ts_datagrams stats then
        Some (''UDP '' @ bytes [0xED, 0x8C, 0xA8, 0xED, 0x82, 0xB7, 0xED, 0x99, 0x94] @ '': '' @ udp_packetization_name (ts_packetization stats)
          @ '' | '' @ bytes [0xEC, 0xB4, 0x9D] @ '' '' @ bytes [0xEB, 0x8D, 0xB0, 0xEC, 0x9D, 0xB4, 0xED, 0x84, 0xB0,
     0xEA, 0xB7, 0xB8, 0xEB, 0x9E, 0xA8] @ '' '' @ to_dec (unat (ts_datagrams stats))
          @ '' | '' @ bytes [0xED, 0x8F, 0x89, 0xEA, 0xB7, 0xA0] @ '' '' @ print_fixed 0 (ts_average_datagrams stats) @ '' DPS'')
      else None)"

subsection \<open>The notice\<close>

datatype notice = Error_Notice string | Good_Notice string | Hint string

definition has_error :: "transmission_stats \<Rightarrow> window \<Rightarrow> bool" where
  "has_error stats w \<longleftrightarrow> ts_last_error stats \<noteq> [] \<or> wi_error w \<noteq> []"

definition file_hint :: string where
  "file_hint = ''FILE'' @ bytes [0xEC, 0x9D, 0x80] @ '' generated '' @ bytes [0xED, 0x8F, 0xB4, 0xEB, 0x8D, 0x94, 0xEC,
     0x97, 0x90] @ '' '' @ bytes [0xEB, 0xA1, 0x9C, 0xEA, 0xB7, 0xB8] @ '' 1'' @ bytes [0xEA, 0xB0, 0x9C, 0xEB,
     0x8B, 0xB9] @ '' '' @ bytes [0xED, 0x8C, 0x8C, 0xEC, 0x9D, 0xBC] @ '' 1'' @ bytes [0xEA, 0xB0, 0x9C, 0xEB,
     0xA1, 0x9C] @ '' '' @ bytes [0xEC, 0xA0, 0x80, 0xEC, 0x9E, 0xA5, 0xED, 0x95, 0x98, 0xEB, 0xA9, 0xB0] @
     '' '' @ bytes [0xEC, 0x84, 0xA4, 0xEC, 0xA0, 0x95, 0xED, 0x95, 0x9C] @ '' '' @ bytes [0xEC, 0x95, 0x88,
     0xEC, 0xA0, 0x84] @ '' '' @ bytes [0xEC, 0xA0, 0x9C, 0xED, 0x95, 0x9C, 0xEC, 0x97, 0x90] @ '' '' @
     bytes [0xEB, 0x8F, 0x84, 0xEB, 0x8B, 0xAC, 0xED, 0x95, 0x98, 0xEB, 0xA9, 0xB4] @ '' '' @ bytes [0xEC, 0xA0,
     0x95, 0xEC, 0x83, 0x81] @ '' '' @ bytes [0xEC, 0xA2, 0x85, 0xEB, 0xA3, 0x8C, 0xED, 0x95, 0xA9, 0xEB, 0x8B,
     0x88, 0xEB, 0x8B, 0xA4] @ ''.''"

definition packed_hint :: string where
  "packed_hint =
     ''UDP '' @ bytes [0xED, 0x86, 0xB5, 0xED, 0x95, 0xA9] @ '' '' @ bytes [0xEC, 0xA0, 0x84, 0xEC, 0x86, 0xA1,
     0xEC, 0x9D, 0x80] @ '' '' @ bytes [0xEB, 0xA1, 0x9C, 0xEA, 0xB7, 0xB8, 0xEB, 0xA5, 0xBC] @ '' '' @
     bytes [0xEA, 0xB0, 0x9C, 0xED, 0x96, 0x89, 0xEC, 0x9C, 0xBC, 0xEB, 0xA1, 0x9C] @ '' '' @ bytes [0xEA, 0xB5,
     0xAC, 0xEB, 0xB6, 0x84, 0xED, 0x95, 0xB4] @ '' '' @ bytes [0xEC, 0xB5, 0x9C, 0xEB, 0x8C, 0x80] @
     '' 60 KiB '' @ bytes [0xEB, 0x8D, 0xB0, 0xEC, 0x9D, 0xB4, 0xED, 0x84, 0xB0, 0xEA, 0xB7, 0xB8, 0xEB, 0x9E,
     0xA8, 0xEC, 0x9C, 0xBC, 0xEB, 0xA1, 0x9C] @ '' '' @ bytes [0xEA, 0xB5, 0xAC, 0xEC, 0x84, 0xB1, 0xED, 0x95,
     0x98, 0xEA, 0xB3, 0xA0] @ '', '' @ bytes [0xEC, 0x97, 0xAC, 0xEB, 0x9F, 0xAC] @ '' '' @ bytes [0xEB, 0x8D,
     0xB0, 0xEC, 0x9D, 0xB4, 0xED, 0x84, 0xB0, 0xEA, 0xB7, 0xB8, 0xEB, 0x9E, 0xA8, 0xEC, 0x9D, 0x84] @ '' '' @
     bytes [0xEC, 0xB5, 0x9C, 0xEB, 0x8C, 0x80] @ '' 600 KiB '' @ bytes [0xEC, 0x9E, 0x91, 0xEC, 0x97, 0x85] @
     '' '' @ bytes [0xEB, 0x8B, 0xA8, 0xEC, 0x9C, 0x84, 0xEB, 0xA1, 0x9C] @ '' '' @ bytes [0xEC, 0xA0, 0x84,
     0xEC, 0x86, 0xA1, 0xED, 0x95, 0xA9, 0xEB, 0x8B, 0x88, 0xEB, 0x8B, 0xA4] @ ''. ''
     @ bytes [0xEC, 0x88, 0x98, 0xEC, 0x8B, 0xA0, 0xEA, 0xB8, 0xB0, 0xEB, 0x8A, 0x94] @ '' '' @ bytes [0xEB, 0x8D,
     0xB0, 0xEC, 0x9D, 0xB4, 0xED, 0x84, 0xB0, 0xEA, 0xB7, 0xB8, 0xEB, 0x9E, 0xA8] @ '' '' @ bytes [0xEB, 0x82,
     0xB4, 0xEB, 0xB6, 0x80] @ '' '' @ bytes [0xEA, 0xB0, 0x9C, 0xED, 0x96, 0x89] @ '' '' @ bytes [0xEB, 0xB6,
     0x84, 0xEB, 0xA6, 0xAC, 0xEB, 0xA5, 0xBC] @ '' '' @ bytes [0xEC, 0xA7, 0x80, 0xEC, 0x9B, 0x90, 0xED, 0x95,
     0xB4, 0xEC, 0x95, 0xBC] @ '' '' @ bytes [0xED, 0x95, 0xA9, 0xEB, 0x8B, 0x88, 0xEB, 0x8B, 0xA4] @ ''. '' @
     bytes [0xEC, 0x9D, 0xBC, 0xEB, 0xB0, 0x98] @ '' MTU '' @ bytes [0xEB, 0x84, 0xA4, 0xED, 0x8A, 0xB8, 0xEC,
     0x9B, 0x8C, 0xED, 0x81, 0xAC, 0xEC, 0x97, 0x90, 0xEC, 0x84, 0x9C, 0xEB, 0x8A, 0x94] @ '' IP '' @
     bytes [0xEB, 0x8B, 0xA8, 0xED, 0x8E, 0xB8, 0xED, 0x99, 0x94, 0xEA, 0xB0, 0x80] @ '' '' @ bytes [0xEB, 0xB0,
     0x9C, 0xEC, 0x83, 0x9D, 0xED, 0x95, 0x98, 0xEB, 0xAF, 0x80, 0xEB, 0xA1, 0x9C] @ '' ''
     @ ''loopback, jumbo frame '' @ bytes [0xEB, 0x98, 0x90, 0xEB, 0x8A, 0x94] @ '' '' @ bytes [0xEC, 0xB6, 0xA9,
     0xEB, 0xB6, 0x84, 0xED, 0x95, 0x9C] @ '' '' @ bytes [0xEB, 0x8C, 0x80, 0xEC, 0x97, 0xAD, 0xED, 0x8F, 0xAD,
     0xEC, 0x9D, 0x98] @ '' '' @ bytes [0xEC, 0xA0, 0x84, 0xEC, 0x9A, 0xA9, 0xEB, 0xA7, 0x9D, 0xEC, 0x97, 0x90,
     0xEC, 0x84, 0x9C] @ '' '' @ bytes [0xEC, 0x82, 0xAC, 0xEC, 0x9A, 0xA9, 0xED, 0x95, 0x98, 0xEC, 0x84, 0xB8,
     0xEC, 0x9A, 0x94] @ ''.''"

definition datagram_hint :: string where
  "datagram_hint =
     ''UDP '' @ bytes [0xED, 0x86, 0xB5, 0xED, 0x95, 0xA9] @ '' '' @ bytes [0xEC, 0xA0, 0x84, 0xEC, 0x86,
     0xA1] @ '' '' @ bytes [0xEB, 0xB6, 0x88, 0xEA, 0xB0, 0x80, 0xEB, 0x8A, 0x94] @ '' '' @ bytes [0xEB, 0xA1,
     0x9C, 0xEA, 0xB7, 0xB8] @ '' 1'' @ bytes [0xEA, 0xB0, 0x9C, 0xEB, 0xA5, 0xBC] @ '' '' @ bytes [0xEB, 0x8D,
     0xB0, 0xEC, 0x9D, 0xB4, 0xED, 0x84, 0xB0, 0xEA, 0xB7, 0xB8, 0xEB, 0x9E, 0xA8] @ '' 1'' @ bytes [0xEA, 0xB0,
     0x9C, 0xEB, 0xA1, 0x9C] @ '' '' @ bytes [0xEB, 0xB3, 0xB4, 0xEB, 0x83, 0x85, 0xEB, 0x8B, 0x88, 0xEB, 0x8B,
     0xA4] @ ''. '' @ bytes [0xED, 0x86, 0xB5, 0xEA, 0xB3, 0x84, 0xEB, 0x8A, 0x94] @ '' '' @ bytes [0xEB, 0xA1,
     0x9C, 0xEC, 0xBB, 0xAC] @ '' '' @ bytes [0xEC, 0x86, 0x8C, 0xEC, 0xBC, 0x93] @ '' '' @ bytes [0xEC, 0xA0,
     0x84, 0xEC, 0x86, 0xA1] @ '' '' @ bytes [0xEC, 0x99, 0x84, 0xEB, 0xA3, 0x8C] @ '' '' @ bytes [0xEA, 0xB8,
     0xB0, 0xEC, 0xA4, 0x80, 0xEC, 0x9D, 0xB4, 0xEB, 0xA9, 0xB0] @ '' ''
     @ bytes [0xEB, 0xB9, 0x84, 0xEB, 0x8F, 0x99, 0xEA, 0xB8, 0xB0] @ '' ICMP '' @ bytes [0xED, 0x8F, 0xAC, 0xED,
     0x8A, 0xB8] @ '' '' @ bytes [0xEA, 0xB1, 0xB0, 0xEB, 0xB6, 0x80, 0xEB, 0x8A, 0x94] @ '' '' @ bytes [0xEC,
     0x8B, 0xA4, 0xED, 0x8C, 0xA8, 0xEB, 0xA1, 0x9C] @ '' '' @ bytes [0xEC, 0xB2, 0x98, 0xEB, 0xA6, 0xAC, 0xED,
     0x95, 0x98, 0xEC, 0xA7, 0x80] @ '' '' @ bytes [0xEC, 0x95, 0x8A, 0xEC, 0x8A, 0xB5, 0xEB, 0x8B, 0x88, 0xEB,
     0x8B, 0xA4] @ ''.''"

definition stream_hint :: string where
  "stream_hint = ''TCP/TLS'' @ bytes [0xEB, 0x8A, 0x94] @ '' '' @ bytes [0xEC, 0x97, 0xAC, 0xEB, 0x9F, 0xAC] @ '' '' @
     bytes [0xEB, 0xA1, 0x9C, 0xEA, 0xB7, 0xB8, 0xEB, 0xA5, 0xBC] @ '' '' @ bytes [0xEB, 0xAC, 0xB6, 0xEC, 0x96,
     0xB4] @ '' '' @ bytes [0xEC, 0x8A, 0xA4, 0xED, 0x8A, 0xB8, 0xEB, 0xA6, 0xBC, 0xEC, 0x9C, 0xBC, 0xEB, 0xA1,
     0x9C] @ '' '' @ bytes [0xEC, 0xA0, 0x84, 0xEC, 0x86, 0xA1, 0xED, 0x95, 0x98, 0xEB, 0xA9, 0xB0] @ '' '' @
     bytes [0xEC, 0x84, 0xA0, 0xED, 0x83, 0x9D, 0xED, 0x95, 0x9C] @ '' '' @ bytes [0xED, 0x94, 0x84, 0xEB, 0xA0,
     0x88, 0xEC, 0x9D, 0xB4, 0xEB, 0xB0, 0x8D, 0xEC, 0x9D, 0x84] @ '' '' @ bytes [0xEC, 0xA0, 0x81, 0xEC, 0x9A,
     0xA9, 0xED, 0x95, 0xA9, 0xEB, 0x8B, 0x88, 0xEB, 0x8B, 0xA4] @ ''.''"

definition configuration_notice :: "transmission_stats \<Rightarrow> window \<Rightarrow> notice" where
  "configuration_notice stats w =
     (let s = wi_settings w; protocol = protocol_at (st_protocol_index s) in
      if ts_last_error stats \<noteq> [] then Error_Notice (ts_last_error stats)
      else if wi_error w \<noteq> [] then Error_Notice (wi_error w)
      else if wi_notice w \<noteq> [] then Good_Notice (wi_notice w)
      else if ts_status stats \<noteq> [] then Good_Notice (ts_status stats)
      else if protocol = File then Hint file_hint
      else if protocol = Udp \<and> st_udp_integration_index s = 1 then Hint packed_hint
      else if protocol = Udp then Hint datagram_hint
      else Hint stream_hint)"

text \<open>The line under the choice of the transmission mode.\<close>

definition mode_line :: "settings \<Rightarrow> transmission_stats \<Rightarrow> string" where
  "mode_line s stats =
     (let protocol = protocol_at (st_protocol_index s) in
      if protocol = File then ''FILE'' @ bytes [0xEC, 0x9D, 0x80] @ '' '' @ bytes [0xEC, 0x97, 0xAC, 0xEB, 0x9F, 0xAC] @ '' '' @
     bytes [0xEB, 0xA1, 0x9C, 0xEA, 0xB7, 0xB8, 0xEB, 0xA5, 0xBC] @ '' '' @ bytes [0xEB, 0xAC, 0xB6, 0xEC, 0x96,
     0xB4] @ '' '' @ bytes [0xEC, 0x88, 0x9C, 0xEC, 0xB0, 0xA8] @ '' '' @ bytes [0xEA, 0xB8, 0xB0, 0xEB, 0xA1,
     0x9D, 0xED, 0x95, 0x98, 0xEB, 0xAF, 0x80, 0xEB, 0xA1, 0x9C] @ '' '' @ bytes [0xEC, 0x88, 0x9C, 0xEC, 0xB0,
     0xA8] @ '' '' @ bytes [0xEC, 0xA0, 0x84, 0xEC, 0x86, 0xA1, 0xEC, 0x9C, 0xBC, 0xEB, 0xA1, 0x9C] @ '' '' @
     bytes [0xEA, 0xB3, 0xA0, 0xEC, 0xA0, 0x95, 0xEB, 0x90, 0xA9, 0xEB, 0x8B, 0x88, 0xEB, 0x8B, 0xA4] @ ''.''
      else if mode_at (st_transmission_mode_index s) = Sequential
      then ''1'' @ bytes [0xEA, 0xB0, 0x9C, 0xEC, 0x9D, 0x98] @ '' '' @ bytes [0xEC, 0x86, 0xA1, 0xEC, 0x8B, 0xA0] @
     '' Worker'' @ bytes [0xEB, 0xA1, 0x9C] @ '' '' @ bytes [0xEB, 0xA1, 0x9C, 0xEA, 0xB7, 0xB8] @ '' '' @
     bytes [0xEC, 0x88, 0x9C, 0xEC, 0x84, 0x9C, 0xEB, 0xA5, 0xBC] @ '' '' @ bytes [0xEC, 0x9C, 0xA0, 0xEC, 0xA7,
     0x80, 0xED, 0x95, 0xB4] @ '' '' @ bytes [0xEC, 0xA0, 0x84, 0xEC, 0x86, 0xA1, 0xED, 0x95, 0xA9, 0xEB, 0x8B,
     0x88, 0xEB, 0x8B, 0xA4] @ ''.''
      else if protocol = Udp \<and> st_udp_integration_index s = 1
      then ''Worker '' @ bytes [0xEC, 0x88, 0x98, 0xEB, 0xA5, 0xBC] @ '' '' @ bytes [0xEC, 0x9E, 0x90, 0xEB, 0x8F,
     0x99] @ '' '' @ bytes [0xEC, 0xB5, 0x9C, 0xEC, 0xA0, 0x81, 0xED, 0x99, 0x94, 0xED, 0x95, 0x98, 0xEA, 0xB3,
     0xA0] @ '' UDP '' @ bytes [0xEA, 0xB0, 0x9C, 0xED, 0x96, 0x89] @ '' '' @ bytes [0xED, 0x86, 0xB5, 0xED,
     0x95, 0xA9] @ '' '' @ bytes [0xEC, 0xA0, 0x84, 0xEC, 0x86, 0xA1, 0xEC, 0x9D, 0x84] @ '' '' @ bytes [0xEC,
     0xA0, 0x81, 0xEC, 0x9A, 0xA9, 0xED, 0x95, 0xA9, 0xEB, 0x8B, 0x88, 0xEB, 0x8B, 0xA4] @ ''.''
      else if is_active (ts_state stats) \<and> 0 < ts_active_workers stats
      then bytes [0xEC, 0x9E, 0x90, 0xEB, 0x8F, 0x99] @ '' '' @ bytes [0xEC, 0x84, 0xA0, 0xED, 0x83, 0x9D] @
     '' Worker: '' @ to_dec (unat (ts_active_workers stats))
      else ''OS, '' @ bytes [0xED, 0x94, 0x84, 0xEB, 0xA1, 0x9C, 0xED, 0x86, 0xA0, 0xEC, 0xBD, 0x9C] @ '', CPU '' @
     bytes [0xED, 0x8A, 0xB9, 0xEC, 0x84, 0xB1, 0xEC, 0x97, 0x90] @ '' '' @ bytes [0xEB, 0xA7, 0x9E, 0xEB, 0x8A,
     0x94] @ '' Worker '' @ bytes [0xEC, 0x88, 0x98, 0xEB, 0xA5, 0xBC] @ '' '' @ bytes [0xEC, 0x8B, 0xA4, 0xED,
     0x96, 0x89] @ '' '' @ bytes [0xEC, 0x8B, 0x9C] @ '' '' @ bytes [0xEC, 0x9E, 0x90, 0xEB, 0x8F, 0x99] @
     '' '' @ bytes [0xEC, 0x84, 0xA0, 0xED, 0x83, 0x9D, 0xED, 0x95, 0xA9, 0xEB, 0x8B, 0x88, 0xEB, 0x8B, 0xA4] @
     ''.'')"

subsection \<open>The shown template\<close>

definition recognized_line :: "log_template_analysis \<Rightarrow> string" where
  "recognized_line a =
     bytes [0xEC, 0x8B, 0x9C, 0xEA, 0xB0, 0x84] @ '' '' @ bytes [0xED, 0x86, 0xA0, 0xED, 0x81, 0xB0] @ '' '' @ to_dec (la_timestamp_count a) @ bytes [0xEA, 0xB0, 0x9C] @ '' | src_ip '' @ to_dec (la_source_ip_count a)
     @ bytes [0xEA, 0xB0, 0x9C] @ '' | dst_ip '' @ to_dec (la_destination_ip_count a) @ bytes [0xEA, 0xB0, 0x9C]"

definition privacy_line :: "log_template_analysis \<Rightarrow> string" where
  "privacy_line a = bytes [0xEA, 0xB0, 0x9C, 0xEC, 0x9D, 0xB8, 0xEC, 0xA0, 0x95, 0xEB, 0xB3, 0xB4] @ '' '' @ bytes [0xEC, 0x9D,
     0xB5, 0xEB, 0xAA, 0x85, 0xED, 0x99, 0x94] @ '' '' @ bytes [0xED, 0x86, 0xA0, 0xED, 0x81, 0xB0] @ '' '' @ to_dec (la_privacy_token_count a) @ bytes [0xEA, 0xB0, 0x9C]"

text \<open>Under the selector: the source, the preview and what was recognized, of the visible template.\<close>

definition selector_lines :: "window \<Rightarrow> string list" where
  "selector_lines w =
     (if wi_filtered w = [] then [bytes [0xEA, 0xB2, 0x80, 0xEC, 0x83, 0x89] @ '' '' @ bytes [0xEC, 0xA1, 0xB0, 0xEA, 0xB1, 0xB4, 0xEC, 0x97,
     0x90] @ '' '' @ bytes [0xEB, 0xA7, 0x9E, 0xEB, 0x8A, 0x94] @ '' '' @ bytes [0xEC, 0x83, 0x98, 0xED, 0x94,
     0x8C] @ '' '' @ bytes [0xEB, 0xA1, 0x9C, 0xEA, 0xB7, 0xB8, 0xEA, 0xB0, 0x80] @ '' '' @ bytes [0xEC, 0x97,
     0x86, 0xEC, 0x8A, 0xB5, 0xEB, 0x8B, 0x88, 0xEB, 0x8B, 0xA4] @ ''.''] else [])
     @ (if wi_items w = [] then []
        else
          let i = visible_catalog_index w; sample = wi_items w ! i; analysis = wi_analyses w ! i in
          (if lt_source sample = [] then [] else [lt_source sample])
          @ [wi_previews w ! i, bytes [0xEC, 0x9E, 0x90, 0xEB, 0x8F, 0x99] @ '' '' @ bytes [0xEC, 0x9D, 0xB8, 0xEC, 0x8B, 0x9D] @ '': '' @ recognized_line analysis, privacy_line analysis]
          @ (if la_timestamp_styles analysis = [] then []
             else (bytes [0xEB, 0x82, 0xA0, 0xEC, 0xA7, 0x9C] @ '' '' @ bytes [0xED, 0x8F, 0xAC, 0xEB, 0xA7, 0xB7] @ '':'') # map timestamp_style_name (la_timestamp_styles analysis)))"

text \<open>What the editor says of the tokenization.\<close>

definition pending_text :: string where
  "pending_text = bytes [0xEC, 0x83, 0x98, 0xED, 0x94, 0x8C] @ '' '' @ bytes [0xEB, 0xA1, 0x9C, 0xEA, 0xB7, 0xB8, 0xEB, 0xA5,
     0xBC] @ '' '' @ bytes [0xED, 0x86, 0xA0, 0xED, 0x81, 0xB0, 0xED, 0x99, 0x94, 0xED, 0x95, 0x98, 0xEA, 0xB3,
     0xA0] @ '' '' @ bytes [0xEC, 0xA0, 0x84, 0xEC, 0x86, 0xA1, 0xEC, 0x9A, 0xA9] @ '' '' @ bytes [0xEC, 0xBA,
     0x90, 0xEC, 0x8B, 0x9C, 0xEB, 0xA5, 0xBC] @ '' '' @ bytes [0xEC, 0xA4, 0x80, 0xEB, 0xB9, 0x84, 0xED, 0x95,
     0x98, 0xEB, 0x8A, 0x94] @ '' '' @ bytes [0xEC, 0xA4, 0x91] @ ''...''"

definition ready_text :: string where
  "ready_text = bytes [0xED, 0x86, 0xA0, 0xED, 0x81, 0xB0, 0xED, 0x99, 0x94] @ '' '' @ bytes [0xEB, 0xB0, 0x8F] @ '' '' @
     bytes [0xEC, 0xA0, 0x84, 0xEC, 0x86, 0xA1, 0xEC, 0x9A, 0xA9] @ '' '' @ bytes [0xEC, 0xBA, 0x90, 0xEC, 0x8B,
     0x9C] @ '' '' @ bytes [0xEC, 0xA4, 0x80, 0xEB, 0xB9, 0x84] @ '' '' @ bytes [0xEC, 0x99, 0x84, 0xEB, 0xA3,
     0x8C]"

definition editor_status :: "window \<Rightarrow> tokenizer \<Rightarrow> string option" where
  "editor_status w t =
     (if wi_editor_pending w \<or> tk_tokenizing t
      then Some pending_text
      else if wi_editor_item w \<noteq> None then Some ready_text
      else None)"

subsection \<open>Lemmas\<close>

lemma visual_scale_values: "responsive_visual_scale w h d \<in> {0.94, 1, 1.04, 1.10}"
  by (simp add: responsive_visual_scale_def Let_def)

lemma dpi_scale_bounds:
  "1 \<le> windows_dpi_scale n \<and> windows_dpi_scale n \<le> 4" "1 \<le> content_dpi_scale x y \<and> content_dpi_scale x y \<le> 4"
  by (auto simp: windows_dpi_scale_def content_dpi_scale_def clamp_real_def)

text \<open>The scale in use is never more than a hundredth off the one the window calls for, and in bounds.\<close>

lemma update_ui_scale_close:
  assumes "update_ui_scale apple width height dpi s = (s', changed)" "1 \<le> dpi" "dpi \<le> 4"
  shows "\<bar>us_ui s' - next_scale apple width height dpi\<bar> < 0.01 \<and> 0.93 \<le> us_ui s' \<and> us_ui s' \<le> 4.41
    \<and> (changed \<longleftrightarrow> s' \<noteq> s \<or> \<not> \<bar>next_scale apple width height dpi - us_ui s\<bar> < 0.01)"
proof -
  have v: "0.94 \<le> responsive_visual_scale width height dpi" "responsive_visual_scale width height dpi \<le> 1.10"
    using visual_scale_values [of width height dpi] by auto
  have "0.94 \<le> dpi * responsive_visual_scale width height dpi"
    using mult_mono [of 1 dpi "0.94" "responsive_visual_scale width height dpi"] v assms(2) by simp
  moreover have "dpi * responsive_visual_scale width height dpi \<le> 4 * 1.10"
    using v assms(2,3) by (intro mult_mono) auto
  ultimately have "0.94 \<le> next_scale apple width height dpi" "next_scale apple width height dpi \<le> 4.4"
    using v by (auto simp: next_scale_def Let_def)
  moreover have "\<bar>n - u\<bar> < (0.01 :: real) \<Longrightarrow> 0.94 \<le> n \<Longrightarrow> n \<le> 4.4
      \<Longrightarrow> \<bar>u - n\<bar> < 0.01 \<and> 0.93 \<le> u \<and> u \<le> 4.41" for n u
    by (simp add: abs_if split: if_splits)
  ultimately show ?thesis using assms(1) by (auto simp: update_ui_scale_def split: if_splits)
qed

lemma layout_columns:
  "rl_configuration_columns (layout_for w h s) = 2 \<longleftrightarrow> rl_size (layout_for w h s) = Wide_Size"
  by (simp add: layout_for_def Let_def)

text \<open>An error is shown exactly when there is one, and that of the transmission comes first.\<close>

lemma configuration_notice_error:
  "(\<exists>e. configuration_notice stats w = Error_Notice e) \<longleftrightarrow> has_error stats w"
  by (auto simp: configuration_notice_def has_error_def Let_def)

text \<open>Statistics are at most a quarter of a second old when they are drawn.\<close>

lemma refresh_stats_fresh:
  "di_next_refresh d \<le> last_refresh + 250 \<Longrightarrow> last_refresh + 250 \<le> now \<Longrightarrow>
     di_stats (refresh_stats now stats d) = stats
     \<and> di_next_refresh (refresh_stats now stats d) \<le> now + 250"
  by (simp add: refresh_stats_def)

lemma editor_status_ready: "\<not> tokenization_pending w t \<Longrightarrow> editor_status w t = Some ready_text"
  by (simp add: editor_status_def tokenization_pending_def)

end
