(* ===== verification/Policy_Launcher.thy ===== *)
theory Policy_Launcher
  imports Paths
begin

text \<open>
  The privacy notice of the window (\<open>render_privacy_notice\<close> of \<open>src/src/presentation/app.cpp\<close>) and the
  launcher that opens the privacy policy in the browser of Windows
  (\<open>src/src/presentation/privacy_policy_launcher.cpp\<close>). What Windows does with a text, an address and an
  operation are arguments.
\<close>

subsection \<open>Addresses\<close>

datatype policy_error =
    Not_Https | Invalid_Characters | Not_Utf8 | Not_Decoded | Bad_Uri | No_Https_Host | Launch_Failed

text \<open>
  The system: the size of the wide text and the text itself, an address made of it with its scheme and
  host, or an exception, and an operation that was started for it, or an exception.
\<close>

record 'op policy_calls =
  pl_wide_length :: "string \<Rightarrow> int"
  pl_wide :: "string \<Rightarrow> nat \<Rightarrow> nat \<times> u16 list"
  pl_uri :: "u16 list \<Rightarrow> (u16 list \<times> u16 list) option"
  pl_launch :: "u16 list \<Rightarrow> 'op option"

definition wide_of :: "string \<Rightarrow> u16 list" where
  "wide_of s = map (\<lambda>c. of_nat (code c)) s"

definition to_wide_policy_url :: "'op policy_calls \<Rightarrow> string \<Rightarrow> policy_error + u16 list" where
  "to_wide_policy_url os url =
     (if \<not> starts_with url ''https://'' \<or> length url \<le> 8 \<or> 2 ^ 31 - 1 < length url then Inl Not_Https
      else if \<exists>c \<in> set url. code c \<le> 0x20 \<or> c = CHR 0x5C \<or> c = DQUOTE then Inl Invalid_Characters
      else
        let wide_size = pl_wide_length os url in
        if wide_size \<le> 0 then Inl Not_Utf8
        else
          let (n, wide_url) = pl_wide os url (nat wide_size) in
          if int n \<noteq> wide_size then Inl Not_Decoded else Inr wide_url)"

subsection \<open>The launcher\<close>

datatype launch_status = Idle | Opening | Opened | Launch_Refused

text \<open>\<open>Impl\<close>: the operation, when there is one, and the status.\<close>

record 'op launcher =
  la_operation :: "'op option"
  la_status :: launch_status

definition new_launcher :: "'op launcher" where
  "new_launcher = \<lparr>la_operation = None, la_status = Idle\<rparr>"

definition launch :: "'op policy_calls \<Rightarrow> string \<Rightarrow> 'op launcher \<Rightarrow> (policy_error + unit) \<times> 'op launcher" where
  "launch os url l =
     (if la_status l = Opening then (Inr (), l)
      else
        case to_wide_policy_url os url of
          Inl e \<Rightarrow> (Inl e, l)
        | Inr wide_url \<Rightarrow>
            (case pl_uri os wide_url of
               None \<Rightarrow> (Inl Bad_Uri, l)
             | Some (scheme, host) \<Rightarrow>
                 if scheme \<noteq> wide_of ''https'' \<or> host = [] then (Inl No_Https_Host, l)
                 else
                   (case pl_launch os wide_url of
                      None \<Rightarrow> (Inl Launch_Failed, l)
                    | Some op \<Rightarrow> (Inr (), l\<lparr>la_operation := Some op, la_status := Opening\<rparr>))))"

text \<open>
  What an operation says when it is asked: that it still runs, its result, that it was cancelled or failed,
  or an exception from the question or from \<open>GetResults\<close>.
\<close>

datatype async_status = Async_Started | Async_Completed bool | Async_Canceled | Async_Error | Async_Throws

definition poll :: "('op \<Rightarrow> async_status) \<Rightarrow> 'op launcher \<Rightarrow> launch_status \<times> 'op launcher" where
  "poll ask l =
     (case la_operation l of
        None \<Rightarrow> (la_status l, l)
      | Some op \<Rightarrow>
          (case ask op of
             Async_Started \<Rightarrow> (Opening, l)
           | answer \<Rightarrow>
               let status = (case answer of Async_Completed True \<Rightarrow> Opened | _ \<Rightarrow> Launch_Refused)
               in (status, l\<lparr>la_operation := None, la_status := status\<rparr>)))"

text \<open>The destructor cancels the operation it still has.\<close>

definition close_launcher :: "'op launcher \<Rightarrow> 'op option" where
  "close_launcher l = la_operation l"

subsection \<open>The notice\<close>

text \<open>
  The members of \<open>App\<close> for the notice: whether it is asked for, whether it is open, the error it shows,
  and the launcher, which is made by the first press of its button.
\<close>

record 'op privacy =
  pv_requested :: bool
  pv_open :: bool
  pv_error :: string
  pv_launcher :: "'op launcher option"

definition initial_privacy :: "'op privacy" where
  "initial_privacy = \<lparr>pv_requested = False, pv_open = False, pv_error = [], pv_launcher = None\<rparr>"

definition policy_error_text :: string where
  "policy_error_text = bytes [0xEC, 0x98, 0xA8, 0xEB, 0x9D, 0xBC, 0xEC, 0x9D, 0xB8] @ '' '' @ bytes [0xEA, 0xB0, 0x9C, 0xEC, 0x9D,
     0xB8, 0xEC, 0xA0, 0x95, 0xEB, 0xB3, 0xB4, 0xEC, 0xB2, 0x98, 0xEB, 0xA6, 0xAC, 0xEB, 0xB0, 0xA9, 0xEC, 0xB9,
     0xA8, 0xEC, 0x9D, 0x84] @ '' '' @ bytes [0xEC, 0x97, 0xB4] @ '' '' @ bytes [0xEC, 0x88, 0x98] @ '' '' @
     bytes [0xEC, 0x97, 0x86, 0xEC, 0x8A, 0xB5, 0xEB, 0x8B, 0x88, 0xEB, 0x8B, 0xA4] @ ''.''"

text \<open>The button in the header.\<close>

definition press_privacy :: "'op privacy \<Rightarrow> 'op privacy" where
  "press_privacy p = p\<lparr>pv_requested := True, pv_error := []\<rparr>"

text \<open>\<open>render_privacy_notice\<close> up to the popup; the status is used for the button of this frame.\<close>

definition begin_notice :: "('op \<Rightarrow> async_status) \<Rightarrow> 'op privacy \<Rightarrow> launch_status \<times> 'op privacy" where
  "begin_notice ask p =
     (let (status, p1) =
           (case pv_launcher p of
              None \<Rightarrow> (Idle, p)
            | Some l \<Rightarrow> let (status, l') = poll ask l in (status, p\<lparr>pv_launcher := Some l'\<rparr>));
          p2 = (if status = Launch_Refused then p1\<lparr>pv_error := policy_error_text\<rparr> else p1)
      in (status, if pv_requested p2 then p2\<lparr>pv_open := True, pv_requested := False\<rparr> else p2))"

text \<open>
  Its buttons: the first is there for an address that is not empty, and not while the browser opens;
  \<open>create\<close> is whether the launcher can be made, which needs an apartment of the Windows runtime.
\<close>

definition press_policy ::
    "'op policy_calls \<Rightarrow> bool \<Rightarrow> string \<Rightarrow> launch_status \<Rightarrow> 'op privacy \<Rightarrow> 'op privacy" where
  "press_policy os create url status p =
     (if \<not> pv_open p \<or> url = [] \<or> status = Opening then p
      else
        case pv_launcher p of
          None \<Rightarrow>
            if create then
              (case launch os url new_launcher of
                 (Inl e, l) \<Rightarrow> p\<lparr>pv_launcher := Some l, pv_error := policy_error_text\<rparr>
               | (Inr _, l) \<Rightarrow> p\<lparr>pv_launcher := Some l, pv_error := []\<rparr>)
            else p\<lparr>pv_error := policy_error_text\<rparr>
        | Some l \<Rightarrow>
            (case launch os url l of
               (Inl e, l') \<Rightarrow> p\<lparr>pv_launcher := Some l', pv_error := policy_error_text\<rparr>
             | (Inr _, l') \<Rightarrow> p\<lparr>pv_launcher := Some l', pv_error := []\<rparr>))"

definition press_close :: "'op privacy \<Rightarrow> 'op privacy" where
  "press_close p = (if pv_open p then p\<lparr>pv_open := False\<rparr> else p)"

inductive notice_step ::
    "'op policy_calls \<Rightarrow> string \<Rightarrow> 'op privacy \<Rightarrow> 'op privacy \<Rightarrow> bool" for os url where
  header_pressed: "notice_step os url p (press_privacy p)"
| frame_idle: "begin_notice ask p = (status, p') \<Longrightarrow> notice_step os url p p'"
| policy_pressed: "begin_notice ask p = (status, p') \<Longrightarrow>
    notice_step os url p (press_policy os create url status p')"
| close_pressed: "begin_notice ask p = (status, p') \<Longrightarrow> notice_step os url p (press_close p')"

inductive notice_reachable :: "'op policy_calls \<Rightarrow> string \<Rightarrow> 'op privacy \<Rightarrow> bool" for os url where
  notice_start: "notice_reachable os url initial_privacy"
| notice_more: "notice_reachable os url p \<Longrightarrow> notice_step os url p p' \<Longrightarrow> notice_reachable os url p'"

subsection \<open>Lemmas\<close>

lemma policy_url_ok:
  assumes "to_wide_policy_url os url = Inr wide"
  shows "starts_with url ''https://'' \<and> 8 < length url
    \<and> list_all (\<lambda>c. 0x20 < code c \<and> c \<noteq> CHR 0x5C \<and> c \<noteq> DQUOTE) url
    \<and> pl_wide os url (nat (pl_wide_length os url)) = (nat (pl_wide_length os url), wide)"
  using assms by (auto simp: to_wide_policy_url_def Let_def list_all_iff not_le split: if_splits prod.splits)

text \<open>An operation is under way exactly while the status says so, and it was started for a sound address.\<close>

definition started_ok :: "'op policy_calls \<Rightarrow> string \<Rightarrow> 'op \<Rightarrow> bool" where
  "started_ok os url op \<longleftrightarrow>
     (\<exists>wide host. to_wide_policy_url os url = Inr wide \<and> pl_uri os wide = Some (wide_of ''https'', host)
        \<and> host \<noteq> [] \<and> pl_launch os wide = Some op)"

definition launcher_ok :: "'op policy_calls \<Rightarrow> string \<Rightarrow> 'op launcher \<Rightarrow> bool" where
  "launcher_ok os url l \<longleftrightarrow>
     (la_status l = Opening \<longleftrightarrow> la_operation l \<noteq> None)
     \<and> (case la_operation l of None \<Rightarrow> True | Some op \<Rightarrow> started_ok os url op)"

lemma new_launcher_ok: "launcher_ok os url new_launcher"
  by (simp add: launcher_ok_def new_launcher_def)

lemma launch_ok:
  assumes "launcher_ok os url l" "launch os url l = (r, l')"
  shows "launcher_ok os url l' \<and> (r = Inr () \<longrightarrow> la_status l' = Opening) \<and> (r \<noteq> Inr () \<longrightarrow> l' = l)
    \<and> (la_operation l \<noteq> None \<longrightarrow> l' = l)"
  using assms
  by (auto simp: launch_def launcher_ok_def started_ok_def split: if_splits sum.splits option.splits)

lemma poll_ok: "launcher_ok os url l \<Longrightarrow> poll ask l = (status, l') \<Longrightarrow> launcher_ok os url l'
    \<and> (status = Opening \<longrightarrow> l' = l) \<and> (status = Opening \<longleftrightarrow> la_status l' = Opening)"
  by (auto simp: poll_def launcher_ok_def Let_def split: option.splits async_status.splits bool.splits)

definition privacy_ok :: "'op policy_calls \<Rightarrow> string \<Rightarrow> 'op privacy \<Rightarrow> bool" where
  "privacy_ok os url p \<longleftrightarrow> (case pv_launcher p of None \<Rightarrow> True | Some l \<Rightarrow> launcher_ok os url l)"

lemma begin_notice_ok: "privacy_ok os url p \<Longrightarrow> begin_notice ask p = (status, p') \<Longrightarrow> privacy_ok os url p'"
  by (auto simp: begin_notice_def privacy_ok_def Let_def dest: poll_ok split: option.splits prod.splits if_splits)

lemma press_policy_ok:
  assumes "privacy_ok os url p"
  shows "privacy_ok os url (press_policy os create url status p)"
proof (cases "pv_launcher p")
  case None
  obtain r l' where launched: "launch os url new_launcher = (r, l')" by fastforce
  have "launcher_ok os url l'" using launch_ok [OF new_launcher_ok launched] by simp
  with None launched assms show ?thesis
    by (cases r) (simp_all add: press_policy_def privacy_ok_def)
next
  case (Some l)
  obtain r l' where launched: "launch os url l = (r, l')" by fastforce
  have "launcher_ok os url l" using assms Some by (simp add: privacy_ok_def)
  then have "launcher_ok os url l'" using launch_ok [OF _ launched] by simp
  with Some launched assms show ?thesis
    by (cases r) (simp_all add: press_policy_def privacy_ok_def)
qed

lemma notice_step_ok: "notice_step os url p p' \<Longrightarrow> privacy_ok os url p \<Longrightarrow> privacy_ok os url p'"
proof (induction rule: notice_step.induct)
  case (header_pressed p)
  then show ?case by (simp add: press_privacy_def privacy_ok_def)
next
  case (close_pressed ask p status p')
  then have "privacy_ok os url p'" using begin_notice_ok by blast
  then show ?case by (simp add: press_close_def privacy_ok_def)
qed (use begin_notice_ok press_policy_ok in blast)+

lemma notice_reachable_ok: "notice_reachable os url p \<Longrightarrow> privacy_ok os url p"
proof (induction rule: notice_reachable.induct)
  case notice_start
  then show ?case by (simp add: privacy_ok_def initial_privacy_def)
qed (rule notice_step_ok)

subsection \<open>Properties\<close>

text \<open>
  The browser is only ever opened for an address with the scheme \<open>https\<close>, a host, and no blank,
  control character, quote or backslash, and by one operation at a time: while one is under way the
  launcher says so, and no press of the button replaces it.\<close>

theorem policy_launches_sound:
  assumes "notice_reachable os url p" "pv_launcher p = Some l"
  shows "(la_status l = Opening \<longleftrightarrow> la_operation l \<noteq> None)
    \<and> (\<forall>op. la_operation l = Some op \<longrightarrow>
         starts_with url ''https://'' \<and> list_all (\<lambda>c. 0x20 < code c \<and> c \<noteq> CHR 0x5C \<and> c \<noteq> DQUOTE) url
         \<and> launch os url l = (Inr (), l)
         \<and> (\<exists>wide host. pl_uri os wide = Some (wide_of ''https'', host) \<and> host \<noteq> [] \<and> pl_launch os wide = Some op))"
proof -
  have ok: "launcher_ok os url l" using notice_reachable_ok [OF assms(1)] assms(2) by (simp add: privacy_ok_def)
  have "starts_with url ''https://'' \<and> list_all (\<lambda>c. 0x20 < code c \<and> c \<noteq> CHR 0x5C \<and> c \<noteq> DQUOTE) url
      \<and> launch os url l = (Inr (), l)
      \<and> (\<exists>wide host. pl_uri os wide = Some (wide_of ''https'', host) \<and> host \<noteq> [] \<and> pl_launch os wide = Some op)"
    if some: "la_operation l = Some op" for op
  proof -
    have "started_ok os url op" "la_status l = Opening" using ok some by (simp_all add: launcher_ok_def)
    then obtain wide host where w: "to_wide_policy_url os url = Inr wide"
        "pl_uri os wide = Some (wide_of ''https'', host)" "host \<noteq> []" "pl_launch os wide = Some op"
      unfolding started_ok_def by (elim exE conjE) (rule that)
    have "launch os url l = (Inr (), l)" using \<open>la_status l = Opening\<close> by (simp add: launch_def)
    with policy_url_ok [OF w(1)] w(2-4) show ?thesis by simp blast
  qed
  then show ?thesis using ok by (simp add: launcher_ok_def)
qed

text \<open>A system that takes the text as it is and starts an operation for it, and the notice after its button.\<close>

definition sample_policy_calls :: "nat policy_calls" where
  "sample_policy_calls = \<lparr>pl_wide_length = (\<lambda>s. int (length s)), pl_wide = (\<lambda>s n. (n, wide_of s)),
     pl_uri = (\<lambda>w. Some (wide_of ''https'', drop 8 w)), pl_launch = (\<lambda>w. Some (length w))\<rparr>"

definition sample_policy_url :: string where
  "sample_policy_url = ''https://a.b/privacy''"

definition sample_notice :: "nat privacy" where
  "sample_notice = \<lparr>pv_requested = False, pv_open = True, pv_error = [],
     pv_launcher = Some \<lparr>la_operation = Some 19, la_status = Opening\<rparr>\<rparr>"

lemma sample_notice_reachable: "notice_reachable sample_policy_calls sample_policy_url sample_notice"
proof -
  have 1: "notice_reachable sample_policy_calls sample_policy_url (press_privacy initial_privacy)"
    by (rule notice_more [OF notice_start header_pressed])
  have frame: "begin_notice (\<lambda>_. Async_Started) (press_privacy initial_privacy)
      = (Idle, (initial_privacy :: nat privacy)\<lparr>pv_open := True\<rparr>)"
    by (simp add: begin_notice_def press_privacy_def initial_privacy_def)
  have "starts_with sample_policy_url ''https://''" by code_simp
  moreover have "length sample_policy_url = 19" by code_simp
  moreover have "\<not> (\<exists>c \<in> set sample_policy_url. code c \<le> 0x20 \<or> c = CHR 0x5C \<or> c = DQUOTE)" by code_simp
  ultimately have "to_wide_policy_url sample_policy_calls sample_policy_url = Inr (wide_of sample_policy_url)"
    unfolding to_wide_policy_url_def by (simp add: sample_policy_calls_def Let_def)
  moreover have "length (wide_of sample_policy_url) = 19" using \<open>length sample_policy_url = 19\<close> by (simp add: wide_of_def)
  ultimately have "press_policy sample_policy_calls True sample_policy_url Idle (initial_privacy\<lparr>pv_open := True\<rparr>) = sample_notice"
    using \<open>length sample_policy_url = 19\<close>
    by (auto simp: press_policy_def launch_def initial_privacy_def new_launcher_def sample_notice_def
        sample_policy_calls_def)
  then show ?thesis
    using notice_more [OF 1 policy_pressed [OF frame, of sample_policy_calls sample_policy_url True]] by simp
qed

theorem policy_launches_sound_witness:
  "\<exists>wide host. pl_uri sample_policy_calls wide = Some (wide_of ''https'', host) \<and> host \<noteq> []
     \<and> pl_launch sample_policy_calls wide = Some 19"
proof -
  let ?l = "\<lparr>la_operation = Some (19::nat), la_status = Opening\<rparr>"
  have "pv_launcher sample_notice = Some ?l" by (simp add: sample_notice_def)
  from policy_launches_sound [OF sample_notice_reachable this, THEN conjunct2, THEN spec, of 19]
  show ?thesis by (elim impE conjE) (simp only: launcher.select_convs, assumption)
qed

text \<open>
  The button of the header clears the error, but after an operation that failed the next frame puts it
  back: the launcher keeps saying that it was refused.\<close>

lemma refused_error_comes_back:
  assumes "pv_launcher p = Some \<lparr>la_operation = None, la_status = Launch_Refused\<rparr>"
  shows "pv_error (press_privacy p) = [] \<and> pv_error (snd (begin_notice ask (press_privacy p))) = policy_error_text"
  using assms by (simp add: press_privacy_def begin_notice_def poll_def)

end
