(* ===== verification/Gui_Resources.thy ===== *)
theory Gui_Resources
  imports Gui_Display
begin

unbundle bit_operations_syntax

text \<open>
  How the window of \<open>src/src/presentation/app.cpp\<close> gets the resources of the system and gives them back,
  on Windows with Direct3D (\<open>d3d11_context.cpp\<close>) and elsewhere with GLFW, and the message box for errors
  (\<open>windows_icon.cpp\<close>). What the system answers is an argument.
\<close>

subsection \<open>Direct3D\<close>

text \<open>\<open>D3d11Context\<close>: whether it has a device with its context and swap chain, and a render target.\<close>

record d3d_context =
  dx_device :: bool
  dx_target :: bool

definition no_d3d :: d3d_context where
  "no_d3d = \<lparr>dx_device = False, dx_target = False\<rparr>"

text \<open>
  What the system answers: to the creation of a device, to a resize, and to the two calls that make a render
  target of the back buffer.
\<close>

record d3d_answers =
  dx_create_ok :: bool
  dx_resize_ok :: bool
  dx_buffer_ok :: bool
  dx_view_ok :: bool

definition create_render_target :: "d3d_answers \<Rightarrow> d3d_context \<Rightarrow> (string + unit) \<times> d3d_context" where
  "create_render_target a d =
     (if \<not> dx_buffer_ok a then (Inl ''Direct3D back buffer acquisition failed'', d)
      else if \<not> dx_view_ok a then (Inl ''Direct3D render target creation failed'', d\<lparr>dx_target := False\<rparr>)
      else (Inr (), d\<lparr>dx_target := True\<rparr>))"

definition d3d_create :: "d3d_answers \<Rightarrow> d3d_context \<Rightarrow> (string + unit) \<times> d3d_context" where
  "d3d_create a d =
     (if \<not> dx_create_ok a then (Inl ''Direct3D 11 initialization failed'', d\<lparr>dx_device := False\<rparr>)
      else create_render_target a (d\<lparr>dx_device := True\<rparr>))"

definition d3d_resize :: "d3d_answers \<Rightarrow> nat \<Rightarrow> nat \<Rightarrow> d3d_context \<Rightarrow> (string + unit) \<times> d3d_context" where
  "d3d_resize a width height d =
     (if \<not> dx_device d \<or> width = 0 \<or> height = 0 then (Inr (), d)
      else
        let d1 = d\<lparr>dx_target := False\<rparr> in
        if \<not> dx_resize_ok a then (Inl ''Direct3D resize failed'', d1) else create_render_target a d1)"

text \<open>\<open>clear\<close> and \<open>present\<close> of a frame: \<open>None\<close> is a call on a device or a target that is not there.\<close>

definition d3d_draw :: "d3d_context \<Rightarrow> unit option" where
  "d3d_draw d = (if dx_device d \<and> dx_target d then Some () else None)"

subsection \<open>The members and the system\<close>

text \<open>
  The members of \<open>App\<close> that hold resources (\<open>instance_\<close>, \<open>window_class_registered_\<close>, \<open>window_\<close>,
  \<open>imgui_ready_\<close>, \<open>d3d_\<close>), and what the system and ImGui have: the window class, the window, whether
  \<open>WM_QUIT\<close> waits in the queue, the context of ImGui and its two backends.
\<close>

record shell =
  sh_instance :: bool
  sh_class :: bool
  sh_window :: bool
  sh_imgui_ready :: bool
  sh_d3d :: d3d_context

record desktop =
  dk_class :: bool
  dk_window :: bool
  dk_quit :: bool
  dk_context :: bool
  dk_platform :: bool
  dk_renderer :: bool

definition initial_shell :: shell where
  "initial_shell = \<lparr>sh_instance = False, sh_class = False, sh_window = False, sh_imgui_ready = False, sh_d3d = no_d3d\<rparr>"

definition empty_desktop :: desktop where
  "empty_desktop = \<lparr>dk_class = False, dk_window = False, dk_quit = False, dk_context = False,
     dk_platform = False, dk_renderer = False\<rparr>"

text \<open>
  What the system answers while the window starts: the two icons, the class, the window, Direct3D, and the
  two backends of ImGui.
\<close>

record startup_answers =
  st_icons_ok :: bool
  st_class_ok :: bool
  st_window_ok :: bool
  st_d3d :: d3d_answers
  st_platform_ok :: bool
  st_renderer_ok :: bool

subsection \<open>Starting and ending\<close>

text \<open>\<open>initialize_imgui\<close>: the renderer is only asked when the platform has agreed.\<close>

definition initialize_imgui :: "bool \<Rightarrow> bool \<Rightarrow> shell \<times> desktop \<Rightarrow> (string + unit) \<times> shell \<times> desktop" where
  "initialize_imgui platform_ok renderer_ok sd =
     (let (s, k) = sd; k1 = k\<lparr>dk_context := True, dk_platform := platform_ok,
            dk_renderer := platform_ok \<and> renderer_ok\<rparr>
      in if \<not> platform_ok \<or> \<not> renderer_ok
         then (Inl ''Dear ImGui initialization failed'', s, k1\<lparr>dk_context := False\<rparr>)
         else (Inr (), s\<lparr>sh_imgui_ready := True\<rparr>, k1))"

text \<open>\<open>run\<close> on Windows up to the first frame.\<close>

definition start_window :: "startup_answers \<Rightarrow> shell \<times> desktop \<Rightarrow> (string + unit) \<times> shell \<times> desktop" where
  "start_window a sd =
     (let (s0, k0) = sd; s = s0\<lparr>sh_instance := True\<rparr> in
      if \<not> st_icons_ok a then (Inl ''Application icon resource loading failed'', s, k0)
      else if \<not> st_class_ok a then (Inl ''Window class registration failed'', s, k0)
      else
        let s1 = s\<lparr>sh_class := True\<rparr>; k1 = k0\<lparr>dk_class := True\<rparr> in
        if \<not> st_window_ok a then (Inl ''Window creation failed'', s1\<lparr>sh_window := False\<rparr>, k1)
        else
          let s2 = s1\<lparr>sh_window := True\<rparr>; k2 = k1\<lparr>dk_window := True\<rparr>;
              (created, d) = d3d_create (st_d3d a) (sh_d3d s2); s3 = s2\<lparr>sh_d3d := d\<rparr>
          in case created of
               Inl e \<Rightarrow> (Inl e, s3, k2)
             | Inr _ \<Rightarrow> initialize_imgui (st_platform_ok a) (st_renderer_ok a) (s3, k2))"

definition shutdown_imgui :: "shell \<times> desktop \<Rightarrow> shell \<times> desktop" where
  "shutdown_imgui sd =
     (case sd of (s, k) \<Rightarrow>
        if \<not> sh_imgui_ready s then (s, k)
        else (s\<lparr>sh_imgui_ready := False\<rparr>, k\<lparr>dk_renderer := False, dk_platform := False, dk_context := False\<rparr>))"

text \<open>
  \<open>DestroyWindow\<close> calls the window procedure with \<open>WM_DESTROY\<close>, which posts \<open>WM_QUIT\<close>
  (\<open>handle_message\<close> below).
\<close>

definition destroy_window :: "desktop \<Rightarrow> desktop" where
  "destroy_window k = k\<lparr>dk_window := False, dk_quit := True\<rparr>"

definition release_window_resources :: "shell \<times> desktop \<Rightarrow> shell \<times> desktop" where
  "release_window_resources sd =
     (let (s, k) = shutdown_imgui sd;
          k1 = (if sh_window s \<and> dk_window k then destroy_window k else k);
          k2 = (if sh_class s \<and> sh_instance s then k1\<lparr>dk_class := False\<rparr> else k1)
      in (s\<lparr>sh_window := False, sh_class := False, sh_instance := False\<rparr>, k2))"

subsection \<open>Messages\<close>

text \<open>
  The messages \<open>handle_message\<close> tells apart: a new size (minimized, width, height), the question for the
  limits of the size, a new resolution, a system command, the wish to close it, its end. Dragging and typing is for
  ImGui, which may take a message for itself.
\<close>

datatype message =
    Size_Message bool nat nat | Limits_Message | Dpi_Message | System_Message u32 | Close_Message | Destroy_Message | Quit_Message | Other_Message

datatype answer = Handled int | By_Default

definition SC_KEYMENU :: u32 where "SC_KEYMENU = 0xF100"

text \<open>
  The result is what the procedure returns, with the new text of \<open>ui_error_\<close> if there is one. The scale of
  the user interface follows a new size or resolution (\<open>update_ui_scale\<close>), and the limits of the size are
  \<open>window_limits\<close> below.
\<close>

definition handle_message ::
    "bool \<Rightarrow> d3d_answers \<Rightarrow> message \<Rightarrow> shell \<times> desktop \<Rightarrow> answer \<times> string option \<times> shell \<times> desktop" where
  "handle_message imgui_takes a message sd =
     (let (s, k) = sd in
      if sh_imgui_ready s \<and> imgui_takes then (Handled 1, None, s, k)
      else case message of
          Size_Message minimized width height \<Rightarrow>
            if \<not> minimized \<and> dx_device (sh_d3d s) then
              let (resized, d) = d3d_resize a width height (sh_d3d s)
              in (Handled 0, (case resized of Inl e \<Rightarrow> Some e | Inr _ \<Rightarrow> None), s\<lparr>sh_d3d := d\<rparr>, k)
            else (Handled 0, None, s, k)
        | Limits_Message \<Rightarrow> (Handled 0, None, s, k)
        | Dpi_Message \<Rightarrow> (Handled 0, None, s, k)
        | System_Message word \<Rightarrow>
            if word AND 0xFFF0 = SC_KEYMENU then (Handled 0, None, s, k) else (By_Default, None, s, k)
        | Destroy_Message \<Rightarrow> (Handled 0, None, s, k\<lparr>dk_quit := True\<rparr>)
        | _ \<Rightarrow> (By_Default, None, s, k))"

text \<open>
  The dispatch of a message: by default the system destroys a window that is to be closed.
\<close>

definition dispatch ::
    "bool \<times> d3d_answers \<times> message \<Rightarrow> string \<times> shell \<times> desktop \<Rightarrow> string \<times> shell \<times> desktop" where
  "dispatch m es =
     (let (imgui_takes, a, message) = m; (e, s, k) = es;
          (answer, e', s', k') = handle_message imgui_takes a message (s, k)
      in (case e' of Some t \<Rightarrow> t | None \<Rightarrow> e, s',
          if message = Close_Message \<and> answer = By_Default \<and> dk_window k' then destroy_window k' else k'))"

text \<open>
  An iteration of the loop of \<open>run\<close>: the messages it finds, and whether the window is minimized then.
  Drawing is \<open>render\<close> of the other theories and a frame of Direct3D.
\<close>

record iteration =
  it_messages :: "(bool \<times> d3d_answers \<times> message) list"
  it_iconic :: bool

datatype loop_end = Still_Running | Drawn_Without_Target | Closed

fun window_loop :: "iteration list \<Rightarrow> string \<times> shell \<times> desktop \<Rightarrow> loop_end \<times> string \<times> shell \<times> desktop" where
  "window_loop [] es = (Still_Running, es)"
| "window_loop (it # its) es =
     (let es1 = fold dispatch (it_messages it) es in
      if Quit_Message \<in> set (map (snd \<circ> snd) (it_messages it)) then (Closed, es1)
      else if it_iconic it then window_loop its es1
      else case d3d_draw (sh_d3d (fst (snd es1))) of
          None \<Rightarrow> (Drawn_Without_Target, es1)
        | Some _ \<Rightarrow> window_loop its es1)"

text \<open>
  The life of the window: \<open>run\<close>, and then the destructor of \<open>App\<close>, which releases again, whether \<open>run\<close>
  has returned or thrown.
\<close>

definition run_window :: "startup_answers \<Rightarrow> iteration list \<Rightarrow> (string + loop_end) \<times> shell \<times> desktop" where
  "run_window a its =
     (case start_window a (initial_shell, empty_desktop) of
        (Inl e, sd) \<Rightarrow> (Inl e, sd)
      | (Inr _, sd) \<Rightarrow>
          (case window_loop its ([], sd) of
             (Closed, _, sd') \<Rightarrow> (Inr Closed, release_window_resources sd')
           | (r, _, sd') \<Rightarrow> (Inr r, sd')))"

definition window_life :: "startup_answers \<Rightarrow> iteration list \<Rightarrow> (string + loop_end) \<times> shell \<times> desktop" where
  "window_life a its = (let (r, sd) = run_window a its in (r, release_window_resources sd))"

subsection \<open>The size of the window\<close>

text \<open>
  Windows scales a length by \<open>MulDiv\<close>; \<open>adjust\<close> is the frame the system puts around a size, and the
  window must fit the work area. GLFW takes the size as it is.
\<close>

definition initial_window_size ::
    "(int \<Rightarrow> int \<Rightarrow> int \<Rightarrow> int) \<Rightarrow> (int \<times> int \<Rightarrow> int \<times> int) \<Rightarrow> int \<Rightarrow> int \<times> int \<Rightarrow> int \<times> int" where
  "initial_window_size mul_div adjust dpi work_area =
     (let (width, height) = adjust (mul_div 1180 dpi 96, mul_div 900 dpi 96)
      in (min width (fst work_area), min height (snd work_area)))"

definition glfw_window_size :: "(int \<times> int) option \<Rightarrow> int \<times> int" where
  "glfw_window_size work_area =
     (case work_area of None \<Rightarrow> (1180, 900) | Some (width, height) \<Rightarrow> (min 1180 width, min 900 height))"

definition minimum_track_size :: "(int \<Rightarrow> int \<Rightarrow> int \<Rightarrow> int) \<Rightarrow> u32 \<Rightarrow> int \<times> int" where
  "minimum_track_size mul_div detected =
     (let dpi = uint (if detected = 0 then 96 else detected) in (mul_div 520 dpi 96, mul_div 480 dpi 96))"

text \<open>
  The answer to \<open>WM_GETMINMAXINFO\<close>: the least size, and the position and size of the maximized window when
  the monitor is known, which is the work area in the coordinates of the monitor.
\<close>

record rectangle =
  re_left :: int
  re_top :: int
  re_right :: int
  re_bottom :: int

record size_limits =
  sl_minimum :: "int \<times> int"
  sl_maximized :: "((int \<times> int) \<times> (int \<times> int)) option"

definition window_limits ::
    "(int \<Rightarrow> int \<Rightarrow> int \<Rightarrow> int) \<Rightarrow> u32 \<Rightarrow> (rectangle \<times> rectangle) option \<Rightarrow> size_limits" where
  "window_limits mul_div detected monitor =
     \<lparr>sl_minimum = minimum_track_size mul_div detected,
      sl_maximized =
        (case monitor of
           None \<Rightarrow> None
         | Some (work, whole) \<Rightarrow>
             Some ((re_left work - re_left whole, re_top work - re_top whole),
                   (re_right work - re_left work, re_bottom work - re_top work)))\<rparr>"

subsection \<open>GLFW\<close>

text \<open>What GLFW and ImGui have; \<open>window_\<close> and \<open>imgui_ready_\<close> are the members.\<close>

record glfw_state =
  gw_initialized :: bool
  gw_window :: bool
  gw_context :: bool
  gw_platform :: bool
  gw_renderer :: bool
  gw_imgui_ready :: bool

definition no_glfw :: glfw_state where
  "no_glfw = \<lparr>gw_initialized = False, gw_window = False, gw_context = False, gw_platform = False,
     gw_renderer = False, gw_imgui_ready = False\<rparr>"

text \<open>\<open>glfwTerminate\<close> destroys what windows remain, and does nothing when GLFW is not initialized.\<close>

definition glfw_terminate :: "glfw_state \<Rightarrow> glfw_state" where
  "glfw_terminate g = g\<lparr>gw_initialized := False\<rparr>"

definition start_glfw :: "bool \<Rightarrow> bool \<Rightarrow> bool \<Rightarrow> bool \<Rightarrow> glfw_state \<Rightarrow> (string + unit) \<times> glfw_state" where
  "start_glfw init_ok created platform_ok renderer_ok g =
     (if \<not> init_ok then (Inl ''GLFW initialization failed'', g)
      else
        let g1 = g\<lparr>gw_initialized := True\<rparr> in
        if \<not> created then (Inl ''Window creation failed'', glfw_terminate (g1\<lparr>gw_window := False\<rparr>))
        else
          let g2 = g1\<lparr>gw_window := True, gw_context := True, gw_platform := platform_ok,
                gw_renderer := platform_ok \<and> renderer_ok\<rparr>
          in if \<not> platform_ok \<or> \<not> renderer_ok
             then (Inl ''Dear ImGui initialization failed'', g2\<lparr>gw_context := False\<rparr>)
             else (Inr (), g2\<lparr>gw_imgui_ready := True\<rparr>))"

definition release_glfw :: "glfw_state \<Rightarrow> glfw_state" where
  "release_glfw g =
     (let g1 = (if gw_imgui_ready g then g\<lparr>gw_renderer := False, gw_platform := False, gw_context := False,
                  gw_imgui_ready := False\<rparr> else g);
          g2 = (if gw_window g1 then g1\<lparr>gw_window := False\<rparr> else g1)
      in glfw_terminate g2)"

text \<open>
  The loop of \<open>run\<close> with GLFW: each iteration finds whether the window is to be closed, whether it is
  minimized, and, after drawing, whether a transmission is active. The result is whether the loop has ended,
  the number of frames, and the swap intervals that were set, the last one first.
\<close>

record glfw_iteration =
  gi_close :: bool
  gi_iconified :: bool
  gi_active :: bool

fun glfw_loop :: "glfw_iteration list \<Rightarrow> nat \<times> nat list \<Rightarrow> bool \<times> nat \<times> nat list" where
  "glfw_loop [] s = (False, s)"
| "glfw_loop (i # is) (drawn, intervals) =
     (if gi_close i then (True, drawn, intervals)
      else if gi_iconified i then glfw_loop is (drawn, intervals)
      else
        let next = (if gi_active i then 2 else 1)
        in glfw_loop is (drawn + 1, if next \<noteq> hd intervals then next # intervals else intervals))"

text \<open>It starts with the interval 1 that was set before the loop.\<close>

definition run_glfw :: "glfw_iteration list \<Rightarrow> bool \<times> nat \<times> nat list" where
  "run_glfw is = glfw_loop is (0, [1])"

subsection \<open>The first scale\<close>

text \<open>
  \<open>initialize_imgui\<close> sets the scales for the size of the window; on Windows it does not bound the resolution.
\<close>

datatype dpi_source = Windows_Dpi u32 | Content_Scale real real

definition first_dpi_scale :: "dpi_source \<Rightarrow> real" where
  "first_dpi_scale source =
     (case source of
        Windows_Dpi detected \<Rightarrow> real (unat (if detected = 0 then 96 else detected)) / 96
      | Content_Scale horizontal vertical \<Rightarrow> content_dpi_scale horizontal vertical)"

definition first_scales :: "bool \<Rightarrow> dpi_source \<Rightarrow> real \<Rightarrow> real \<Rightarrow> ui_scales" where
  "first_scales apple source width height =
     (let dpi = first_dpi_scale source in
      \<lparr>us_ui = next_scale apple width height dpi, us_dpi = dpi, us_visual = responsive_visual_scale width height dpi\<rparr>)"

subsection \<open>Fonts\<close>

text \<open>
  \<open>load_first_available_font\<close>: the first candidate (a file and a face) that is a file and that ImGui can
  load. The regular font falls back to a built-in one, the bold one to the regular.
\<close>

fun load_first_available_font :: "(string \<Rightarrow> bool) \<Rightarrow> (string \<times> nat \<Rightarrow> 'f option) \<Rightarrow> (string \<times> nat) list \<Rightarrow> ('f \<times> string \<times> nat) option" where
  "load_first_available_font is_file load [] = None"
| "load_first_available_font is_file load (candidate # candidates) =
     (if \<not> is_file (fst candidate) then load_first_available_font is_file load candidates
      else case load candidate of
          Some font \<Rightarrow> Some (font, candidate)
        | None \<Rightarrow> load_first_available_font is_file load candidates)"

definition linux_regular_fonts :: "string \<Rightarrow> (string \<times> nat) list" where
  "linux_regular_fonts font_directory =
     [(path_append font_directory ''NotoSansKR-Regular.otf'', 0),
      (''/usr/share/fonts/google-noto-cjk/NotoSansCJK-Regular.ttc'', 0),
      (''/usr/share/fonts/google-noto-cjk-kr/NotoSansCJKkr-Regular.otf'', 0),
      (''/usr/share/fonts/opentype/noto/NotoSansCJK-Regular.ttc'', 0),
      (''/usr/share/fonts/opentype/noto/NotoSansCJKkr-Regular.otf'', 0),
      (''/usr/share/fonts/truetype/nanum/NanumGothic.ttf'', 0)]"

definition linux_bold_fonts :: "string \<Rightarrow> (string \<times> nat) list" where
  "linux_bold_fonts font_directory =
     [(path_append font_directory ''NotoSansKR-Bold.otf'', 0),
      (''/usr/share/fonts/google-noto-cjk/NotoSansCJK-Bold.ttc'', 0),
      (''/usr/share/fonts/google-noto-cjk-kr/NotoSansCJKkr-Bold.otf'', 0),
      (''/usr/share/fonts/opentype/noto/NotoSansCJK-Bold.ttc'', 0),
      (''/usr/share/fonts/opentype/noto/NotoSansCJKkr-Bold.otf'', 0),
      (''/usr/share/fonts/truetype/nanum/NanumGothicBold.ttf'', 0)]"

definition mac_regular_fonts :: "(string \<times> nat) list" where
  "mac_regular_fonts =
     [(''/System/Library/Fonts/AppleSDGothicNeo.ttc'', 0), (''/System/Library/Fonts/Supplemental/AppleGothic.ttf'', 0)]"

definition mac_bold_fonts :: "(string \<times> nat) list" where
  "mac_bold_fonts =
     [(''/System/Library/Fonts/AppleSDGothicNeo.ttc'', 4), (''/System/Library/Fonts/Supplemental/AppleGothic.ttf'', 0)]"

definition backslashes :: "string \<Rightarrow> string" where
  "backslashes = map (\<lambda>c. if c = CHR ''/'' then CHR 0x5C else c)"

definition windows_regular_fonts :: "(string \<times> nat) list" where
  "windows_regular_fonts = [(backslashes ''C:/Windows/Fonts/malgun.ttf'', 0)]"

definition windows_bold_fonts :: "(string \<times> nat) list" where
  "windows_bold_fonts = [(backslashes ''C:/Windows/Fonts/malgunbd.ttf'', 0)]"

definition ui_fonts ::
    "(string \<Rightarrow> bool) \<Rightarrow> (string \<times> nat \<Rightarrow> 'f option) \<Rightarrow> 'f \<Rightarrow> (string \<times> nat) list \<Rightarrow> (string \<times> nat) list \<Rightarrow> 'f \<times> 'f" where
  "ui_fonts is_file load built_in regular_candidates bold_candidates =
     (let regular = (case load_first_available_font is_file load regular_candidates of Some (f, _) \<Rightarrow> f | None \<Rightarrow> built_in)
      in (regular, case load_first_available_font is_file load bold_candidates of Some (f, _) \<Rightarrow> f | None \<Rightarrow> regular))"

subsection \<open>The message box for errors\<close>

text \<open>
  \<open>to_wide\<close>: a text that is not UTF-8 is read in the code page of the system. \<open>length\<close> and \<open>convert\<close>
  are \<open>MultiByteToWideChar\<close> for UTF-8 (\<open>True\<close>) or for that page.
\<close>

definition wide_text :: "string \<Rightarrow> u16 list" where
  "wide_text s = map (\<lambda>c. of_nat (code c)) s"

definition to_wide :: "(bool \<Rightarrow> string \<Rightarrow> nat) \<Rightarrow> (bool \<Rightarrow> string \<Rightarrow> u16 list option) \<Rightarrow> string \<Rightarrow> u16 list" where
  "to_wide wide_length convert s =
     (if s = [] then []
      else if 2 ^ 31 - 1 < length s then wide_text ''Error message is too long''
      else
        let utf8 = wide_length True s \<noteq> 0; wide_size = (if utf8 then wide_length True s else wide_length False s) in
        if wide_size = 0 then wide_text ''Unknown application error''
        else case convert utf8 s of None \<Rightarrow> wide_text ''Unknown application error'' | Some w \<Rightarrow> w)"

text \<open>
  The hook that gives the box its icons: \<open>message_box_instance\<close> and \<open>message_box_hook\<close> of the thread, how
  many hooks the system has installed for it, and how often the icons were set.
\<close>

record message_box =
  mb_instance :: bool
  mb_hook :: bool
  mb_installed :: nat
  mb_icons :: nat

definition no_message_box :: message_box where
  "no_message_box = \<lparr>mb_instance = False, mb_hook = False, mb_installed = 0, mb_icons = 0\<rparr>"

text \<open>The system calls the hook, when it is installed; only an activation counts.\<close>

definition icon_hook :: "bool \<Rightarrow> message_box \<Rightarrow> message_box" where
  "icon_hook activation b =
     (if activation \<and> mb_instance b then
        let b1 = b\<lparr>mb_icons := mb_icons b + 1, mb_hook := False\<rparr>
        in if mb_hook b then b1\<lparr>mb_installed := mb_installed b - 1\<rparr> else b1
      else b)"

definition call_hook :: "bool \<Rightarrow> message_box \<Rightarrow> message_box" where
  "call_hook activation b = (if 0 < mb_installed b then icon_hook activation b else b)"

text \<open>
  \<open>show_application_error\<close>: \<open>has_instance\<close> and \<open>hooked\<close> are the instance and whether the hook could be
  set; \<open>events\<close> are what the box goes through while it is open.
\<close>

definition show_application_error :: "bool \<Rightarrow> bool \<Rightarrow> bool list \<Rightarrow> message_box \<Rightarrow> message_box" where
  "show_application_error has_instance hooked events b =
     (let b1 = b\<lparr>mb_instance := has_instance, mb_hook := hooked,
                mb_installed := (if hooked then mb_installed b + 1 else mb_installed b)\<rparr>;
          b2 = fold call_hook events b1;
          b3 = (if mb_hook b2 then b2\<lparr>mb_installed := mb_installed b2 - 1, mb_hook := False\<rparr> else b2)
      in b3\<lparr>mb_instance := False\<rparr>)"

subsection \<open>Lemmas\<close>

text \<open>What the members say of the system, from the creation of the window on.\<close>

definition desktop_ok :: "shell \<times> desktop \<Rightarrow> bool" where
  "desktop_ok sd \<longleftrightarrow>
     (case sd of (s, k) \<Rightarrow>
        (sh_class s \<longleftrightarrow> dk_class k) \<and> (sh_class s \<longrightarrow> sh_instance s) \<and> (dk_window k \<longrightarrow> sh_window s)
        \<and> (sh_imgui_ready s \<longleftrightarrow> dk_context k) \<and> (dk_renderer k \<longrightarrow> dk_context k))"

lemma release_window_resources_clean:
  assumes "desktop_ok sd" "release_window_resources sd = (s, k)"
  shows "desktop_ok (s, k) \<and> \<not> dk_class k \<and> \<not> dk_window k \<and> \<not> dk_context k \<and> \<not> dk_renderer k"
proof -
  obtain s0 k0 where sd: "sd = (s0, k0)" by fastforce
  from assms(1) have ok: "sh_class s0 = dk_class k0" "sh_class s0 \<longrightarrow> sh_instance s0" "dk_window k0 \<longrightarrow> sh_window s0"
    "sh_imgui_ready s0 = dk_context k0" "dk_renderer k0 \<longrightarrow> dk_context k0"
    by (simp_all add: sd desktop_ok_def)
  have "\<not> sh_imgui_ready s \<and> \<not> sh_class s"
    using assms(2) by (cases "sh_imgui_ready s0") (auto simp: sd release_window_resources_def shutdown_imgui_def Let_def)
  moreover have "\<not> dk_class k \<and> \<not> dk_window k \<and> \<not> dk_context k \<and> \<not> dk_renderer k"
    using assms(2) ok
    by (cases "dk_context k0"; cases "dk_window k0"; cases "dk_class k0")
      (simp_all add: sd release_window_resources_def shutdown_imgui_def destroy_window_def Let_def, auto)
  ultimately show ?thesis by (simp add: desktop_ok_def)
qed

lemma start_window_ok: "start_window a (initial_shell, empty_desktop) = (r, sd) \<Longrightarrow> desktop_ok sd"
  by (auto simp: start_window_def initialize_imgui_def desktop_ok_def initial_shell_def empty_desktop_def Let_def
      split: prod.splits if_splits sum.splits)

text \<open>
  A message touches Direct3D only when it resizes, and of the system only the window and its queue.
\<close>

lemma handle_message_effect:
  "handle_message t a message (s, k) = (answer, e', s', k') \<Longrightarrow>
     (s' = s \<or> (\<exists>width height r d. d3d_resize a width height (sh_d3d s) = (r, d) \<and> s' = s\<lparr>sh_d3d := d\<rparr>))
     \<and> (k' = k \<or> k' = k\<lparr>dk_quit := True\<rparr>)"
  by (cases message) (auto simp: handle_message_def Let_def split: prod.splits if_splits)

lemma dispatch_effect:
  assumes "dispatch (t, a, message) (e, s, k) = (e', s', k')"
  shows "(s' = s \<or> (\<exists>width height r d. d3d_resize a width height (sh_d3d s) = (r, d) \<and> s' = s\<lparr>sh_d3d := d\<rparr>))
     \<and> (k' = k \<or> k' = k\<lparr>dk_quit := True\<rparr> \<or> k' = destroy_window k)"
proof -
  obtain answer e1 s1 k1 where h: "handle_message t a message (s, k) = (answer, e1, s1, k1)" by (metis prod.exhaust)
  from handle_message_effect [OF h] assms h show ?thesis
    by (auto simp: dispatch_def Let_def destroy_window_def split: if_splits)
qed

lemma d3d_resize_device: "d3d_resize a width height d = (r, d') \<Longrightarrow> dx_device d' = dx_device d"
  by (auto simp: d3d_resize_def create_render_target_def Let_def split: if_splits)

lemma dispatch_ok:
  assumes "desktop_ok (snd es)"
  shows "desktop_ok (snd (dispatch m es))"
proof -
  obtain e s k where es: "es = (e, s, k)" by (metis prod.exhaust)
  obtain t a message where m: "m = (t, a, message)" by (metis prod.exhaust)
  obtain e' s' k' where d: "dispatch m (e, s, k) = (e', s', k')" by (metis prod.exhaust)
  from dispatch_effect [OF d [unfolded m]] assms show ?thesis
    unfolding es d snd_conv by (elim conjE disjE exE) (simp_all add: desktop_ok_def destroy_window_def)
qed

lemma fold_dispatch_ok: "desktop_ok (snd es) \<Longrightarrow> desktop_ok (snd (fold dispatch ms es))"
  by (rule fold_invariant [where Q = "\<lambda>_. True" and P = "\<lambda>es. desktop_ok (snd es)"]) (simp_all add: dispatch_ok)

lemma window_loop_ok: "window_loop its es = (r, es') \<Longrightarrow> desktop_ok (snd es) \<Longrightarrow> desktop_ok (snd es')"
proof (induction its es rule: window_loop.induct)
  case (2 it its es)
  define es1 where "es1 = fold dispatch (it_messages it) es"
  have ok: "desktop_ok (snd es1)" using fold_dispatch_ok 2(4) by (simp add: es1_def)
  show ?case
    using 2(3) ok 2(1,2) by (simp only: window_loop.simps Let_def es1_def [symmetric] split: if_splits option.splits) auto
qed simp

lemma start_window_failed:
  assumes "start_window a (initial_shell, empty_desktop) = (Inl e, (s, k))"
  shows "(dk_window k \<longleftrightarrow> st_icons_ok a \<and> st_class_ok a \<and> st_window_ok a) \<and> \<not> dk_quit k \<and> \<not> sh_imgui_ready s
    \<and> (dk_platform k \<longrightarrow> st_platform_ok a \<and> \<not> st_renderer_ok a)"
  using assms
  by (auto simp: start_window_def initialize_imgui_def initial_shell_def empty_desktop_def Let_def
      split: prod.splits if_splits sum.splits)

lemma start_window_succeeded:
  assumes "start_window a (initial_shell, empty_desktop) = (Inr u, (s, k))"
  shows "dk_window k \<and> sh_imgui_ready s \<and> dk_platform k \<and> dx_device (sh_d3d s) \<and> dx_target (sh_d3d s)"
  using assms
  by (auto simp: start_window_def initialize_imgui_def d3d_create_def create_render_target_def Let_def
      split: prod.splits if_splits sum.splits)

text \<open>Nothing but the end of ImGui changes what it has, and a frame can be drawn while resizing works.\<close>

definition d3d_works :: "d3d_answers \<Rightarrow> bool" where
  "d3d_works a \<longleftrightarrow> dx_resize_ok a \<and> dx_buffer_ok a \<and> dx_view_ok a"

definition can_draw :: "shell \<Rightarrow> bool" where
  "can_draw s \<longleftrightarrow> dx_device (sh_d3d s) \<and> dx_target (sh_d3d s)"

text \<open>What a message leaves alone, and that resizing works when the system does.\<close>

definition same_imgui :: "bool \<Rightarrow> bool \<Rightarrow> string \<times> shell \<times> desktop \<Rightarrow> bool" where
  "same_imgui ready platform es \<longleftrightarrow> (case es of (e, s, k) \<Rightarrow> sh_imgui_ready s = ready \<and> dk_platform k = platform)"

lemma dispatch_same_imgui:
  assumes "same_imgui ready platform es"
  shows "same_imgui ready platform (dispatch m es)"
proof -
  obtain e s k where es: "es = (e, s, k)" by (metis prod.exhaust)
  obtain t a message where m: "m = (t, a, message)" by (metis prod.exhaust)
  obtain e' s' k' where d: "dispatch m (e, s, k) = (e', s', k')" by (metis prod.exhaust)
  from dispatch_effect [OF d [unfolded m]] assms show ?thesis
    unfolding es d by (elim conjE disjE exE) (simp_all add: same_imgui_def destroy_window_def)
qed

lemma d3d_resize_can_draw:
  assumes "d3d_works a" "dx_device d" "dx_target d" "d3d_resize a width height d = (r, d')"
  shows "dx_device d' \<and> dx_target d'"
  using assms by (auto simp: d3d_works_def d3d_resize_def create_render_target_def Let_def split: if_splits)

lemma dispatch_can_draw:
  assumes "can_draw (fst (snd es))" "d3d_works (fst (snd m))"
  shows "can_draw (fst (snd (dispatch m es)))"
proof -
  obtain e s k where es: "es = (e, s, k)" by (metis prod.exhaust)
  obtain t a message where m: "m = (t, a, message)" by (metis prod.exhaust)
  obtain e' s' k' where d: "dispatch m (e, s, k) = (e', s', k')" by (metis prod.exhaust)
  from dispatch_effect [OF d [unfolded m]]
  consider "s' = s" | width height r d1 where "d3d_resize a width height (sh_d3d s) = (r, d1)" "s' = s\<lparr>sh_d3d := d1\<rparr>"
    by blast
  then show ?thesis
  proof cases
    case 1
    with assms(1) show ?thesis unfolding es d by simp
  next
    case 2
    from d3d_resize_can_draw [OF _ _ _ 2(1)] assms 2(2) show ?thesis unfolding es d by (simp add: can_draw_def m)
  qed
qed

lemma window_loop_same_imgui:
  "window_loop its es = (r, es') \<Longrightarrow> same_imgui ready platform es \<Longrightarrow> same_imgui ready platform es'"
proof (induction its es rule: window_loop.induct)
  case (2 it its es)
  define es1 where "es1 = fold dispatch (it_messages it) es"
  have ok: "same_imgui ready platform es1" unfolding es1_def
    by (rule fold_invariant [where Q = "\<lambda>_. True"]) (simp_all add: dispatch_same_imgui 2(4))
  show ?case
    using 2(3) ok 2(1,2) by (simp only: window_loop.simps Let_def es1_def [symmetric] split: if_splits option.splits) auto
qed simp

lemma window_loop_can_draw:
  "window_loop its es = (r, es') \<Longrightarrow> can_draw (fst (snd es)) \<Longrightarrow>
     \<forall>it \<in> set its. \<forall>m \<in> set (it_messages it). d3d_works (fst (snd m)) \<Longrightarrow> r \<noteq> Drawn_Without_Target"
proof (induction its es rule: window_loop.induct)
  case (2 it its es)
  define es1 where "es1 = fold dispatch (it_messages it) es"
  have ok: "can_draw (fst (snd es1))" unfolding es1_def
    by (rule fold_invariant [where Q = "\<lambda>m. d3d_works (fst (snd m))"]) (use 2(4,5) dispatch_can_draw in auto)
  then have "d3d_draw (sh_d3d (fst (snd es1))) \<noteq> None" by (simp add: can_draw_def d3d_draw_def)
  then show ?case
    using 2(3) ok 2(1,2) 2(5) by (simp only: window_loop.simps Let_def es1_def [symmetric] split: if_splits option.splits) auto
qed simp

subsection \<open>Properties\<close>


text \<open>Everything works, and the window is resized, drawn and closed.\<close>

definition good_d3d :: d3d_answers where
  "good_d3d = \<lparr>dx_create_ok = True, dx_resize_ok = True, dx_buffer_ok = True, dx_view_ok = True\<rparr>"

definition good_startup :: startup_answers where
  "good_startup = \<lparr>st_icons_ok = True, st_class_ok = True, st_window_ok = True, st_d3d = good_d3d,
     st_platform_ok = True, st_renderer_ok = True\<rparr>"

definition sample_iterations :: "iteration list" where
  "sample_iterations =
     [\<lparr>it_messages = [(False, good_d3d, Size_Message False 800 600)], it_iconic = False\<rparr>,
      \<lparr>it_messages = [(False, good_d3d, Close_Message), (False, good_d3d, Quit_Message)], it_iconic = False\<rparr>]"




text \<open>A resize that fails leaves no render target: the error is kept for the window, and the next frame draws without one.\<close>

lemma failed_resize_draws_without_target:
  assumes "can_draw s" "\<not> dx_resize_ok a" "0 < width" "0 < height"
  shows "window_loop [\<lparr>it_messages = [(False, a, Size_Message False width height)], it_iconic = False\<rparr>] ([], s, k)
    = (Drawn_Without_Target, ''Direct3D resize failed'', s\<lparr>sh_d3d := (sh_d3d s)\<lparr>dx_target := False\<rparr>\<rparr>, k)"
  using assms by (simp add: dispatch_def handle_message_def d3d_resize_def can_draw_def d3d_draw_def)

text \<open>With GLFW nothing is left either, but for the platform backend after a renderer that refused.\<close>

lemma glfw_leaves_nothing:
  assumes "start_glfw init_ok created platform_ok renderer_ok no_glfw = (r, g)"
  shows "\<not> gw_initialized (release_glfw g) \<and> \<not> gw_window (release_glfw g) \<and> \<not> gw_context (release_glfw g)
    \<and> \<not> gw_renderer (release_glfw g) \<and> (gw_platform (release_glfw g) \<longrightarrow> platform_ok \<and> \<not> renderer_ok)
    \<and> release_glfw (release_glfw g) = release_glfw g"
  using assms
  by (auto simp: start_glfw_def release_glfw_def glfw_terminate_def no_glfw_def Let_def split: if_splits)

text \<open>The swap interval is only ever 1 or 2, and is set when it changes and not otherwise.\<close>

lemma glfw_loop_intervals:
  "glfw_loop is (drawn, intervals) = (ended, n, result) \<Longrightarrow> intervals \<noteq> [] \<Longrightarrow> distinct_adj intervals \<Longrightarrow>
     set intervals \<subseteq> {1, 2} \<Longrightarrow> distinct_adj result \<and> set result \<subseteq> {1, 2} \<and> n \<le> drawn + length is"
proof (induction "is" arbitrary: drawn intervals)
  case (Cons i "is")
  show ?case
  proof (cases "gi_close i \<or> gi_iconified i")
    case True
    show ?thesis
    proof (cases "gi_close i")
      case False
      with True Cons.prems have "glfw_loop is (drawn, intervals) = (ended, n, result)" by simp
      from Cons.IH [OF this Cons.prems(2-4)] show ?thesis by simp
    qed (use Cons.prems in simp)
  next
    case False
    define nx where "nx = (if gi_active i then 2 else (1::nat))"
    let ?l = "if nx \<noteq> hd intervals then nx # intervals else intervals"
    have "glfw_loop is (drawn + 1, ?l) = (ended, n, result)" using False Cons.prems(1)
      by (cases "gi_active i") (simp_all add: nx_def split: if_splits)
    moreover have "distinct_adj ?l" using Cons.prems(2,3) by (cases intervals) (auto simp: distinct_adj_Cons)
    moreover have "?l \<noteq> []" "set ?l \<subseteq> {1, 2}" using Cons.prems(2,4) by (auto simp: nx_def)
    ultimately show ?thesis using Cons.IH [of "drawn + 1" ?l] by simp
  qed
qed simp

lemma run_glfw_intervals:
  "run_glfw is = (ended, n, result) \<Longrightarrow> distinct_adj result \<and> set result \<subseteq> {1, 2} \<and> n \<le> length is"
  using glfw_loop_intervals [of "is" 0 "[1]"] by (simp add: run_glfw_def)

text \<open>No hook is left after a message box, however often it is activated.\<close>

lemma fold_call_hook:
  "mb_installed b = (if mb_hook b then Suc n else n) \<Longrightarrow>
     mb_installed (fold call_hook events b) = (if mb_hook (fold call_hook events b) then Suc n else n)"
proof (induction events arbitrary: b)
  case (Cons x events)
  have "mb_installed (call_hook x b) = (if mb_hook (call_hook x b) then Suc n else n)"
    using Cons.prems by (auto simp: call_hook_def icon_hook_def Let_def)
  from Cons.IH [OF this] show ?case by simp
qed simp

lemma message_box_unhooks:
  "mb_installed (show_application_error has_instance hooked events b) = mb_installed b"
  using fold_call_hook [of "b\<lparr>mb_instance := has_instance, mb_hook := hooked,
    mb_installed := (if hooked then mb_installed b + 1 else mb_installed b)\<rparr>" "mb_installed b" events]
  by (auto simp: show_application_error_def Let_def)

text \<open>The window never starts larger than the work area, whatever the frame around it.\<close>

lemma initial_size_fits:
  "fst (initial_window_size mul_div adjust dpi work_area) \<le> fst work_area
    \<and> snd (initial_window_size mul_div adjust dpi work_area) \<le> snd work_area"
  by (simp add: initial_window_size_def split: prod.splits)

end
