(* ===== verification/Tls_Release.thy ===== *)
theory Tls_Release
  imports Schannel
begin

text \<open>
  What the TLS transport of POSIX systems (\<open>src/src/infrastructure/openssl_transport.cpp\<close>) holds of
  OpenSSL, also when \<open>connect\<close> ends in an exception, and how the destructor gives it back. \<open>Tls\<close> says what
  a session is worth; here the same calls are followed with the context and the session they leave.
\<close>

subsection \<open>The transport\<close>

text \<open>\<open>Impl\<close>: the socket, and whether \<open>context\<close> and \<open>session\<close> are not null.\<close>

record openssl =
  op_socket :: socket_handle
  op_context :: bool
  op_session :: bool

definition new_openssl :: openssl where
  "new_openssl = \<lparr>op_socket = None, op_context = False, op_session = False\<rparr>"

text \<open>\<open>SSL_shutdown\<close>, \<open>SSL_free\<close> and \<open>SSL_CTX_free\<close>.\<close>

record 'w tls_release =
  rel_shutdown :: "'w \<Rightarrow> 'w"
  rel_session :: "'w \<Rightarrow> 'w"
  rel_context :: "'w \<Rightarrow> 'w"

text \<open>\<open>~Impl\<close>, and then the destructor of the socket.\<close>

definition free_openssl :: "'w tls_release \<Rightarrow> openssl \<Rightarrow> 'w \<Rightarrow> 'w" where
  "free_openssl rel impl w =
     (let w1 = (if op_session impl then rel_session rel (rel_shutdown rel w) else w)
      in if op_context impl then rel_context rel w1 else w1)"

definition close_openssl :: "('a, 'w) socket_calls \<Rightarrow> 'w tls_release \<Rightarrow> openssl \<Rightarrow> 'w \<Rightarrow> 'w" where
  "close_openssl os rel impl w = snd (reset_handle os None (op_socket impl) (free_openssl rel impl w))"

text \<open>A call that throws when it fails, and what comes after it if it does not.\<close>

definition tls_do :: "string \<Rightarrow> ('w \<Rightarrow> bool \<times> 'w) \<Rightarrow> 'w \<Rightarrow> (tls_error + unit) \<times> 'w" where
  "tls_do action f w = (case f w of (ok, w') \<Rightarrow> (if ok then Inr () else Inl (Tls_Failed action), w'))"

definition then_do :: "('e + 'a) \<times> 'w \<Rightarrow> ('w \<Rightarrow> ('e + 'b) \<times> 'w) \<Rightarrow> ('e + 'b) \<times> 'w" where
  "then_do p k = (case p of (Inl e, w) \<Rightarrow> (Inl e, w) | (Inr _, w) \<Rightarrow> k w)"

text \<open>\<open>initialize\<close> from \<open>SSL_new\<close> on: the session has been made.\<close>

definition configure_session ::
    "'w tls_calls \<Rightarrow> int \<Rightarrow> string \<Rightarrow> bool \<Rightarrow> 'w \<Rightarrow> (tls_error + tls_session) \<times> 'w" where
  "configure_session ssl fd identity verify w =
     then_do (if \<not> is_ip_address ssl identity
              then tls_do ''Setting TLS server name'' (ssl_set_server_name ssl identity) w else (Inr (), w)) (\<lambda>w1.
     let peer = (if is_ip_address ssl identity then Ip_Identity identity else Host_Identity identity) in
     then_do (if verify then tls_do ''Setting TLS certificate identity'' (ssl_set_identity ssl peer) w1
              else (Inr (), w1)) (\<lambda>w2.
     then_do (tls_do ''SSL_set_fd'' (ssl_set_socket ssl fd) w2) (\<lambda>w3.
     let session = \<lparr>tl_minimum_tls12 = True, tl_verify_mode = (if verify then Verify_Peer else Verify_None),
                    tl_system_authorities = verify,
                    tl_server_name = (if is_ip_address ssl identity then None else Some identity),
                    tl_identity = (if verify then Some peer else None), tl_socket = Some fd\<rparr> in
     then_do (tls_do ''TLS handshake'' (ssl_connect ssl session) w3) (\<lambda>w4.
     (if verify \<and> \<not> ssl_verified ssl w4 then Inl Not_Verified else Inr session, w4)))))"

text \<open>\<open>initialize\<close>: the session or the exception, and the members.\<close>

definition openssl_initialize ::
    "'w tls_calls \<Rightarrow> int \<Rightarrow> string \<Rightarrow> bool \<Rightarrow> openssl \<Rightarrow> 'w \<Rightarrow> (tls_error + tls_session) \<times> openssl \<times> 'w" where
  "openssl_initialize ssl fd identity verify impl w =
     (case tls_do ''SSL_CTX_new'' (ssl_new_context ssl) w of
        (Inl e, w1) \<Rightarrow> (Inl e, impl\<lparr>op_context := False\<rparr>, w1)
      | (Inr _, w1) \<Rightarrow>
          (case (if verify then tls_do ''Loading system CA certificates'' (ssl_load_authorities ssl) w1
                 else (Inr (), w1)) of
             (Inl e, w2) \<Rightarrow> (Inl e, impl\<lparr>op_context := True\<rparr>, w2)
           | (Inr _, w2) \<Rightarrow>
               (case tls_do ''SSL_new'' (ssl_new_session ssl) w2 of
                  (Inl e, w3) \<Rightarrow> (Inl e, impl\<lparr>op_context := True, op_session := False\<rparr>, w3)
                | (Inr _, w3) \<Rightarrow>
                    let (r, w4) = configure_session ssl fd identity verify w3
                    in (r, impl\<lparr>op_context := True, op_session := True\<rparr>, w4))))"

text \<open>\<open>connect\<close>: a new \<open>Impl\<close> takes the place of the old one, which is destroyed.\<close>

definition openssl_connect ::
    "('a, 'w) socket_calls \<Rightarrow> 'w tls_calls \<Rightarrow> 'w tls_release \<Rightarrow> endpoint_config \<Rightarrow> openssl \<Rightarrow> 'w
       \<Rightarrow> (tls_error + tls_session) \<times> openssl \<times> 'w" where
  "openssl_connect os ssl rel endpoint impl w =
     (let w1 = close_openssl os rel impl w;
          (connected, handle, w2) = tcp_connect os endpoint None w1;
          impl1 = new_openssl\<lparr>op_socket := handle\<rparr>
      in case connected of
           Inl e \<Rightarrow> (Inl (Tcp_Error e), impl1, w2)
         | Inr _ \<Rightarrow>
             (case handle of
                None \<Rightarrow> (Inl Not_Connected, impl1, w2)
              | Some fd \<Rightarrow>
                  openssl_initialize ssl fd (tls_peer_name endpoint) (ep_verify_certificate endpoint) impl1 w2))"

subsection \<open>What the code relies on\<close>

text \<open>
  How many contexts and sessions there are: two calls make one, two calls free one, and nothing else of
  OpenSSL touches them or a descriptor of the program.
\<close>

definition tls_keeps :: "'w tls_calls \<Rightarrow> ('w \<Rightarrow> 'h) \<Rightarrow> bool" where
  "tls_keeps ssl held \<longleftrightarrow>
     keeps_open held (ssl_load_authorities ssl) \<and> (\<forall>s. keeps_open held (ssl_set_server_name ssl s))
     \<and> (\<forall>i. keeps_open held (ssl_set_identity ssl i)) \<and> (\<forall>fd. keeps_open held (ssl_set_socket ssl fd))
     \<and> (\<forall>s. keeps_open held (ssl_connect ssl s))"

definition tls_memory_law :: "'w tls_calls \<Rightarrow> 'w tls_release \<Rightarrow> ('w \<Rightarrow> nat \<times> nat) \<Rightarrow> bool" where
  "tls_memory_law ssl rel held \<longleftrightarrow>
     (\<forall>w ok w'. ssl_new_context ssl w = (ok, w') \<longrightarrow>
        held w' = (if ok then (fst (held w) + 1, snd (held w)) else held w)) \<and>
     (\<forall>w ok w'. ssl_new_session ssl w = (ok, w') \<longrightarrow>
        held w' = (if ok then (fst (held w), snd (held w) + 1) else held w)) \<and>
     (\<forall>w. held (rel_shutdown rel w) = held w) \<and>
     (\<forall>w. held (rel_session rel w) = (fst (held w), snd (held w) - 1)) \<and>
     (\<forall>w. held (rel_context rel w) = (fst (held w) - 1, snd (held w)))"

definition release_keeps :: "'w tls_calls \<Rightarrow> 'w tls_release \<Rightarrow> ('w \<Rightarrow> 'h) \<Rightarrow> bool" where
  "release_keeps ssl rel opened \<longleftrightarrow>
     keeps_open opened (ssl_new_context ssl) \<and> keeps_open opened (ssl_new_session ssl) \<and>
     (\<forall>w. opened (rel_shutdown rel w) = opened w \<and> opened (rel_session rel w) = opened w
        \<and> opened (rel_context rel w) = opened w)"

subsection \<open>Lemmas\<close>

lemma tls_do_cases:
  "tls_do action f w = (r, w') \<longleftrightarrow>
     (case f w of (ok, v) \<Rightarrow> w' = v \<and> r = (if ok then Inr () else Inl (Tls_Failed action)))"
  by (auto simp: tls_do_def split: prod.splits)

lemma tls_do_keeps: "keeps_open held f \<Longrightarrow> keeps_open held (tls_do action f)"
  by (rule keeps_openI) (auto simp: tls_do_cases dest: keeps_openD split: prod.splits)

lemma then_do_keeps:
  assumes "held (snd p) = h" "\<And>v. held v = h \<Longrightarrow> held (snd (k v)) = h"
  shows "held (snd (then_do p k)) = h"
  using assms by (cases p; cases "fst p") (auto simp: then_do_def)

lemma configure_session_keeps:
  assumes "tls_keeps ssl held"
  shows "held (snd (configure_session ssl fd identity verify w)) = held w"
proof -
  note keep = assms [unfolded tls_keeps_def]
  have do: "held (snd (tls_do action f v)) = held v" if "keeps_open held f" for action f v
    using keeps_open_snd [OF tls_do_keeps [OF that]] .
  show ?thesis
    unfolding configure_session_def Let_def
    by (intro then_do_keeps [where held = held]) (use keep in \<open>auto simp: do\<close>)
qed

text \<open>What \<open>initialize\<close> leaves: a context and a session for the members that say so, and no descriptor.\<close>

definition tls_holds :: "openssl \<Rightarrow> nat \<times> nat \<Rightarrow> nat \<times> nat" where
  "tls_holds impl h =
     (if op_context impl then fst h + 1 else fst h, if op_session impl then snd h + 1 else snd h)"

lemma openssl_initialize_effect:
  assumes "tls_memory_law ssl rel held" "tls_keeps ssl held"
    and "openssl_initialize ssl fd identity verify (new_openssl\<lparr>op_socket := handle\<rparr>) w = (r, impl, w')"
  shows "held w' = tls_holds impl (held w) \<and> op_socket impl = handle"
proof -
  note law = assms(1) [unfolded tls_memory_law_def]
  obtain ok1 w1 where c: "ssl_new_context ssl w = (ok1, w1)" by fastforce
  from law c have h1: "held w1 = (if ok1 then (fst (held w) + 1, snd (held w)) else held w)" by blast
  obtain q w2 where l: "(if verify then tls_do ''Loading system CA certificates'' (ssl_load_authorities ssl) w1
    else (Inr (), w1)) = (q, w2)" by fastforce
  have "keeps_open held (tls_do ''Loading system CA certificates'' (ssl_load_authorities ssl))"
    by (rule tls_do_keeps) (use assms(2) in \<open>simp add: tls_keeps_def\<close>)
  from keeps_openD [OF this, of w1] l have h2: "held w2 = held w1" by (auto split: if_splits)
  obtain ok3 w3 where n: "ssl_new_session ssl w2 = (ok3, w3)" by fastforce
  from law n have h3: "held w3 = (if ok3 then (fst (held w2), snd (held w2) + 1) else held w2)" by blast
  obtain z w4 where s: "configure_session ssl fd identity verify w3 = (z, w4)" by fastforce
  have h4: "held w4 = held w3" using configure_session_keeps [OF assms(2), of fd identity verify w3] s by simp
  show ?thesis
    using assms(3) h1 h2 h3 h4
    by (cases ok1; cases q; cases ok3)
      (auto simp: openssl_initialize_def tls_do_def c l n s new_openssl_def tls_holds_def)
qed

lemma openssl_initialize_opened:
  assumes "release_keeps ssl rel opened" "tls_keeps ssl opened"
    and "openssl_initialize ssl fd identity verify impl0 w = (r, impl, w')"
  shows "opened w' = opened w"
proof -
  have keep: "keeps_open opened (tls_do ''SSL_CTX_new'' (ssl_new_context ssl))"
    "keeps_open opened (tls_do ''Loading system CA certificates'' (ssl_load_authorities ssl))"
    "keeps_open opened (tls_do ''SSL_new'' (ssl_new_session ssl))"
    by (rule tls_do_keeps, use assms(1,2) in \<open>simp add: release_keeps_def tls_keeps_def\<close>)+
  note keep = keep [THEN keeps_openD]
  have conf: "opened v' = opened v" if "configure_session ssl fd identity b v = (q, v')" for b v q v'
    using configure_session_keeps [OF assms(2), of fd identity b v] that by simp
  show ?thesis
    using assms(3)
    by (auto simp: openssl_initialize_def Let_def dest!: keep conf split: prod.splits sum.splits if_splits)
qed

lemma free_openssl_effect:
  assumes "tls_memory_law ssl rel held" "release_keeps ssl rel opened" "held w = tls_holds impl h"
  shows "held (free_openssl rel impl w) = h \<and> opened (free_openssl rel impl w) = opened w"
  using assms
  by (cases "op_context impl"; cases "op_session impl")
    (simp_all add: free_openssl_def tls_memory_law_def release_keeps_def tls_holds_def)

text \<open>Without the state an exception leaves, \<open>then_do\<close> is \<open>bind_result\<close>.\<close>

definition erase_state :: "('e + 'a) \<times> 'w \<Rightarrow> 'e + 'a \<times> 'w" where
  "erase_state p = (case p of (Inl e, w) \<Rightarrow> Inl e | (Inr x, w) \<Rightarrow> Inr (x, w))"

lemma erase_state_simps [simp]: "erase_state (Inl e, w) = Inl e" "erase_state (Inr x, w) = Inr (x, w)"
  by (simp_all add: erase_state_def)

lemma erase_then_do:
  "erase_state (then_do (tls_do action f w) k) = bind_result (tls_call action f w) (\<lambda>v. erase_state (k v))"
  "erase_state (then_do (if c then tls_do action f w else (Inr (), w)) k)
    = bind_result (if c then tls_call action f w else Inr w) (\<lambda>v. erase_state (k v))"
  by (cases "f w"; simp add: then_do_def tls_do_def tls_call_def)+

lemma erase_last: "erase_state (if c then Inl e else Inr x, w) = (if c then Inl e else Inr (x, w))"
  by simp

lemma tls_initialize_steps:
  "tls_initialize ssl fd identity verify w =
     bind_result (tls_call ''SSL_CTX_new'' (ssl_new_context ssl) w) (\<lambda>w1.
     bind_result (if verify then tls_call ''Loading system CA certificates'' (ssl_load_authorities ssl) w1
                  else Inr w1) (\<lambda>w2.
     bind_result (tls_call ''SSL_new'' (ssl_new_session ssl) w2) (\<lambda>w3.
     erase_state (configure_session ssl fd identity verify w3))))"
  unfolding tls_initialize_def configure_session_def Let_def erase_then_do erase_last ..

lemma tls_initialize_erases:
  "tls_initialize ssl fd identity verify w =
     (case openssl_initialize ssl fd identity verify impl w of (r, _, w') \<Rightarrow> erase_state (r, w'))"
proof -
  obtain ok1 w1 where c: "ssl_new_context ssl w = (ok1, w1)" by fastforce
  obtain ok2 w2 where l: "ssl_load_authorities ssl w1 = (ok2, w2)" by fastforce
  define w2' where "w2' = (if verify then w2 else w1)"
  obtain ok3 w3 where n: "ssl_new_session ssl w2' = (ok3, w3)" by fastforce
  show ?thesis
    using n unfolding tls_initialize_steps openssl_initialize_def w2'_def
    by (cases ok1; cases verify; cases ok2; cases ok3) (simp_all add: tls_call_def tls_do_def c l split: prod.split)
qed

lemma openssl_initialize_socket:
  "op_socket (fst (snd (openssl_initialize ssl fd identity verify impl w))) = op_socket impl"
  by (auto simp: openssl_initialize_def Let_def split: prod.splits sum.splits)

subsection \<open>Properties\<close>

text \<open>
  Following the context and the session changes nothing of what a connection is: a connect from a
  transport that is closed first ends as \<open>tls_connect\<close> says, with the same exception, or with the same
  socket, session and state of the system.\<close>

theorem openssl_connect_refines:
  "tls_connect os ssl endpoint (op_socket impl) (free_openssl rel impl w) =
     (case openssl_connect os ssl rel endpoint impl w of
        (Inl e, impl', w') \<Rightarrow> Inl e
      | (Inr session, impl', w') \<Rightarrow> Inr (op_socket impl', session, w'))"
proof -
  obtain c h w2 where t: "tcp_connect os endpoint None (close_openssl os rel impl w) = (c, h, w2)" by (metis prod.exhaust)
  let ?impl = "new_openssl\<lparr>op_socket := h\<rparr>"
  have close: "reset_handle os None (op_socket impl) (free_openssl rel impl w) = (None, close_openssl os rel impl w)"
    by (simp add: close_openssl_def reset_handle_def)
  show ?thesis
  proof (cases c)
    case (Inr u)
    show ?thesis
    proof (cases h)
      case (Some fd)
      obtain r impl' w' where i: "openssl_initialize ssl fd (tls_peer_name endpoint) (ep_verify_certificate endpoint) ?impl w2
        = (r, impl', w')" by (metis prod.exhaust)
      have "op_socket impl' = h" using openssl_initialize_socket [of ssl fd _ _ ?impl w2] i by (metis fst_conv snd_conv openssl.select_convs(1) openssl.surjective openssl.update_convs(1))
      with Inr Some t i tls_initialize_erases [of ssl fd "tls_peer_name endpoint" "ep_verify_certificate endpoint" w2 ?impl]
      show ?thesis by (cases r) (simp_all add: tls_connect_def openssl_connect_def close Let_def)
    qed (use Inr t in \<open>simp add: tls_connect_def openssl_connect_def close Let_def\<close>)
  qed (use t in \<open>simp add: tls_connect_def openssl_connect_def close Let_def\<close>)
qed

text \<open>
  C39. Whatever fails while the TLS transport connects, its destructor gives everything back: the context and
  the session of OpenSSL, and the socket.\<close>

theorem openssl_leaves_nothing:
  assumes "openssl_connect os ssl rel endpoint new_openssl w = (r, impl, w')"
    and "tls_memory_law ssl rel held" "tls_keeps ssl held" "sockets_keep os held"
    and "release_keeps ssl rel opened" "tls_keeps ssl opened" "socket_law os opened"
  shows "held (close_openssl os rel impl w') = held w \<and> opened (close_openssl os rel impl w') = opened w"
proof -
  have new: "close_openssl os rel new_openssl w = w" by (simp add: close_openssl_def new_openssl_def reset_handle_def free_openssl_def)
  obtain c h w2 where t: "tcp_connect os endpoint None w = (c, h, w2)" by (metis prod.exhaust)
  have held2: "held w2 = held w" by (rule tcp_connect_other [OF assms(4) t])
  have "handle_ok opened (opened w) h w2" by (rule tcp_connect_ok [OF assms(7) _ t]) (simp add: handle_ok_def)
  then have open2: "opened w2 - set_option h = opened w" by (auto simp: handle_ok_def)
  have "held w' = tls_holds impl (held w) \<and> op_socket impl = h \<and> opened w' = opened w2"
  proof (cases "c = Inr () \<and> h \<noteq> None")
    case True
    then obtain fd where i: "openssl_initialize ssl fd (tls_peer_name endpoint) (ep_verify_certificate endpoint)
        (new_openssl\<lparr>op_socket := h\<rparr>) w2 = (r, impl, w')"
      using assms(1) t by (auto simp: openssl_connect_def new)
    from openssl_initialize_effect [OF assms(2,3) i] openssl_initialize_opened [OF assms(5,6) i] held2
    show ?thesis by simp
  next
    case False
    then have "impl = new_openssl\<lparr>op_socket := h\<rparr> \<and> w' = w2"
      using assms(1) t by (cases c) (auto simp: openssl_connect_def new split: option.splits)
    with held2 show ?thesis by (simp add: tls_holds_def new_openssl_def)
  qed
  then have w': "held w' = tls_holds impl (held w)" "op_socket impl = h" "opened w' = opened w2" by simp_all
  from free_openssl_effect [OF assms(2,5) w'(1)]
  have free: "held (free_openssl rel impl w') = held w" "opened (free_openssl rel impl w') = opened w2" by (simp_all add: w'(3))
  show ?thesis
    using free open2 socket_lawD(3) [OF assms(7)] sockets_keepD(11) [OF assms(4)]
    by (cases h) (auto simp: close_openssl_def reset_handle_def w'(2))
qed

text \<open>A system with one address and calls of OpenSSL that count, of which the handshake fails.\<close>

type_synonym tls_world = "(int \<times> int list) \<times> nat \<times> nat"

definition counting_sockets :: "(nat, tls_world) socket_calls" where
  "counting_sockets =
     \<lparr>os_lookup = (\<lambda>h p w. (Inr [0], w)),
      os_socket = (\<lambda>a ((n, fds), rest). (Inr n, (n + 1, n # fds), rest)),
      os_set_blocking = (\<lambda>fd b w. (None, w)), os_connect = (\<lambda>fd a w. (None, w)),
      os_select = (\<lambda>fd t w. (Timed_Out, w)), os_socket_error = (\<lambda>fd w. (Inr 0, w)),
      os_set_send_timeout = (\<lambda>fd t w. (None, w)), os_set_send_buffer = (\<lambda>fd t w. (None, w)),
      os_set_no_delay = (\<lambda>fd w. (None, w)), os_set_keep_alive = (\<lambda>fd w. (None, w)),
      os_close = (\<lambda>fd ((n, fds), rest). ((n, removeAll fd fds), rest))\<rparr>"

definition counting_tls :: "tls_world tls_calls" where
  "counting_tls =
     \<lparr>ip_v4 = (\<lambda>s. False), ip_v6 = (\<lambda>s. False), ssl_new_context = (\<lambda>(fds, a, b). (True, fds, a + 1, b)),
      ssl_load_authorities = Pair True, ssl_new_session = (\<lambda>(fds, a, b). (True, fds, a, b + 1)),
      ssl_set_server_name = (\<lambda>s. Pair True), ssl_set_identity = (\<lambda>i. Pair True),
      ssl_set_socket = (\<lambda>fd. Pair True), ssl_connect = (\<lambda>s. Pair False), ssl_verified = (\<lambda>w. True),
      ssl_write = (\<lambda>p. Pair (Io_Count (length p)))\<rparr>"

definition counting_release :: "tls_world tls_release" where
  "counting_release = \<lparr>rel_shutdown = (\<lambda>w. w), rel_session = (\<lambda>(fds, a, b). (fds, a, b - 1)),
     rel_context = (\<lambda>(fds, a, b). (fds, a - 1, b))\<rparr>"

lemma counting_laws:
  "tls_memory_law counting_tls counting_release snd" "tls_keeps counting_tls held"
  "release_keeps counting_tls counting_release (\<lambda>w. sample_opened (fst w))"
  "sockets_keep counting_sockets snd" "socket_law counting_sockets (\<lambda>w. sample_opened (fst w))"
  by (auto simp: tls_memory_law_def tls_keeps_def release_keeps_def counting_tls_def counting_release_def
      keeps_open_def sockets_keep_def counting_sockets_def socket_law_def sample_opened_def)

theorem openssl_leaves_nothing_witness:
  "(case openssl_connect counting_sockets counting_tls counting_release default_endpoint new_openssl ((3, []), 0, 0) of
     (r, impl, w') \<Rightarrow> r = Inl (Tls_Failed ''TLS handshake'') \<and> snd w' = (1, 1)
       \<and> snd (close_openssl counting_sockets counting_release impl w') = (0, 0))"
proof -
  let ?run = "openssl_connect counting_sockets counting_tls counting_release default_endpoint new_openssl ((3, []), 0, 0)"
  obtain r impl w' where run: "?run = (r, impl, w')" by (metis prod.exhaust)
  have "fst ?run = Inl (Tls_Failed ''TLS handshake'') \<and> snd (snd (snd ?run)) = (1, 1)" by code_simp
  with openssl_leaves_nothing [OF run counting_laws(1,2,4,3,2,5)] show ?thesis by (simp add: run)
qed

end
