(* ===== verification/Platforms.thy ===== *)
theory Platforms
  imports Socket_Platforms Json_Catalog Cli_Output
begin

unbundle bit_operations_syntax

text \<open>
  What else differs between the systems: the modes of a socket (\<open>src/src/infrastructure/socket_support.cpp\<close>),
  the datagrams of macOS (\<open>udp_transport.cpp\<close>), replacing a file on Windows (\<open>json_log_catalog.cpp\<close>), the
  dialog for a file (\<open>src/src/presentation/app.cpp\<close>), and the signals of the command line with what it
  prints while it runs (\<open>cli_app.cpp\<close>).
\<close>

subsection \<open>Sockets\<close>

text \<open>
  \<open>set_blocking\<close>: \<open>fcntl\<close> reads and writes the flags of a descriptor, of which only \<open>O_NONBLOCK\<close> is
  changed; \<open>ioctlsocket\<close> of Windows sets the mode itself.
\<close>

definition O_NONBLOCK :: u32 where "O_NONBLOCK = 0x800"

definition posix_set_blocking ::
    "('w \<Rightarrow> (nat + u32) \<times> 'w) \<Rightarrow> (u32 \<Rightarrow> 'w \<Rightarrow> nat option \<times> 'w) \<Rightarrow> bool \<Rightarrow> 'w \<Rightarrow> (socket_error + unit) \<times> 'w" where
  "posix_set_blocking get_flags set_flags blocking w =
     (case get_flags w of
        (Inl e, w1) \<Rightarrow> (Inl (Call_Failed ''fcntl'' e), w1)
      | (Inr flags, w1) \<Rightarrow>
          (case set_flags (if blocking then flags AND NOT O_NONBLOCK else flags OR O_NONBLOCK) w1 of
             (Some e, w2) \<Rightarrow> (Inl (Call_Failed ''fcntl'' e), w2)
           | (None, w2) \<Rightarrow> (Inr (), w2)))"

definition windows_set_blocking ::
    "(nat \<Rightarrow> 'w \<Rightarrow> nat option \<times> 'w) \<Rightarrow> bool \<Rightarrow> 'w \<Rightarrow> (socket_error + unit) \<times> 'w" where
  "windows_set_blocking ioctl blocking w =
     (case ioctl (if blocking then 0 else 1) w of
        (Some e, w1) \<Rightarrow> (Inl (Call_Failed ''ioctlsocket'' e), w1)
      | (None, w1) \<Rightarrow> (Inr (), w1))"

text \<open>
  \<open>configure_send_timeout\<close>: Windows (\<open>Inl\<close>) takes milliseconds, the other systems (\<open>Inr\<close>) seconds and
  microseconds; the milliseconds are not negative.
\<close>

definition send_timeval :: "nat \<Rightarrow> nat \<times> nat" where
  "send_timeval milliseconds = (milliseconds div 1000, milliseconds mod 1000 * 1000)"

definition configure_send_timeout ::
    "(nat \<Rightarrow> 'w \<Rightarrow> nat option \<times> 'w) + (nat \<times> nat \<Rightarrow> 'w \<Rightarrow> nat option \<times> 'w) \<Rightarrow> nat \<Rightarrow> 'w \<Rightarrow> (socket_error + unit) \<times> 'w" where
  "configure_send_timeout setter milliseconds w =
     (case (case setter of Inl f \<Rightarrow> f milliseconds w | Inr f \<Rightarrow> f (send_timeval milliseconds) w) of
        (Some e, w1) \<Rightarrow> (Inl (Call_Failed ''setsockopt SO_SNDTIMEO'' e), w1)
      | (None, w1) \<Rightarrow> (Inr (), w1))"

text \<open>\<open>configure_udp_stream\<close> turns the reports of refused datagrams off on Windows, whether that works or not.\<close>

definition configure_udp_stream :: "bool \<Rightarrow> ('w \<Rightarrow> bool \<times> 'w) \<Rightarrow> 'w \<Rightarrow> 'w" where
  "configure_udp_stream windows ioctl w = (if windows then snd (ioctl w) else w)"

text \<open>
  \<open>SocketRuntime\<close>: \<open>startup\<close> is \<open>WSAStartup\<close>, which returns an error or 0. An exception leaves no object, so
  the destructor only runs after a start that worked.
\<close>

definition new_socket_runtime :: "(int \<Rightarrow> string) \<Rightarrow> ('w \<Rightarrow> int \<times> 'w) \<Rightarrow> 'w \<Rightarrow> (string + unit) \<times> 'w" where
  "new_socket_runtime explain startup w =
     (case startup w of (e, w1) \<Rightarrow>
        (if e \<noteq> 0 then Inl (socket_error_message True explain 0 ''WSAStartup'' e) else Inr (), w1))"

subsection \<open>The datagrams of macOS\<close>

text \<open>
  \<open>send_batch\<close> on macOS: the loop of \<open>sendmmsg\<close> over \<open>sendmsg_x\<close>, which older systems do not have; the
  exceptions name that call.
\<close>

definition mac_error :: "socket_error \<Rightarrow> socket_error" where
  "mac_error e = (case e of Call_Failed action n \<Rightarrow> Call_Failed ''UDP sendmsg_x'' n | _ \<Rightarrow> e)"

definition mac_send_batch ::
    "(string list \<Rightarrow> 'w \<Rightarrow> io_result \<times> 'w) option \<Rightarrow> (string \<Rightarrow> 'w \<Rightarrow> socket_error + send_result \<times> 'w)
       \<Rightarrow> string list \<Rightarrow> 'w \<Rightarrow> socket_error + send_result \<times> 'w" where
  "mac_send_batch sendmsg_x send payloads w =
     (if payloads = [] then Inr (Sent, w)
      else if \<exists>payload \<in> set payloads. 65507 < length payload then Inl Payload_Too_Large
      else case sendmsg_x of
          Some os \<Rightarrow>
            (case udp_batch_from os 0 payloads w of (Inl e, w') \<Rightarrow> Inl (mac_error e) | (Inr _, w') \<Rightarrow> Inr (Sent, w'))
        | None \<Rightarrow> default_send_batch send payloads w)"

subsection \<open>Replacing a file on Windows\<close>

text \<open>
  \<open>replace_file_with_retry\<close>: \<open>move\<close> is \<open>MoveFileExW\<close>, which answers 0 or the error, and \<open>pause\<close> sleeps
  for milliseconds. The result is whether the file was replaced, and \<open>final_error\<close>.
\<close>

definition retryable_errors :: "int set" where
  "retryable_errors = {5, 32, 33}"

fun windows_attempts ::
    "('w \<Rightarrow> int \<times> 'w) \<Rightarrow> (nat \<Rightarrow> 'w \<Rightarrow> 'w) \<Rightarrow> nat list \<Rightarrow> int \<Rightarrow> 'w \<Rightarrow> bool \<times> int \<times> 'w" where
  "windows_attempts move pause [] final_error w = (False, final_error, w)"
| "windows_attempts move pause (attempt # attempts) final_error w =
     (let (e, w1) = move w in
      if e = 0 then (True, 0, w1)
      else if e \<notin> retryable_errors \<or> attempt = 6 then (False, e, w1)
      else windows_attempts move pause attempts e (pause (2 ^ attempt) w1))"

definition windows_replace :: "('w \<Rightarrow> int \<times> 'w) \<Rightarrow> (nat \<Rightarrow> 'w \<Rightarrow> 'w) \<Rightarrow> int \<Rightarrow> 'w \<Rightarrow> bool \<times> int \<times> 'w" where
  "windows_replace move pause final_error w = windows_attempts move pause [0..<7] final_error w"

subsection \<open>The dialog for a CSV file\<close>

text \<open>\<open>select_csv_file\<close>: the dialog gives a path or an error, which is 0 when the user has cancelled.\<close>

definition select_csv_file :: "(string \<Rightarrow> nat + string) \<Rightarrow> string \<Rightarrow> string + string option" where
  "select_csv_file dialog initial =
     (case dialog initial of
        Inr path \<Rightarrow> Inr (Some path)
      | Inl e \<Rightarrow>
          if e \<noteq> 0 then Inl (''CSV '' @ bytes [0xED, 0x8C, 0x8C, 0xEC, 0x9D, 0xBC] @ '' '' @ bytes [0xEC, 0x84, 0xA0, 0xED, 0x83,
     0x9D] @ '' '' @ bytes [0xEC, 0xB0, 0xBD, 0xEC, 0x9D, 0x84] @ '' '' @ bytes [0xEC, 0x97, 0xB4] @ '' '' @
     bytes [0xEC, 0x88, 0x98] @ '' '' @ bytes [0xEC, 0x97, 0x86, 0xEC, 0x8A, 0xB5, 0xEB, 0x8B, 0x88, 0xEB, 0x8B,
     0xA4] @ ''. '' @ bytes [0xEC, 0x98, 0xA4, 0xEB, 0xA5, 0x98] @ '' '' @ bytes [0xEC, 0xBD, 0x94, 0xEB, 0x93,
     0x9C] @ '': '' @ to_dec e)
          else Inr None)"

subsection \<open>Signals\<close>

text \<open>
  The handlers of the two signals (\<open>None\<close> is \<open>stop_signal_handler\<close>) and the flag it sets.
\<close>

record 'h signals =
  sg_interrupt :: "'h option"
  sg_terminate :: "'h option"
  sg_stop_requested :: bool

definition stop_signal :: "'h signals \<Rightarrow> 'h signals" where
  "stop_signal p = p\<lparr>sg_stop_requested := True\<rparr>"

text \<open>An interrupt that arrives; another handler is not our concern.\<close>

definition interrupt :: "'h signals \<Rightarrow> 'h signals" where
  "interrupt p = (if sg_interrupt p = None then stop_signal p else p)"

text \<open>
  The constructor of \<open>SignalGuard\<close> in its three steps, with the interrupts that arrive before each and
  after the last; it keeps the handlers it found.
\<close>

definition new_signal_guard :: "bool \<Rightarrow> bool \<Rightarrow> bool \<Rightarrow> 'h signals \<Rightarrow> ('h option \<times> 'h option) \<times> 'h signals" where
  "new_signal_guard second third after p =
     (let p1 = p\<lparr>sg_interrupt := None\<rparr>;
          p2 = (if second then interrupt p1 else p1);
          p3 = p2\<lparr>sg_terminate := None\<rparr>;
          p4 = (if third then interrupt p3 else p3);
          p5 = p4\<lparr>sg_stop_requested := False\<rparr>
      in ((sg_interrupt p, sg_terminate p), if after then interrupt p5 else p5))"

definition end_signal_guard :: "'h option \<times> 'h option \<Rightarrow> 'h signals \<Rightarrow> 'h signals" where
  "end_signal_guard guard p = p\<lparr>sg_interrupt := fst guard, sg_terminate := snd guard\<rparr>"

subsection \<open>What a run prints\<close>

text \<open>\<open>run_generator\<close> from the start on: the status lines while the loop runs, then the final one.\<close>

fun status_lines :: "cli_options \<Rightarrow> int \<Rightarrow> observation list \<Rightarrow> monitor \<Rightarrow> string list" where
  "status_lines o' started [] m = []"
| "status_lines o' started (ob # obs) m =
     (case monitor_step o' started ob m of
        Inl result \<Rightarrow> []
      | Inr (actions, m') \<Rightarrow>
          (if Print_Status \<in> set actions then [print_stats (ob_stats ob) False] else [])
          @ status_lines o' started obs m')"

definition run_generator ::
    "cli_options \<Rightarrow> int \<Rightarrow> observation list \<Rightarrow> transmission_stats \<Rightarrow> string \<times> monitor_action list \<times> int option" where
  "run_generator o' started obs final =
     (let m = monitor_init o' started; (actions, result) = monitor_run o' started obs m
      in (concat (status_lines o' started obs m) @ (if result = None then [] else print_stats final True), actions, result))"

subsection \<open>Lemmas\<close>

text \<open>Blocking and not blocking again leaves the other flags alone.\<close>

lemma set_blocking_flags:
  "posix_set_blocking (\<lambda>f. (Inr f, f)) (\<lambda>f w. (None, f)) blocking flags =
     (Inr (), if blocking then flags AND NOT O_NONBLOCK else flags OR O_NONBLOCK)"
  by (simp add: posix_set_blocking_def)

lemma blocking_restored:
  assumes "flags AND O_NONBLOCK = 0"
  shows "(flags OR O_NONBLOCK) AND NOT O_NONBLOCK = flags"
proof (rule bit_word_eqI)
  fix n assume "n < LENGTH(32)"
  have "\<not> (bit flags n \<and> bit O_NONBLOCK n)" using assms by (metis bit_0_eq bit_and_iff bot_apply bot_bool_def)
  then show "bit ((flags OR O_NONBLOCK) AND NOT O_NONBLOCK) n = bit flags n"
    using \<open>n < LENGTH(32)\<close> by (auto simp: bit_simps)
qed

lemma send_timeval_exact:
  "fst (send_timeval ms) * 1000 * 1000 + snd (send_timeval ms) = ms * 1000 \<and> snd (send_timeval ms) < 1000000"
proof -
  have "ms div 1000 * 1000 + ms mod 1000 = ms" "ms mod 1000 < 1000" by simp_all
  then show ?thesis unfolding send_timeval_def fst_conv snd_conv by linarith
qed

text \<open>The handlers are as they were after the guard, whatever arrives; a signal before the reset of the flag is lost.\<close>

lemma signal_guard_restores:
  assumes "new_signal_guard second third after p = (guard, p')"
  shows "sg_interrupt (end_signal_guard guard q) = sg_interrupt p \<and> sg_terminate (end_signal_guard guard q) = sg_terminate p
    \<and> sg_interrupt p' = None \<and> sg_terminate p' = None"
  using assms by (auto simp: new_signal_guard_def end_signal_guard_def interrupt_def stop_signal_def Let_def)

lemma early_signal_lost: "sg_stop_requested (snd (new_signal_guard second third after p)) = after"
  by (simp add: new_signal_guard_def interrupt_def stop_signal_def Let_def)

text \<open>A quiet run prints its final line only.\<close>

lemma quiet_run_output:
  assumes "co_quiet o'"
  shows "fst (run_generator o' started obs final) = (if snd (snd (run_generator o' started obs final)) = None then []
    else print_stats final True)"
proof -
  have "status_lines o' started obs m = []" for m
    using assms
    by (induction obs arbitrary: m) (auto simp: monitor_step_def Let_def split: sum.splits if_splits)
  then show ?thesis by (simp add: run_generator_def split: prod.split)
qed

text \<open>A file system that answers one attempt after the other, and the time that was slept.\<close>

definition answering_move :: "(nat \<Rightarrow> int) \<Rightarrow> nat \<times> nat \<Rightarrow> int \<times> nat \<times> nat" where
  "answering_move answers w = (answers (fst w), fst w + 1, snd w)"

definition counting_pause :: "nat \<Rightarrow> nat \<times> nat \<Rightarrow> nat \<times> nat" where
  "counting_pause milliseconds w = (fst w, snd w + milliseconds)"

lemma windows_attempts_spec:
  assumes "i < 7" "windows_attempts (answering_move answers) counting_pause [i..<7] e0 (i, 2 ^ i - 1) = (ok, e, n, s)"
  shows "i < n \<and> n \<le> 7 \<and> s = 2 ^ (n - 1) - 1 \<and> e = answers (n - 1) \<and> (ok \<longleftrightarrow> e = 0)
    \<and> (\<forall>j. i \<le> j \<and> j < n - 1 \<longrightarrow> answers j \<in> retryable_errors)
    \<and> (ok \<or> e \<notin> retryable_errors \<or> n = 7)"
  using assms
proof (induction "6 - i" arbitrary: i e0)
  case 0
  then have "i = 6" by simp
  then have "[i..<7] = [6]" by (simp add: upt_rec)
  with 0(3) \<open>i = 6\<close> show ?case
    by (auto simp: answering_move_def counting_pause_def Let_def retryable_errors_def split: if_splits)
next
  case (Suc d)
  then have i: "i < 6" by simp
  then have upt: "[i..<7] = i # [Suc i..<7]" by (simp add: upt_conv_Cons)
  consider "answers i = 0" | "answers i \<noteq> 0" "answers i \<notin> retryable_errors"
    | "answers i \<noteq> 0" "answers i \<in> retryable_errors" by blast
  then show ?case
  proof cases
    case 3
    have "(2::nat) ^ i - 1 + 2 ^ i = 2 ^ Suc i - 1" by simp
    then have rest: "windows_attempts (answering_move answers) counting_pause [Suc i..<7] (answers i) (Suc i, 2 ^ Suc i - 1)
        = (ok, e, n, s)"
      using Suc.prems(2) 3 i unfolding upt by (simp add: answering_move_def counting_pause_def)
    have "d = 6 - Suc i" "Suc i < 7" using Suc.hyps(2) i by simp_all
    from Suc.hyps(1) [OF this rest]
    have r: "Suc i < n \<and> n \<le> 7 \<and> s = 2 ^ (n - 1) - 1 \<and> e = answers (n - 1) \<and> (ok \<longleftrightarrow> e = 0)
      \<and> (\<forall>j. Suc i \<le> j \<and> j < n - 1 \<longrightarrow> answers j \<in> retryable_errors) \<and> (ok \<or> e \<notin> retryable_errors \<or> n = 7)" .
    have "answers j \<in> retryable_errors" if "i \<le> j" "j < n - 1" for j
      using r 3(2) that by (cases "i = j") auto
    with r show ?thesis by auto
  qed (use Suc.prems(2) i in \<open>auto simp: upt answering_move_def counting_pause_def\<close>)
qed

subsection \<open>Properties\<close>

text \<open>
  C40. On Windows the catalog is replaced by at most seven attempts with at most 63 milliseconds of waiting
  between them, the k-th wait being twice as long as the one before: an attempt follows only on an access,
  sharing or lock error, the last answer is the one reported, and the result is good exactly when it is.\<close>

theorem windows_replace_bounded:
  assumes "windows_replace (answering_move answers) counting_pause e0 (0, 0) = (ok, e, n, s)"
  shows "1 \<le> n \<and> n \<le> 7 \<and> s = 2 ^ (n - 1) - 1 \<and> s \<le> 63 \<and> e = answers (n - 1) \<and> (ok \<longleftrightarrow> e = 0)
    \<and> (\<forall>j < n - 1. answers j \<in> retryable_errors) \<and> (ok \<or> e \<notin> retryable_errors \<or> n = 7)"
proof -
  have "windows_attempts (answering_move answers) counting_pause [0..<7] e0 (0, 2 ^ 0 - 1) = (ok, e, n, s)"
    using assms by (simp add: windows_replace_def)
  from windows_attempts_spec [OF zero_less_numeral this] have r: "0 < n \<and> n \<le> 7 \<and> s = 2 ^ (n - 1) - 1 \<and> e = answers (n - 1) \<and> (ok \<longleftrightarrow> e = 0)
    \<and> (\<forall>j. 0 \<le> j \<and> j < n - 1 \<longrightarrow> answers j \<in> retryable_errors) \<and> (ok \<or> e \<notin> retryable_errors \<or> n = 7)" .
  moreover have "(2::nat) ^ (n - 1) \<le> 2 ^ 6" by (rule power_increasing) (use r in auto)
  ultimately show ?thesis by auto
qed

theorem windows_replace_bounded_witness:
  "\<exists>n s. windows_replace (answering_move (\<lambda>k. if k < 2 then 32 else 0)) counting_pause 0 (0, 0) = (True, 0, n, s)
     \<and> n = 3 \<and> s = 2 ^ (n - 1) - 1"
proof -
  have "windows_replace (answering_move (\<lambda>k. if k < 2 then 32 else 0)) counting_pause 0 (0, 0) = (True, 0, 3, 3)"
    by code_simp
  from windows_replace_bounded [OF this] this show ?thesis by auto
qed

end
